(* ===== verification/Nucleus_Prelude.thy ===== *)
theory Nucleus_Prelude
  imports Main "HOL-Library.Word" "HOL-Library.Sublist" "HOL-Library.List_Lexorder"
    "HOL-Library.Char_ord"
begin

text \<open>
  What every component shares: the machine integer types, the result type of fallible code
  (\<^verbatim>\<open>src/src/error.rs\<close>), the control flow of \<^verbatim>\<open>?\<close> and of loops with an early return, and the part
  of Rust's string library the source uses, with the lemmas the components need of them.

  Strings are byte lists (\<^typ>\<open>string\<close>), as \<^verbatim>\<open>str\<close> is UTF-8: \<^verbatim>\<open>len\<close> counts bytes. Character
  predicates of the source are ASCII predicates, so a byte above 127 satisfies none of them, which
  is also what the code says of the character that byte belongs to. White space is the ASCII white
  space; the non-ASCII code points with the Unicode property White_Space are not modelled.

  The text of an error is the format string of the source, without the interpolated values and
  without its single quotes: it identifies the branch that failed.
\<close>

named_theorems result_simps \<open>unfolding of the result combinators\<close>

section \<open>Types\<close>

type_synonym u8 = "8 word"
type_synonym u16 = "16 word"
type_synonym u32 = "32 word"
type_synonym u64 = "64 word"

datatype nucleus_error =
    NamespaceError string
  | CgroupError string
  | FilesystemError string
  | PivotRootError string
  | ContextError string
  | CapabilityError string
  | SeccompError string
  | LandlockError string
  | InvalidResourceLimit string
  | ResourceError string
  | ConfigError string
  | InvalidPath string
  | ExecError string
  | GVisorError string
  | ContainerNotFound string
  | AmbiguousContainer string
  | CheckpointError string
  | NetworkError string
  | AttachError string
  | PermissionDenied string
  | ContainerNotRunning string
  | SyscallError string
  | IoError string
  | InvalidStateTransition string string
  | HookError string
  | SerdeJsonError string

type_synonym 'a result = "nucleus_error + 'a"

abbreviation Ok :: "'a \<Rightarrow> 'e + 'a" where
  "Ok \<equiv> Inr"

abbreviation Err :: "'e \<Rightarrow> 'e + 'a" where
  "Err \<equiv> Inl"

section \<open>Fallible control flow\<close>

definition is_ok :: "'e + 'a \<Rightarrow> bool" where
  "is_ok r \<longleftrightarrow> (case r of Inl _ \<Rightarrow> False | Inr _ \<Rightarrow> True)"

definition and_then :: "'e + 'a \<Rightarrow> ('a \<Rightarrow> 'e + 'b) \<Rightarrow> 'e + 'b" where
  "and_then r f = (case r of Inl e \<Rightarrow> Inl e | Inr x \<Rightarrow> f x)"

definition map_err :: "('e \<Rightarrow> 'f) \<Rightarrow> 'e + 'a \<Rightarrow> 'f + 'a" where
  "map_err g r = (case r of Inl e \<Rightarrow> Inl (g e) | Inr x \<Rightarrow> Inr x)"

definition ok_or :: "'a option \<Rightarrow> 'e \<Rightarrow> 'e + 'a" where
  "ok_or r e = (case r of None \<Rightarrow> Inl e | Some x \<Rightarrow> Inr x)"

definition reject_if :: "bool \<Rightarrow> 'e \<Rightarrow> 'e + unit" where
  "reject_if b e = (if b then Inl e else Inr ())"

fun for_each :: "('a \<Rightarrow> 'e + unit) \<Rightarrow> 'a list \<Rightarrow> 'e + unit" where
  "for_each f [] = Inr ()"
| "for_each f (x # xs) = and_then (f x) (\<lambda>_. for_each f xs)"

fun try_fold :: "('s \<Rightarrow> 'a \<Rightarrow> 'e + 's) \<Rightarrow> 's \<Rightarrow> 'a list \<Rightarrow> 'e + 's" where
  "try_fold f s [] = Inr s"
| "try_fold f s (x # xs) = and_then (f s x) (\<lambda>s'. try_fold f s' xs)"

fun try_map :: "('a \<Rightarrow> 'e + 'b) \<Rightarrow> 'a list \<Rightarrow> 'e + 'b list" where
  "try_map f [] = Inr []"
| "try_map f (x # xs) =
     and_then (f x) (\<lambda>y. and_then (try_map f xs) (\<lambda>ys. Inr (y # ys)))"

text \<open>\<^verbatim>\<open>Iterator::find_map\<close>.\<close>

fun first_some :: "('a \<Rightarrow> 'b option) \<Rightarrow> 'a list \<Rightarrow> 'b option" where
  "first_some f [] = None"
| "first_some f (x # xs) = (case f x of None \<Rightarrow> first_some f xs | Some y \<Rightarrow> Some y)"

lemma is_ok_simps [simp]: "is_ok (Inr x)" "\<not> is_ok (Inl e)"
  by (simp_all add: is_ok_def)

lemma is_ok_iff: "is_ok r \<longleftrightarrow> (\<exists>x. r = Inr x)"
  by (cases r) simp_all

lemma and_then_simps [simp]: "and_then (Inl e) f = Inl e" "and_then (Inr x) f = f x"
  by (simp_all add: and_then_def)

lemma and_then_Inr_iff [result_simps]: "and_then r f = Inr y \<longleftrightarrow> (\<exists>x. r = Inr x \<and> f x = Inr y)"
  by (cases r) auto

lemma and_then_Inl_iff: "and_then r f = Inl e \<longleftrightarrow> r = Inl e \<or> (\<exists>x. r = Inr x \<and> f x = Inl e)"
  by (cases r) auto

lemma map_err_simps [simp]: "map_err g (Inl e) = Inl (g e)" "map_err g (Inr x) = Inr x"
  by (simp_all add: map_err_def)

lemma map_err_Inr_iff [result_simps]: "map_err g r = Inr y \<longleftrightarrow> r = Inr y"
  by (cases r) auto

lemma ok_or_simps [simp]: "ok_or None e = Inl e" "ok_or (Some x) e = Inr x"
  by (simp_all add: ok_or_def)

lemma ok_or_Inr_iff [result_simps]: "ok_or r e = Inr y \<longleftrightarrow> r = Some y"
  by (cases r) auto

lemma reject_if_Inr_iff [result_simps]: "reject_if b e = Inr u \<longleftrightarrow> \<not> b"
  by (simp add: reject_if_def)

lemma reject_if_Inl_iff: "reject_if b e = Inl e' \<longleftrightarrow> b \<and> e' = e"
  by (auto simp: reject_if_def)

lemma for_each_Inr_iff [result_simps]: "for_each f xs = Inr u \<longleftrightarrow> (\<forall>x\<in>set xs. f x = Inr ())"
  by (induction xs) (auto simp: and_then_Inr_iff)

lemma for_each_append: "for_each f (xs @ ys) = and_then (for_each f xs) (\<lambda>_. for_each f ys)"
proof (induction xs)
  case (Cons x xs)
  then show ?case by (cases "f x") simp_all
qed simp

lemma try_map_Inr_iff: "try_map f xs = Inr ys \<longleftrightarrow> list_all2 (\<lambda>x y. f x = Inr y) xs ys"
proof (induction xs arbitrary: ys)
  case (Cons x xs)
  then show ?case by (cases ys) (auto simp: and_then_Inr_iff)
qed auto

lemma try_fold_append: "try_fold f s (xs @ ys) = and_then (try_fold f s xs) (\<lambda>s'. try_fold f s' ys)"
proof (induction xs arbitrary: s)
  case (Cons x xs)
  then show ?case by (cases "f s x") simp_all
qed simp

text \<open>A loop that keeps an invariant of its state keeps it to the end.\<close>

lemma try_fold_invariant:
  assumes "try_fold f s xs = Inr t" and "P s"
    and "\<And>s x s'. x \<in> set xs \<Longrightarrow> P s \<Longrightarrow> f s x = Inr s' \<Longrightarrow> P s'"
  shows "P t"
  using assms
proof (induction xs arbitrary: s)
  case (Cons x xs)
  then obtain s' where "f s x = Inr s'" "try_fold f s' xs = Inr t"
    by (auto simp: and_then_Inr_iff)
  with Cons show ?case by auto
qed simp

section \<open>Characters and strings\<close>

definition is_ascii_digit :: "char \<Rightarrow> bool" where
  "is_ascii_digit c \<longleftrightarrow> 48 \<le> (of_char c :: nat) \<and> (of_char c :: nat) \<le> 57"

definition is_ascii_alphanumeric :: "char \<Rightarrow> bool" where
  "is_ascii_alphanumeric c \<longleftrightarrow>
     is_ascii_digit c \<or> 65 \<le> (of_char c :: nat) \<and> (of_char c :: nat) \<le> 90
       \<or> 97 \<le> (of_char c :: nat) \<and> (of_char c :: nat) \<le> 122"

definition is_ascii_hexdigit :: "char \<Rightarrow> bool" where
  "is_ascii_hexdigit c \<longleftrightarrow>
     is_ascii_digit c \<or> 65 \<le> (of_char c :: nat) \<and> (of_char c :: nat) \<le> 70
       \<or> 97 \<le> (of_char c :: nat) \<and> (of_char c :: nat) \<le> 102"

definition is_whitespace :: "char \<Rightarrow> bool" where
  "is_whitespace c \<longleftrightarrow>
     9 \<le> (of_char c :: nat) \<and> (of_char c :: nat) \<le> 13 \<or> (of_char c :: nat) = 32"

text \<open>\<^verbatim>\<open>str::split\<close>: the pieces between separators, at least one.\<close>

fun split_by :: "(char \<Rightarrow> bool) \<Rightarrow> string \<Rightarrow> string list" where
  "split_by p [] = [[]]"
| "split_by p (c # cs) =
     (if p c then [] # split_by p cs
      else (case split_by p cs of [] \<Rightarrow> [[c]] | w # ws \<Rightarrow> (c # w) # ws))"

definition split_on :: "char \<Rightarrow> string \<Rightarrow> string list" where
  "split_on sep = split_by (\<lambda>c. c = sep)"

definition split_whitespace :: "string \<Rightarrow> string list" where
  "split_whitespace s = filter (\<lambda>w. w \<noteq> []) (split_by is_whitespace s)"

fun split_once :: "char \<Rightarrow> string \<Rightarrow> (string \<times> string) option" where
  "split_once sep [] = None"
| "split_once sep (c # cs) =
     (if c = sep then Some ([], cs)
      else map_option (\<lambda>(a, b). (c # a, b)) (split_once sep cs))"

definition rsplit_once :: "char \<Rightarrow> string \<Rightarrow> (string \<times> string) option" where
  "rsplit_once sep s = map_option (\<lambda>(a, b). (rev b, rev a)) (split_once sep (rev s))"

definition trim :: "string \<Rightarrow> string" where
  "trim s = rev (dropWhile is_whitespace (rev (dropWhile is_whitespace s)))"

fun join :: "string \<Rightarrow> string list \<Rightarrow> string" where
  "join sep [] = []"
| "join sep [w] = w"
| "join sep (w # v # ws) = w @ sep @ join sep (v # ws)"

text \<open>\<^verbatim>\<open>str::strip_prefix\<close>.\<close>

fun strip_prefix :: "string \<Rightarrow> string \<Rightarrow> string option" where
  "strip_prefix [] s = Some s"
| "strip_prefix (p # ps) [] = None"
| "strip_prefix (p # ps) (c # cs) = (if p = c then strip_prefix ps cs else None)"

definition ends_with :: "string \<Rightarrow> string \<Rightarrow> bool" where
  "ends_with ending s = suffix ending s"

definition contains :: "string \<Rightarrow> string \<Rightarrow> bool" where
  "contains part s = sublist part s"

text \<open>Lower case of ASCII letters; other bytes stay.\<close>

definition char_lower :: "char \<Rightarrow> char" where
  "char_lower c = (if 65 \<le> (of_char c :: nat) \<and> (of_char c :: nat) \<le> 90 then char_of ((of_char c :: nat) + 32) else c)"

definition to_lowercase :: "string \<Rightarrow> string" where
  "to_lowercase = map char_lower"

text \<open>\<^verbatim>\<open>str::split_once\<close> with a string for the separator, and \<^verbatim>\<open>str::lines\<close>.\<close>

fun split_once_str :: "string \<Rightarrow> string \<Rightarrow> (string \<times> string) option" where
  "split_once_str pat [] = (if pat = [] then Some ([], []) else None)"
| "split_once_str pat (c # cs) =
     (case strip_prefix pat (c # cs) of
        Some r \<Rightarrow> Some ([], r)
      | None \<Rightarrow> map_option (\<lambda>(a, b). (c # a, b)) (split_once_str pat cs))"

definition strip_cr :: "string \<Rightarrow> string" where
  "strip_cr l = (if l \<noteq> [] \<and> last l = CHR 0x0D then butlast l else l)"

definition lines :: "string \<Rightarrow> string list" where
  "lines s = (let ls = split_on CHR 0x0A s in
     map strip_cr (butlast ls) @ (if last ls = [] then [] else [last ls]))"

lemma strip_prefix_Some_iff: "strip_prefix p s = Some r \<longleftrightarrow> s = p @ r"
  by (induction p s rule: strip_prefix.induct) auto

lemma split_by_ne [simp]: "split_by p s \<noteq> []"
  by (induction s) (auto split: list.splits)

lemma split_by_pieces: "w \<in> set (split_by p s) \<Longrightarrow> c \<in> set w \<Longrightarrow> \<not> p c \<and> c \<in> set s"
proof (induction s arbitrary: w)
  case (Cons d s)
  show ?case
  proof (cases "split_by p s")
    case (Cons v vs)
    with Cons.prems Cons.IH[of w] Cons.IH[of v] show ?thesis
      by (fastforce split: if_splits)
  qed simp
qed simp

lemma split_by_no_sep: "\<forall>c\<in>set s. \<not> p c \<Longrightarrow> split_by p s = [s]"
  by (induction s) auto

lemma split_by_append_sep:
  "\<forall>c\<in>set w. \<not> p c \<Longrightarrow> p d \<Longrightarrow> split_by p (w @ d # s) = w # split_by p s"
  by (induction w) auto

lemma split_once_Some_iff:
  "split_once sep s = Some (a, b) \<longleftrightarrow> s = a @ sep # b \<and> sep \<notin> set a"
proof (induction s arbitrary: a)
  case (Cons c cs)
  then show ?case by (cases a) auto
qed simp

lemma split_once_None_iff: "split_once sep s = None \<longleftrightarrow> sep \<notin> set s"
  by (induction s) auto

lemma rsplit_once_Some_iff:
  "rsplit_once sep s = Some (a, b) \<longleftrightarrow> s = a @ sep # b \<and> sep \<notin> set b"
proof -
  have "rsplit_once sep s = Some (a, b) \<longleftrightarrow> split_once sep (rev s) = Some (rev b, rev a)"
    unfolding rsplit_once_def by (auto simp: rev_swap)
  also have "\<dots> \<longleftrightarrow> rev s = rev b @ sep # rev a \<and> sep \<notin> set b"
    by (simp add: split_once_Some_iff)
  also have "\<dots> \<longleftrightarrow> s = a @ sep # b \<and> sep \<notin> set b"
    by (metis append.assoc append_Cons append_Nil rev.simps(2) rev_append rev_rev_ident)
  finally show ?thesis .
qed

lemma rsplit_once_None_iff: "rsplit_once sep s = None \<longleftrightarrow> sep \<notin> set s"
  by (simp add: rsplit_once_def split_once_None_iff)

text \<open>Splitting undoes joining when no piece contains the separator.\<close>

lemma split_on_join:
  "ws \<noteq> [] \<Longrightarrow> \<forall>w\<in>set ws. sep \<notin> set w \<Longrightarrow> split_on sep (join [sep] ws) = ws"
proof (induction "[sep]" ws rule: join.induct)
  case (2 w)
  then show ?case by (auto simp: split_on_def intro: split_by_no_sep)
next
  case (3 w v ws)
  have "split_by (\<lambda>c. c = sep) (w @ sep # join [sep] (v # ws)) =
      w # split_by (\<lambda>c. c = sep) (join [sep] (v # ws))"
    using 3 by (intro split_by_append_sep) auto
  with 3 show ?case by (simp add: split_on_def)
qed simp

lemma join_split_on: "join [c] (split_on c s) = s"
  unfolding split_on_def
proof (induction s)
  case (Cons x s)
  obtain w ws where ws: "split_by (\<lambda>x. x = c) s = w # ws" by (cases "split_by (\<lambda>x. x = c) s") auto
  with Cons show ?case by (cases ws) auto
qed simp

lemma split_whitespace_join:
  "\<forall>w\<in>set ws. w \<noteq> [] \<and> (\<forall>c\<in>set w. \<not> is_whitespace c) \<Longrightarrow> split_whitespace (join '' '' ws) = ws"
proof (induction "'' '' :: string" ws rule: join.induct)
  case (2 w)
  then show ?case by (simp add: split_whitespace_def split_by_no_sep)
next
  case (3 w v ws)
  have sp: "is_whitespace CHR '' ''" by (simp add: is_whitespace_def)
  from 3 sp show ?case
    by (simp add: split_whitespace_def split_by_append_sep)
qed (simp add: split_whitespace_def)

lemma dropWhile_idem_hd: "s = [] \<or> \<not> P (hd s) \<Longrightarrow> dropWhile P s = s"
  by (cases s) auto

lemma trim_idem [simp]: "trim (trim s) = trim s"
proof -
  let ?a = "dropWhile is_whitespace s"
  have "trim s = [] \<or> \<not> is_whitespace (hd (trim s))"
  proof (cases "trim s")
    case (Cons c cs)
    obtain w where "rev ?a = w @ dropWhile is_whitespace (rev ?a)"
      by (metis takeWhile_dropWhile_id)
    then have "?a = trim s @ rev w" by (simp add: trim_def) (metis rev_append rev_rev_ident)
    then have "?a \<noteq> []" "hd (trim s) = hd ?a" using Cons by auto
    then show ?thesis using hd_dropWhile[of is_whitespace s] by auto
  qed simp
  from dropWhile_idem_hd[of "trim s" is_whitespace, OF this] show ?thesis by (simp add: trim_def)
qed

lemma split_whitespace_pieces:
  "w \<in> set (split_whitespace s) \<Longrightarrow> w \<noteq> [] \<and> (\<forall>c\<in>set w. \<not> is_whitespace c)"
  unfolding split_whitespace_def using split_by_pieces by fastforce

section \<open>Decimal numbers\<close>

definition digit_char :: "nat \<Rightarrow> char" where
  "digit_char d = char_of (48 + d)"

text \<open>A digit of the lower-case hexadecimal formats.\<close>

definition hex_digit :: "nat \<Rightarrow> char" where
  "hex_digit d = (if d < 10 then digit_char d else char_of (87 + d))"

fun show_nat :: "nat \<Rightarrow> string" where
  "show_nat n = (if n < 10 then [digit_char n] else show_nat (n div 10) @ [digit_char (n mod 10)])"

declare show_nat.simps [simp del]

definition show_word :: "'a::len word \<Rightarrow> string" where
  "show_word w = show_nat (unat w)"

definition digit_val :: "char \<Rightarrow> nat" where
  "digit_val c = of_char c - 48"

definition digits_val :: "string \<Rightarrow> nat" where
  "digits_val ds = foldl (\<lambda>v c. 10 * v + digit_val c) 0 ds"

text \<open>
  Rust's \<^verbatim>\<open>parse::<uN>()\<close>: an optional plus sign, at least one digit, digits only, and no overflow of the
  width. The standard library checks overflow at every digit; the value only grows with the
  digits, so that is the same as the value not fitting.
\<close>

definition parse_uint :: "nat \<Rightarrow> string \<Rightarrow> nat option" where
  "parse_uint w s =
     (let ds = (case strip_prefix ''+'' s of Some r \<Rightarrow> r | None \<Rightarrow> s)
      in if ds \<noteq> [] \<and> list_all is_ascii_digit ds \<and> digits_val ds < 2 ^ w
         then Some (digits_val ds) else None)"

definition parse_word :: "string \<Rightarrow> 'a::len word option" where
  "parse_word s = map_option of_nat (parse_uint LENGTH('a) s)"

lemma of_char_digit_char [simp]: "d < 10 \<Longrightarrow> of_char (digit_char d) = 48 + d"
  by (simp add: digit_char_def)

lemma digit_char_digit [simp]: "d < 10 \<Longrightarrow> is_ascii_digit (digit_char d)"
  by (simp add: is_ascii_digit_def)

lemma digit_val_digit_char [simp]: "d < 10 \<Longrightarrow> digit_val (digit_char d) = d"
  by (simp add: digit_val_def)

lemma digits_val_snoc: "digits_val (ds @ [c]) = 10 * digits_val ds + digit_val c"
  by (simp add: digits_val_def)

lemma show_nat_ne [simp]: "show_nat n \<noteq> []"
  by (subst show_nat.simps) simp

lemma show_nat_digits: "c \<in> set (show_nat n) \<Longrightarrow> is_ascii_digit c"
proof (induction n rule: show_nat.induct)
  case (1 n)
  show ?case
  proof (cases "n < 10")
    case True
    with 1 show ?thesis by (simp add: show_nat.simps[of n])
  next
    case False
    with 1 show ?thesis by (auto simp: show_nat.simps[of n])
  qed
qed

lemma digits_val_show_nat [simp]: "digits_val (show_nat n) = n"
proof (induction n rule: show_nat.induct)
  case (1 n)
  show ?case
  proof (cases "n < 10")
    case True
    then show ?thesis by (simp add: show_nat.simps[of n] digits_val_def)
  next
    case False
    with 1 show ?thesis by (simp add: show_nat.simps[of n] digits_val_snoc)
  qed
qed

lemma show_nat_inject [simp]: "show_nat m = show_nat n \<longleftrightarrow> m = n"
  by (metis digits_val_show_nat)

text \<open>A digit is none of the separators the formats use.\<close>

lemma digit_not_sep:
  "is_ascii_digit c \<Longrightarrow> c \<noteq> CHR ''+'' \<and> c \<noteq> CHR '':'' \<and> c \<noteq> CHR ''.'' \<and> c \<noteq> CHR ''/''
     \<and> c \<noteq> CHR ''='' \<and> \<not> is_whitespace c"
  by (auto simp: is_ascii_digit_def is_whitespace_def)

lemma show_nat_hd_not_plus: "show_nat n \<noteq> CHR ''+'' # r"
proof
  assume "show_nat n = CHR ''+'' # r"
  then have "is_ascii_digit CHR ''+''"
    by (intro show_nat_digits[of _ n]) simp
  then show False by (simp add: is_ascii_digit_def)
qed

lemma unat_bound_word: "unat (w :: 'a::len word) < 2 ^ LENGTH('a)"
  by (rule unsigned_less)

lemma strip_plus_show_nat [simp]: "strip_prefix ''+'' (show_nat n) = None"
  using show_nat_hd_not_plus[of n] by (cases "strip_prefix ''+'' (show_nat n)")
    (auto simp: strip_prefix_Some_iff)

lemma parse_uint_show_nat: "parse_uint w (show_nat n) = (if n < 2 ^ w then Some n else None)"
  by (simp add: parse_uint_def list_all_iff show_nat_digits)

lemma parse_word_show_word [simp]: "parse_word (show_word w) = Some (w :: 'a::len word)"
  using unat_bound_word[of w] by (simp add: parse_word_def show_word_def parse_uint_show_nat)

lemma parse_uint_bound: "parse_uint w s = Some n \<Longrightarrow> n < 2 ^ w"
  by (auto simp: parse_uint_def Let_def split: if_splits)

lemma unat_parse_word:
  assumes "parse_word s = Some (w :: 'a::len word)"
  shows "parse_uint LENGTH('a) s = Some (unat w)"
proof -
  from assms obtain n where n: "parse_uint LENGTH('a) s = Some n" "w = of_nat n"
    by (auto simp: parse_word_def)
  from parse_uint_bound[OF n(1)] have "unat w = n"
    by (simp add: n(2) unat_of_nat take_bit_nat_eq_self)
  with n show ?thesis by simp
qed

section \<open>Checked and saturating arithmetic\<close>

definition checked_add :: "'a::len word \<Rightarrow> 'a word \<Rightarrow> 'a word option" where
  "checked_add a b = (if unat a + unat b < 2 ^ LENGTH('a) then Some (a + b) else None)"

definition checked_mul :: "'a::len word \<Rightarrow> 'a word \<Rightarrow> 'a word option" where
  "checked_mul a b = (if unat a * unat b < 2 ^ LENGTH('a) then Some (a * b) else None)"

definition saturating_add :: "'a::len word \<Rightarrow> 'a word \<Rightarrow> 'a word" where
  "saturating_add a b = (if unat a + unat b < 2 ^ LENGTH('a) then a + b else - 1)"

definition saturating_mul :: "'a::len word \<Rightarrow> 'a word \<Rightarrow> 'a word" where
  "saturating_mul a b = (if unat a * unat b < 2 ^ LENGTH('a) then a * b else - 1)"

lemma checked_add_Some: "checked_add a b = Some c \<Longrightarrow> unat c = unat a + unat b"
  by (auto simp: checked_add_def unat_word_ariths split: if_splits)

lemma checked_mul_Some: "checked_mul a b = Some c \<Longrightarrow> unat c = unat a * unat b"
  by (auto simp: checked_mul_def unat_word_ariths split: if_splits)

lemma checked_mul_None:
  "checked_mul a b = None \<longleftrightarrow> 2 ^ LENGTH('a) \<le> unat a * unat (b :: 'a::len word)"
  by (auto simp: checked_mul_def)

section \<open>Evaluation\<close>

text \<open>The rules that evaluate the string functions on literals by simplification.\<close>

lemmas string_eval =
  is_ascii_digit_def is_ascii_alphanumeric_def is_ascii_hexdigit_def is_whitespace_def
  split_on_def split_whitespace_def rsplit_once_def trim_def digit_char_def show_word_def
  digit_val_def digits_val_def parse_uint_def parse_word_def strip_cr_def lines_def Let_def

section \<open>Matches on strings\<close>

text \<open>
  A \<^verbatim>\<open>match\<close> on a string with literal patterns is the list of its arms in the order of the source.
  \<open>match_eval\<close> evaluates it without comparing the strings character by character twice.
\<close>

fun match_arm :: "string \<Rightarrow> (string \<times> 'a) list \<Rightarrow> 'a option" where
  "match_arm s [] = None"
| "match_arm s ((p, v) # arms) = (if s = p then Some v else match_arm s arms)"

lemma match_hit: "match_arm s ((s, v) # arms) = Some v"
  by simp

lemma match_miss: "s \<noteq> p \<Longrightarrow> match_arm s ((p, v) # arms) = match_arm s arms"
  by simp

lemmas match_eval = match_hit match_miss match_arm.simps(1) list.inject char.inject simp_thms list.distinct option.inject

lemma match_arm_in: "match_arm s arms = Some v \<Longrightarrow> (s, v) \<in> set arms"
  by (induction s arms rule: match_arm.induct) (auto split: if_splits)

lemma match_arm_distinct: "distinct (map fst arms) \<Longrightarrow> (s, v) \<in> set arms \<Longrightarrow> match_arm s arms = Some v"
  by (induction s arms rule: match_arm.induct) force+

section \<open>Lines and words of a text\<close>

lemma lines_Cons:
  assumes "CHR 0x0A \<notin> set l" "CHR 0x0D \<notin> set l"
  shows "lines (l @ CHR 0x0A # s) = l # lines s"
proof -
  have "split_on CHR 0x0A (l @ CHR 0x0A # s) = l # split_on CHR 0x0A s"
    unfolding split_on_def using assms by (intro split_by_append_sep) auto
  moreover have "strip_cr l = l" using assms by (cases l rule: rev_cases) (auto simp: strip_cr_def)
  moreover have "split_on CHR 0x0A s \<noteq> []" by (simp add: split_on_def)
  ultimately show ?thesis by (simp add: lines_def Let_def)
qed

lemma show_word_chars: "c \<in> set (show_word w) \<Longrightarrow> is_ascii_digit c"
  by (simp add: show_word_def show_nat_digits)

lemma digit_not_space: "is_ascii_digit c \<Longrightarrow> \<not> is_whitespace c"
  by (auto simp: is_ascii_digit_def is_whitespace_def)

lemma show_word_word: "show_word w \<noteq> []" "\<forall>c \<in> set (show_word w). \<not> is_whitespace c"
  using digit_not_space show_word_chars by (auto simp: show_word_def)

end
