(* ===== verification/Lifecycle.thy ===== *)
theory Lifecycle
  imports Nucleus_Prelude
begin

text \<open>
  The lifecycle state machines. The trait \<^verbatim>\<open>StateTransition\<close> of \<^verbatim>\<open>src/src/error.rs\<close> is the interface:
  every subsystem supplies \<^verbatim>\<open>can_transition_to\<close> and \<^verbatim>\<open>is_terminal\<close> and inherits \<^verbatim>\<open>transition\<close>. The
  locales below state what a subsystem's tables promise and prove what follows for every sequence
  of \<^verbatim>\<open>state = state.transition(next)?\<close> steps; each of the six tables (\<^verbatim>\<open>*/state.rs\<close>) is then an
  interpretation.
\<close>

section \<open>The trait\<close>

definition transition :: "('s \<Rightarrow> 's \<Rightarrow> bool) \<Rightarrow> ('s \<Rightarrow> string) \<Rightarrow> 's \<Rightarrow> 's \<Rightarrow> 's result" where
  "transition can debug s next =
     (if can s next then Ok next else Err (InvalidStateTransition (debug s) (debug next)))"

text \<open>A sequence of transitions, each step stopping the sequence when it is refused.\<close>

definition transitions :: "('s \<Rightarrow> 's \<Rightarrow> bool) \<Rightarrow> ('s \<Rightarrow> string) \<Rightarrow> 's \<Rightarrow> 's list \<Rightarrow> 's result" where
  "transitions can debug s ts = try_fold (transition can debug) s ts"

lemma transition_Inr_iff [result_simps]: "transition can debug s t = Inr u \<longleftrightarrow> can s t \<and> u = t"
  by (auto simp: transition_def)

lemma transitions_Nil [simp]: "transitions can debug s [] = Inr s"
  by (simp add: transitions_def)

lemma transitions_Cons [simp]:
  "transitions can debug s (t # ts) =
     (if can s t then transitions can debug t ts
      else Inl (InvalidStateTransition (debug s) (debug t)))"
  by (simp add: transitions_def transition_def)

locale lifecycle =
  fixes can :: "'s \<Rightarrow> 's \<Rightarrow> bool" and terminal :: "'s \<Rightarrow> bool" and debug :: "'s \<Rightarrow> string"
  assumes terminal_stable: "terminal s \<Longrightarrow> can s t \<Longrightarrow> t = s"
begin

lemma transitions_terminal:
  "terminal s \<Longrightarrow> transitions can debug s ts = Inr t \<Longrightarrow> t = s"
proof (induction ts)
  case (Cons u ts)
  then show ?case using terminal_stable[of s u] by (auto split: if_splits)
qed simp

end

text \<open>No stage is skipped: a step raises the stage by at most one.\<close>

locale staged_lifecycle = lifecycle +
  fixes stage :: "'s \<Rightarrow> nat"
  assumes no_skip: "can s t \<Longrightarrow> stage t \<le> Suc (stage s)"
begin

lemma stage_visited:
  "transitions can debug s ts = Inr t \<Longrightarrow> stage s < k \<Longrightarrow> k \<le> stage t \<Longrightarrow>
     \<exists>u\<in>set ts. stage u = k"
proof (induction ts arbitrary: s)
  case (Cons u ts)
  then have step: "can s u" and rest: "transitions can debug u ts = Inr t"
    by (auto split: if_splits)
  from no_skip[OF step] Cons.prems(2) have "stage u \<le> k \<or> k < stage u \<and> stage u \<le> k"
    by auto
  then consider "stage u = k" | "stage u < k" by linarith
  then show ?case
  proof cases
    case 2
    from Cons.IH[OF rest 2 Cons.prems(3)] show ?thesis by auto
  qed auto
qed simp

end

text \<open>No step goes back: a step stays or strictly raises the stage.\<close>

locale forward_lifecycle = lifecycle +
  fixes stage :: "'s \<Rightarrow> nat"
  assumes forward: "can s t \<Longrightarrow> t = s \<or> stage s < stage t"
begin

lemma stage_mono: "transitions can debug s ts = Inr t \<Longrightarrow> stage s \<le> stage t"
proof (induction ts arbitrary: s)
  case (Cons u ts)
  then have "can s u" "stage u \<le> stage t" by (auto split: if_splits)
  with forward[of s u] show ?case by auto
qed simp

lemma no_return:
  assumes "transitions can debug s ts = Inr t" and "stage v < stage s"
  shows "v \<notin> set ts"
  using assms
proof (induction ts arbitrary: s)
  case (Cons u ts)
  then have step: "can s u" and rest: "transitions can debug u ts = Inr t"
    by (auto split: if_splits)
  from forward[OF step] Cons.prems(2) have "stage v < stage u" by auto
  with Cons.IH[OF rest] show ?case by auto
qed simp

end

section \<open>Security enforcement\<close>

datatype security_state =
  Privileged | CapabilitiesDropped | SeccompApplied | LandlockApplied | Locked

fun security_can_transition_to :: "security_state \<Rightarrow> security_state \<Rightarrow> bool" where
  "security_can_transition_to Privileged CapabilitiesDropped = True"
| "security_can_transition_to CapabilitiesDropped SeccompApplied = True"
| "security_can_transition_to SeccompApplied LandlockApplied = True"
| "security_can_transition_to LandlockApplied Locked = True"
| "security_can_transition_to Privileged Privileged = True"
| "security_can_transition_to CapabilitiesDropped CapabilitiesDropped = True"
| "security_can_transition_to SeccompApplied SeccompApplied = True"
| "security_can_transition_to LandlockApplied LandlockApplied = True"
| "security_can_transition_to Locked Locked = True"
| "security_can_transition_to _ _ = False"

definition security_is_terminal :: "security_state \<Rightarrow> bool" where
  "security_is_terminal s \<longleftrightarrow> s = Locked"

fun security_debug :: "security_state \<Rightarrow> string" where
  "security_debug Privileged = ''Privileged''"
| "security_debug CapabilitiesDropped = ''CapabilitiesDropped''"
| "security_debug SeccompApplied = ''SeccompApplied''"
| "security_debug LandlockApplied = ''LandlockApplied''"
| "security_debug Locked = ''Locked''"

fun security_stage :: "security_state \<Rightarrow> nat" where
  "security_stage Privileged = 0"
| "security_stage CapabilitiesDropped = 1"
| "security_stage SeccompApplied = 2"
| "security_stage LandlockApplied = 3"
| "security_stage Locked = 4"

lemma security_stage_eq:
  "security_stage s = Suc 0 \<longleftrightarrow> s = CapabilitiesDropped"
  "security_stage s = 2 \<longleftrightarrow> s = SeccompApplied"
  "security_stage s = 3 \<longleftrightarrow> s = LandlockApplied"
  by (cases s; simp)+

lemma security_step:
  "security_can_transition_to s t \<longleftrightarrow> t = s \<or> security_stage t = Suc (security_stage s)"
  by (cases s; cases t; simp)

interpretation sec: staged_lifecycle security_can_transition_to security_is_terminal
  security_debug security_stage
  by unfold_locales (auto simp: security_is_terminal_def security_step elim: security_stage.elims)

interpretation sec_fwd: forward_lifecycle security_can_transition_to security_is_terminal
  security_debug security_stage
  by unfold_locales (auto simp: security_step)

section \<open>Filesystem lifecycle\<close>

datatype filesystem_state = Unmounted | Mounted | Populated | Pivoted | UnmountedFinal

fun filesystem_can_transition_to :: "filesystem_state \<Rightarrow> filesystem_state \<Rightarrow> bool" where
  "filesystem_can_transition_to Unmounted Mounted = True"
| "filesystem_can_transition_to Mounted Populated = True"
| "filesystem_can_transition_to Populated Pivoted = True"
| "filesystem_can_transition_to Mounted Unmounted = True"
| "filesystem_can_transition_to Populated Unmounted = True"
| "filesystem_can_transition_to Pivoted UnmountedFinal = True"
| "filesystem_can_transition_to Unmounted Unmounted = True"
| "filesystem_can_transition_to Mounted Mounted = True"
| "filesystem_can_transition_to Populated Populated = True"
| "filesystem_can_transition_to Pivoted Pivoted = True"
| "filesystem_can_transition_to UnmountedFinal UnmountedFinal = True"
| "filesystem_can_transition_to _ _ = False"

definition filesystem_is_terminal :: "filesystem_state \<Rightarrow> bool" where
  "filesystem_is_terminal s \<longleftrightarrow> s = UnmountedFinal"

fun filesystem_debug :: "filesystem_state \<Rightarrow> string" where
  "filesystem_debug Unmounted = ''Unmounted''"
| "filesystem_debug Mounted = ''Mounted''"
| "filesystem_debug Populated = ''Populated''"
| "filesystem_debug Pivoted = ''Pivoted''"
| "filesystem_debug UnmountedFinal = ''UnmountedFinal''"

fun filesystem_stage :: "filesystem_state \<Rightarrow> nat" where
  "filesystem_stage Unmounted = 0"
| "filesystem_stage Mounted = 1"
| "filesystem_stage Populated = 2"
| "filesystem_stage Pivoted = 3"
| "filesystem_stage UnmountedFinal = 4"

lemma filesystem_stage_eq:
  "filesystem_stage s = Suc 0 \<longleftrightarrow> s = Mounted"
  "filesystem_stage s = 2 \<longleftrightarrow> s = Populated"
  "filesystem_stage s = 3 \<longleftrightarrow> s = Pivoted"
  by (cases s; simp)+

interpretation fs: staged_lifecycle filesystem_can_transition_to filesystem_is_terminal
  filesystem_debug filesystem_stage
proof unfold_locales
  fix s t assume "filesystem_is_terminal s" "filesystem_can_transition_to s t"
  then show "t = s" by (cases t) (auto simp: filesystem_is_terminal_def)
next
  fix s t assume "filesystem_can_transition_to s t"
  then show "filesystem_stage t \<le> Suc (filesystem_stage s)"
    by (cases s; cases t; simp)
qed

section \<open>Cgroup lifecycle\<close>

datatype cgroup_state = Nonexistent | Created | Configured | Attached | Monitoring | Removed

fun cgroup_can_transition_to :: "cgroup_state \<Rightarrow> cgroup_state \<Rightarrow> bool" where
  "cgroup_can_transition_to Nonexistent Created = True"
| "cgroup_can_transition_to Created Configured = True"
| "cgroup_can_transition_to Configured Attached = True"
| "cgroup_can_transition_to Attached Monitoring = True"
| "cgroup_can_transition_to Monitoring Removed = True"
| "cgroup_can_transition_to Created Removed = True"
| "cgroup_can_transition_to Configured Removed = True"
| "cgroup_can_transition_to Attached Removed = True"
| "cgroup_can_transition_to Nonexistent Nonexistent = True"
| "cgroup_can_transition_to Created Created = True"
| "cgroup_can_transition_to Configured Configured = True"
| "cgroup_can_transition_to Attached Attached = True"
| "cgroup_can_transition_to Monitoring Monitoring = True"
| "cgroup_can_transition_to Removed Removed = True"
| "cgroup_can_transition_to _ _ = False"

definition cgroup_is_terminal :: "cgroup_state \<Rightarrow> bool" where
  "cgroup_is_terminal s \<longleftrightarrow> s = Removed"

fun cgroup_debug :: "cgroup_state \<Rightarrow> string" where
  "cgroup_debug Nonexistent = ''Nonexistent''"
| "cgroup_debug Created = ''Created''"
| "cgroup_debug Configured = ''Configured''"
| "cgroup_debug Attached = ''Attached''"
| "cgroup_debug Monitoring = ''Monitoring''"
| "cgroup_debug Removed = ''Removed''"

fun cgroup_stage :: "cgroup_state \<Rightarrow> nat" where
  "cgroup_stage Nonexistent = 0"
| "cgroup_stage Created = 1"
| "cgroup_stage Configured = 2"
| "cgroup_stage Attached = 3"
| "cgroup_stage Monitoring = 4"
| "cgroup_stage Removed = 5"

interpretation cg: forward_lifecycle cgroup_can_transition_to cgroup_is_terminal
  cgroup_debug cgroup_stage
proof unfold_locales
  fix s t assume "cgroup_is_terminal s" "cgroup_can_transition_to s t"
  then show "t = s" by (cases t) (auto simp: cgroup_is_terminal_def)
next
  fix s t assume "cgroup_can_transition_to s t"
  then show "t = s \<or> cgroup_stage s < cgroup_stage t"
    by (cases s; cases t; simp)
qed

section \<open>Namespace lifecycle\<close>

datatype namespace_state = Uninitialized | Unshared | Entered | Cleaned

fun namespace_can_transition_to :: "namespace_state \<Rightarrow> namespace_state \<Rightarrow> bool" where
  "namespace_can_transition_to Uninitialized Unshared = True"
| "namespace_can_transition_to Unshared Entered = True"
| "namespace_can_transition_to Unshared Cleaned = True"
| "namespace_can_transition_to Entered Cleaned = True"
| "namespace_can_transition_to Uninitialized Uninitialized = True"
| "namespace_can_transition_to Unshared Unshared = True"
| "namespace_can_transition_to Entered Entered = True"
| "namespace_can_transition_to Cleaned Cleaned = True"
| "namespace_can_transition_to _ _ = False"

definition namespace_is_terminal :: "namespace_state \<Rightarrow> bool" where
  "namespace_is_terminal s \<longleftrightarrow> s = Cleaned"

fun namespace_debug :: "namespace_state \<Rightarrow> string" where
  "namespace_debug Uninitialized = ''Uninitialized''"
| "namespace_debug Unshared = ''Unshared''"
| "namespace_debug Entered = ''Entered''"
| "namespace_debug Cleaned = ''Cleaned''"

fun namespace_stage :: "namespace_state \<Rightarrow> nat" where
  "namespace_stage Uninitialized = 0"
| "namespace_stage Unshared = 1"
| "namespace_stage Entered = 2"
| "namespace_stage Cleaned = 3"

interpretation ns: forward_lifecycle namespace_can_transition_to namespace_is_terminal
  namespace_debug namespace_stage
proof unfold_locales
  fix s t assume "namespace_is_terminal s" "namespace_can_transition_to s t"
  then show "t = s" by (cases t) (auto simp: namespace_is_terminal_def)
next
  fix s t assume "namespace_can_transition_to s t"
  then show "t = s \<or> namespace_stage s < namespace_stage t"
    by (cases s; cases t; simp)
qed

section \<open>Network lifecycle\<close>

text \<open>The final state of \<^verbatim>\<open>NetworkState\<close> is also called \<^verbatim>\<open>Cleaned\<close> in the source.\<close>

datatype network_state = Unconfigured | Configuring | Active | NetCleaned

fun network_can_transition_to :: "network_state \<Rightarrow> network_state \<Rightarrow> bool" where
  "network_can_transition_to Unconfigured Configuring = True"
| "network_can_transition_to Configuring Active = True"
| "network_can_transition_to Active NetCleaned = True"
| "network_can_transition_to _ _ = False"

definition network_is_terminal :: "network_state \<Rightarrow> bool" where
  "network_is_terminal s \<longleftrightarrow> s = NetCleaned"

fun network_debug :: "network_state \<Rightarrow> string" where
  "network_debug Unconfigured = ''Unconfigured''"
| "network_debug Configuring = ''Configuring''"
| "network_debug Active = ''Active''"
| "network_debug NetCleaned = ''Cleaned''"

fun network_stage :: "network_state \<Rightarrow> nat" where
  "network_stage Unconfigured = 0"
| "network_stage Configuring = 1"
| "network_stage Active = 2"
| "network_stage NetCleaned = 3"

lemma network_step:
  "network_can_transition_to s t \<longleftrightarrow> network_stage t = Suc (network_stage s)"
  by (cases s; cases t; simp)

interpretation net: forward_lifecycle network_can_transition_to network_is_terminal
  network_debug network_stage
proof unfold_locales
  fix s t assume "network_is_terminal s" "network_can_transition_to s t"
  then show "t = s" by (cases t) (auto simp: network_is_terminal_def)
next
  fix s t assume "network_can_transition_to s t"
  then show "t = s \<or> network_stage s < network_stage t" by (simp add: network_step)
qed

section \<open>Checkpoint lifecycle\<close>

text \<open>\<^verbatim>\<open>CheckpointState::None\<close> is \<open>CheckpointNone\<close> here.\<close>

datatype checkpoint_state = CheckpointNone | Dumping | Dumped | Restoring | Restored

fun checkpoint_can_transition_to :: "checkpoint_state \<Rightarrow> checkpoint_state \<Rightarrow> bool" where
  "checkpoint_can_transition_to CheckpointNone Dumping = True"
| "checkpoint_can_transition_to Dumping Dumped = True"
| "checkpoint_can_transition_to Dumping CheckpointNone = True"
| "checkpoint_can_transition_to CheckpointNone Restoring = True"
| "checkpoint_can_transition_to Restoring Restored = True"
| "checkpoint_can_transition_to Restoring CheckpointNone = True"
| "checkpoint_can_transition_to _ _ = False"

definition checkpoint_is_terminal :: "checkpoint_state \<Rightarrow> bool" where
  "checkpoint_is_terminal s \<longleftrightarrow> False"

fun checkpoint_debug :: "checkpoint_state \<Rightarrow> string" where
  "checkpoint_debug CheckpointNone = ''None''"
| "checkpoint_debug Dumping = ''Dumping''"
| "checkpoint_debug Dumped = ''Dumped''"
| "checkpoint_debug Restoring = ''Restoring''"
| "checkpoint_debug Restored = ''Restored''"

fun checkpoint_stage :: "checkpoint_state \<Rightarrow> nat" where
  "checkpoint_stage CheckpointNone = 0"
| "checkpoint_stage Dumping = 1"
| "checkpoint_stage Dumped = 2"
| "checkpoint_stage Restoring = 1"
| "checkpoint_stage Restored = 2"

interpretation ck: staged_lifecycle checkpoint_can_transition_to checkpoint_is_terminal
  checkpoint_debug checkpoint_stage
proof unfold_locales
  fix s t assume "checkpoint_can_transition_to s t"
  then show "checkpoint_stage t \<le> Suc (checkpoint_stage s)"
    by (cases s; cases t; simp)
qed (simp add: checkpoint_is_terminal_def)

lemma checkpoint_done_stuck:
  "s = Dumped \<or> s = Restored \<Longrightarrow> \<not> checkpoint_can_transition_to s t"
  by (cases t) auto

section \<open>Properties\<close>

text \<open>
  defence in depth and no privilege escalation. A sequence of security transitions that starts
  privileged and ends locked has dropped the capabilities, applied seccomp and applied Landlock on
  the way, and a sequence that starts with the capabilities dropped (or later) never makes the
  process privileged again.
\<close>

theorem security_defense_in_depth:
  "(transitions security_can_transition_to security_debug Privileged ts = Ok Locked \<longrightarrow>
      {CapabilitiesDropped, SeccompApplied, LandlockApplied} \<subseteq> set ts) \<and>
   (s \<noteq> Privileged \<longrightarrow> transitions security_can_transition_to security_debug s us = Ok t \<longrightarrow>
      Privileged \<notin> set us \<and> t \<noteq> Privileged)"
proof (intro conjI impI)
  assume run: "transitions security_can_transition_to security_debug Privileged ts = Ok Locked"
  have "\<exists>u\<in>set ts. security_stage u = k" if "0 < k" "k \<le> 4" for k
    using sec.stage_visited[OF run, of k] that by simp
  from this[of 1] this[of 2] this[of 3]
  show "{CapabilitiesDropped, SeccompApplied, LandlockApplied} \<subseteq> set ts"
    by (simp add: security_stage_eq)
next
  assume s: "s \<noteq> Privileged"
    and run: "transitions security_can_transition_to security_debug s us = Ok t"
  from s have st: "security_stage Privileged < security_stage s" by (cases s) auto
  from sec_fwd.no_return[OF run st] show "Privileged \<notin> set us" .
  from sec_fwd.stage_mono[OF run] st show "t \<noteq> Privileged" by auto
qed

theorem security_defense_in_depth_witness:
  "{CapabilitiesDropped, SeccompApplied, LandlockApplied}
     \<subseteq> set [CapabilitiesDropped, SeccompApplied, LandlockApplied, Locked] \<and>
   transitions security_can_transition_to security_debug SeccompApplied [LandlockApplied]
     = Ok LandlockApplied \<and> Privileged \<notin> set [LandlockApplied]"
  using security_defense_in_depth
    [of "[CapabilitiesDropped, SeccompApplied, LandlockApplied, Locked]" SeccompApplied
      "[LandlockApplied]" LandlockApplied]
  by simp

text \<open>
  filesystem lifecycle. The root is pivoted only after the tmpfs was mounted and populated, the
  final unmount happens only after the pivot, and after it nothing changes any more.
\<close>

theorem filesystem_pivot_ordering:
  "(transitions filesystem_can_transition_to filesystem_debug Unmounted ts = Ok Pivoted \<longrightarrow>
      Mounted \<in> set ts \<and> Populated \<in> set ts) \<and>
   (transitions filesystem_can_transition_to filesystem_debug Unmounted ts = Ok UnmountedFinal \<longrightarrow>
      Mounted \<in> set ts \<and> Populated \<in> set ts \<and> Pivoted \<in> set ts) \<and>
   (transitions filesystem_can_transition_to filesystem_debug UnmountedFinal us = Ok t \<longrightarrow>
      t = UnmountedFinal)"
proof (intro conjI impI)
  assume run: "transitions filesystem_can_transition_to filesystem_debug Unmounted ts = Ok Pivoted"
  from fs.stage_visited[OF run, of 1] fs.stage_visited[OF run, of 2]
  show "Mounted \<in> set ts" "Populated \<in> set ts"
    by (simp_all add: filesystem_stage_eq)
next
  assume run: "transitions filesystem_can_transition_to filesystem_debug Unmounted ts
    = Ok UnmountedFinal"
  from fs.stage_visited[OF run, of 1] fs.stage_visited[OF run, of 2] fs.stage_visited[OF run, of 3]
  show "Mounted \<in> set ts" "Populated \<in> set ts" "Pivoted \<in> set ts"
    by (simp_all add: filesystem_stage_eq)
next
  assume "transitions filesystem_can_transition_to filesystem_debug UnmountedFinal us = Ok t"
  then show "t = UnmountedFinal"
    by (rule fs.transitions_terminal[rotated]) (simp add: filesystem_is_terminal_def)
qed

theorem filesystem_pivot_ordering_witness:
  "transitions filesystem_can_transition_to filesystem_debug Unmounted
     [Mounted, Unmounted, Mounted, Populated, Pivoted] = Ok Pivoted
   \<and> Populated \<in> set [Mounted, Unmounted, Mounted, Populated, Pivoted]"
  using filesystem_pivot_ordering [of "[Mounted, Unmounted, Mounted, Populated, Pivoted]" "[]"]
  by simp

text \<open>
  cgroups, namespaces and networks only move forward. Once a sequence of transitions has left a
  state for a later one it never comes back to it: limits are never unconfigured, a removed cgroup
  and a cleaned namespace stay so, and a torn-down network is never active again.
\<close>

theorem lifecycles_never_return:
  "(transitions cgroup_can_transition_to cgroup_debug a as = Ok a' \<longrightarrow>
      cgroup_stage b < cgroup_stage a \<longrightarrow> b \<notin> set as) \<and>
   (transitions namespace_can_transition_to namespace_debug c cs = Ok c' \<longrightarrow>
      namespace_stage d < namespace_stage c \<longrightarrow> d \<notin> set cs) \<and>
   (transitions network_can_transition_to network_debug e es = Ok e' \<longrightarrow>
      network_stage f < network_stage e \<longrightarrow> f \<notin> set es)"
  using cg.no_return ns.no_return net.no_return by blast

theorem lifecycles_never_return_witness:
  "transitions cgroup_can_transition_to cgroup_debug Configured [Attached, Removed] = Ok Removed \<and>
   Created \<notin> set [Attached, Removed]"
  using lifecycles_never_return [of Configured "[Attached, Removed]" Removed Created
      Uninitialized "[]" Uninitialized Uninitialized Unconfigured "[]" Unconfigured Unconfigured]
  by simp

end
