(* ===== verification/Resource_Limits.thy ===== *)
theory Resource_Limits
  imports Nucleus_Prelude Complex_Main
begin

text \<open>
  Resource limits (\<^verbatim>\<open>src/src/resources/limits.rs\<close>): parsing of memory sizes and of per-device I/O
  limits, the \<^verbatim>\<open>with_*\<close> builders of \<^verbatim>\<open>ResourceLimits\<close> and its checks. Integers are 64-bit words. A CPU
  count is an \<^verbatim>\<open>f64\<close>: not a number, infinite, or a finite value given as a rational; the rounding of
  a floating-point product to the nearest representable value is a parameter \<open>rnd\<close> of the model.
\<close>

section \<open>Per-device I/O limits\<close>

record io_device_limit =
  device :: string
  riops :: "u64 option"
  wiops :: "u64 option"
  rbps :: "u64 option"
  wbps :: "u64 option"

definition io_device_ok :: "string \<Rightarrow> bool" where
  "io_device_ok dev =
     (case split_on CHR '':'' dev of
        [major, minor] \<Rightarrow>
          (parse_word major :: u64 option) \<noteq> None \<and> (parse_word minor :: u64 option) \<noteq> None
      | _ \<Rightarrow> False)"

definition io_set_param :: "io_device_limit \<Rightarrow> string \<Rightarrow> io_device_limit result" where
  "io_set_param limit param =
     (case split_once CHR ''='' param of
        None \<Rightarrow> Err (InvalidResourceLimit ''Invalid I/O param {}, expected key=value'')
      | Some (key, value) \<Rightarrow>
          (case (parse_word value :: u64 option) of
             None \<Rightarrow> Err (InvalidResourceLimit ''Invalid I/O value: {}'')
           | Some v \<Rightarrow>
               (if key = ''riops'' then Ok (limit\<lparr>riops := Some v\<rparr>)
                else if key = ''wiops'' then Ok (limit\<lparr>wiops := Some v\<rparr>)
                else if key = ''rbps'' then Ok (limit\<lparr>rbps := Some v\<rparr>)
                else if key = ''wbps'' then Ok (limit\<lparr>wbps := Some v\<rparr>)
                else Err (InvalidResourceLimit ''Unknown I/O param {}''))))"

definition io_parse :: "string \<Rightarrow> io_device_limit result" where
  "io_parse s =
     (case split_whitespace s of
        [] \<Rightarrow> Err (InvalidResourceLimit ''Empty I/O limit spec'')
      | dev # parts \<Rightarrow>
          (if \<not> io_device_ok dev
           then Err (InvalidResourceLimit ''Invalid device format {}, expected major:minor'')
           else try_fold io_set_param
                  \<lparr>device = dev, riops = None, wiops = None, rbps = None, wbps = None\<rparr> parts))"

definition io_field :: "string \<Rightarrow> u64 option \<Rightarrow> string list" where
  "io_field key v = (case v of None \<Rightarrow> [] | Some n \<Rightarrow> [key @ ''='' @ show_word n])"

definition to_io_max_line :: "io_device_limit \<Rightarrow> string" where
  "to_io_max_line l =
     join '' '' ([device l] @ io_field ''riops'' (riops l) @ io_field ''wiops'' (wiops l)
       @ io_field ''rbps'' (rbps l) @ io_field ''wbps'' (wbps l))"

section \<open>Resource limits\<close>

record resource_limits =
  memory_bytes :: "u64 option"
  memory_high :: "u64 option"
  memory_swap_max :: "u64 option"
  cpu_quota_us :: "u64 option"
  cpu_period_us :: u64
  cpu_weight :: "u64 option"
  pids_max :: "u64 option"
  io_limits :: "io_device_limit list"
  memlock_bytes :: "u64 option"

definition unlimited :: resource_limits where
  "unlimited = \<lparr>memory_bytes = None, memory_high = None, memory_swap_max = None,
     cpu_quota_us = None, cpu_period_us = 100000, cpu_weight = None, pids_max = None,
     io_limits = [], memlock_bytes = None\<rparr>"

definition default_limits :: resource_limits where
  "default_limits = unlimited\<lparr>pids_max := Some 512\<rparr>"

definition memory_suffix :: "string \<Rightarrow> string \<times> u64" where
  "memory_suffix s =
     (if last s = CHR ''K'' \<or> last s = CHR ''k'' then (butlast s, 1024)
      else if last s = CHR ''M'' \<or> last s = CHR ''m'' then (butlast s, 1024 * 1024)
      else if last s = CHR ''G'' \<or> last s = CHR ''g'' then (butlast s, 1024 * 1024 * 1024)
      else if last s = CHR ''T'' \<or> last s = CHR ''t'' then (butlast s, 1024 * 1024 * 1024 * 1024)
      else (s, 1))"

definition parse_memory :: "string \<Rightarrow> u64 result" where
  "parse_memory s0 =
     (let s = trim s0 in
      if s = [] then Err (InvalidResourceLimit ''Empty memory limit'')
      else (let (num_str, multiplier) = memory_suffix s in
        and_then (ok_or (parse_word num_str) (InvalidResourceLimit ''Invalid memory value: {}''))
          (\<lambda>num. ok_or (checked_mul num multiplier)
             (InvalidResourceLimit ''Memory value overflows u64: {}''))))"

definition with_memory :: "string \<Rightarrow> resource_limits \<Rightarrow> resource_limits result" where
  "with_memory limit self =
     and_then (parse_memory limit) (\<lambda>bytes.
       let self1 = self\<lparr>memory_bytes := Some bytes, memory_high := Some (bytes - bytes div 10)\<rparr>
       in Ok (if memory_swap_max self1 = None then self1\<lparr>memory_swap_max := Some 0\<rparr> else self1))"

definition with_swap_enabled :: "resource_limits \<Rightarrow> resource_limits" where
  "with_swap_enabled self = self\<lparr>memory_swap_max := None\<rparr>"

datatype f64 = NaN | PosInfinity | NegInfinity | Finite rat

text \<open>Rust's \<^verbatim>\<open>as u64\<close> on an \<^verbatim>\<open>f64\<close> truncates and saturates; a NaN gives 0.\<close>

definition rat_to_u64 :: "rat \<Rightarrow> u64" where
  "rat_to_u64 r = (if r \<le> 0 then 0 else if r \<ge> 2 ^ 64 then - 1 else of_int \<lfloor>r\<rfloor>)"

definition with_cpu_cores :: "(rat \<Rightarrow> rat) \<Rightarrow> f64 \<Rightarrow> resource_limits \<Rightarrow> resource_limits result" where
  "with_cpu_cores rnd cores self =
     (if cpu_period_us self = 0
      then Err (InvalidResourceLimit ''CPU period must be greater than 0'')
      else (case cores of
          Finite c \<Rightarrow>
            (if c \<le> 0
             then Err (InvalidResourceLimit ''CPU cores must be a finite positive number'')
             else if c > 65536
             then Err (InvalidResourceLimit ''CPU cores must be <= {}'')
             else Ok (self\<lparr>cpu_quota_us :=
                    Some (rat_to_u64 (rnd (c * rnd (of_nat (unat (cpu_period_us self))))))\<rparr>))
        | _ \<Rightarrow> Err (InvalidResourceLimit ''CPU cores must be a finite positive number'')))"

definition RLIM_INFINITY :: u64 where
  "RLIM_INFINITY = - 1"

definition with_pids :: "u64 \<Rightarrow> resource_limits \<Rightarrow> resource_limits result" where
  "with_pids max_pids self =
     (if max_pids = 0 then Err (InvalidResourceLimit ''Max PIDs must be positive'')
      else if max_pids = RLIM_INFINITY
      then Err (InvalidResourceLimit
        ''Max PIDs must be less than RLIM_INFINITY; use 0/None for unlimited'')
      else Ok (self\<lparr>pids_max := Some max_pids\<rparr>))"

definition with_cpu_weight :: "u64 \<Rightarrow> resource_limits \<Rightarrow> resource_limits result" where
  "with_cpu_weight weight self =
     (if \<not> (1 \<le> weight \<and> weight \<le> 10000)
      then Err (InvalidResourceLimit ''CPU weight must be between 1 and 10000'')
      else Ok (self\<lparr>cpu_weight := Some weight\<rparr>))"

definition with_io_limit :: "io_device_limit \<Rightarrow> resource_limits \<Rightarrow> resource_limits" where
  "with_io_limit limit self = self\<lparr>io_limits := io_limits self @ [limit]\<rparr>"

definition with_memlock :: "string \<Rightarrow> resource_limits \<Rightarrow> resource_limits result" where
  "with_memlock limit self =
     and_then (parse_memory limit) (\<lambda>bytes. Ok (self\<lparr>memlock_bytes := Some bytes\<rparr>))"

definition validate_runtime_sanity :: "resource_limits \<Rightarrow> unit result" where
  "validate_runtime_sanity self =
     (if cpu_period_us self = 0
      then Err (InvalidResourceLimit ''CPU period must be greater than 0'')
      else (case pids_max self of
          None \<Rightarrow> Ok ()
        | Some p \<Rightarrow>
            (if p = 0 then Err (InvalidResourceLimit ''Max PIDs must be positive'')
             else if p = RLIM_INFINITY
             then Err (InvalidResourceLimit
               ''Max PIDs must be less than RLIM_INFINITY; use 0/None for unlimited'')
             else Ok ())))"

definition has_cgroup_control :: "resource_limits \<Rightarrow> bool" where
  "has_cgroup_control self \<longleftrightarrow>
     memory_bytes self \<noteq> None \<or> memory_high self \<noteq> None \<or> memory_swap_max self \<noteq> None
     \<or> cpu_quota_us self \<noteq> None \<or> cpu_weight self \<noteq> None \<or> pids_max self \<noteq> None
     \<or> io_limits self \<noteq> []"

section \<open>Parsing memory sizes\<close>

lemma trim_no_whitespace: "\<forall>c\<in>set s. \<not> is_whitespace c \<Longrightarrow> trim s = s"
proof -
  assume a: "\<forall>c\<in>set s. \<not> is_whitespace c"
  have d: "dropWhile is_whitespace t = t" if "\<forall>c\<in>set t. \<not> is_whitespace c" for t :: string
    using that by (cases t) auto
  show ?thesis using a by (simp add: trim_def d)
qed

fun suffix_factor :: "char \<Rightarrow> nat" where
  "suffix_factor c = (if c = CHR ''K'' then 2 ^ 10 else if c = CHR ''M'' then 2 ^ 20
     else if c = CHR ''G'' then 2 ^ 30 else 2 ^ 40)"

lemma memory_suffix_snoc:
  assumes "c \<in> set ''KMGT''"
  shows "memory_suffix (s @ [c]) = (s, of_nat (suffix_factor c))"
  using assms by (auto simp: memory_suffix_def)

lemma unat_suffix_factor:
  "c \<in> set ''KMGT'' \<Longrightarrow> unat (of_nat (suffix_factor c) :: u64) = suffix_factor c"
  by auto

lemma parse_memory_number:
  assumes c: "c \<in> set ''KMGT''" and n: "n < 2 ^ 64"
  shows "parse_memory (show_nat n @ [c]) =
    (if n * suffix_factor c < 2 ^ 64 then Ok (of_nat (n * suffix_factor c))
     else Err (InvalidResourceLimit ''Memory value overflows u64: {}''))"
proof -
  have ws: "\<forall>d\<in>set (show_nat n @ [c]). \<not> is_whitespace d"
    using c digit_not_sep show_nat_digits by (auto simp: is_whitespace_def)
  have p: "parse_word (show_nat n) = Some (of_nat n :: u64)"
    using n by (simp add: parse_word_def parse_uint_show_nat)
  have u: "unat (of_nat n :: u64) = n"
    using n by (simp add: unat_of_nat take_bit_nat_eq_self)
  show ?thesis
    by (simp add: parse_memory_def trim_no_whitespace[OF ws] memory_suffix_snoc[OF c] Let_def p
        checked_mul_def u unat_suffix_factor[OF c] del: suffix_factor.simps)
qed

lemma parse_memory_value:
  assumes "parse_memory s = Inr b"
  shows "\<exists>ds k. memory_suffix (trim s) = (ds, k) \<and> k \<in> {1, 2^10, 2^20, 2^30, 2^40}
    \<and> (\<exists>n. parse_uint 64 ds = Some n \<and> unat b = n * unat k)"
proof -
  obtain ds k where m: "memory_suffix (trim s) = (ds, k)" by fastforce
  from assms m obtain w where w: "parse_word ds = Some w" "checked_mul w k = Some b"
    by (auto simp: parse_memory_def Let_def and_then_Inr_iff ok_or_Inr_iff split: if_splits)
  have "parse_uint 64 ds = Some (unat w)" using unat_parse_word[OF w(1)] by simp
  moreover have "unat b = unat w * unat k" using checked_mul_Some[OF w(2)] .
  moreover have "k \<in> {1, 2^10, 2^20, 2^30, 2^40}"
    using m by (auto simp: memory_suffix_def split: if_splits)
  ultimately show ?thesis using m by blast
qed

section \<open>I/O limits: printing and parsing\<close>

lemma io_set_param_device: "io_set_param l p = Inr l' \<Longrightarrow> device l' = device l"
  by (auto simp: io_set_param_def split: option.splits if_splits)

lemma io_parse_device:
  assumes "io_parse s = Inr l"
  shows "io_device_ok (device l) \<and> device l \<noteq> [] \<and> (\<forall>c\<in>set (device l). \<not> is_whitespace c)"
proof -
  from assms obtain dev parts where sp: "split_whitespace s = dev # parts"
    and ok: "io_device_ok dev"
    and f: "try_fold io_set_param
       \<lparr>device = dev, riops = None, wiops = None, rbps = None, wbps = None\<rparr> parts = Inr l"
    by (auto simp: io_parse_def split: list.splits if_splits)
  have "device l = dev"
    by (rule try_fold_invariant[OF f, where P = "\<lambda>l. device l = dev"])
      (auto dest: io_set_param_device)
  moreover have "dev \<noteq> [] \<and> (\<forall>c\<in>set dev. \<not> is_whitespace c)"
    using split_whitespace_pieces[of dev s] sp by simp
  ultimately show ?thesis using ok by simp
qed

lemma io_field_no_ws:
  assumes "w \<in> set (io_field key v)" and "key \<in> {''riops'', ''wiops'', ''rbps'', ''wbps''}"
  shows "w \<noteq> [] \<and> (\<forall>c\<in>set w. \<not> is_whitespace c)"
proof -
  have k: "\<forall>c\<in>set key. \<not> is_whitespace c"
    using assms(2) by (auto simp: is_whitespace_def)
  have "\<not> is_whitespace CHR ''=''" by (simp add: is_whitespace_def)
  then show ?thesis using assms(1) k digit_not_sep show_nat_digits
    by (fastforce simp: io_field_def show_word_def split: option.splits)
qed

lemma split_once_key:
  "CHR ''='' \<notin> set key \<Longrightarrow> split_once CHR ''='' (key @ CHR ''='' # v) = Some (key, v)"
  by (simp add: split_once_Some_iff)

lemma try_fold_io_field:
  "try_fold io_set_param l (io_field ''riops'' v) = Inr (case v of None \<Rightarrow> l | Some _ \<Rightarrow> l\<lparr>riops := v\<rparr>)"
  "try_fold io_set_param l (io_field ''wiops'' v) = Inr (case v of None \<Rightarrow> l | Some _ \<Rightarrow> l\<lparr>wiops := v\<rparr>)"
  "try_fold io_set_param l (io_field ''rbps'' v) = Inr (case v of None \<Rightarrow> l | Some _ \<Rightarrow> l\<lparr>rbps := v\<rparr>)"
  "try_fold io_set_param l (io_field ''wbps'' v) = Inr (case v of None \<Rightarrow> l | Some _ \<Rightarrow> l\<lparr>wbps := v\<rparr>)"
  by (cases v; simp add: io_field_def io_set_param_def split_once_key
        split_once_key[of "''riops''", simplified] split_once_key[of "''wiops''", simplified]
        split_once_key[of "''rbps''", simplified] split_once_key[of "''wbps''", simplified])+

lemma io_parse_to_io_max_line:
  assumes "io_device_ok (device l)" and "device l \<noteq> []"
    and "\<forall>c\<in>set (device l). \<not> is_whitespace c"
  shows "io_parse (to_io_max_line l) = Inr l"
proof -
  let ?ws = "[device l] @ io_field ''riops'' (riops l) @ io_field ''wiops'' (wiops l)
       @ io_field ''rbps'' (rbps l) @ io_field ''wbps'' (wbps l)"
  have "\<forall>w\<in>set ?ws. w \<noteq> [] \<and> (\<forall>c\<in>set w. \<not> is_whitespace c)"
  proof
    fix w assume "w \<in> set ?ws"
    then consider "w = device l"
      | k v where "w \<in> set (io_field k v)" "k \<in> {''riops'', ''wiops'', ''rbps'', ''wbps''}"
      by auto
    then show "w \<noteq> [] \<and> (\<forall>c\<in>set w. \<not> is_whitespace c)"
      using assms io_field_no_ws by cases auto
  qed
  then have "split_whitespace (to_io_max_line l) = ?ws"
    unfolding to_io_max_line_def by (rule split_whitespace_join)
  then have "io_parse (to_io_max_line l) = try_fold io_set_param
      \<lparr>device = device l, riops = None, wiops = None, rbps = None, wbps = None\<rparr> (tl ?ws)"
    using assms by (simp add: io_parse_def)
  also have "\<dots> = Inr l"
    by (cases l) (simp add: try_fold_append try_fold_io_field split: option.splits)
  finally show ?thesis .
qed

section \<open>The builders\<close>

lemma soft_limit_word:
  fixes b :: u64
  shows "unat (b - b div 10) = unat b - unat b div 10"
proof -
  have d: "unat (b div 10) = unat b div 10" by (simp add: unat_div)
  have "b div 10 \<le> b" unfolding word_le_nat_alt d by simp
  then show ?thesis by (simp add: unat_sub d)
qed

lemma rat_to_u64_floor:
  assumes "0 < r" and "r < 2 ^ 64"
  shows "unat (rat_to_u64 r) = nat \<lfloor>r\<rfloor>"
proof -
  from assms have "0 \<le> \<lfloor>r\<rfloor>" "\<lfloor>r\<rfloor> < 2 ^ 64" by (simp_all add: floor_less_iff)
  with assms show ?thesis
    by (simp add: rat_to_u64_def unat_eq_nat_uint uint_word_of_int_eq take_bit_int_eq_self)
qed

lemma rat_to_u64_zero: "r \<le> 0 \<Longrightarrow> rat_to_u64 r = 0"
  by (simp add: rat_to_u64_def)

lemma cpu_quota_bounds:
  fixes p :: nat
  assumes mono: "\<And>x y. x \<le> y \<Longrightarrow> rnd x \<le> rnd y"
    and exact: "\<And>n :: nat. n \<le> 2 ^ 53 \<Longrightarrow> rnd (of_nat n) = of_nat n"
    and p: "0 < p" "p \<le> 2 ^ 37" and c: "0 < c" "c \<le> 65536"
  shows "unat (rat_to_u64 (rnd (c * rnd (of_nat p)))) \<le> 65536 * p"
    and "1 \<le> c \<Longrightarrow> p \<le> unat (rat_to_u64 (rnd (c * rnd (of_nat p))))"
proof -
  let ?r = "rnd (c * rnd (of_nat p))"
  have rp: "rnd (of_nat p) = of_nat p" by (rule exact) (use p in simp)
  have r65: "rnd (of_nat (65536 * p)) = of_nat (65536 * p)" by (rule exact) (use p in simp)
  have "c * rnd (of_nat p) \<le> of_nat (65536 * p)"
    unfolding rp of_nat_mult of_nat_numeral by (rule mult_right_mono) (use c in simp_all)
  from mono[OF this] have up: "?r \<le> of_nat (65536 * p)" unfolding r65 .
  have "65536 * p < 2 ^ 64" using p(2) by simp
  then have "(of_nat (65536 * p) :: rat) < of_nat (2 ^ 64)" by (subst of_nat_less_iff)
  with up have b64: "?r < 2 ^ 64" by simp
  have fl: "nat \<lfloor>?r\<rfloor> \<le> 65536 * p" using floor_mono[OF up] unfolding floor_of_nat by simp
  show "unat (rat_to_u64 ?r) \<le> 65536 * p"
    using b64 fl by (cases "0 < ?r") (simp_all add: rat_to_u64_floor rat_to_u64_zero)
  assume "1 \<le> c"
  then have "of_nat p \<le> c * rnd (of_nat p)" using p(1) unfolding rp by simp
  from mono[OF this] have lo: "of_nat p \<le> ?r" unfolding rp .
  have "(0 :: rat) < of_nat p" using p(1) by simp
  with lo have "0 < ?r" by linarith
  moreover have "int p \<le> \<lfloor>?r\<rfloor>" using floor_mono[OF lo] unfolding floor_of_nat .
  ultimately show "p \<le> unat (rat_to_u64 ?r)" using b64 by (simp add: rat_to_u64_floor)
qed

text \<open>The limits that a chain of builder calls can produce.\<close>

inductive built :: "resource_limits \<Rightarrow> bool" where
  built_unlimited: "built unlimited"
| built_default: "built default_limits"
| built_memory: "built l \<Longrightarrow> with_memory s l = Ok l' \<Longrightarrow> built l'"
| built_swap: "built l \<Longrightarrow> built (with_swap_enabled l)"
| built_cpus: "built l \<Longrightarrow> with_cpu_cores rnd c l = Ok l' \<Longrightarrow> built l'"
| built_pids: "built l \<Longrightarrow> with_pids n l = Ok l' \<Longrightarrow> built l'"
| built_weight: "built l \<Longrightarrow> with_cpu_weight n l = Ok l' \<Longrightarrow> built l'"
| built_io: "built l \<Longrightarrow> built (with_io_limit d l)"
| built_memlock: "built l \<Longrightarrow> with_memlock s l = Ok l' \<Longrightarrow> built l'"

definition limits_inv :: "resource_limits \<Rightarrow> bool" where
  "limits_inv l \<longleftrightarrow>
     cpu_period_us l = 100000
     \<and> (\<forall>p. pids_max l = Some p \<longrightarrow> p \<noteq> 0 \<and> p \<noteq> RLIM_INFINITY)
     \<and> (\<forall>w. cpu_weight l = Some w \<longrightarrow> 1 \<le> w \<and> w \<le> 10000)
     \<and> memory_high l = map_option (\<lambda>b. b - b div 10) (memory_bytes l)"

lemma limits_inv_base: "limits_inv unlimited" "limits_inv default_limits"
  by (simp_all add: limits_inv_def unlimited_def default_limits_def RLIM_INFINITY_def)

lemma limits_inv_builders:
  "limits_inv l \<Longrightarrow> with_memory s l = Inr l' \<Longrightarrow> limits_inv l'"
  "limits_inv l \<Longrightarrow> limits_inv (with_swap_enabled l)"
  "limits_inv l \<Longrightarrow> with_cpu_cores rnd c l = Inr l' \<Longrightarrow> limits_inv l'"
  "limits_inv l \<Longrightarrow> with_pids n l = Inr l' \<Longrightarrow> limits_inv l'"
  "limits_inv l \<Longrightarrow> with_cpu_weight n l = Inr l' \<Longrightarrow> limits_inv l'"
  "limits_inv l \<Longrightarrow> limits_inv (with_io_limit d l)"
  "limits_inv l \<Longrightarrow> with_memlock s l = Inr l' \<Longrightarrow> limits_inv l'"
  unfolding with_memory_def with_swap_enabled_def with_cpu_cores_def with_pids_def
    with_cpu_weight_def with_io_limit_def with_memlock_def limits_inv_def Let_def
  by (auto simp: result_simps split: if_splits f64.splits)

lemma built_inv: "built l \<Longrightarrow> limits_inv l"
  by (induction rule: built.induct) (auto intro: limits_inv_base limits_inv_builders)

section \<open>Properties\<close>

text \<open>
  \<^verbatim>\<open>parse_memory\<close> never wraps. A decimal number with one of the suffixes K, M, G, T that fits 64 bits
  is scaled by the binary factor of the suffix if the product fits 64 bits and is rejected
  otherwise; and whatever is accepted is the product of a number that was written and a factor of
  the table, without overflow.
\<close>

theorem parse_memory_exact:
  "(c \<in> set ''KMGT'' \<longrightarrow> n < 2 ^ 64 \<longrightarrow>
      parse_memory (show_nat n @ [c]) =
        (if n * suffix_factor c < 2 ^ 64 then Ok (of_nat (n * suffix_factor c))
         else Err (InvalidResourceLimit ''Memory value overflows u64: {}''))) \<and>
   (parse_memory s = Ok b \<longrightarrow>
      (\<exists>ds k. memory_suffix (trim s) = (ds, k) \<and> k \<in> {1, 2^10, 2^20, 2^30, 2^40}
         \<and> (\<exists>m. parse_uint 64 ds = Some m \<and> unat b = m * unat k)))"
  using parse_memory_number parse_memory_value by blast

theorem parse_memory_exact_witness:
  "parse_memory (show_nat 512 @ ''M'') = Ok 536870912 \<and>
   parse_memory (show_nat 17592186044416 @ ''T'')
     = Err (InvalidResourceLimit ''Memory value overflows u64: {}'')"
  using parse_memory_exact [of "CHR ''M''" 512 "[]" 0]
    parse_memory_exact [of "CHR ''T''" 17592186044416 "[]" 0]
  by simp

text \<open>
  the soft limit that \<^verbatim>\<open>with_memory\<close> derives is the hard limit less a tenth: at least ninety per
  cent of it and never above it. Swap is switched off unless a swap limit was already there, and
  no other field changes.
\<close>

theorem with_memory_soft_limit:
  assumes "with_memory s l = Ok l'"
  shows "\<exists>b h. parse_memory s = Ok b \<and> memory_bytes l' = Some b \<and> memory_high l' = Some h
    \<and> unat h \<le> unat b \<and> 9 * unat b \<le> 10 * unat h
    \<and> memory_swap_max l' = (if memory_swap_max l = None then Some 0 else memory_swap_max l)
    \<and> l' = l\<lparr>memory_bytes := Some b, memory_high := Some h, memory_swap_max := memory_swap_max l'\<rparr>"
proof -
  from assms obtain b where b: "parse_memory s = Ok b"
    and l': "l' = (let l1 = l\<lparr>memory_bytes := Some b, memory_high := Some (b - b div 10)\<rparr>
      in if memory_swap_max l1 = None then l1\<lparr>memory_swap_max := Some 0\<rparr> else l1)"
    by (auto simp: with_memory_def Let_def and_then_Inr_iff)
  have "unat (b - b div 10) \<le> unat b" "9 * unat b \<le> 10 * unat (b - b div 10)"
    unfolding soft_limit_word by arith+
  with b l' show ?thesis
    by (intro exI[of _ b] exI[of _ "b - b div 10"]) (simp add: Let_def)
qed

theorem with_memory_soft_limit_witness:
  "unat (900 :: u64) \<le> unat (1000 :: u64) \<and> 9 * unat (1000 :: u64) \<le> 10 * unat (900 :: u64)
     \<and> with_memory ''1000'' unlimited = Ok (unlimited\<lparr>memory_bytes := Some 1000,
         memory_high := Some 900, memory_swap_max := Some 0\<rparr>)"
proof -
  have p: "parse_memory ''1000'' = Ok 1000"
    by (simp add: parse_memory_def memory_suffix_def checked_mul_def string_eval)
  then have w: "with_memory ''1000'' unlimited = Ok (unlimited\<lparr>memory_bytes := Some 1000,
      memory_high := Some 900, memory_swap_max := Some 0\<rparr>)"
    by (simp add: with_memory_def unlimited_def)
  from with_memory_soft_limit [OF w] w show ?thesis by (auto simp: unlimited_def)
qed

text \<open>
  enabling swap is undone by a later \<^verbatim>\<open>with_memory\<close>. The documentation of \<^verbatim>\<open>with_memory\<close> says swap is
  disabled unless it was explicitly enabled; the code cannot tell an explicitly enabled swap from
  the initial value, so calling \<^verbatim>\<open>with_swap_enabled\<close> first has no effect.
\<close>

theorem with_memory_forgets_swap_enabled:
  "with_memory s (with_swap_enabled l) = Ok l' \<Longrightarrow> memory_swap_max l' = Some 0"
  by (auto simp: with_memory_def with_swap_enabled_def Let_def and_then_Inr_iff)

theorem with_memory_forgets_swap_enabled_witness:
  "memory_swap_max (unlimited\<lparr>memory_bytes := Some 1000, memory_high := Some 900,
     memory_swap_max := Some 0\<rparr>) = Some 0"
proof -
  have p: "parse_memory ''1000'' = Ok 1000"
    by (simp add: parse_memory_def memory_suffix_def checked_mul_def string_eval)
  then have "with_memory ''1000'' (with_swap_enabled unlimited)
      = Ok (unlimited\<lparr>memory_bytes := Some 1000, memory_high := Some 900,
          memory_swap_max := Some 0\<rparr>)"
    by (simp add: with_memory_def with_swap_enabled_def unlimited_def)
  then show ?thesis by (rule with_memory_forgets_swap_enabled)
qed

text \<open>
  every \<^verbatim>\<open>ResourceLimits\<close> value made by the builders passes the runtime check, keeps its CPU weight
  in the range the kernel accepts, and has a soft memory limit exactly when it has a hard one, ten
  per cent below it.
\<close>

theorem built_limits_sane:
  assumes "built l"
  shows "validate_runtime_sanity l = Ok ()
    \<and> (\<forall>w. cpu_weight l = Some w \<longrightarrow> 1 \<le> w \<and> w \<le> 10000)
    \<and> memory_high l = map_option (\<lambda>b. b - b div 10) (memory_bytes l)"
  using built_inv[OF assms]
  by (auto simp: limits_inv_def validate_runtime_sanity_def split: option.splits)

theorem built_limits_sane_witness:
  "built (unlimited\<lparr>pids_max := Some 64\<rparr>)
   \<and> validate_runtime_sanity (unlimited\<lparr>pids_max := Some 64\<rparr>) = Ok ()"
proof -
  have "with_pids 64 unlimited = Inr (unlimited\<lparr>pids_max := Some 64\<rparr>)"
    by (simp add: with_pids_def RLIM_INFINITY_def)
  then have "built (unlimited\<lparr>pids_max := Some 64\<rparr>)"
    by (rule built_pids[OF built_unlimited])
  with built_limits_sane show ?thesis by blast
qed

text \<open>
  the CPU quota. With a rounding that is monotone and exact on integers up to \<open>2 ^ 53\<close>, as
  the rounding of double precision is, an accepted number of cores gives a quota of at most 65536
  periods, at least one period when at least one core is asked for, and nothing but the quota
  changes. Infinite, undefined, non-positive and too large counts are rejected.
\<close>

theorem with_cpu_cores_quota:
  assumes mono: "\<And>x y. x \<le> y \<Longrightarrow> rnd x \<le> rnd y"
    and exact: "\<And>n :: nat. n \<le> 2 ^ 53 \<Longrightarrow> rnd (of_nat n) = of_nat n"
    and period: "0 < cpu_period_us l" "unat (cpu_period_us l) \<le> 2 ^ 37"
  shows "(case cores of
      Finite c \<Rightarrow>
        (if 0 < c \<and> c \<le> 65536
         then \<exists>q. with_cpu_cores rnd cores l = Ok (l\<lparr>cpu_quota_us := Some q\<rparr>)
           \<and> unat q \<le> 65536 * unat (cpu_period_us l)
           \<and> (1 \<le> c \<longrightarrow> unat (cpu_period_us l) \<le> unat q)
         else \<not> is_ok (with_cpu_cores rnd cores l))
    | _ \<Rightarrow> \<not> is_ok (with_cpu_cores rnd cores l))"
proof (cases cores)
  case (Finite c)
  let ?p = "unat (cpu_period_us l)"
  have p0: "cpu_period_us l \<noteq> 0" and pp: "0 < ?p" using period(1) by (auto simp: unat_gt_0)
  show ?thesis
  proof (cases "0 < c \<and> c \<le> 65536")
    case True
    then have "with_cpu_cores rnd cores l = Ok (l\<lparr>cpu_quota_us :=
        Some (rat_to_u64 (rnd (c * rnd (of_nat ?p))))\<rparr>)"
      using p0 by (simp add: with_cpu_cores_def Finite)
    moreover have "unat (rat_to_u64 (rnd (c * rnd (of_nat ?p)))) \<le> 65536 * ?p"
      and "1 \<le> c \<longrightarrow> ?p \<le> unat (rat_to_u64 (rnd (c * rnd (of_nat ?p))))"
      using cpu_quota_bounds[where rnd = rnd, OF mono exact pp period(2)] True by blast+
    ultimately have "\<exists>q. with_cpu_cores rnd cores l = Ok (l\<lparr>cpu_quota_us := Some q\<rparr>)
        \<and> unat q \<le> 65536 * ?p \<and> (1 \<le> c \<longrightarrow> ?p \<le> unat q)" by blast
    with True show ?thesis unfolding Finite by simp
  next
    case False
    then show ?thesis by (auto simp: Finite with_cpu_cores_def)
  qed
qed (simp_all add: with_cpu_cores_def)

theorem with_cpu_cores_quota_witness:
  "\<exists>q. with_cpu_cores (\<lambda>x. x) (Finite 2) unlimited = Ok (unlimited\<lparr>cpu_quota_us := Some q\<rparr>)
     \<and> unat q \<le> 65536 * 100000 \<and> 100000 \<le> unat q"
  using with_cpu_cores_quota [of "\<lambda>x. x" unlimited "Finite 2"]
  by (auto simp: unlimited_def)

text \<open>
  the \<^verbatim>\<open>io.max\<close> line written for an accepted I/O limit specification parses back to the same limit,
  so nothing is lost or reordered between what the user wrote and what the kernel is told.
\<close>

theorem io_limit_roundtrip:
  "io_parse s = Ok l \<Longrightarrow> io_parse (to_io_max_line l) = Ok l"
  using io_parse_device io_parse_to_io_max_line by blast

theorem io_limit_roundtrip_witness:
  "io_parse (to_io_max_line \<lparr>device = ''8:0'', riops = Some 1000, wiops = None, rbps = None,
     wbps = Some 10485760\<rparr>)
   = Ok \<lparr>device = ''8:0'', riops = Some 1000, wiops = None, rbps = None, wbps = Some 10485760\<rparr>"
proof -
  have "io_parse '' 8:0 wbps=10485760  riops=1000''
      = Ok \<lparr>device = ''8:0'', riops = Some 1000, wiops = None, rbps = None, wbps = Some 10485760\<rparr>"
    by (simp add: io_parse_def io_set_param_def io_device_ok_def string_eval)
  then show ?thesis by (rule io_limit_roundtrip)
qed

end
