(* ===== verification/Net_Config.thy ===== *)
theory Net_Config
  imports Nucleus_Prelude
begin

text \<open>
  Network configuration (\<^verbatim>\<open>src/src/network/config.rs\<close>): bridge configuration and its validation,
  IPv4 addresses and CIDR blocks, egress policies, the credential broker endpoint and port
  forwards. An \<^verbatim>\<open>Ipv4Addr\<close> is its 32-bit value (\<^verbatim>\<open>u32::from\<close>, first octet most significant).
\<close>

unbundle bit_operations_syntax

section \<open>Addresses of the standard library\<close>

type_synonym ipv4addr = u32

definition octet :: "ipv4addr \<Rightarrow> nat \<Rightarrow> nat" where
  "octet ip i = unat (drop_bit (24 - 8 * i) ip) mod 256"

definition ipv4_of_octets :: "nat \<Rightarrow> nat \<Rightarrow> nat \<Rightarrow> nat \<Rightarrow> ipv4addr" where
  "ipv4_of_octets a b c d = of_nat (((a * 256 + b) * 256 + c) * 256 + d)"

text \<open>\<^verbatim>\<open>Display\<close> and \<^verbatim>\<open>FromStr\<close> of \<^verbatim>\<open>Ipv4Addr\<close>: four decimal octets of at most three digits, no leading zero.\<close>

definition show_ipv4 :: "ipv4addr \<Rightarrow> string" where
  "show_ipv4 ip = join ''.'' (map (\<lambda>i. show_nat (octet ip i)) [0, 1, 2, 3])"

definition parse_octet :: "string \<Rightarrow> nat option" where
  "parse_octet s =
     (if s \<noteq> [] \<and> length s \<le> 3 \<and> list_all is_ascii_digit s
         \<and> (hd s = CHR ''0'' \<longrightarrow> length s = 1) \<and> digits_val s < 256
      then Some (digits_val s) else None)"

definition parse_ipv4 :: "string \<Rightarrow> ipv4addr option" where
  "parse_ipv4 s =
     (case map parse_octet (split_on CHR ''.'' s) of
        [Some a, Some b, Some c, Some d] \<Rightarrow> Some (ipv4_of_octets a b c d)
      | _ \<Rightarrow> None)"

text \<open>
  \<^verbatim>\<open>FromStr\<close> of \<^verbatim>\<open>Ipv6Addr\<close>, as a recogniser: groups of one to four hexadecimal digits separated by
  colons, an embedded IPv4 address for the last two groups, and \<^verbatim>\<open>::\<close> for at least one group that is
  left out. \<open>ipv6_groups limit first s\<close> reads at most \<open>limit\<close> groups from the front of \<open>s\<close>; it gives
  how many groups were read, whether the last was an embedded IPv4 address, and the rest.
\<close>

definition ipv4_prefix :: "string \<Rightarrow> string option" where
  "ipv4_prefix s =
     (let n = length (takeWhile (\<lambda>c. is_ascii_digit c \<or> c = CHR ''.'') s)
      in map_option (\<lambda>k. drop k s)
           (find (\<lambda>k. parse_ipv4 (take k s) \<noteq> None) (rev [0..<Suc n])))"

definition hex_prefix :: "string \<Rightarrow> string option" where
  "hex_prefix s =
     (let h = takeWhile is_ascii_hexdigit s
      in if h = [] \<or> 4 < length h then None else Some (drop (length h) s))"

fun ipv6_groups :: "nat \<Rightarrow> nat \<Rightarrow> string \<Rightarrow> nat \<times> bool \<times> string" where
  "ipv6_groups 0 i s = (i, False, s)"
| "ipv6_groups (Suc limit) i s =
     (let body = (if i = 0 then Some s else strip_prefix '':'' s) in
      case body of
        None \<Rightarrow> (i, False, s)
      | Some b \<Rightarrow>
          (case (if 0 < limit then ipv4_prefix b else None) of
             Some r \<Rightarrow> (i + 2, True, r)
           | None \<Rightarrow>
               (case hex_prefix b of
                  Some r \<Rightarrow> ipv6_groups limit (Suc i) r
                | None \<Rightarrow> (i, False, s))))"

definition is_ipv6 :: "string \<Rightarrow> bool" where
  "is_ipv6 s =
     (case ipv6_groups 8 0 s of
        (head_size, head_ipv4, r) \<Rightarrow>
          (if head_size = 8 then r = []
           else if head_ipv4 then False
           else (case strip_prefix ''::'' r of
                   None \<Rightarrow> False
                 | Some t \<Rightarrow> snd (snd (ipv6_groups (8 - (head_size + 1)) 0 t)) = [])))"

section \<open>Modes and bridge configuration\<close>

datatype nat_backend = Auto | Kernel | Userspace

fun nat_backend_as_str :: "nat_backend \<Rightarrow> string" where
  "nat_backend_as_str Auto = ''auto''"
| "nat_backend_as_str Kernel = ''kernel''"
| "nat_backend_as_str Userspace = ''userspace''"

datatype protocol = Tcp | Udp

fun protocol_as_str :: "protocol \<Rightarrow> string" where
  "protocol_as_str Tcp = ''tcp''"
| "protocol_as_str Udp = ''udp''"

record port_forward =
  host_ip :: "ipv4addr option"
  host_port :: u16
  container_port :: u16
  pf_protocol :: protocol

record bridge_config =
  bridge_name :: string
  subnet :: string
  container_ip :: "string option"
  dns :: "string list"
  port_forwards :: "port_forward list"
  nat_backend :: nat_backend

datatype network_mode = NoNetwork | Host | GVisorHost | Bridge bridge_config

definition default_bridge_config :: bridge_config where
  "default_bridge_config = \<lparr>bridge_name = ''nucleus0'', subnet = ''10.0.42.0/24'',
     container_ip = None, dns = [], port_forwards = [], nat_backend = Auto\<rparr>"

definition with_public_dns :: "bridge_config \<Rightarrow> bridge_config" where
  "with_public_dns self = self\<lparr>dns := [''8.8.8.8'', ''8.8.4.4'']\<rparr>"

definition with_dns :: "string list \<Rightarrow> bridge_config \<Rightarrow> bridge_config" where
  "with_dns servers self = self\<lparr>dns := servers\<rparr>"

definition with_nat_backend :: "nat_backend \<Rightarrow> bridge_config \<Rightarrow> bridge_config" where
  "with_nat_backend backend self = self\<lparr>nat_backend := backend\<rparr>"

fun selected_nat_backend :: "bridge_config \<Rightarrow> bool \<Rightarrow> bool \<Rightarrow> nat_backend" where
  "selected_nat_backend self host_is_root rootless =
     (case nat_backend self of
        Auto \<Rightarrow> (if host_is_root \<and> \<not> rootless then Kernel else Userspace)
      | explicit \<Rightarrow> explicit)"

definition validate_octet :: "string \<Rightarrow> string + unit" where
  "validate_octet part =
     (if part = [] then Err ''Invalid IPv4 address: {}''
      else if length part > 1 \<and> hd part = CHR ''0''
      then Err ''Invalid IPv4 address: {} - octet {} has leading zero''
      else if (parse_word part :: u8 option) = None then Err ''Invalid IPv4 address: {}''
      else Ok ())"

definition validate_ipv4_addr :: "string \<Rightarrow> string + unit" where
  "validate_ipv4_addr s =
     (let parts = split_on CHR ''.'' s in
      if length parts \<noteq> 4 then Err ''Invalid IPv4 address: {}''
      else for_each validate_octet parts)"

definition parse_ipv4_cidr :: "string \<Rightarrow> string + ipv4addr \<times> u8" where
  "parse_ipv4_cidr s =
     and_then (ok_or (split_once CHR ''/'' s) ''Invalid CIDR (missing /prefix): {}'')
       (\<lambda>(addr, plen).
        and_then (validate_ipv4_addr addr) (\<lambda>_.
        and_then (ok_or (parse_ipv4 addr) ''Invalid IPv4 address: {}'') (\<lambda>ip.
        and_then (ok_or (parse_word plen) ''Invalid CIDR prefix: {}'') (\<lambda>p.
        if (32 :: u8) < p then Err ''CIDR prefix must be 0-32, got {}'' else Ok (ip, p)))))"

definition ipv4_mask :: "u8 \<Rightarrow> u32" where
  "ipv4_mask plen = (if plen = 0 then 0 else push_bit (32 - unat plen) (- 1))"

definition ipv4_in_cidr :: "ipv4addr \<Rightarrow> ipv4addr \<Rightarrow> u8 \<Rightarrow> bool" where
  "ipv4_in_cidr ip network plen =
     (let mask = ipv4_mask plen in (ip AND mask) = (network AND mask))"

definition validate_ipv4_cidr :: "string \<Rightarrow> string + unit" where
  "validate_ipv4_cidr s = and_then (parse_ipv4_cidr s) (\<lambda>_. Ok ())"

definition validate_egress_cidr :: "string \<Rightarrow> string + unit" where
  "validate_egress_cidr s = validate_ipv4_cidr s"

definition contains_ipv4 :: "bridge_config \<Rightarrow> ipv4addr \<Rightarrow> string + bool" where
  "contains_ipv4 self ip =
     and_then (parse_ipv4_cidr (subnet self)) (\<lambda>(network, plen).
       Ok (ipv4_in_cidr ip network plen))"

definition gateway_ipv4 :: "bridge_config \<Rightarrow> string + ipv4addr" where
  "gateway_ipv4 self =
     and_then (parse_ipv4_cidr (subnet self)) (\<lambda>(network, plen).
       let network_u32 = network AND ipv4_mask plen in
       if 31 \<le> plen then Ok network_u32
       else ok_or (checked_add network_u32 1) ''CIDR {} overflowed'')"

definition valid_bridge_name_char :: "char \<Rightarrow> bool" where
  "valid_bridge_name_char c \<longleftrightarrow> is_ascii_alphanumeric c \<or> c = CHR ''-'' \<or> c = CHR ''_''"

definition bridge_validate :: "bridge_config \<Rightarrow> unit result" where
  "bridge_validate self =
     (if bridge_name self = [] \<or> length (bridge_name self) > 15
      then Err (NetworkError ''Bridge name must be 1-15 characters, got {}'')
      else if \<not> list_all valid_bridge_name_char (bridge_name self)
      then Err (NetworkError
        ''Bridge name contains invalid characters (allowed: a-zA-Z0-9_-): {}'')
      else and_then (map_err NetworkError (validate_ipv4_cidr (subnet self))) (\<lambda>_.
        and_then (case container_ip self of
            None \<Rightarrow> Ok ()
          | Some ip \<Rightarrow> map_err NetworkError (validate_ipv4_addr ip)) (\<lambda>_.
        for_each (\<lambda>d. map_err NetworkError (validate_ipv4_addr d)) (dns self))))"

section \<open>Egress domains\<close>

definition validate_domain_label :: "string \<Rightarrow> string + unit" where
  "validate_domain_label label =
     (if label = [] then Err ''Egress domain {} contains an empty label''
      else if length label > 63
      then Err ''Egress domain {} contains a label longer than 63 bytes''
      else if hd label = CHR ''-'' \<or> last label = CHR ''-''
      then Err ''Egress domain {} contains a label starting or ending with -''
      else if \<not> list_all (\<lambda>b. is_ascii_alphanumeric b \<or> b = CHR ''-'') label
      then Err ''Egress domain {} contains invalid characters''
      else Ok ())"

definition validate_egress_domain :: "string \<Rightarrow> string + unit" where
  "validate_egress_domain s =
     (if s = [] then Err ''Egress domain cannot be empty''
      else if parse_ipv4 s \<noteq> None \<or> is_ipv6 s
      then Err ''Egress domain {} is an IP address; use --egress-allow with a CIDR''
      else (let domain = (if last s = CHR ''.'' then butlast s else s) in
        if domain = [] then Err ''Egress domain cannot be only .''
        else if length domain > 253 then Err ''Egress domain {} is longer than 253 bytes''
        else if CHR ''.'' \<notin> set domain
        then Err ''Egress domain {} must be a fully-qualified name with at least one dot''
        else for_each validate_domain_label (split_on CHR ''.'' domain)))"

section \<open>Credential broker and egress policy\<close>

record credential_broker_config =
  broker_ip :: ipv4addr
  broker_port :: u16
  inject_proxy_env :: bool

record egress_policy =
  allowed_cidrs :: "string list"
  allowed_domains :: "string list"
  allowed_tcp_ports :: "u16 list"
  allowed_udp_ports :: "u16 list"
  log_denied :: bool
  allow_dns :: bool

definition default_egress_policy :: egress_policy where
  "default_egress_policy = \<lparr>allowed_cidrs = [], allowed_domains = [], allowed_tcp_ports = [],
     allowed_udp_ports = [], log_denied = True, allow_dns = True\<rparr>"

definition deny_all :: egress_policy where
  "deny_all = default_egress_policy\<lparr>allow_dns := False\<rparr>"

definition with_allowed_cidrs :: "string list \<Rightarrow> egress_policy \<Rightarrow> egress_policy" where
  "with_allowed_cidrs cidrs self = self\<lparr>allowed_cidrs := cidrs\<rparr>"

definition with_allowed_domains :: "string list \<Rightarrow> egress_policy \<Rightarrow> egress_policy" where
  "with_allowed_domains domains self = self\<lparr>allowed_domains := domains\<rparr>"

definition with_allowed_tcp_ports :: "u16 list \<Rightarrow> egress_policy \<Rightarrow> egress_policy" where
  "with_allowed_tcp_ports ports self = self\<lparr>allowed_tcp_ports := ports\<rparr>"

definition with_allowed_udp_ports :: "u16 list \<Rightarrow> egress_policy \<Rightarrow> egress_policy" where
  "with_allowed_udp_ports ports self = self\<lparr>allowed_udp_ports := ports\<rparr>"

definition broker_cidr :: "credential_broker_config \<Rightarrow> string" where
  "broker_cidr self = show_ipv4 (broker_ip self) @ ''/32''"

definition credential_broker_only :: "credential_broker_config \<Rightarrow> egress_policy" where
  "credential_broker_only broker =
     with_allowed_tcp_ports [broker_port broker] (with_allowed_cidrs [broker_cidr broker] deny_all)"

definition is_credential_broker_only :: "egress_policy \<Rightarrow> credential_broker_config \<Rightarrow> bool" where
  "is_credential_broker_only self broker \<longleftrightarrow>
     allowed_cidrs self = [broker_cidr broker] \<and> allowed_domains self = []
     \<and> allowed_tcp_ports self = [broker_port broker] \<and> allowed_udp_ports self = []
     \<and> \<not> allow_dns self"

definition broker_new :: "ipv4addr \<Rightarrow> u16 \<Rightarrow> credential_broker_config" where
  "broker_new ip port = \<lparr>broker_ip = ip, broker_port = port, inject_proxy_env = True\<rparr>"

definition broker_validate :: "credential_broker_config \<Rightarrow> string + unit" where
  "broker_validate self =
     (if broker_port self = 0 then Err ''Credential broker port must be non-zero''
      else if broker_ip self = 0 then Err ''Credential broker IP must not be 0.0.0.0''
      else if octet (broker_ip self) 0 = 127
      then Err ''Credential broker IP must be reachable on the bridge, not container loopback''
      else if 224 \<le> octet (broker_ip self) 0 \<and> octet (broker_ip self) 0 \<le> 239
          \<or> broker_ip self = - 1
      then Err ''Credential broker IP must be a unicast IPv4 address''
      else Ok ())"

text \<open>\<^verbatim>\<open>FromStr\<close> of \<^verbatim>\<open>SocketAddrV4\<close>: an IPv4 address, a colon and a decimal port (no sign) below 65536.\<close>

definition parse_socket_addr_v4 :: "string \<Rightarrow> (ipv4addr \<times> u16) option" where
  "parse_socket_addr_v4 s =
     (case split_once CHR '':'' s of
        None \<Rightarrow> None
      | Some (a, p) \<Rightarrow>
          (case parse_ipv4 a of
             None \<Rightarrow> None
           | Some ip \<Rightarrow>
               (if p \<noteq> [] \<and> list_all is_ascii_digit p \<and> digits_val p < 2 ^ 16
                then Some (ip, of_nat (digits_val p)) else None)))"

definition parse_endpoint :: "string \<Rightarrow> string + credential_broker_config" where
  "parse_endpoint endpoint =
     and_then (ok_or (parse_socket_addr_v4 endpoint)
         ''Invalid credential broker endpoint {}, expected IPv4:PORT'')
       (\<lambda>(ip, port). let config = broker_new ip port in
         and_then (broker_validate config) (\<lambda>_. Ok config))"

definition with_proxy_env :: "bool \<Rightarrow> credential_broker_config \<Rightarrow> credential_broker_config" where
  "with_proxy_env b self = self\<lparr>inject_proxy_env := b\<rparr>"

definition validate_for_bridge :: "credential_broker_config \<Rightarrow> bridge_config \<Rightarrow> string + unit" where
  "validate_for_bridge self bridge =
     and_then (broker_validate self) (\<lambda>_.
     and_then (gateway_ipv4 bridge) (\<lambda>gateway.
     if broker_ip self \<noteq> gateway
     then Err ''Credential broker IP must be the host-side bridge address {} for subnet {}, got {}''
     else Ok ()))"

definition proxy_url :: "credential_broker_config \<Rightarrow> string" where
  "proxy_url self = ''http://'' @ show_ipv4 (broker_ip self) @ '':'' @ show_word (broker_port self)"

definition proxy_environment :: "credential_broker_config \<Rightarrow> (string \<times> string) list" where
  "proxy_environment self =
     (if \<not> inject_proxy_env self then []
      else map (\<lambda>key. (key, proxy_url self))
             [''HTTPS_PROXY'', ''HTTP_PROXY'', ''https_proxy'', ''http_proxy''])"

section \<open>Port forwards\<close>

definition port_forward_protocol :: "string \<Rightarrow> (string \<times> protocol) result" where
  "port_forward_protocol spec =
     (case rsplit_once CHR ''/'' spec of
        Some (p, proto) \<Rightarrow>
          (if proto = ''tcp'' then Ok (p, Tcp)
           else if proto = ''udp'' then Ok (p, Udp)
           else Err (ConfigError ''Invalid protocol {}, must be tcp or udp''))
      | None \<Rightarrow> Ok (spec, Tcp))"

definition port_forward_parse :: "string \<Rightarrow> port_forward result" where
  "port_forward_parse spec =
     and_then (port_forward_protocol spec) (\<lambda>(ports, protocol).
     and_then
       (case split_on CHR '':'' ports of
          [hp, cp] \<Rightarrow> Ok (None, hp, cp)
        | [h, hp, cp] \<Rightarrow>
            and_then (map_err ConfigError (validate_ipv4_addr h)) (\<lambda>_.
            and_then (ok_or (parse_ipv4 h) (ConfigError ''Invalid host IP address: {}''))
              (\<lambda>ip. Ok (Some ip, hp, cp)))
        | _ \<Rightarrow> Err (ConfigError
            ''Invalid port forward format {}, expected HOST:CONTAINER or HOST_IP:HOST:CONTAINER''))
       (\<lambda>(ip, hp, cp).
        and_then (ok_or (parse_word hp) (ConfigError ''Invalid host port: {}'')) (\<lambda>h.
        and_then (ok_or (parse_word cp) (ConfigError ''Invalid container port: {}'')) (\<lambda>c.
        Ok \<lparr>host_ip = ip, host_port = h, container_port = c, pf_protocol = protocol\<rparr>))))"

section \<open>Addresses and their text\<close>

lemma octet_bound [simp]: "octet ip i < 256"
  by (simp add: octet_def)

lemma show_nat_hd_zero: "hd (show_nat n) = CHR ''0'' \<Longrightarrow> n = 0"
proof (induction n rule: show_nat.induct)
  case (1 n)
  show ?case
  proof (cases "n < 10")
    case True
    with 1(2) have "of_char (digit_char n) = (48 :: nat)"
      by (simp add: show_nat.simps[of n])
    with True show ?thesis by simp
  next
    case False
    with 1 show ?thesis by (simp add: show_nat.simps[of n])
  qed
qed

lemma show_nat_length_octet: "n < 256 \<Longrightarrow> length (show_nat n) \<le> 3"
  using show_nat.simps[of n] show_nat.simps[of "n div 10"] show_nat.simps[of "n div 10 div 10"]
  by (auto split: if_splits)

lemma parse_octet_show [simp]: "n < 256 \<Longrightarrow> parse_octet (show_nat n) = Some n"
  using show_nat_hd_zero[of n] show_nat_length_octet[of n]
  by (auto simp: parse_octet_def list_all_iff show_nat_digits show_nat.simps[of 0])

lemma no_sep_show_nat: "CHR ''.'' \<notin> set (show_nat n)" "CHR ''/'' \<notin> set (show_nat n)"
  "CHR '':'' \<notin> set (show_nat n)"
  using show_nat_digits[of _ n] digit_not_sep by blast+

lemma octets_sum:
  fixes n :: nat
  assumes "n < 2 ^ 32"
  shows "((n div 2 ^ 24 mod 256 * 256 + n div 2 ^ 16 mod 256) * 256 + n div 2 ^ 8 mod 256) * 256
           + n mod 256 = n"
proof -
  have d: "n div 2 ^ 16 = n div 2 ^ 8 div 256" "n div 2 ^ 24 = n div 2 ^ 8 div 256 div 256"
    by (simp_all add: div_mult2_eq[symmetric])
  have "n div 2 ^ 24 < 256" using assms by (simp add: less_mult_imp_div_less)
  then have "n div 2 ^ 24 mod 256 = n div 2 ^ 8 div 256 div 256" by (simp add: d)
  then show ?thesis unfolding d by (simp add: div_mult_mod_eq)
qed

lemma ipv4_of_octets_octet [simp]:
  "ipv4_of_octets (octet ip 0) (octet ip 1) (octet ip 2) (octet ip 3) = ip"
proof -
  have u: "octet ip i = unat ip div 2 ^ (24 - 8 * i) mod 256" for i
    by (simp only: octet_def unat_drop_bit_eq) (simp add: drop_bit_eq_div)
  have "((octet ip 0 * 256 + octet ip 1) * 256 + octet ip 2) * 256 + octet ip 3 = unat ip"
    using octets_sum[of "unat ip"] unat_bound_word[of ip] by (simp add: u)
  then show ?thesis by (simp only: ipv4_of_octets_def of_nat_unat) simp
qed

lemma split_show_ipv4:
  "split_on CHR ''.'' (show_ipv4 ip) = map (\<lambda>i. show_nat (octet ip i)) [0, 1, 2, 3]"
  unfolding show_ipv4_def by (intro split_on_join) (auto simp: no_sep_show_nat)

lemma parse_show_ipv4 [simp]: "parse_ipv4 (show_ipv4 ip) = Some ip"
  using ipv4_of_octets_octet[of ip] by (simp add: parse_ipv4_def split_show_ipv4)

lemma show_ipv4_inject: "show_ipv4 a = show_ipv4 b \<longleftrightarrow> a = b"
  by (metis option.inject parse_show_ipv4)

lemma show_ipv4_chars: "c \<in> set (show_ipv4 ip) \<Longrightarrow> is_ascii_digit c \<or> c = CHR ''.''"
  using show_nat_digits by (fastforce simp: show_ipv4_def)

lemma show_ipv4_no_sep: "CHR ''/'' \<notin> set (show_ipv4 ip)" "CHR '':'' \<notin> set (show_ipv4 ip)"
  using show_ipv4_chars[of _ ip] digit_not_sep by blast+

text \<open>An octet in canonical form passes the configuration's own octet check.\<close>

lemma validate_octet_show: "n < 256 \<Longrightarrow> validate_octet (show_nat n) = Ok ()"
  using show_nat_hd_zero[of n]
  by (auto simp: validate_octet_def parse_word_def parse_uint_show_nat show_nat.simps[of 0])

lemma validate_show_ipv4 [simp]: "validate_ipv4_addr (show_ipv4 ip) = Ok ()"
  by (simp add: validate_ipv4_addr_def split_show_ipv4 validate_octet_show)

text \<open>What the octet check lets through: decimal digits, with at most one leading plus sign.\<close>

lemma validate_octet_chars:
  assumes "validate_octet s = Ok u"
  shows "s \<noteq> [] \<and> (\<forall>c\<in>set s. is_ascii_digit c \<or> c = CHR ''+'')"
proof -
  from assms obtain w where "(parse_word s :: u8 option) = Some w" and ne: "s \<noteq> []"
    by (auto simp: validate_octet_def split: if_splits)
  then obtain n where "parse_uint 8 s = Some n" by (auto simp: parse_word_def)
  then show ?thesis using ne
    by (cases "strip_prefix ''+'' s")
      (auto simp: parse_uint_def Let_def list_all_iff strip_prefix_Some_iff split: if_splits)
qed

lemma split_by_chars: "c \<in> set s \<Longrightarrow> p c \<or> (\<exists>w\<in>set (split_by p s). c \<in> set w)"
proof (induction s)
  case (Cons d s)
  then show ?case by (cases "split_by p s") auto
qed simp

lemma validate_ipv4_addr_chars:
  assumes "validate_ipv4_addr s = Ok u"
  shows "s \<noteq> [] \<and> (\<forall>c\<in>set s. is_ascii_digit c \<or> c = CHR ''.'' \<or> c = CHR ''+'')"
proof -
  from assms have "length (split_on CHR ''.'' s) = 4"
    and a: "\<And>w. w \<in> set (split_on CHR ''.'' s) \<Longrightarrow> validate_octet w = Ok ()"
    by (auto simp: validate_ipv4_addr_def Let_def for_each_Inr_iff split: if_splits)
  then have "s \<noteq> []" by (auto simp: split_on_def)
  moreover have "is_ascii_digit c \<or> c = CHR ''.'' \<or> c = CHR ''+''" if c: "c \<in> set s" for c
    using split_by_chars[OF c, of "\<lambda>c. c = CHR ''.''"] a validate_octet_chars
    by (auto simp: split_on_def)
  ultimately show ?thesis by blast
qed

section \<open>CIDR blocks\<close>

lemma and_high_mask: "(x :: u32) AND push_bit k (- 1) = push_bit k (drop_bit k x)"
  by (rule bit_eqI) (auto simp: bit_simps)

lemma and_mask:
  "unat plen \<le> 32 \<Longrightarrow>
     x AND ipv4_mask plen = push_bit (32 - unat plen) (drop_bit (32 - unat plen) x)"
proof (cases "plen = 0")
  case True
  have "drop_bit 32 x = 0" by (rule bit_eqI) (auto simp: bit_simps dest: bit_imp_le_length)
  with True show ?thesis by (simp add: ipv4_mask_def)
qed (simp only: ipv4_mask_def and_high_mask if_False)

lemma unat_and_mask:
  "unat plen \<le> 32 \<Longrightarrow> unat (x AND ipv4_mask plen) = unat x div 2 ^ (32 - unat plen) * 2 ^ (32 - unat plen)"
proof -
  assume p: "unat plen \<le> 32"
  let ?k = "32 - unat plen"
  have "unat x div 2 ^ ?k * 2 ^ ?k \<le> unat x" by simp
  also have "\<dots> < 2 ^ 32" using unat_bound_word[of x] by simp
  finally have "unat x div 2 ^ ?k * 2 ^ ?k < 2 ^ 32" .
  then show ?thesis
    by (simp only: and_mask[OF p] unsigned_push_bit_eq unat_drop_bit_eq)
      (simp add: drop_bit_eq_div push_bit_eq_mult take_bit_nat_eq_self)
qed

lemma le_32_unat: "\<not> (32 :: u8) < p \<longleftrightarrow> unat p \<le> 32"
  by (simp add: not_less word_le_nat_alt)

lemma parse_ipv4_cidr_Ok:
  "parse_ipv4_cidr s = Ok (ip, plen) \<longleftrightarrow>
     (\<exists>a p. split_once CHR ''/'' s = Some (a, p) \<and> validate_ipv4_addr a = Ok ()
        \<and> parse_ipv4 a = Some ip \<and> parse_word p = Some plen \<and> unat plen \<le> 32)"
  by (fastforce simp: parse_ipv4_cidr_def result_simps le_32_unat[symmetric] split: if_splits)

text \<open>
  two addresses are in the same block exactly when they agree on the prefix: the mask
  arithmetic of \<open>ipv4_in_cidr\<close>, shift included, is division by the block size, for every prefix
  length from 0 to 32.
\<close>

theorem ipv4_in_cidr_iff:
  assumes "unat plen \<le> 32"
  shows "ipv4_in_cidr ip network plen \<longleftrightarrow>
    unat ip div 2 ^ (32 - unat plen) = unat network div 2 ^ (32 - unat plen)"
proof -
  have "ipv4_in_cidr ip network plen \<longleftrightarrow>
      unat (ip AND ipv4_mask plen) = unat (network AND ipv4_mask plen)"
    by (simp add: ipv4_in_cidr_def Let_def word_unat_eq_iff)
  then show ?thesis using assms by (simp add: unat_and_mask)
qed

theorem ipv4_in_cidr_iff_witness:
  "ipv4_in_cidr (ipv4_of_octets 10 0 42 7) (ipv4_of_octets 10 0 42 0) 24
     \<and> \<not> ipv4_in_cidr (ipv4_of_octets 10 0 43 7) (ipv4_of_octets 10 0 42 0) 24"
  using ipv4_in_cidr_iff[of 24 "ipv4_of_octets 10 0 42 7" "ipv4_of_octets 10 0 42 0"]
    ipv4_in_cidr_iff[of 24 "ipv4_of_octets 10 0 43 7" "ipv4_of_octets 10 0 42 0"]
  by (simp add: ipv4_of_octets_def)

lemma checked_gateway:
  fixes n :: u32
  assumes p: "unat plen < 31"
  shows "\<exists>gw. checked_add (n AND ipv4_mask plen) 1 = Some gw
    \<and> unat gw = unat n div 2 ^ (32 - unat plen) * 2 ^ (32 - unat plen) + 1"
proof -
  let ?k = "32 - unat plen" and ?m = "n AND ipv4_mask plen"
  have u: "unat ?m = unat n div 2 ^ ?k * 2 ^ ?k" using p by (simp add: unat_and_mask)
  have "2 ^ ?k = 2 * (2 :: nat) ^ (31 - unat plen)"
    using p by (simp add: Suc_diff_Suc flip: power_Suc)
  then have "even (unat ?m)" by (simp add: u)
  moreover have "unat ?m < 2 ^ 32" using unat_bound_word[of ?m] by simp
  ultimately have "unat ?m + 1 < 2 ^ 32" by (simp add: less_eq_Suc_le) presburger
  then have "checked_add ?m 1 = Some (?m + 1)" by (simp add: checked_add_def)
  from checked_add_Some[OF this] u this show ?thesis by auto
qed

lemma gateway_contained:
  assumes "parse_ipv4_cidr (subnet b) = Ok (network, plen)"
  shows "\<exists>gw. gateway_ipv4 b = Ok gw \<and> contains_ipv4 b gw = Ok True
    \<and> unat gw = unat network div 2 ^ (32 - unat plen) * 2 ^ (32 - unat plen)
                  + (if unat plen < 31 then 1 else 0)"
proof -
  from assms have p: "unat plen \<le> 32" by (auto simp: parse_ipv4_cidr_Ok)
  have le: "31 \<le> plen \<longleftrightarrow> \<not> unat plen < 31" by (simp add: word_le_nat_alt not_less)
  have "\<exists>gw. gateway_ipv4 b = Ok gw
    \<and> unat gw = unat network div 2 ^ (32 - unat plen) * 2 ^ (32 - unat plen)
                  + (if unat plen < 31 then 1 else 0)"
    using checked_gateway[of plen network] unat_and_mask[OF p, of network]
    by (auto simp: gateway_ipv4_def assms Let_def le)
  then obtain gw where gw: "gateway_ipv4 b = Ok gw"
    "unat gw = unat network div 2 ^ (32 - unat plen) * 2 ^ (32 - unat plen)
       + (if unat plen < 31 then 1 else 0)" by blast
  have "(1 :: nat) < 2 ^ (32 - unat plen)" if "unat plen < 31"
    using that by (intro one_less_power) auto
  then have "unat gw div 2 ^ (32 - unat plen) = unat network div 2 ^ (32 - unat plen)"
    by (simp add: gw(2))
  then have "(gw AND ipv4_mask plen) = (network AND ipv4_mask plen)"
    using p by (simp add: word_unat_eq_iff unat_and_mask)
  then have "contains_ipv4 b gw = Ok True"
    by (simp add: contains_ipv4_def assms ipv4_in_cidr_def)
  with gw show ?thesis by blast
qed

text \<open>
  the gateway address never fails on a subnet that parses (the addition cannot overflow), and
  it lies in the subnet: the first usable address of a block of more than two addresses, the block's
  own address otherwise.
\<close>

theorem gateway_in_subnet:
  assumes "parse_ipv4_cidr (subnet b) = Ok (network, plen)"
  shows "\<exists>gw. gateway_ipv4 b = Ok gw \<and> contains_ipv4 b gw = Ok True
    \<and> unat gw = unat network div 2 ^ (32 - unat plen) * 2 ^ (32 - unat plen)
                  + (if unat plen < 31 then 1 else 0)"
  by (rule gateway_contained[OF assms])

lemma parse_default_subnet:
  "parse_ipv4_cidr (subnet default_bridge_config) = Ok (ipv4_of_octets 10 0 42 0, 24)"
  by (simp add: parse_ipv4_cidr_def default_bridge_config_def validate_ipv4_addr_def
      validate_octet_def parse_ipv4_def parse_octet_def string_eval)

theorem gateway_in_subnet_witness:
  "\<exists>gw. gateway_ipv4 default_bridge_config = Ok gw
     \<and> contains_ipv4 default_bridge_config gw = Ok True \<and> unat gw = 0x0A002A01"
  using gateway_in_subnet[OF parse_default_subnet] by (simp add: ipv4_of_octets_def)

section \<open>Bridge configuration\<close>

text \<open>The text of a validated field cannot be read as an option of \<^verbatim>\<open>ip\<close> or \<^verbatim>\<open>iptables\<close>.\<close>

definition argument_safe :: "string \<Rightarrow> bool" where
  "argument_safe s \<longleftrightarrow> s \<noteq> [] \<and> (\<forall>c\<in>set s. is_ascii_digit c \<or> c \<in> set ''.+/'')"

lemma argument_safe_addr: "validate_ipv4_addr s = Ok u \<Longrightarrow> argument_safe s"
  using validate_ipv4_addr_chars by (auto simp: argument_safe_def)

lemma parse_word_chars:
  assumes "parse_word s = Some (w :: 'a::len word)"
  shows "s \<noteq> [] \<and> (\<forall>c\<in>set s. is_ascii_digit c \<or> c = CHR ''+'')"
proof -
  from unat_parse_word[OF assms] show ?thesis
    by (cases "strip_prefix ''+'' s")
      (auto simp: parse_uint_def Let_def list_all_iff strip_prefix_Some_iff split: if_splits)
qed

lemma argument_safe_cidr:
  assumes "parse_ipv4_cidr s = Ok r"
  shows "argument_safe s"
proof -
  from assms obtain a p where s: "s = a @ CHR ''/'' # p"
    and a: "validate_ipv4_addr a = Ok ()" and p: "parse_word p = Some (snd r)"
    by (cases r) (auto simp: parse_ipv4_cidr_Ok split_once_Some_iff)
  from argument_safe_addr[OF a] parse_word_chars[OF p] show ?thesis
    by (auto simp: s argument_safe_def)
qed

text \<open>
  a bridge configuration that passes validation has a bridge name of 1 to 15 characters from
  the allowed alphabet, a subnet that parses, and only subnet, container and DNS addresses made of
  digits, dots, slashes and plus signs, so that none of these starts with a dash or holds white
  space. (The name itself may start with a dash.)
\<close>

theorem bridge_validate_sound:
  assumes "bridge_validate b = Ok ()"
  shows "bridge_name b \<noteq> [] \<and> length (bridge_name b) \<le> 15
    \<and> list_all valid_bridge_name_char (bridge_name b)
    \<and> is_ok (gateway_ipv4 b)
    \<and> (\<forall>s \<in> set (subnet b # dns b) \<union> set_option (container_ip b). argument_safe s)"
proof -
  from assms have n: "bridge_name b \<noteq> []" "length (bridge_name b) \<le> 15"
    "list_all valid_bridge_name_char (bridge_name b)"
    and cidr: "is_ok (parse_ipv4_cidr (subnet b))"
    and ip: "\<And>ip. container_ip b = Some ip \<Longrightarrow> validate_ipv4_addr ip = Ok ()"
    and d: "\<And>s. s \<in> set (dns b) \<Longrightarrow> validate_ipv4_addr s = Ok ()"
    by (auto simp: bridge_validate_def validate_ipv4_cidr_def result_simps is_ok_iff
        split: if_splits)
  from cidr obtain net plen where c: "parse_ipv4_cidr (subnet b) = Ok (net, plen)"
    by (auto simp: is_ok_iff)
  have "is_ok (gateway_ipv4 b)"
  proof (cases "31 \<le> plen")
    case False
    then have "unat plen < 31" by (simp add: word_le_nat_alt)
    from checked_gateway[OF this, of net] False show ?thesis
      by (auto simp: gateway_ipv4_def c Let_def)
  qed (simp add: gateway_ipv4_def c)
  moreover have "argument_safe s" if "s \<in> set (subnet b # dns b) \<union> set_option (container_ip b)" for s
    using that argument_safe_cidr[OF c] argument_safe_addr[OF ip] argument_safe_addr[OF d]
    by (auto simp: elem_set)
  ultimately show ?thesis using n by blast
qed

lemma bridge_validate_public_dns: "bridge_validate (with_public_dns default_bridge_config) = Ok ()"
  using parse_default_subnet
  by (simp add: bridge_validate_def validate_ipv4_cidr_def with_public_dns_def)
    (simp add: default_bridge_config_def validate_ipv4_addr_def validate_octet_def
      valid_bridge_name_char_def string_eval)

theorem bridge_validate_sound_witness:
  "is_ok (gateway_ipv4 (with_public_dns default_bridge_config))
     \<and> argument_safe ''8.8.4.4'' \<and> argument_safe ''10.0.42.0/24''"
  using bridge_validate_sound[OF bridge_validate_public_dns]
  by (simp add: with_public_dns_def default_bridge_config_def)

lemmas bridge_eval = default_bridge_config_def validate_ipv4_addr_def validate_octet_def
  valid_bridge_name_char_def string_eval

text \<open>
  validation is there to prevent argument injection and lets two things through. The octet
  check reads each octet as a \<^verbatim>\<open>u8\<close>, whose parser takes a leading plus sign, so a bridge whose DNS
  server is \<^verbatim>\<open>+8.8.8.8\<close> validates although that text is no IPv4 address; and a bridge name may start
  with a dash, so a bridge named \<^verbatim>\<open>-F\<close> validates.
\<close>

theorem bridge_validate_gaps:
  "bridge_validate (with_dns [''+8.8.8.8''] default_bridge_config) = Ok ()
     \<and> parse_ipv4 ''+8.8.8.8'' = None
     \<and> bridge_validate (default_bridge_config\<lparr>bridge_name := ''-F''\<rparr>) = Ok ()"
proof (intro conjI)
  show "bridge_validate (with_dns [''+8.8.8.8''] default_bridge_config) = Ok ()"
    using parse_default_subnet
    by (simp add: bridge_validate_def validate_ipv4_cidr_def with_dns_def)
      (simp add: bridge_eval)
  show "bridge_validate (default_bridge_config\<lparr>bridge_name := ''-F''\<rparr>) = Ok ()"
    using parse_default_subnet
    by (simp add: bridge_validate_def validate_ipv4_cidr_def) (simp add: bridge_eval)
qed (simp add: parse_ipv4_def parse_octet_def string_eval)

section \<open>Port forwards and the credential broker\<close>

text \<open>The canonical text of a port forward.\<close>

definition port_forward_text :: "port_forward \<Rightarrow> string" where
  "port_forward_text pf =
     join '':'' ((case host_ip pf of None \<Rightarrow> [] | Some ip \<Rightarrow> [show_ipv4 ip])
       @ [show_word (host_port pf), show_word (container_port pf)])
     @ ''/'' @ protocol_as_str (pf_protocol pf)"

lemma protocol_no_slash: "CHR ''/'' \<notin> set (protocol_as_str p)"
  by (cases p) simp_all

lemma port_forward_protocol_text [simp]:
  "port_forward_protocol (s @ CHR ''/'' # protocol_as_str p) = Ok (s, p)"
proof -
  have "rsplit_once CHR ''/'' (s @ CHR ''/'' # protocol_as_str p) = Some (s, protocol_as_str p)"
    by (simp add: rsplit_once_Some_iff protocol_no_slash)
  then show ?thesis by (cases p) (simp_all add: port_forward_protocol_def)
qed

text \<open>
  every port forward parses back from its text, with its host address, both ports and its
  protocol unchanged.
\<close>

theorem port_forward_roundtrip: "port_forward_parse (port_forward_text pf) = Ok pf"
proof -
  obtain ip h c p where pf:
    "pf = \<lparr>host_ip = ip, host_port = h, container_port = c, pf_protocol = p\<rparr>"
    by (cases pf) auto
  define ws where
    "ws = (case ip of None \<Rightarrow> [] | Some ip \<Rightarrow> [show_ipv4 ip]) @ [show_word h, show_word c]"
  have "split_on CHR '':'' (join '':'' ws) = ws"
    by (rule split_on_join)
      (auto simp: ws_def show_word_def no_sep_show_nat show_ipv4_no_sep split: option.splits)
  moreover have "port_forward_text pf = join '':'' ws @ CHR ''/'' # protocol_as_str p"
    by (simp add: port_forward_text_def pf ws_def)
  ultimately show ?thesis
    by (cases ip) (simp_all add: port_forward_parse_def pf, simp_all add: ws_def)
qed

lemma parse_broker_cidr [simp]: "parse_ipv4_cidr (broker_cidr b) = Ok (broker_ip b, 32)"
proof -
  have "split_once CHR ''/'' (broker_cidr b) = Some (show_ipv4 (broker_ip b), ''32'')"
    by (simp add: split_once_Some_iff broker_cidr_def show_ipv4_no_sep)
  moreover have "parse_word ''32'' = Some (32 :: u8)"
    by (simp add: string_eval)
  ultimately show ?thesis by (simp add: parse_ipv4_cidr_def)
qed

lemma broker_cidr_exact: "ipv4_in_cidr ip (broker_ip b) 32 \<longleftrightarrow> ip = broker_ip b"
proof -
  have "unat (x AND ipv4_mask 32) = unat x" for x :: u32
    using unat_and_mask[of 32 x] by simp
  then show ?thesis by (simp add: ipv4_in_cidr_def Let_def word_unat_eq_iff)
qed

text \<open>
  an endpoint that parses is a usable unicast address with a non-zero port, and one accepted
  for a bridge is the bridge's gateway, an address inside the bridge's subnet.
\<close>

theorem broker_for_bridge:
  assumes "validate_for_bridge b bridge = Ok ()"
  shows "broker_port b \<noteq> 0 \<and> broker_ip b \<noteq> 0 \<and> octet (broker_ip b) 0 \<noteq> 127
    \<and> octet (broker_ip b) 0 \<notin> {224..239} \<and> broker_ip b \<noteq> - 1
    \<and> gateway_ipv4 bridge = Ok (broker_ip b) \<and> contains_ipv4 bridge (broker_ip b) = Ok True"
proof -
  from assms have v: "broker_validate b = Ok ()" and g: "gateway_ipv4 bridge = Ok (broker_ip b)"
    by (auto simp: validate_for_bridge_def result_simps split: if_splits)
  from g obtain net plen where c: "parse_ipv4_cidr (subnet bridge) = Ok (net, plen)"
    by (auto simp: gateway_ipv4_def result_simps)
  from gateway_contained[OF c] g have "contains_ipv4 bridge (broker_ip b) = Ok True" by auto
  with v g show ?thesis by (auto simp: broker_validate_def split: if_splits)
qed

theorem broker_for_bridge_witness:
  "contains_ipv4 default_bridge_config (ipv4_of_octets 10 0 42 1) = Ok True"
proof -
  from gateway_contained[OF parse_default_subnet]
  obtain gw where gw: "gateway_ipv4 default_bridge_config = Ok gw" "unat gw = 0x0A002A01"
    by (auto simp: ipv4_of_octets_def)
  then have "gateway_ipv4 default_bridge_config = Ok (ipv4_of_octets 10 0 42 1)"
    by (simp add: word_unat_eq_iff ipv4_of_octets_def)
  then have "validate_for_bridge (broker_new (ipv4_of_octets 10 0 42 1) 8080)
      default_bridge_config = Ok ()"
    by (simp add: validate_for_bridge_def broker_validate_def broker_new_def octet_def
        ipv4_of_octets_def)
  from broker_for_bridge[OF this] show ?thesis by (simp add: broker_new_def)
qed

end
