(* ===== verification/Egress.thy ===== *)
theory Egress
  imports Net_Config
begin

text \<open>
  Enforcement of an egress policy (\<^verbatim>\<open>src/src/network/egress.rs\<close>): the commands that
  \<open>apply_egress_policy\<close> hands to \<^verbatim>\<open>iptables\<close>, in their order, and what the OUTPUT chain they build
  lets through.

  The name resolver, the lookup of the \<^verbatim>\<open>iptables\<close> binary and the two ways to run it inside the
  container's namespaces are arguments of the model. The meaning of the match options is the
  argument \<open>m\<close> of \<open>chain_accepts\<close>; \<open>iptables_matches\<close> states what the manual of \<^verbatim>\<open>iptables\<close> says of
  the options the code uses.
\<close>

section \<open>Name resolution\<close>

datatype ip_addr = V4 ipv4addr | V6 string

definition ipv4_cidrs :: "ip_addr list \<Rightarrow> string list" where
  "ipv4_cidrs addrs = concat (map (\<lambda>a. case a of V4 ip \<Rightarrow> [show_ipv4 ip @ ''/32''] | V6 _ \<Rightarrow> []) addrs)"

definition resolve_domain :: "(string \<Rightarrow> ip_addr list option) \<Rightarrow> string list \<Rightarrow> string \<Rightarrow> string list result" where
  "resolve_domain to_socket_addrs cidrs domain =
     and_then (map_err (\<lambda>e. NetworkError (''Invalid egress domain: '' @ e)) (validate_egress_domain domain)) (\<lambda>_.
     and_then (ok_or (to_socket_addrs domain) (NetworkError ''Failed to resolve egress domain {}: {}'')) (\<lambda>addrs.
     let found = ipv4_cidrs addrs in
     if found = [] then Err (NetworkError ''Egress domain {} resolved no IPv4 addresses'')
     else Ok (cidrs @ found)))"

definition resolve_domain_cidrs :: "(string \<Rightarrow> ip_addr list option) \<Rightarrow> string list \<Rightarrow> string list result" where
  "resolve_domain_cidrs to_socket_addrs domains =
     and_then (try_fold (resolve_domain to_socket_addrs) [] domains)
       (\<lambda>cidrs. Ok (remdups_adj (sort cidrs)))"

section \<open>The commands\<close>

definition append_output :: "string list \<Rightarrow> string list \<Rightarrow> string list" where
  "append_output ms target = [''-A'', ''OUTPUT''] @ ms @ ''-j'' # target"

definition dport_match :: "string \<Rightarrow> string \<Rightarrow> string \<Rightarrow> string list" where
  "dport_match proto dest port = [''-p'', proto, ''-d'', dest, ''--dport'', port]"

definition dns_commands :: "string list \<Rightarrow> string list list" where
  "dns_commands resolvers =
     concat (map (\<lambda>d. [append_output (dport_match ''udp'' d ''53'') [''ACCEPT''],
                       append_output (dport_match ''tcp'' d ''53'') [''ACCEPT'']]) resolvers)"

definition cidr_commands :: "egress_policy \<Rightarrow> string \<Rightarrow> string list list" where
  "cidr_commands policy cidr =
     (if allowed_tcp_ports policy = [] \<and> allowed_udp_ports policy = []
      then [append_output [''-d'', cidr] [''ACCEPT'']]
      else map (\<lambda>port. append_output (dport_match ''tcp'' cidr (show_word port)) [''ACCEPT''])
             (allowed_tcp_ports policy)
         @ map (\<lambda>port. append_output (dport_match ''udp'' cidr (show_word port)) [''ACCEPT''])
             (allowed_udp_ports policy))"

definition log_command :: "string list" where
  "log_command = append_output [''-m'', ''limit'', ''--limit'', ''5/min'']
     [''LOG'', ''--log-prefix'', ''nucleus-egress-denied: '']"

definition established_match :: "string list" where
  "established_match = [''-m'', ''conntrack'', ''--ctstate'', ''ESTABLISHED,RELATED'']"

definition egress_commands :: "string list \<Rightarrow> egress_policy \<Rightarrow> string list \<Rightarrow> string list list" where
  "egress_commands resolvers policy cidrs =
     [[''-P'', ''OUTPUT'', ''DROP''], [''-F'', ''OUTPUT'']]
     @ [append_output [''-o'', ''lo''] [''ACCEPT''], append_output established_match [''ACCEPT'']]
     @ (if allow_dns policy then dns_commands resolvers else [])
     @ concat (map (cidr_commands policy) cidrs)
     @ (if log_denied policy then [log_command] else [])
     @ [[''-P'', ''OUTPUT'', ''DROP'']]"

text \<open>The commands that took effect, and how the run ended: the first failure stops it.\<close>

fun run_commands :: "(string list \<Rightarrow> unit result) \<Rightarrow> string list list \<Rightarrow> string list list \<times> unit result" where
  "run_commands exec [] = ([], Ok ())"
| "run_commands exec (c # cs) =
     (case exec c of
        Inl e \<Rightarrow> ([], Err e)
      | Inr _ \<Rightarrow> (case run_commands exec cs of (done, r) \<Rightarrow> (c # done, r)))"

definition apply_egress_policy ::
  "(string \<Rightarrow> ip_addr list option) \<Rightarrow> string result \<Rightarrow> (string \<Rightarrow> string list \<Rightarrow> unit result) \<Rightarrow>
   (string \<Rightarrow> string list \<Rightarrow> unit result) \<Rightarrow> string list \<Rightarrow> egress_policy \<Rightarrow> bool \<Rightarrow>
   string list list \<times> unit result" where
  "apply_egress_policy to_socket_addrs iptables_bin exec_in_user_netns exec_in_netns resolvers policy join_userns =
     (case for_each (\<lambda>cidr. map_err (\<lambda>e. NetworkError (''Invalid egress CIDR: '' @ e))
             (validate_egress_cidr cidr)) (allowed_cidrs policy) of
        Inl e \<Rightarrow> ([], Err e)
      | Inr _ \<Rightarrow>
          (case resolve_domain_cidrs to_socket_addrs (allowed_domains policy) of
             Inl e \<Rightarrow> ([], Err e)
           | Inr resolved \<Rightarrow>
               (case iptables_bin of
                  Inl e \<Rightarrow> ([], Err e)
                | Inr ipt \<Rightarrow>
                    run_commands
                      (\<lambda>args. if join_userns then exec_in_user_netns ipt args
                              else exec_in_netns ipt args)
                      (egress_commands resolvers policy (allowed_cidrs policy @ resolved)))))"

section \<open>The OUTPUT chain\<close>

text \<open>A chain has a policy and rules in order, each a list of match options and a target.\<close>

record chain =
  chain_policy :: string
  chain_rules :: "(string list \<times> string) list"

definition iptables_run :: "string list \<Rightarrow> chain \<Rightarrow> chain" where
  "iptables_run cmd c =
     (case cmd of
        op # _ # args \<Rightarrow>
          (if op = ''-P'' then c\<lparr>chain_policy := hd args\<rparr>
           else if op = ''-F'' then c\<lparr>chain_rules := []\<rparr>
           else if op = ''-A''
           then c\<lparr>chain_rules := chain_rules c
                  @ [(takeWhile (\<lambda>a. a \<noteq> ''-j'') args, hd (tl (dropWhile (\<lambda>a. a \<noteq> ''-j'') args)))]\<rparr>
           else c)
      | _ \<Rightarrow> c)"

record packet =
  out_lo :: bool
  established :: bool
  pkt_dst :: ipv4addr
  pkt_proto :: string
  pkt_dport :: u16

text \<open>The first rule that matches and whose target ends the traversal decides, then the policy.\<close>

fun chain_accepts :: "(string list \<Rightarrow> packet \<Rightarrow> bool) \<Rightarrow> string \<Rightarrow> (string list \<times> string) list \<Rightarrow> packet \<Rightarrow> bool" where
  "chain_accepts m pol [] p \<longleftrightarrow> pol = ''ACCEPT''"
| "chain_accepts m pol ((ms, t) # rs) p \<longleftrightarrow>
     (if m ms p \<and> t = ''ACCEPT'' then True
      else if m ms p \<and> t = ''DROP'' then False
      else chain_accepts m pol rs p)"

definition accepts :: "(string list \<Rightarrow> packet \<Rightarrow> bool) \<Rightarrow> chain \<Rightarrow> packet \<Rightarrow> bool" where
  "accepts m c p = chain_accepts m (chain_policy c) (chain_rules c) p"

text \<open>The addresses a destination argument stands for: a block, or one address.\<close>

definition dest_matches :: "string \<Rightarrow> ipv4addr \<Rightarrow> bool" where
  "dest_matches d ip =
     (case parse_ipv4_cidr d of
        Inr (network, plen) \<Rightarrow> ipv4_in_cidr ip network plen
      | Inl _ \<Rightarrow> parse_ipv4 d = Some ip)"

definition valid_dest :: "string \<Rightarrow> bool" where
  "valid_dest d \<longleftrightarrow> is_ok (parse_ipv4_cidr d) \<or> parse_ipv4 d \<noteq> None"

definition iptables_matches :: "(string list \<Rightarrow> packet \<Rightarrow> bool) \<Rightarrow> bool" where
  "iptables_matches m \<longleftrightarrow>
     (\<forall>p. m [''-o'', ''lo''] p = out_lo p)
     \<and> (\<forall>p. m established_match p = established p)
     \<and> (\<forall>p d. valid_dest d \<longrightarrow> m [''-d'', d] p = dest_matches d (pkt_dst p))
     \<and> (\<forall>p proto d port. valid_dest d \<longrightarrow>
          m (dport_match proto d (show_word (port :: u16))) p =
            (pkt_proto p = proto \<and> dest_matches d (pkt_dst p) \<and> pkt_dport p = port))"

text \<open>What a policy means to allow.\<close>

definition egress_allows :: "string list \<Rightarrow> egress_policy \<Rightarrow> string list \<Rightarrow> packet \<Rightarrow> bool" where
  "egress_allows resolvers policy cidrs p \<longleftrightarrow>
     out_lo p \<or> established p
     \<or> allow_dns policy \<and> pkt_dport p = 53 \<and> pkt_proto p \<in> {''udp'', ''tcp''}
         \<and> (\<exists>d\<in>set resolvers. dest_matches d (pkt_dst p))
     \<or> (\<exists>cidr\<in>set cidrs. dest_matches cidr (pkt_dst p)
         \<and> (allowed_tcp_ports policy = [] \<and> allowed_udp_ports policy = []
            \<or> pkt_proto p = ''tcp'' \<and> pkt_dport p \<in> set (allowed_tcp_ports policy)
            \<or> pkt_proto p = ''udp'' \<and> pkt_dport p \<in> set (allowed_udp_ports policy)))"

section \<open>Lemmas\<close>

lemma iptables_matchesD:
  assumes "iptables_matches m"
  shows "m [''-o'', ''lo''] p = out_lo p" "m established_match p = established p"
    "valid_dest d \<Longrightarrow> m [''-d'', d] p = dest_matches d (pkt_dst p)"
    "valid_dest d \<Longrightarrow> m (dport_match proto d (show_word (port :: u16))) p =
       (pkt_proto p = proto \<and> dest_matches d (pkt_dst p) \<and> pkt_dport p = port)"
  using assms by (simp_all add: iptables_matches_def)

definition rule_of :: "string list \<Rightarrow> string list \<times> string" where
  "rule_of cmd = (takeWhile (\<lambda>a. a \<noteq> ''-j'') (drop 2 cmd),
     hd (tl (dropWhile (\<lambda>a. a \<noteq> ''-j'') (drop 2 cmd))))"

lemma rule_of_append_output [simp]:
  "''-j'' \<notin> set ms \<Longrightarrow> rule_of (append_output ms (t # ts)) = (ms, t)"
  by (induction ms) (auto simp: rule_of_def append_output_def split: if_splits)

lemma run_append_output [simp]:
  "iptables_run (append_output ms ts) c =
     c\<lparr>chain_rules := chain_rules c @ [rule_of (append_output ms ts)]\<rparr>"
  by (simp add: iptables_run_def append_output_def rule_of_def)

lemma valid_dest_not_jump: "valid_dest d \<Longrightarrow> d \<noteq> ''-j''"
  by (auto simp: valid_dest_def is_ok_iff parse_ipv4_cidr_def parse_ipv4_def parse_octet_def
      string_eval)

lemma show_word_not_jump: "show_word w \<noteq> ''-j''"
  using show_nat_digits[of "CHR ''-''" "unat w"] by (auto simp: show_word_def is_ascii_digit_def)

lemma rule_of_dport [simp]:
  assumes "valid_dest d" "proto \<in> {''tcp'', ''udp''}"
  shows "rule_of (append_output (dport_match proto d (show_word port)) [t]) =
    (dport_match proto d (show_word port), t)"
  using assms valid_dest_not_jump[OF assms(1)] show_word_not_jump[of port]
  by (intro rule_of_append_output) (auto simp: dport_match_def)

lemma rule_of_dest [simp]:
  "valid_dest d \<Longrightarrow> rule_of (append_output [''-d'', d] [t]) = ([''-d'', d], t)"
  using valid_dest_not_jump by (intro rule_of_append_output) auto

lemma show_53: "''53'' = show_word (53 :: u16)"
  by (simp add: show_word_def show_nat.simps[of 53] show_nat.simps[of 5] digit_char_def char_of_def bit_simps)

text \<open>The commands between setting the policy twice only append rules.\<close>

definition rule_commands :: "string list \<Rightarrow> egress_policy \<Rightarrow> string list \<Rightarrow> string list list" where
  "rule_commands resolvers policy cidrs =
     [append_output [''-o'', ''lo''] [''ACCEPT''], append_output established_match [''ACCEPT'']]
     @ (if allow_dns policy then dns_commands resolvers else [])
     @ concat (map (cidr_commands policy) cidrs)
     @ (if log_denied policy then [log_command] else [])"

lemma egress_commands_eq:
  "egress_commands resolvers policy cidrs =
     [''-P'', ''OUTPUT'', ''DROP''] # [''-F'', ''OUTPUT''] # rule_commands resolvers policy cidrs
       @ [[''-P'', ''OUTPUT'', ''DROP'']]"
  by (simp add: egress_commands_def rule_commands_def)

lemma rule_commands_append:
  "cmd \<in> set (rule_commands resolvers policy cidrs) \<Longrightarrow> \<exists>ms ts. cmd = append_output ms ts"
  by (auto simp: rule_commands_def dns_commands_def cidr_commands_def log_command_def
      split: if_splits)

lemma run_appends:
  "\<forall>cmd\<in>set cs. \<exists>ms ts. cmd = append_output ms ts \<Longrightarrow>
     fold iptables_run cs c = c\<lparr>chain_rules := chain_rules c @ map rule_of cs\<rparr>"
proof (induction cs arbitrary: c)
  case (Cons a cs)
  then show ?case by auto
qed simp

lemma chain_after_all:
  "fold iptables_run (egress_commands resolvers policy cidrs) c =
     c\<lparr>chain_policy := ''DROP'', chain_rules := map rule_of (rule_commands resolvers policy cidrs)\<rparr>"
proof -
  have step: "iptables_run [''-P'', ''OUTPUT'', ''DROP''] c = c\<lparr>chain_policy := ''DROP''\<rparr>"
    "iptables_run [''-F'', ''OUTPUT''] c = c\<lparr>chain_rules := []\<rparr>" for c
    by (simp_all add: iptables_run_def)
  show ?thesis
    using rule_commands_append[of _ resolvers policy cidrs]
    by (simp add: egress_commands_eq step run_appends)
qed

lemma chain_accepts_targets:
  "\<forall>(ms, t)\<in>set rs. t \<noteq> ''DROP'' \<Longrightarrow>
     chain_accepts m pol rs p \<longleftrightarrow> pol = ''ACCEPT'' \<or> (\<exists>ms. (ms, ''ACCEPT'') \<in> set rs \<and> m ms p)"
  by (induction m pol rs p rule: chain_accepts.induct) auto

lemma rule_commands_targets:
  assumes "\<forall>d\<in>set resolvers \<union> set cidrs. valid_dest d"
    "(ms, t) \<in> rule_of ` set (rule_commands resolvers policy cidrs)"
  shows "t \<noteq> ''DROP''"
  using assms
  by (auto simp: rule_commands_def dns_commands_def cidr_commands_def log_command_def show_53
      established_match_def split: if_splits)

text \<open>The rules that accept are exactly the ones the policy asks for.\<close>

lemma accepting_rules:
  assumes m: "iptables_matches m" and v: "\<forall>d\<in>set resolvers \<union> set cidrs. valid_dest d"
  shows "(\<exists>ms. (ms, ''ACCEPT'') \<in> rule_of ` set (rule_commands resolvers policy cidrs) \<and> m ms p)
    \<longleftrightarrow> egress_allows resolvers policy cidrs p"
proof -
  let ?acc = "\<lambda>cs. \<exists>cmd\<in>set cs. snd (rule_of cmd) = ''ACCEPT'' \<and> m (fst (rule_of cmd)) p"
  have acc: "(\<exists>ms. (ms, ''ACCEPT'') \<in> rule_of ` set cs \<and> m ms p) \<longleftrightarrow> ?acc cs" for cs
    unfolding image_iff prod_eq_iff fst_conv snd_conv by metis
  have app: "?acc (xs @ ys) \<longleftrightarrow> ?acc xs \<or> ?acc ys" for xs ys by auto
  have fixed: "?acc [append_output [''-o'', ''lo''] [''ACCEPT''], append_output established_match [''ACCEPT'']]
      \<longleftrightarrow> out_lo p \<or> established p"
    using iptables_matchesD(1,2)[OF m] by (auto simp: established_match_def)
  have dns: "?acc (dns_commands resolvers) \<longleftrightarrow> pkt_dport p = 53 \<and> pkt_proto p \<in> {''udp'', ''tcp''}
      \<and> (\<exists>d\<in>set resolvers. dest_matches d (pkt_dst p))"
    using v iptables_matchesD(4)[OF m]
    by (auto simp: dns_commands_def show_53)
  have cidr: "?acc (cidr_commands policy c) \<longleftrightarrow> dest_matches c (pkt_dst p)
         \<and> (allowed_tcp_ports policy = [] \<and> allowed_udp_ports policy = []
            \<or> pkt_proto p = ''tcp'' \<and> pkt_dport p \<in> set (allowed_tcp_ports policy)
            \<or> pkt_proto p = ''udp'' \<and> pkt_dport p \<in> set (allowed_udp_ports policy))"
    if "c \<in> set cidrs" for c
    using v that iptables_matchesD(3,4)[OF m, of c] valid_dest_not_jump[of c]
    by (auto simp: cidr_commands_def bex_Un)
  have concat: "?acc (concat (map (cidr_commands policy) cs)) \<longleftrightarrow>
      (\<exists>c\<in>set cs. ?acc (cidr_commands policy c))" for cs by auto
  have log: "\<not> ?acc [log_command]" by (auto simp: log_command_def)
  show ?thesis
    unfolding acc rule_commands_def app fixed egress_allows_def concat
    using dns cidr log by auto
qed

lemma run_commands_prefix:
  "\<exists>rest. fst (run_commands exec cs) @ rest = cs \<and> (is_ok (snd (run_commands exec cs)) \<longrightarrow> rest = [])"
proof (induction cs)
  case (Cons c cs)
  then show ?case by (cases "exec c") (auto split: prod.splits)
qed simp

lemma strict_sorted_remdups_adj: "sorted xs \<Longrightarrow> sorted_wrt (<) (remdups_adj (xs :: 'a::linorder list))"
proof (induction xs rule: remdups_adj.induct)
  case (3 x y xs)
  then show ?case by (cases "x = y") auto
qed auto

text \<open>Names resolve to blocks of one address each, in the order of their text and without repeats.\<close>

lemma resolve_domain_cidrs_sound:
  assumes "resolve_domain_cidrs look domains = Ok cidrs"
  shows "(\<forall>c\<in>set cidrs. \<exists>domain\<in>set domains. \<exists>addrs ip. look domain = Some addrs
      \<and> V4 ip \<in> set addrs \<and> c = show_ipv4 ip @ ''/32'') \<and> sorted_wrt (<) cidrs"
proof -
  from assms obtain cs where cs: "try_fold (resolve_domain look) [] domains = Ok cs"
    and c: "cidrs = remdups_adj (sort cs)"
    by (auto simp: resolve_domain_cidrs_def result_simps)
  let ?P = "\<lambda>cs. \<forall>c\<in>set cs. \<exists>domain\<in>set domains. \<exists>addrs ip. look domain = Some addrs
      \<and> V4 ip \<in> set addrs \<and> c = show_ipv4 ip @ ''/32''"
  have "?P cs"
  proof (rule try_fold_invariant[OF cs])
    fix s x s'
    assume "x \<in> set domains" "?P s" "resolve_domain look s x = Ok s'"
    then obtain addrs where "look x = Some addrs" "s' = s @ ipv4_cidrs addrs"
      by (auto simp: resolve_domain_def Let_def result_simps split: if_splits)
    moreover have "\<exists>ip. V4 ip \<in> set addrs \<and> c = show_ipv4 ip @ ''/32''"
      if "c \<in> set (ipv4_cidrs addrs)" for c
      using that by (auto simp: ipv4_cidrs_def split: ip_addr.splits)
    ultimately show "?P s'" using \<open>x \<in> set domains\<close> \<open>?P s\<close>
      by (simp only: set_append ball_Un) blast
  qed simp
  moreover have "sorted_wrt (<) cidrs" by (simp add: c strict_sorted_remdups_adj)
  ultimately show ?thesis by (simp add: c)
qed

lemma valid_dest_host: "valid_dest (show_ipv4 ip @ ''/32'')"
  using parse_broker_cidr[of "broker_new ip 0"]
  by (simp add: valid_dest_def broker_cidr_def broker_new_def)

lemma apply_egress_policy_run:
  assumes "apply_egress_policy look ipt eu en resolvers policy user = (done, r)" "done \<noteq> []"
  obtains exec resolved where
    "resolve_domain_cidrs look (allowed_domains policy) = Ok resolved"
    "\<forall>d\<in>set (allowed_cidrs policy @ resolved). valid_dest d"
    "run_commands exec (egress_commands resolvers policy (allowed_cidrs policy @ resolved)) = (done, r)"
proof -
  let ?check = "for_each (\<lambda>cidr. map_err (\<lambda>e. NetworkError (''Invalid egress CIDR: '' @ e))
     (validate_egress_cidr cidr)) (allowed_cidrs policy)"
  from assms obtain u resolved i where *: "?check = Ok u"
    "resolve_domain_cidrs look (allowed_domains policy) = Ok resolved" "ipt = Ok i"
    by (auto simp: apply_egress_policy_def split: sum.splits)
  have "valid_dest d" if "d \<in> set (allowed_cidrs policy)" for d
    using that *(1)
    by (auto simp: result_simps validate_egress_cidr_def validate_ipv4_cidr_def valid_dest_def is_ok_iff)
  moreover have "valid_dest d" if "d \<in> set resolved" for d
    using that resolve_domain_cidrs_sound[OF *(2)] valid_dest_host by metis
  ultimately have "\<forall>d\<in>set (allowed_cidrs policy @ resolved). valid_dest d" by auto
  from that[OF *(2) this] assms(1) * show ?thesis by (simp add: apply_egress_policy_def)
qed

lemma accepts_rules:
  assumes "\<forall>d\<in>set resolvers \<union> set cidrs. valid_dest d"
    and "set rs \<subseteq> rule_of ` set (rule_commands resolvers policy cidrs)"
  shows "chain_accepts m ''DROP'' rs p \<longleftrightarrow> (\<exists>ms. (ms, ''ACCEPT'') \<in> set rs \<and> m ms p)"
proof -
  have "\<forall>(ms, t)\<in>set rs. t \<noteq> ''DROP''"
    using rule_commands_targets[OF assms(1)] assms(2) by fast
  then show ?thesis by (simp add: chain_accepts_targets)
qed

text \<open>However far the run gets, the policy is to drop and no rule is there but the intended ones.\<close>

lemma chain_during_run:
  assumes "set cs \<subseteq> set (egress_commands resolvers policy cidrs)"
    and "chain_policy c = ''DROP''"
    and "set (chain_rules c) \<subseteq> rule_of ` set (rule_commands resolvers policy cidrs)"
  shows "chain_policy (fold iptables_run cs c) = ''DROP''
    \<and> set (chain_rules (fold iptables_run cs c)) \<subseteq> rule_of ` set (rule_commands resolvers policy cidrs)"
  using assms
proof (induction cs arbitrary: c)
  case (Cons a cs)
  consider "a = [''-P'', ''OUTPUT'', ''DROP'']" | "a = [''-F'', ''OUTPUT'']"
    | "a \<in> set (rule_commands resolvers policy cidrs)" "\<exists>ms ts. a = append_output ms ts"
    using Cons.prems(1) rule_commands_append[of a] by (auto simp: egress_commands_eq)
  then have "chain_policy (iptables_run a c) = ''DROP''
    \<and> set (chain_rules (iptables_run a c)) \<subseteq> rule_of ` set (rule_commands resolvers policy cidrs)"
  proof cases
    case 3
    then show ?thesis using Cons.prems by auto
  qed (use Cons.prems in \<open>auto simp: iptables_run_def\<close>)
  with Cons show ?case by simp
qed simp

section \<open>Properties\<close>

text \<open>An instance of the match options, to show that the hypothesis on them can hold.\<close>

definition reference_matches :: "string list \<Rightarrow> packet \<Rightarrow> bool" where
  "reference_matches ms p \<longleftrightarrow>
     ms = [''-o'', ''lo''] \<and> out_lo p
     \<or> ms = established_match \<and> established p
     \<or> (\<exists>d. ms = [''-d'', d] \<and> dest_matches d (pkt_dst p))
     \<or> (\<exists>d. ms = dport_match (pkt_proto p) d (show_word (pkt_dport p)) \<and> dest_matches d (pkt_dst p))"

lemma show_word_inject: "show_word a = show_word b \<longleftrightarrow> a = (b :: 'a::len word)"
  by (simp add: show_word_def word_unat_eq_iff)

lemma iptables_reference: "iptables_matches reference_matches"
  by (auto simp: iptables_matches_def reference_matches_def established_match_def dport_match_def
      show_word_inject)

lemma applied_accepts:
  assumes "apply_egress_policy look ipt eu en resolvers policy user = (done, Ok ())"
    and "iptables_matches m" and "\<forall>d\<in>set resolvers. parse_ipv4 d \<noteq> None"
  shows "\<exists>resolved. resolve_domain_cidrs look (allowed_domains policy) = Ok resolved
    \<and> (\<forall>c p. accepts m (fold iptables_run done c) p
         = egress_allows resolvers policy (allowed_cidrs policy @ resolved) p)"
proof -
  have "done \<noteq> []"
  proof
    assume "done = []"
    moreover have "fst (run_commands exec (egress_commands resolvers policy cs)) = [] \<Longrightarrow>
        snd (run_commands exec (egress_commands resolvers policy cs)) \<noteq> Ok ()" for exec cs
      using run_commands_prefix[of exec "egress_commands resolvers policy cs"]
      by (auto simp: egress_commands_eq)
    ultimately show False using assms(1)
      by (auto simp: apply_egress_policy_def split: sum.splits if_splits) (metis fst_conv snd_conv)+
  qed
  from apply_egress_policy_run[OF assms(1) this] obtain exec resolved where
    r: "resolve_domain_cidrs look (allowed_domains policy) = Ok resolved"
    and v: "\<forall>d\<in>set (allowed_cidrs policy @ resolved). valid_dest d"
    and run: "run_commands exec (egress_commands resolvers policy (allowed_cidrs policy @ resolved))
      = (done, Ok ())" .
  let ?cs = "allowed_cidrs policy @ resolved"
  have d: "done = egress_commands resolvers policy ?cs"
    using run_commands_prefix[of exec "egress_commands resolvers policy ?cs"] run by auto
  have v': "\<forall>d\<in>set resolvers \<union> set ?cs. valid_dest d"
    using v assms(3) by (auto simp: valid_dest_def)
  have "accepts m (fold iptables_run done c) p = egress_allows resolvers policy ?cs p" for c p
    using accepting_rules[OF assms(2) v', of policy p]
      accepts_rules[OF v', of "map rule_of (rule_commands resolvers policy ?cs)" policy m p]
    by (subst d) (simp add: chain_after_all accepts_def)
  with r show ?thesis by blast
qed

text \<open>
  C5: when the policy is applied without an error, the OUTPUT chain, whatever it was before,
  accepts a packet exactly when the policy allows it: loopback, established connections, DNS to the
  configured resolvers when DNS is allowed, and the listed ports (all of them when no port is
  listed) of the allowed blocks and of the addresses the allowed names resolved to. All else is
  dropped.
\<close>

theorem egress_policy_enforced:
  assumes "apply_egress_policy look ipt eu en resolvers policy user = (done, Ok ())"
    and "iptables_matches m" and "\<forall>d\<in>set resolvers. parse_ipv4 d \<noteq> None"
  shows "\<exists>resolved. resolve_domain_cidrs look (allowed_domains policy) = Ok resolved
    \<and> (\<forall>c p. accepts m (fold iptables_run done c) p
         = egress_allows resolvers policy (allowed_cidrs policy @ resolved) p)"
  by (rule applied_accepts[OF assms])

definition demo_policy :: egress_policy where
  "demo_policy = with_allowed_udp_ports [443]
     (with_allowed_cidrs [broker_cidr (broker_new 7 0)] default_egress_policy)"

lemma run_commands_all: "(\<And>c. c \<in> set cs \<Longrightarrow> exec c = Ok ()) \<Longrightarrow> run_commands exec cs = (cs, Ok ())"
  by (induction cs) auto

lemma apply_demo_policy:
  "apply_egress_policy (\<lambda>_. None) (Ok ''iptables'') (\<lambda>_ _. Ok ()) (\<lambda>_ _. Ok ()) [show_ipv4 9]
     demo_policy True
   = (egress_commands [show_ipv4 9] demo_policy [broker_cidr (broker_new 7 0)], Ok ())"
  by (simp add: apply_egress_policy_def demo_policy_def with_allowed_udp_ports_def
      with_allowed_cidrs_def default_egress_policy_def validate_egress_cidr_def
      validate_ipv4_cidr_def resolve_domain_cidrs_def run_commands_all)

theorem egress_policy_enforced_witness:
  "accepts reference_matches
     (fold iptables_run (egress_commands [show_ipv4 9] demo_policy [broker_cidr (broker_new 7 0)])
        \<lparr>chain_policy = ''ACCEPT'', chain_rules = []\<rparr>)
     \<lparr>out_lo = False, established = False, pkt_dst = 7, pkt_proto = ''udp'', pkt_dport = 443\<rparr>"
proof -
  from egress_policy_enforced[OF apply_demo_policy iptables_reference]
  obtain resolved where "\<forall>c p. accepts reference_matches
     (fold iptables_run (egress_commands [show_ipv4 9] demo_policy [broker_cidr (broker_new 7 0)]) c) p
     = egress_allows [show_ipv4 9] demo_policy (allowed_cidrs demo_policy @ resolved) p"
    by auto
  moreover have "broker_cidr (broker_new 7 0) \<in> set (allowed_cidrs demo_policy)"
    "443 \<in> set (allowed_udp_ports demo_policy)"
    "dest_matches (broker_cidr (broker_new 7 0)) 7"
    using broker_cidr_exact[of 7 "broker_new 7 0"]
    by (simp_all add: demo_policy_def with_allowed_udp_ports_def with_allowed_cidrs_def
        default_egress_policy_def dest_matches_def) (simp add: broker_new_def)
  ultimately show ?thesis by (fastforce simp: egress_allows_def)
qed

text \<open>
  C14: enforcement fails closed. In a namespace whose OUTPUT chain has no rule, once the first
  command took effect the chain accepts nothing the policy does not allow, at whatever later command
  the run stops.
\<close>

theorem egress_fails_closed:
  assumes "apply_egress_policy look ipt eu en resolvers policy user = (done, r)" and "done \<noteq> []"
    and "iptables_matches m" and "\<forall>d\<in>set resolvers. parse_ipv4 d \<noteq> None"
    and "chain_rules c = []"
  shows "\<exists>resolved. resolve_domain_cidrs look (allowed_domains policy) = Ok resolved
    \<and> (\<forall>p. accepts m (fold iptables_run done c) p
         \<longrightarrow> egress_allows resolvers policy (allowed_cidrs policy @ resolved) p)"
proof -
  from apply_egress_policy_run[OF assms(1,2)] obtain exec resolved where
    r: "resolve_domain_cidrs look (allowed_domains policy) = Ok resolved"
    and v: "\<forall>d\<in>set (allowed_cidrs policy @ resolved). valid_dest d"
    and run: "run_commands exec (egress_commands resolvers policy (allowed_cidrs policy @ resolved))
      = (done, r)" .
  let ?cs = "allowed_cidrs policy @ resolved"
  obtain rest where rest: "done @ rest = egress_commands resolvers policy ?cs"
    using run_commands_prefix[of exec "egress_commands resolvers policy ?cs"] run by auto
  then obtain done' where d: "done = [''-P'', ''OUTPUT'', ''DROP''] # done'"
    using assms(2) by (cases "done") (auto simp: egress_commands_eq)
  have "set done' \<subseteq> set (egress_commands resolvers policy ?cs)"
    by (subst rest[symmetric]) (auto simp: d)
  from chain_during_run[OF this, of "iptables_run [''-P'', ''OUTPUT'', ''DROP''] c"] assms(5)
  have inv: "chain_policy (fold iptables_run done c) = ''DROP''"
    "set (chain_rules (fold iptables_run done c)) \<subseteq> rule_of ` set (rule_commands resolvers policy ?cs)"
    by (auto simp: iptables_run_def d)
  have v': "\<forall>d\<in>set resolvers \<union> set ?cs. valid_dest d"
    using v assms(4) by (auto simp: valid_dest_def)
  have "accepts m (fold iptables_run done c) p \<longrightarrow> egress_allows resolvers policy ?cs p" for p
    using accepting_rules[OF assms(3) v', of policy p] accepts_rules[OF v' inv(2), of m p] inv
    unfolding accepts_def by auto
  with r show ?thesis by blast
qed

text \<open>A run in which the connection tracking rule cannot be installed.\<close>

lemma apply_demo_policy_fails:
  "apply_egress_policy (\<lambda>_. None) (Ok ''iptables'') (\<lambda>_ _. Ok ())
     (\<lambda>_ args. if args = append_output established_match [''ACCEPT'']
               then Err (NetworkError ''iptables'') else Ok ()) [show_ipv4 9] demo_policy False
   = ([[''-P'', ''OUTPUT'', ''DROP''], [''-F'', ''OUTPUT''], append_output [''-o'', ''lo''] [''ACCEPT'']],
      Err (NetworkError ''iptables''))"
  by (simp add: apply_egress_policy_def demo_policy_def with_allowed_udp_ports_def
      with_allowed_cidrs_def default_egress_policy_def validate_egress_cidr_def
      validate_ipv4_cidr_def resolve_domain_cidrs_def egress_commands_def append_output_def
      established_match_def)

theorem egress_fails_closed_witness:
  "\<not> accepts reference_matches
     (fold iptables_run [[''-P'', ''OUTPUT'', ''DROP''], [''-F'', ''OUTPUT''],
        append_output [''-o'', ''lo''] [''ACCEPT'']] \<lparr>chain_policy = ''ACCEPT'', chain_rules = []\<rparr>)
     \<lparr>out_lo = False, established = False, pkt_dst = 7, pkt_proto = ''tcp'', pkt_dport = 80\<rparr>"
proof -
  have none: "resolve_domain_cidrs (\<lambda>_. None) (allowed_domains demo_policy) = Ok []"
    by (simp add: resolve_domain_cidrs_def demo_policy_def with_allowed_udp_ports_def
        with_allowed_cidrs_def default_egress_policy_def)
  have "\<not> egress_allows [show_ipv4 9] demo_policy cidrs
     \<lparr>out_lo = False, established = False, pkt_dst = 7, pkt_proto = ''tcp'', pkt_dport = 80\<rparr>" for cidrs
    by (simp add: egress_allows_def demo_policy_def with_allowed_udp_ports_def
        with_allowed_cidrs_def default_egress_policy_def)
  with egress_fails_closed[OF apply_demo_policy_fails _ iptables_reference,
      of "\<lparr>chain_policy = ''ACCEPT'', chain_rules = []\<rparr>"]
  show ?thesis by (simp del: fold_simps) blast
qed

lemma broker_only_fields:
  "allowed_cidrs (credential_broker_only b) = [broker_cidr b]"
  "allowed_domains (credential_broker_only b) = []"
  "allowed_tcp_ports (credential_broker_only b) = [broker_port b]"
  "allowed_udp_ports (credential_broker_only b) = []" "\<not> allow_dns (credential_broker_only b)"
  by (simp_all add: credential_broker_only_def with_allowed_tcp_ports_def with_allowed_cidrs_def
      deny_all_def default_egress_policy_def)

lemma is_broker_only [simp]: "is_credential_broker_only (credential_broker_only b) b"
  by (simp add: is_credential_broker_only_def broker_only_fields)

lemma broker_only_accepts:
  assumes "is_credential_broker_only policy b"
    and "apply_egress_policy look ipt eu en resolvers policy user = (done, Ok ())"
    and "iptables_matches m" and "\<forall>d\<in>set resolvers. parse_ipv4 d \<noteq> None"
  shows "accepts m (fold iptables_run done c) p \<longleftrightarrow> out_lo p \<or> established p
    \<or> pkt_proto p = ''tcp'' \<and> pkt_dst p = broker_ip b \<and> pkt_dport p = broker_port b"
proof -
  from assms(1) have f: "allowed_cidrs policy = [broker_cidr b]" "allowed_domains policy = []"
    "allowed_tcp_ports policy = [broker_port b]" "allowed_udp_ports policy = []" "\<not> allow_dns policy"
    by (simp_all add: is_credential_broker_only_def)
  have r: "resolve_domain_cidrs look (allowed_domains policy) = Ok []"
    by (simp add: f resolve_domain_cidrs_def)
  have "accepts m (fold iptables_run done c) p = egress_allows resolvers policy [broker_cidr b] p"
    using applied_accepts[OF assms(2-4)] r f(1) by auto
  then show ?thesis
    by (auto simp: egress_allows_def f dest_matches_def broker_cidr_exact)
qed

text \<open>
  a policy that \<open>is_credential_broker_only\<close> recognises, once applied, opens exactly one way
  out besides loopback and established connections: TCP to the broker's address and port. No
  resolver has to be configured and no name is resolved.
\<close>

theorem broker_only_enforced:
  assumes "is_credential_broker_only policy b"
    and "apply_egress_policy look ipt eu en resolvers policy user = (done, Ok ())"
    and "iptables_matches m" and "\<forall>d\<in>set resolvers. parse_ipv4 d \<noteq> None"
  shows "accepts m (fold iptables_run done c) p \<longleftrightarrow> out_lo p \<or> established p
    \<or> pkt_proto p = ''tcp'' \<and> pkt_dst p = broker_ip b \<and> pkt_dport p = broker_port b"
  by (rule broker_only_accepts[OF assms])

theorem broker_only_enforced_witness:
  "\<not> accepts reference_matches
     (fold iptables_run (egress_commands [show_ipv4 9] (credential_broker_only (broker_new 7 8080))
        [broker_cidr (broker_new 7 8080)]) \<lparr>chain_policy = ''ACCEPT'', chain_rules = []\<rparr>)
     \<lparr>out_lo = False, established = False, pkt_dst = 9, pkt_proto = ''udp'', pkt_dport = 53\<rparr>"
proof -
  have "apply_egress_policy (\<lambda>_. None) (Ok ''iptables'') (\<lambda>_ _. Ok ()) (\<lambda>_ _. Ok ()) [show_ipv4 9]
     (credential_broker_only (broker_new 7 8080)) True
     = (egress_commands [show_ipv4 9] (credential_broker_only (broker_new 7 8080))
          [broker_cidr (broker_new 7 8080)], Ok ())"
    by (simp add: apply_egress_policy_def broker_only_fields validate_egress_cidr_def
        validate_ipv4_cidr_def resolve_domain_cidrs_def run_commands_all)
  from broker_only_enforced[OF is_broker_only this iptables_reference] show ?thesis by auto
qed

text \<open>
  the documentation of \<^verbatim>\<open>allowed_tcp_ports\<close> says that an empty list means all ports on the allowed
  blocks. That is so only while the list of UDP ports is empty too: as soon as a UDP port is
  listed, no new TCP connection to the allowed blocks is accepted, port 53 of a resolver apart.
\<close>

theorem udp_ports_block_all_tcp:
  assumes "apply_egress_policy look ipt eu en resolvers policy user = (done, Ok ())"
    and "iptables_matches m" and "\<forall>d\<in>set resolvers. parse_ipv4 d \<noteq> None"
    and "allowed_tcp_ports policy = []" and "allowed_udp_ports policy \<noteq> []"
    and "pkt_proto p = ''tcp''" and "pkt_dport p \<noteq> 53" and "\<not> out_lo p" and "\<not> established p"
  shows "\<not> accepts m (fold iptables_run done c) p"
  using applied_accepts[OF assms(1-3)] assms(4-) by (auto simp: egress_allows_def)

theorem udp_ports_block_all_tcp_witness:
  "\<not> accepts reference_matches
     (fold iptables_run (egress_commands [show_ipv4 9] demo_policy [broker_cidr (broker_new 7 0)])
        \<lparr>chain_policy = ''ACCEPT'', chain_rules = []\<rparr>)
     \<lparr>out_lo = False, established = False, pkt_dst = 7, pkt_proto = ''tcp'', pkt_dport = 443\<rparr>"
  by (rule udp_ports_block_all_tcp[OF apply_demo_policy iptables_reference])
    (simp_all add: demo_policy_def with_allowed_udp_ports_def with_allowed_cidrs_def
      default_egress_policy_def)

end
