(* ===== verification/BTree_Map.thy ===== *)
theory BTree_Map
  imports Nucleus_Prelude
begin

text \<open>
  Rust's \<^verbatim>\<open>BTreeMap\<close>, as the source uses it: a map that is iterated in the order of its keys. It is a
  list of entries sorted by key. The locale \<open>ordered_map\<close> is what the components rely on; the
  operations below are its interpretation.
\<close>

type_synonym ('k, 'v) btree_map = "('k \<times> 'v) list"

definition bt_inv :: "('k::linorder, 'v) btree_map \<Rightarrow> bool" where
  "bt_inv m = sorted_wrt (<) (map fst m)"

definition bt_get :: "('k, 'v) btree_map \<Rightarrow> 'k \<Rightarrow> 'v option" where
  "bt_get m = map_of m"

definition bt_keys :: "('k, 'v) btree_map \<Rightarrow> 'k list" where
  "bt_keys m = map fst m"

definition bt_contains :: "('k, 'v) btree_map \<Rightarrow> 'k \<Rightarrow> bool" where
  "bt_contains m k \<longleftrightarrow> bt_get m k \<noteq> None"

fun bt_insert :: "'k::linorder \<Rightarrow> 'v \<Rightarrow> ('k, 'v) btree_map \<Rightarrow> ('k, 'v) btree_map" where
  "bt_insert k v [] = [(k, v)]"
| "bt_insert k v ((k', v') # m) =
     (if k < k' then (k, v) # (k', v') # m
      else if k = k' then (k, v) # m
      else (k', v') # bt_insert k v m)"

text \<open>\<^verbatim>\<open>entry(k).or_insert(d)\<close> followed by an update in place of the value.\<close>

definition bt_entry :: "'k::linorder \<Rightarrow> 'v \<Rightarrow> ('v \<Rightarrow> 'v) \<Rightarrow> ('k, 'v) btree_map \<Rightarrow> ('k, 'v) btree_map" where
  "bt_entry k d f m = bt_insert k (f (case bt_get m k of None \<Rightarrow> d | Some v \<Rightarrow> v)) m"

text \<open>\<^verbatim>\<open>get_mut(k)\<close> followed by an assignment: a present key gets a new value, no key is added.\<close>

fun bt_set :: "'k \<Rightarrow> 'v \<Rightarrow> ('k, 'v) btree_map \<Rightarrow> ('k, 'v) btree_map" where
  "bt_set k v [] = []"
| "bt_set k v ((k', v') # m) = (if k = k' then (k', v) # m else (k', v') # bt_set k v m)"

locale ordered_map =
  fixes empty :: 'm
    and insert :: "'k::linorder \<Rightarrow> 'v \<Rightarrow> 'm \<Rightarrow> 'm"
    and lookup :: "'m \<Rightarrow> 'k \<Rightarrow> 'v option"
    and keys :: "'m \<Rightarrow> 'k list"
    and invar :: "'m \<Rightarrow> bool"
  assumes lookup_empty: "lookup empty k = None"
    and invar_empty: "invar empty"
    and lookup_insert: "invar m \<Longrightarrow> lookup (insert a v m) = (lookup m)(a \<mapsto> v)"
    and invar_insert: "invar m \<Longrightarrow> invar (insert a v m)"
    and keys_lookup: "set (keys m) = dom (lookup m)"
    and keys_sorted: "invar m \<Longrightarrow> sorted_wrt (<) (keys m)"
begin

lemma distinct_keys: "invar m \<Longrightarrow> distinct (keys m)"
  using keys_sorted strict_sorted_iff by blast

lemma set_keys_insert: "invar m \<Longrightarrow> set (keys (insert a v m)) = Set.insert a (set (keys m))"
  by (simp add: keys_lookup lookup_insert)

text \<open>A loop that inserts: the last entry for a key wins.\<close>

lemma fold_insert:
  "invar m \<Longrightarrow> invar (fold (\<lambda>(a, v). insert a v) kvs m)
     \<and> lookup (fold (\<lambda>(a, v). insert a v) kvs m) = lookup m ++ map_of (rev kvs)"
proof (induction kvs arbitrary: m)
  case (Cons x kvs)
  obtain a v where x: "x = (a, v)" by fastforce
  from Cons.prems Cons.IH[of "insert a v m"] show ?case
    by (simp add: x lookup_insert invar_insert map_add_def fun_eq_iff split: option.splits)
qed simp

text \<open>Two maps with the same entries iterate in the same order.\<close>

lemma keys_unique: "invar m \<Longrightarrow> invar m' \<Longrightarrow> dom (lookup m) = dom (lookup m') \<Longrightarrow> keys m = keys m'"
  using keys_sorted strict_sorted_equal keys_lookup by metis

end

lemma bt_get_insert: "bt_get (bt_insert k v m) = (bt_get m)(k \<mapsto> v)" if "bt_inv m"
  using that by (induction k v m rule: bt_insert.induct) (auto simp: bt_get_def bt_inv_def)

lemma bt_keys_insert: "set (map fst (bt_insert k v m)) = insert k (set (map fst m))"
  by (induction k v m rule: bt_insert.induct) auto

lemma bt_inv_insert: "bt_inv m \<Longrightarrow> bt_inv (bt_insert k v m)"
proof (induction k v m rule: bt_insert.induct)
  case (2 k v k' v' m)
  then show ?case using bt_keys_insert[of k v m] by (auto simp: bt_inv_def)
qed (simp add: bt_inv_def)

interpretation bt: ordered_map "[]" bt_insert bt_get bt_keys bt_inv
proof unfold_locales
  show "set (bt_keys m) = dom (bt_get m)" for m :: "('k::linorder, 'v) btree_map"
    by (simp add: bt_keys_def bt_get_def dom_map_of_conv_image_fst)
qed (simp_all add: bt_get_insert bt_inv_insert bt_keys_def, simp_all add: bt_inv_def bt_get_def)

lemma bt_get_entry:
  "bt_inv m \<Longrightarrow> bt_get (bt_entry k d f m) =
     (bt_get m)(k \<mapsto> f (case bt_get m k of None \<Rightarrow> d | Some v \<Rightarrow> v))"
  by (simp add: bt_entry_def bt_get_insert)

lemma bt_inv_entry: "bt_inv m \<Longrightarrow> bt_inv (bt_entry k d f m)"
  by (simp add: bt_entry_def bt_inv_insert)

lemma bt_get_set: "bt_get (bt_set k v m) = (if bt_contains m k then (bt_get m)(k \<mapsto> v) else bt_get m)"
  by (induction k v m rule: bt_set.induct) (auto simp: bt_get_def bt_contains_def fun_eq_iff)

lemma bt_keys_set [simp]: "bt_keys (bt_set k v m) = bt_keys m"
  by (induction k v m rule: bt_set.induct) (auto simp: bt_keys_def)

lemma bt_contains_keys: "bt_contains m k \<longleftrightarrow> k \<in> set (bt_keys m)"
  by (simp add: bt_contains_def bt_get_def bt_keys_def map_of_eq_None_iff)

lemma bt_entry_in: "(k, v) \<in> set m \<Longrightarrow> bt_inv m \<Longrightarrow> bt_get m k = Some v"
  by (simp add: bt_get_def bt_inv_def strict_sorted_iff)

lemma bt_get_in: "bt_get m k = Some v \<Longrightarrow> (k, v) \<in> set m"
  by (simp add: bt_get_def map_of_SomeD)

text \<open>Maps with the same entries are equal.\<close>

lemma bt_ext:
  assumes "bt_inv m" "bt_inv m'" "bt_get m = bt_get m'"
  shows "m = m'"
proof -
  have listing: "m = map (\<lambda>k. (k, the (bt_get m k))) (bt_keys m)" if "bt_inv m" for m :: "('k::linorder, 'v) btree_map"
    using bt_entry_in[OF _ that] by (auto simp: bt_keys_def intro!: map_idI[symmetric])
  have "bt_keys m = bt_keys m'" using assms by (intro bt.keys_unique) auto
  with assms(3) have "map (\<lambda>k. (k, the (bt_get m k))) (bt_keys m) = map (\<lambda>k. (k, the (bt_get m' k))) (bt_keys m')" by simp
  with listing[OF assms(1)] listing[OF assms(2)] show ?thesis by simp
qed

end
