(* ===== verification/Topology_Types.thy ===== *)
theory Topology_Types
  imports Complex_Main BTree_Map Net_Config
begin

text \<open>
  The data of a topology (\<^verbatim>\<open>src/src/topology/config.rs\<close>, lines 1 to 222): networks, volumes, services
  and their dependencies, with the defaults the deserialiser fills in.
\<close>

record network_def =
  net_subnet :: string
  encrypted :: bool

definition default_subnet :: string where
  "default_subnet = ''10.42.0.0/24''"

record volume_def =
  volume_type :: string
  vol_path :: "string option"
  vol_owner :: "string option"
  vol_size :: "string option"

definition default_volume_type :: string where
  "default_volume_type = ''ephemeral''"

record depends_on =
  dep_service :: string
  dep_condition :: string

definition default_condition :: string where
  "default_condition = ''started''"

record service_def =
  svc_rootfs :: string
  svc_command :: "string list"
  svc_memory :: string
  svc_cpus :: real
  svc_pids :: u64
  svc_networks :: "string list"
  svc_volumes :: "string list"
  svc_depends_on :: "depends_on list"
  svc_health_check :: "string option"
  svc_health_interval :: u64
  svc_egress_allow :: "string list"
  svc_egress_domains :: "string list"
  svc_egress_tcp_ports :: "u16 list"
  svc_egress_udp_ports :: "u16 list"
  svc_credential_broker :: "string option"
  svc_credential_broker_no_proxy_env :: bool
  svc_port_forwards :: "string list"
  svc_environment :: "(string, string) btree_map"
  svc_user :: "string option"
  svc_group :: "string option"
  svc_additional_groups :: "string list"
  svc_secrets :: "string list"
  svc_dns :: "string list"
  svc_nat_backend :: nat_backend
  svc_replicas :: u32
  svc_runtime :: string

record topology_config =
  topo_name :: string
  networks :: "(string, network_def) btree_map"
  volumes :: "(string, volume_def) btree_map"
  services :: "(string, service_def) btree_map"

text \<open>
  A service with only the fields that have no default; the others are the values of the
  \<^verbatim>\<open>serde(default)\<close> attributes.
\<close>

definition service_new :: "string \<Rightarrow> string list \<Rightarrow> string \<Rightarrow> service_def" where
  "service_new rootfs command memory =
     \<lparr>svc_rootfs = rootfs, svc_command = command, svc_memory = memory, svc_cpus = 1, svc_pids = 512,
      svc_networks = [], svc_volumes = [], svc_depends_on = [], svc_health_check = None,
      svc_health_interval = 30, svc_egress_allow = [], svc_egress_domains = [],
      svc_egress_tcp_ports = [], svc_egress_udp_ports = [], svc_credential_broker = None,
      svc_credential_broker_no_proxy_env = False, svc_port_forwards = [], svc_environment = [],
      svc_user = None, svc_group = None, svc_additional_groups = [], svc_secrets = [],
      svc_dns = [], svc_nat_backend = Auto, svc_replicas = 1, svc_runtime = ''native''\<rparr>"

text \<open>The names a service depends on, in the order of its declaration.\<close>

definition dep_names :: "topology_config \<Rightarrow> string \<Rightarrow> string list" where
  "dep_names config n =
     (case bt_get (services config) n of
        None \<Rightarrow> [] | Some svc \<Rightarrow> map dep_service (svc_depends_on svc))"

end
