(* ===== verification/Dependency_Graph.thy ===== *)
theory Dependency_Graph
  imports Topology_Types "HOL-Library.Multiset"
begin

text \<open>
  Resolution of a topology's dependencies into a start order (\<^verbatim>\<open>src/src/topology/dag.rs\<close>): the maps
  that \<open>resolve\<close> builds, Kahn's algorithm on them, the shutdown order and the directives for
  systemd.

  In-degrees are natural numbers. Decrementing a \<^verbatim>\<open>usize\<close> that is zero is a panic; in the model
  that is the value \<^term>\<open>None\<close>, apart from the errors \<open>resolve\<close> returns. The loop ends because every
  name it queues costs one decrement of an in-degree.
\<close>

section \<open>Model\<close>

record dependency_edge =
  edge_service :: string
  edge_condition :: string

record dependency_graph =
  startup_order :: "string list"
  edges :: "(string, dependency_edge list) btree_map"
  dependents :: "(string, string list) btree_map"

type_synonym adjacency =
  "(string, nat) btree_map \<times> (string, dependency_edge list) btree_map \<times> (string, string list) btree_map"

definition init_node :: "string \<Rightarrow> adjacency \<Rightarrow> adjacency" where
  "init_node name = (\<lambda>(in_degree, es, ds).
     (bt_entry name 0 id in_degree, bt_entry name [] id es, bt_entry name [] id ds))"

definition add_dependency ::
  "topology_config \<Rightarrow> string \<Rightarrow> adjacency \<Rightarrow> depends_on \<Rightarrow> adjacency result" where
  "add_dependency config name = (\<lambda>(in_degree, es, ds) dep.
     if \<not> bt_contains (services config) (dep_service dep)
     then Err (ConfigError ''Service {} depends on undefined service {}'')
     else Ok (bt_entry name 0 (\<lambda>n. n + 1) in_degree,
              bt_entry name [] (\<lambda>l. l @ [\<lparr>edge_service = dep_service dep,
                                          edge_condition = dep_condition dep\<rparr>]) es,
              bt_entry (dep_service dep) [] (\<lambda>l. l @ [name]) ds))"

definition add_service ::
  "topology_config \<Rightarrow> adjacency \<Rightarrow> string \<times> service_def \<Rightarrow> adjacency result" where
  "add_service config st = (\<lambda>(name, svc). try_fold (add_dependency config name) st (svc_depends_on svc))"

definition build_adjacency :: "topology_config \<Rightarrow> adjacency result" where
  "build_adjacency config =
     try_fold (add_service config) (fold init_node (bt_keys (services config)) ([], [], []))
       (services config)"

text \<open>The inner loop over the dependents of a node that has been ordered.\<close>

fun kahn_visit ::
  "string list \<Rightarrow> (string, nat) btree_map \<Rightarrow> string list \<Rightarrow> ((string, nat) btree_map \<times> string list) option"
where
  "kahn_visit [] in_degree queue = Some (in_degree, queue)"
| "kahn_visit (dep # deps) in_degree queue =
     (case bt_get in_degree dep of
        None \<Rightarrow> kahn_visit deps in_degree queue
      | Some degree \<Rightarrow>
          (if degree = 0 then None
           else kahn_visit deps (bt_set dep (degree - 1) in_degree)
                  (if degree - 1 = 0 then queue @ [dep] else queue)))"

lemma sum_degrees_set:
  "bt_get m k = Some n \<Longrightarrow> sum_list (map snd (bt_set k v m)) + n = sum_list (map snd m) + (v :: nat)"
  by (induction k v m rule: bt_set.induct) (auto simp: bt_get_def split: if_splits)

lemma kahn_visit_measure:
  "kahn_visit ds I Q = Some (I', Q') \<Longrightarrow>
     sum_list (map snd I') + length Q' \<le> sum_list (map snd I) + length Q"
proof (induction ds I Q rule: kahn_visit.induct)
  case (2 d ds I Q)
  show ?case
  proof (cases "bt_get I d")
    case (Some n)
    with 2 sum_degrees_set[OF Some, of "n - 1"] show ?thesis
      by (fastforce split: if_splits)
  qed (use 2 in auto)
qed simp

function kahn ::
  "(string, string list) btree_map \<Rightarrow> (string, nat) btree_map \<Rightarrow> string list \<Rightarrow> string list \<Rightarrow>
   string list option"
where
  "kahn ds in_degree [] order = Some order"
| "kahn ds in_degree (node # queue) order =
     (case bt_get ds node of
        None \<Rightarrow> kahn ds in_degree queue (order @ [node])
      | Some deps \<Rightarrow>
          (case kahn_visit deps in_degree queue of
             None \<Rightarrow> None
           | Some (in_degree', queue') \<Rightarrow> kahn ds in_degree' queue' (order @ [node])))"
  by pat_completeness auto
termination
  by (relation "measure (\<lambda>(ds, I, Q, _). sum_list (map snd I) + length Q)")
    (auto dest: kahn_visit_measure)

definition initial_queue :: "(string, nat) btree_map \<Rightarrow> string list" where
  "initial_queue in_degree = map fst (filter (\<lambda>(name, degree). degree = 0) in_degree)"

definition resolve :: "topology_config \<Rightarrow> dependency_graph result option" where
  "resolve config =
     (case build_adjacency config of
        Inl e \<Rightarrow> Some (Err e)
      | Inr (in_degree, es, ds) \<Rightarrow>
          (case kahn ds in_degree (initial_queue in_degree) [] of
             None \<Rightarrow> None
           | Some order \<Rightarrow>
               (if length order \<noteq> length (bt_keys (services config))
                then Some (Err (ConfigError ''Circular dependency detected among services: {:?}''))
                else Some (Ok \<lparr>startup_order = order, edges = es, dependents = ds\<rparr>))))"

definition shutdown_order :: "dependency_graph \<Rightarrow> string list" where
  "shutdown_order self = rev (startup_order self)"

definition unit_name :: "string \<Rightarrow> string \<Rightarrow> string" where
  "unit_name topology service = ''nucleus-'' @ topology @ ''-'' @ service @ ''.service''"

definition systemd_deps :: "dependency_graph \<Rightarrow> string \<Rightarrow> string \<Rightarrow> string list \<times> string list" where
  "systemd_deps self service topology_name =
     (case bt_get (edges self) service of
        None \<Rightarrow> ([], [])
      | Some deps \<Rightarrow>
          fold (\<lambda>dep (after, requires).
            let u = unit_name topology_name (edge_service dep) in
            (after @ [u], if edge_condition dep = ''healthy'' then requires @ [u] else requires))
          deps ([], []))"

section \<open>The maps that resolution builds\<close>

definition edge_of :: "depends_on \<Rightarrow> dependency_edge" where
  "edge_of dep = \<lparr>edge_service = dep_service dep, edge_condition = dep_condition dep\<rparr>"

text \<open>All declared dependencies with the service that declares them, in the order of the loops.\<close>

definition declared :: "topology_config \<Rightarrow> (string \<times> depends_on) list" where
  "declared config = concat (map (\<lambda>(n, svc). map (Pair n) (svc_depends_on svc)) (services config))"

text \<open>The state of the loops after the dependencies \<open>L\<close> of the services \<open>N\<close>.\<close>

fun adjacency_of :: "string set \<Rightarrow> (string \<times> depends_on) list \<Rightarrow> adjacency \<Rightarrow> bool" where
  "adjacency_of N L (I, E, D) \<longleftrightarrow> bt_inv I \<and> bt_inv E \<and> bt_inv D
     \<and> bt_get I = (\<lambda>n. if n \<in> N then Some (length (filter (\<lambda>p. fst p = n) L)) else None)
     \<and> bt_get E = (\<lambda>n. if n \<in> N then Some (map (edge_of \<circ> snd) (filter (\<lambda>p. fst p = n) L)) else None)
     \<and> bt_get D = (\<lambda>x. if x \<in> N then Some (map fst (filter (\<lambda>p. dep_service (snd p) = x) L)) else None)"

lemma adjacency_init:
  "adjacency_of N [] st \<Longrightarrow> adjacency_of (N \<union> set ns) [] (fold init_node ns st)"
proof (induction ns arbitrary: N st)
  case (Cons n ns)
  obtain I E D where st: "st = (I, E, D)" by (cases st)
  have "adjacency_of (insert n N) [] (init_node n st)"
    using Cons.prems
    by (auto simp: st init_node_def bt_inv_entry bt_get_entry fun_eq_iff split: option.splits)
  from Cons.IH[OF this] show ?case by simp
qed simp

lemma adjacency_add:
  assumes "adjacency_of N L st" "n \<in> N" "N = set (bt_keys (services config))" "dep_service dep \<in> N"
  obtains st' where "add_dependency config n st dep = Ok st'" "adjacency_of N (L @ [(n, dep)]) st'"
proof -
  obtain I E D where st: "st = (I, E, D)" by (cases st)
  define st' where "st' = (bt_entry n 0 (\<lambda>n. n + 1) I, bt_entry n [] (\<lambda>l. l @ [edge_of dep]) E,
     bt_entry (dep_service dep) [] (\<lambda>l. l @ [n]) D)"
  have "add_dependency config n st dep = Ok st'"
    using assms(3,4) by (simp add: add_dependency_def st st'_def edge_of_def bt_contains_keys)
  moreover have "adjacency_of N (L @ [(n, dep)]) st'"
    using assms(1,2,4) by (auto simp: st st'_def bt_inv_entry bt_get_entry fun_eq_iff)
  ultimately show ?thesis by (rule that)
qed

lemma add_dependency_undefined:
  "\<not> bt_contains (services config) (dep_service dep) \<Longrightarrow>
     add_dependency config n st dep = Err (ConfigError ''Service {} depends on undefined service {}'')"
  by (cases st) (simp add: add_dependency_def)

text \<open>The two nested loops are one loop over the declared dependencies.\<close>

lemma add_services_flat:
  "try_fold (add_service config) st svcs =
     try_fold (\<lambda>st (n, dep). add_dependency config n st dep) st
       (concat (map (\<lambda>(n, svc). map (Pair n) (svc_depends_on svc)) svcs))"
proof (induction svcs arbitrary: st)
  case (Cons s svcs)
  obtain n svc where s: "s = (n, svc)" by (cases s)
  have "try_fold (\<lambda>st (n, dep). add_dependency config n st dep) st (map (Pair n) deps) =
      try_fold (add_dependency config n) st deps" for st deps
    by (induction deps arbitrary: st) simp_all
  with Cons.IH show ?case by (simp add: s add_service_def try_fold_append)
qed simp

lemma adjacency_fold:
  assumes "adjacency_of N L st" "N = set (bt_keys (services config))" "\<forall>p\<in>set M. fst p \<in> N"
  shows "case try_fold (\<lambda>st (n, dep). add_dependency config n st dep) st M of
      Inl e \<Rightarrow> e = ConfigError ''Service {} depends on undefined service {}''
        \<and> (\<exists>p\<in>set M. dep_service (snd p) \<notin> N)
    | Inr st' \<Rightarrow> adjacency_of N (L @ M) st' \<and> (\<forall>p\<in>set M. dep_service (snd p) \<in> N)"
  using assms
proof (induction M arbitrary: L st)
  case (Cons p M)
  obtain n dep where p: "p = (n, dep)" by (cases p)
  show ?case
  proof (cases "dep_service dep \<in> N")
    case True
    with Cons.prems p obtain st' where "add_dependency config n st dep = Ok st'"
      "adjacency_of N (L @ [(n, dep)]) st'" by (auto intro: adjacency_add)
    with Cons.IH[of "L @ [(n, dep)]" st'] Cons.prems True p show ?thesis
      by (auto split: sum.splits)
  next
    case False
    with Cons.prems(2) have "\<not> bt_contains (services config) (dep_service dep)"
      by (simp add: bt_contains_keys)
    from add_dependency_undefined[OF this] False show ?thesis by (simp add: p)
  qed
qed simp

definition deps_defined :: "topology_config \<Rightarrow> bool" where
  "deps_defined config \<longleftrightarrow>
     (\<forall>n\<in>set (bt_keys (services config)). set (dep_names config n) \<subseteq> set (bt_keys (services config)))"

lemma declared_of_service:
  assumes "bt_inv (services config)" "bt_get (services config) n = Some svc"
  shows "filter (\<lambda>p. fst p = n) (declared config) = map (Pair n) (svc_depends_on svc)"
proof -
  have none: "filter (\<lambda>p. fst p = n) (map (Pair m) xs) = (if m = n then map (Pair m) xs else [])"
    for m and xs :: "depends_on list" by (auto simp: filter_empty_conv)
  have absent: "n \<notin> fst ` set svcs \<Longrightarrow>
      filter (\<lambda>p. fst p = n) (concat (map (\<lambda>(n, svc). map (Pair n) (svc_depends_on svc)) svcs)) = []"
    for svcs by (force simp: filter_empty_conv)
  have "distinct (map fst svcs) \<Longrightarrow> map_of svcs n = Some svc \<Longrightarrow>
      filter (\<lambda>p. fst p = n) (concat (map (\<lambda>(n, svc). map (Pair n) (svc_depends_on svc)) svcs))
        = map (Pair n) (svc_depends_on svc)" for svcs
  proof (induction svcs)
    case (Cons s svcs)
    then show ?case using absent[of svcs] none by (cases s) (auto split: if_splits)
  qed simp
  then show ?thesis using assms
    by (simp add: declared_def bt_get_def bt_inv_def strict_sorted_iff)
qed

lemma declared_degree:
  assumes "bt_inv (services config)" "n \<in> set (bt_keys (services config))"
  shows "length (filter (\<lambda>p. fst p = n) (declared config)) = length (dep_names config n)"
    and "count_list (map fst (filter (\<lambda>p. dep_service (snd p) = x) (declared config))) n
           = count_list (dep_names config n) x"
proof -
  from assms(2) obtain svc where svc: "bt_get (services config) n = Some svc"
    by (auto simp: bt_contains_keys[symmetric] bt_contains_def)
  note f = declared_of_service[OF assms(1) svc]
  show "length (filter (\<lambda>p. fst p = n) (declared config)) = length (dep_names config n)"
    by (simp add: f dep_names_def svc)
  have "count_list (map fst (filter (\<lambda>p. dep_service (snd p) = x) L)) n =
      length (filter (\<lambda>p. dep_service (snd p) = x) (filter (\<lambda>p. fst p = n) L))"
    for L :: "(string \<times> depends_on) list" by (induction L) auto
  moreover have "length (filter (\<lambda>p. dep_service (snd p) = x) (map (Pair n) ds)) =
      count_list (map dep_service ds) x" for ds by (induction ds) auto
  ultimately show "count_list (map fst (filter (\<lambda>p. dep_service (snd p) = x) (declared config))) n
      = count_list (dep_names config n) x"
    by (simp only: f dep_names_def svc option.case)
qed

lemma declared_mem:
  assumes "bt_inv (services config)"
  shows "(n, dep) \<in> set (declared config) \<longleftrightarrow>
    (\<exists>svc. bt_get (services config) n = Some svc \<and> dep \<in> set (svc_depends_on svc))"
proof -
  have "(n, dep) \<in> set (declared config) \<longleftrightarrow>
      (\<exists>svc. (n, svc) \<in> set (services config) \<and> dep \<in> set (svc_depends_on svc))"
    by (force simp: declared_def)
  then show ?thesis using bt_entry_in[OF _ assms] bt_get_in by metis
qed

lemma deps_defined_declared:
  assumes "bt_inv (services config)"
  shows "deps_defined config \<longleftrightarrow>
    (\<forall>p\<in>set (declared config). dep_service (snd p) \<in> set (bt_keys (services config)))"
proof -
  have "x \<in> set (dep_names config n) \<longleftrightarrow> (\<exists>dep. (n, dep) \<in> set (declared config) \<and> dep_service dep = x)"
    for n x
    unfolding declared_mem[OF assms]
    by (cases "bt_get (services config) n") (auto simp: dep_names_def)
  moreover have "n \<in> set (bt_keys (services config))" if "(n, dep) \<in> set (declared config)" for n dep
    using that unfolding declared_mem[OF assms]
    by (auto simp: bt_contains_keys[symmetric] bt_contains_def)
  ultimately show ?thesis unfolding deps_defined_def by (auto simp: subset_iff) blast+
qed

lemma build_adjacency_cases:
  assumes "bt_inv (services config)"
  shows "case build_adjacency config of
      Inl e \<Rightarrow> e = ConfigError ''Service {} depends on undefined service {}'' \<and> \<not> deps_defined config
    | Inr st \<Rightarrow> adjacency_of (set (bt_keys (services config))) (declared config) st \<and> deps_defined config"
proof -
  let ?N = "set (bt_keys (services config))"
  let ?st = "fold init_node (bt_keys (services config)) ([], [], [])"
  have "adjacency_of ({} \<union> ?N) [] ?st"
    by (rule adjacency_init) (simp add: bt_inv_def bt_get_def fun_eq_iff)
  then have init: "adjacency_of ?N [] ?st" by simp
  have fst: "\<forall>p\<in>set (declared config). fst p \<in> ?N"
    using declared_mem[OF assms] by (auto simp: bt_contains_keys[symmetric] bt_contains_def)
  from adjacency_fold[OF init refl fst] show ?thesis
    by (auto simp: build_adjacency_def add_services_flat declared_def[symmetric]
        deps_defined_declared[OF assms] split: sum.splits)
qed

section \<open>Kahn's algorithm\<close>

text \<open>
  The in-degree of a node is the number of its dependencies that are not ordered yet, plus the
  visits of the inner loop that are still to come; the nodes in the order or in the queue are those
  whose in-degree is zero.
\<close>

definition degrees ::
  "string set \<Rightarrow> (string \<Rightarrow> string list) \<Rightarrow> string set \<Rightarrow> string list \<Rightarrow> (string, nat) btree_map \<Rightarrow> bool" where
  "degrees N deps S ds I \<longleftrightarrow> (\<forall>n. bt_get I n =
     (if n \<in> N then Some (length (filter (\<lambda>d. d \<notin> S) (deps n)) + count_list ds n) else None))"

definition queued :: "string set \<Rightarrow> string list \<Rightarrow> string list \<Rightarrow> (string, nat) btree_map \<Rightarrow> bool" where
  "queued N Ord Q I \<longleftrightarrow> distinct (Ord @ Q) \<and> set (Ord @ Q) \<subseteq> N
     \<and> (\<forall>n\<in>N. n \<in> set (Ord @ Q) \<longleftrightarrow> bt_get I n = Some 0)"

lemma kahn_visit_invariant:
  assumes "degrees N deps S ds I" "queued N Ord Q I"
  shows "\<exists>I' Q'. kahn_visit ds I Q = Some (I', Q') \<and> degrees N deps S [] I' \<and> queued N Ord Q' I'"
  using assms
proof (induction ds I Q rule: kahn_visit.induct)
  case (2 d ds I Q)
  show ?case
  proof (cases "d \<in> N")
    case False
    with "2.prems"(1) have "bt_get I d = None" by (simp add: degrees_def)
    moreover have "degrees N deps S ds I"
      using "2.prems"(1) False by (auto simp: degrees_def fun_eq_iff)
    ultimately show ?thesis using 2 by simp
  next
    case True
    let ?k = "length (filter (\<lambda>d. d \<notin> S) (deps d)) + count_list ds d"
    let ?I = "bt_set d ?k I" and ?Q = "if ?k = 0 then Q @ [d] else Q"
    have I: "bt_get I d = Some (Suc ?k)"
      using "2.prems"(1) True by (simp add: degrees_def)
    then have get: "bt_get ?I = (bt_get I)(d \<mapsto> ?k)"
      by (simp add: bt_get_set bt_contains_def)
    have "degrees N deps S ds ?I"
      using "2.prems"(1) True by (auto simp: degrees_def get)
    moreover have "d \<notin> set (Ord @ Q)" using "2.prems"(2) I True by (simp add: queued_def)
    then have "queued N Ord ?Q ?I"
      using "2.prems"(2) True by (auto simp: queued_def get)
    ultimately show ?thesis using "2.IH"(2)[OF I] by (simp add: I)
  qed
qed simp

text \<open>Every name in an order comes after its dependencies.\<close>

definition dependencies_first :: "(string \<Rightarrow> string list) \<Rightarrow> string list \<Rightarrow> bool" where
  "dependencies_first deps Ord \<longleftrightarrow> (\<forall>xs n ys. Ord = xs @ n # ys \<longrightarrow> set (deps n) \<subseteq> set xs)"

lemma dependencies_first_snoc:
  "dependencies_first deps (Ord @ [n]) \<longleftrightarrow> dependencies_first deps Ord \<and> set (deps n) \<subseteq> set Ord"
proof
  assume a: "dependencies_first deps (Ord @ [n])"
  have "dependencies_first deps Ord"
    unfolding dependencies_first_def
  proof (intro allI impI)
    fix xs m ys assume "Ord = xs @ m # ys"
    then have "Ord @ [n] = xs @ m # (ys @ [n])" by simp
    with a show "set (deps m) \<subseteq> set xs" unfolding dependencies_first_def by blast
  qed
  with a show "dependencies_first deps Ord \<and> set (deps n) \<subseteq> set Ord"
    unfolding dependencies_first_def by blast
next
  assume a: "dependencies_first deps Ord \<and> set (deps n) \<subseteq> set Ord"
  show "dependencies_first deps (Ord @ [n])"
    unfolding dependencies_first_def
  proof (intro allI impI)
    fix xs m ys assume "Ord @ [n] = xs @ m # ys"
    then show "set (deps m) \<subseteq> set xs"
      using a by (cases ys rule: rev_cases) (auto simp: dependencies_first_def)
  qed
qed

lemma filter_insert_length:
  "x \<notin> S \<Longrightarrow> length (filter (\<lambda>d. d \<notin> S) ds) = length (filter (\<lambda>d. d \<notin> insert x S) ds) + count_list ds x"
  by (induction ds) auto

lemma kahn_invariant:
  assumes D: "\<And>x. x \<in> N \<Longrightarrow> \<exists>ds. bt_get D x = Some ds \<and> (\<forall>n\<in>N. count_list ds n = count_list (deps n) x)"
    and "degrees N deps (set Ord) [] I" "queued N Ord Q I" "dependencies_first deps Ord"
  shows "\<exists>res. kahn D I Q Ord = Some res \<and> distinct res \<and> set res \<subseteq> N \<and> dependencies_first deps res
    \<and> (\<forall>n\<in>N. set (deps n) \<subseteq> set res \<longrightarrow> n \<in> set res)"
  using assms
proof (induction D I Q Ord rule: kahn.induct)
  case (1 D I Ord)
  then have "n \<in> set Ord" if "n \<in> N" "set (deps n) \<subseteq> set Ord" for n
    using that by (auto simp: degrees_def queued_def filter_empty_conv subset_iff)
  with 1 show ?case by (auto simp: queued_def)
next
  case (2 D I x Q Ord)
  have x: "x \<in> N" "x \<notin> set Ord" "bt_get I x = Some 0" using "2.prems"(3) by (auto simp: queued_def)
  obtain ds where ds: "bt_get D x = Some ds" "\<forall>n\<in>N. count_list ds n = count_list (deps n) x"
    using "2.prems"(1)[OF x(1)] by blast
  have "degrees N deps (set (Ord @ [x])) ds I"
    using "2.prems"(2) x(2) ds(2) filter_insert_length[of x "set Ord"] by (auto simp: degrees_def)
  moreover have "queued N (Ord @ [x]) Q I" using "2.prems"(3) by (auto simp: queued_def)
  ultimately obtain I' Q' where v: "kahn_visit ds I Q = Some (I', Q')"
    "degrees N deps (set (Ord @ [x])) [] I'" "queued N (Ord @ [x]) Q' I'"
    using kahn_visit_invariant by blast
  have "set (deps x) \<subseteq> set Ord"
    using "2.prems"(2) x by (auto simp: degrees_def filter_empty_conv)
  then have "dependencies_first deps (Ord @ [x])"
    using "2.prems"(4) by (simp add: dependencies_first_snoc)
  from "2.IH"(2)[OF ds(1) v(1) refl "2.prems"(1) v(2,3) this] show ?case by (simp add: ds(1) v(1))
qed

section \<open>Resolution\<close>

text \<open>The dependency relation of a topology: from a service to the services that wait for it.\<close>

definition depends :: "topology_config \<Rightarrow> (string \<times> string) set" where
  "depends config = {(d, n). n \<in> set (bt_keys (services config)) \<and> d \<in> set (dep_names config n)}"

lemma finite_depends: "finite (depends config)"
proof -
  have "depends config = (\<Union>n\<in>set (bt_keys (services config)). (\<lambda>d. (d, n)) ` set (dep_names config n))"
    by (auto simp: depends_def)
  then show ?thesis by simp
qed

lemma bt_keys_distinct: "bt_inv m \<Longrightarrow> distinct (bt_keys m)"
  by (rule bt.distinct_keys)

lemma kahn_of_adjacency:
  assumes "bt_inv (services config)"
    and "adjacency_of (set (bt_keys (services config))) (declared config) (I, E, D)"
  shows "\<exists>res. kahn D I (initial_queue I) [] = Some res \<and> distinct res
    \<and> set res \<subseteq> set (bt_keys (services config)) \<and> dependencies_first (dep_names config) res
    \<and> (\<forall>n\<in>set (bt_keys (services config)). set (dep_names config n) \<subseteq> set res \<longrightarrow> n \<in> set res)"
proof (rule kahn_invariant)
  let ?N = "set (bt_keys (services config))"
  have I: "bt_get I n = (if n \<in> ?N then Some (length (dep_names config n)) else None)" for n
    using assms(2) declared_degree(1)[OF assms(1)] by auto
  have inv: "bt_inv I" using assms(2) by simp
  show "\<exists>ds. bt_get D x = Some ds \<and> (\<forall>n\<in>?N. count_list ds n = count_list (dep_names config n) x)"
    if "x \<in> ?N" for x
    using assms(2) declared_degree(2)[OF assms(1)] that by auto
  show "degrees ?N (dep_names config) (set []) [] I" by (simp add: degrees_def I)
  have "n \<in> set (initial_queue I) \<longleftrightarrow> bt_get I n = Some 0" for n
    using bt_entry_in[OF _ inv] bt_get_in by (force simp: initial_queue_def)
  moreover have "distinct (initial_queue I)"
    using bt_keys_distinct[OF inv] by (simp add: initial_queue_def bt_keys_def distinct_map_filter)
  ultimately show "queued ?N [] (initial_queue I) I"
    by (auto simp: queued_def I split: if_splits)
  show "dependencies_first (dep_names config) []" by (simp add: dependencies_first_def)
qed

text \<open>An order of all services with dependencies first leaves no room for a cycle.\<close>

lemma dependencies_first_step:
  assumes "dependencies_first (dep_names config) res" "distinct res" "(d, n) \<in> depends config"
    "res = xs @ n # ys"
  shows "d \<in> set xs"
  using assms by (auto simp: dependencies_first_def depends_def)

lemma takeWhile_first: "n \<notin> set xs \<Longrightarrow> takeWhile (\<lambda>m. m \<noteq> n) (xs @ n # ys) = xs"
  by (induction xs) auto

lemma dependencies_first_acyclic:
  assumes "dependencies_first (dep_names config) res" "distinct res"
    "set res = set (bt_keys (services config))"
  shows "acyclic (depends config)"
proof -
  let ?pos = "\<lambda>n. length (takeWhile (\<lambda>m. m \<noteq> n) res)"
  have "?pos d < ?pos n" if dn: "(d, n) \<in> depends config" for d n
  proof -
    from dn assms(3) have "n \<in> set res" by (simp add: depends_def)
    then obtain xs ys where r: "res = xs @ n # ys" by (auto simp: in_set_conv_decomp)
    have "d \<in> set xs" using dependencies_first_step[OF assms(1,2) dn r] .
    then obtain as bs where x: "xs = as @ d # bs" "d \<notin> set as"
      using split_list_first by metis
    have "n \<notin> set xs" using assms(2) r by simp
    then have "?pos n = length xs" by (simp add: r takeWhile_first)
    moreover have "?pos d = length as" using x takeWhile_first[of d as "bs @ n # ys"] by (simp add: r)
    ultimately show ?thesis using x(1) by simp
  qed
  then have "depends config \<subseteq> measure ?pos" by auto
  then show ?thesis using wf_acyclic wf_subset wf_measure by metis
qed

lemma acyclic_all_ordered:
  assumes "acyclic (depends config)" "deps_defined config"
    "\<forall>n\<in>set (bt_keys (services config)). set (dep_names config n) \<subseteq> set res \<longrightarrow> n \<in> set res"
  shows "set (bt_keys (services config)) \<subseteq> set res"
proof
  fix n
  have wf: "wf (depends config)" using finite_acyclic_wf[OF finite_depends assms(1)] .
  show "n \<in> set (bt_keys (services config)) \<Longrightarrow> n \<in> set res"
  proof (induction n rule: wf_induct_rule[OF wf])
    case (1 n)
    then have "set (dep_names config n) \<subseteq> set res"
      using assms(2) by (auto simp: depends_def deps_defined_def)
    with 1 assms(3) show ?case by blast
  qed
qed

lemma resolve_cases:
  assumes inv: "bt_inv (services config)"
  shows "\<exists>r. resolve config = Some r \<and>
    (case r of
       Inr g \<Rightarrow> deps_defined config \<and> acyclic (depends config)
         \<and> distinct (startup_order g) \<and> set (startup_order g) = set (bt_keys (services config))
         \<and> dependencies_first (dep_names config) (startup_order g)
         \<and> (\<exists>I. adjacency_of (set (bt_keys (services config))) (declared config) (I, edges g, dependents g))
     | Inl e \<Rightarrow> e = (if deps_defined config
            then ConfigError ''Circular dependency detected among services: {:?}''
            else ConfigError ''Service {} depends on undefined service {}'')
         \<and> (deps_defined config \<longrightarrow> \<not> acyclic (depends config)))"
proof (cases "build_adjacency config")
  case (Inl e)
  with build_adjacency_cases[OF inv] show ?thesis by (simp add: resolve_def)
next
  case (Inr st)
  obtain I E D where st: "st = (I, E, D)" by (cases st)
  let ?keys = "bt_keys (services config)"
  have adj: "adjacency_of (set ?keys) (declared config) (I, E, D)" and def: "deps_defined config"
    using build_adjacency_cases[OF inv] Inr st by auto
  obtain res where res: "kahn D I (initial_queue I) [] = Some res" "distinct res" "set res \<subseteq> set ?keys"
    "dependencies_first (dep_names config) res"
    "\<forall>n\<in>set ?keys. set (dep_names config n) \<subseteq> set res \<longrightarrow> n \<in> set res"
    using kahn_of_adjacency[OF inv adj] by blast
  have len: "length res = length ?keys \<longleftrightarrow> set res = set ?keys"
    using res(2,3) bt_keys_distinct[OF inv]
    by (metis card_subset_eq distinct_card finite_set)
  have "set res = set ?keys \<longleftrightarrow> acyclic (depends config)"
    using dependencies_first_acyclic[OF res(4,2)] acyclic_all_ordered[OF _ def res(5)] res(3) by blast
  with len show ?thesis using res adj def
    by (auto simp: resolve_def Inr st simp del: adjacency_of.simps)
qed

lemma resolve_verdict:
  assumes "bt_inv (services config)"
  shows "\<exists>r. resolve config = Some r
    \<and> (is_ok r \<longleftrightarrow> deps_defined config \<and> acyclic (depends config))
    \<and> (r = Err (ConfigError ''Service {} depends on undefined service {}'') \<longleftrightarrow> \<not> deps_defined config)
    \<and> (r = Err (ConfigError ''Circular dependency detected among services: {:?}'')
         \<longleftrightarrow> deps_defined config \<and> \<not> acyclic (depends config))"
proof -
  from resolve_cases[OF assms] obtain r where r: "resolve config = Some r" by blast
  show ?thesis
  proof (cases r)
    case (Inl e)
    with resolve_cases[OF assms] r show ?thesis by (cases "deps_defined config") auto
  next
    case (Inr g)
    with resolve_cases[OF assms] r show ?thesis by (simp del: adjacency_of.simps)
  qed
qed

text \<open>
  C3: resolution ends, never decrements an in-degree below zero, and succeeds exactly on the
  topologies whose dependencies all name services of the topology and have no cycle. An undefined
  dependency and a cycle give their own errors.
\<close>

theorem resolve_decides:
  assumes "bt_inv (services config)"
  shows "\<exists>r. resolve config = Some r
    \<and> (is_ok r \<longleftrightarrow> deps_defined config \<and> acyclic (depends config))
    \<and> (r = Err (ConfigError ''Service {} depends on undefined service {}'') \<longleftrightarrow> \<not> deps_defined config)
    \<and> (r = Err (ConfigError ''Circular dependency detected among services: {:?}'')
         \<longleftrightarrow> deps_defined config \<and> \<not> acyclic (depends config))"
  by (rule resolve_verdict[OF assms])


definition waits_for :: "string \<Rightarrow> string \<Rightarrow> service_def" where
  "waits_for d c = (service_new ''/nix/store/r'' [''run''] ''64M'')
     \<lparr>svc_depends_on := [\<lparr>dep_service = d, dep_condition = c\<rparr>]\<rparr>"

definition topology_of :: "(string, service_def) btree_map \<Rightarrow> topology_config" where
  "topology_of svcs = \<lparr>topo_name = ''t'', networks = [], volumes = [], services = svcs\<rparr>"

definition cyclic_topology :: topology_config where
  "cyclic_topology = topology_of [(''a'', waits_for ''b'' ''started''), (''b'', waits_for ''a'' ''started'')]"

definition web_topology :: topology_config where
  "web_topology = topology_of [(''db'', service_new ''/nix/store/r'' [''run''] ''64M''),
     (''web'', waits_for ''db'' ''healthy'')]"

lemma bt_inv_web: "bt_inv (services web_topology)"
  by (simp add: bt_inv_def web_topology_def topology_of_def less_char_def)

theorem resolve_decides_witness:
  "resolve cyclic_topology = Some (Err (ConfigError ''Circular dependency detected among services: {:?}''))"
proof -
  have d: "dep_names cyclic_topology ''a'' = [''b'']" "dep_names cyclic_topology ''b'' = [''a'']"
    and k: "bt_keys (services cyclic_topology) = [''a'', ''b'']"
    by (simp_all add: dep_names_def cyclic_topology_def topology_of_def waits_for_def bt_get_def bt_keys_def)
  have "(''a'', ''b'') \<in> depends cyclic_topology" "(''b'', ''a'') \<in> depends cyclic_topology"
    by (simp_all add: depends_def d k)
  then have "\<not> acyclic (depends cyclic_topology)"
    unfolding acyclic_def by (meson trancl.simps)
  moreover have "deps_defined cyclic_topology" by (simp add: deps_defined_def d k)
  moreover have "bt_inv (services cyclic_topology)"
    by (simp add: bt_inv_def cyclic_topology_def topology_of_def less_char_def)
  ultimately show ?thesis using resolve_decides[of cyclic_topology] by auto
qed

lemma resolve_web:
  "resolve web_topology = Some (Ok \<lparr>startup_order = [''db'', ''web''],
     edges = [(''db'', []), (''web'', [\<lparr>edge_service = ''db'', edge_condition = ''healthy''\<rparr>])],
     dependents = [(''db'', [''web'']), (''web'', [])]\<rparr>)"
  by (simp add: resolve_def build_adjacency_def web_topology_def topology_of_def waits_for_def
      service_new_def init_node_def add_service_def add_dependency_def bt_keys_def bt_entry_def
      bt_get_def bt_contains_def initial_queue_def less_char_def)


text \<open>
  the graph's edges of a service are its declared dependencies with their conditions, in order,
  and its dependents are the services that declare it; systemd orders a service after the unit of
  every dependency and makes it require exactly the units of those it needs to be healthy.
\<close>

theorem graph_edges_declared:
  assumes "bt_inv (services config)" and "resolve config = Some (Ok g)"
    and "bt_get (services config) n = Some svc"
  shows "bt_get (edges g) n = Some (map edge_of (svc_depends_on svc))
    \<and> (\<exists>ds. bt_get (dependents g) n = Some ds
         \<and> set ds = {m \<in> set (bt_keys (services config)). n \<in> set (dep_names config m)})
    \<and> systemd_deps g n topology =
        (map (unit_name topology \<circ> dep_service) (svc_depends_on svc),
         map (unit_name topology \<circ> dep_service)
           (filter (\<lambda>d. dep_condition d = ''healthy'') (svc_depends_on svc)))"
proof -
  let ?N = "set (bt_keys (services config))"
  from resolve_cases[OF assms(1)] assms(2) obtain I where
    adj: "adjacency_of ?N (declared config) (I, edges g, dependents g)"
    by (auto simp del: adjacency_of.simps)
  have n: "n \<in> ?N" using assms(3) by (simp add: bt_contains_keys[symmetric] bt_contains_def)
  have e: "bt_get (edges g) n = Some (map edge_of (svc_depends_on svc))"
    using adj n declared_of_service[OF assms(1,3)] by (simp add: comp_def)
  have "set (map fst (filter (\<lambda>p. dep_service (snd p) = n) (declared config)))
      = {m \<in> ?N. n \<in> set (dep_names config m)}" (is "?L = ?R")
  proof (intro set_eqI)
    fix m
    have "m \<in> ?L \<longleftrightarrow> (\<exists>dep. (m, dep) \<in> set (declared config) \<and> dep_service dep = n)" by force
    also have "\<dots> \<longleftrightarrow> m \<in> ?R"
      unfolding declared_mem[OF assms(1)]
      by (cases "bt_get (services config) m")
        (auto simp: dep_names_def bt_contains_keys[symmetric] bt_contains_def)
    finally show "m \<in> ?L \<longleftrightarrow> m \<in> ?R" .
  qed
  then have d: "\<exists>ds. bt_get (dependents g) n = Some ds \<and> set ds = ?R" using adj n by simp
  have "fold (\<lambda>dep (after, requires).
            let u = unit_name topology (edge_service dep) in
            (after @ [u], if edge_condition dep = ''healthy'' then requires @ [u] else requires))
          (map edge_of ds) (A, R) =
      (A @ map (unit_name topology \<circ> dep_service) ds,
       R @ map (unit_name topology \<circ> dep_service) (filter (\<lambda>d. dep_condition d = ''healthy'') ds))"
    for ds A R by (induction ds arbitrary: A R) (simp_all add: edge_of_def Let_def)
  then have "systemd_deps g n topology =
        (map (unit_name topology \<circ> dep_service) (svc_depends_on svc),
         map (unit_name topology \<circ> dep_service)
           (filter (\<lambda>d. dep_condition d = ''healthy'') (svc_depends_on svc)))"
    by (simp add: systemd_deps_def e)
  with e d show ?thesis by blast
qed

theorem graph_edges_declared_witness:
  "\<exists>ds. bt_get [(''db'', [''web'']), (''web'', [])] ''db'' = Some ds
     \<and> set ds = {m \<in> set (bt_keys (services web_topology)). ''db'' \<in> set (dep_names web_topology m)}"
proof -
  have "bt_get (services web_topology) ''db'' = Some (service_new ''/nix/store/r'' [''run''] ''64M'')"
    by (simp add: bt_get_def web_topology_def topology_of_def)
  from graph_edges_declared[OF bt_inv_web resolve_web this, of "''t''"] show ?thesis by simp
qed

end
