(* ===== verification/Paths.thy ===== *)
theory Paths
  imports Nucleus_Prelude
begin

text \<open>
  The part of \<^verbatim>\<open>std::path\<close> the source uses. A \<^verbatim>\<open>Path\<close> is its list of components: comparison,
  \<^verbatim>\<open>starts_with\<close>, \<^verbatim>\<open>strip_prefix\<close>, \<^verbatim>\<open>parent\<close>, \<^verbatim>\<open>join\<close>, \<^verbatim>\<open>push\<close> and \<^verbatim>\<open>pop\<close> all work on components.
  \<open>path_new\<close> reads the components of a text and \<open>path_text\<close> writes them. Windows prefixes do not
  occur on the systems the program runs on.
\<close>

datatype path_component = RootDir | CurDir | ParentDir | Normal string

type_synonym path = "path_component list"

definition component_of :: "string \<Rightarrow> path_component" where
  "component_of w = (if w = ''.'' then CurDir else if w = ''..'' then ParentDir else Normal w)"

text \<open>Empty pieces are skipped, and so is \<^verbatim>\<open>.\<close> unless it starts a relative path.\<close>

definition path_new :: "string \<Rightarrow> path" where
  "path_new s =
     (let cs = map component_of (filter (\<lambda>w. w \<noteq> []) (split_on CHR ''/'' s)) in
      if s \<noteq> [] \<and> hd s = CHR ''/'' then RootDir # filter (\<lambda>c. c \<noteq> CurDir) cs
      else case cs of [] \<Rightarrow> [] | c # cs' \<Rightarrow> c # filter (\<lambda>c. c \<noteq> CurDir) cs')"

definition is_absolute :: "path \<Rightarrow> bool" where
  "is_absolute p \<longleftrightarrow> p \<noteq> [] \<and> hd p = RootDir"

definition starts_with :: "path \<Rightarrow> path \<Rightarrow> bool" where
  "starts_with p base = prefix base p"

definition path_strip_prefix :: "path \<Rightarrow> path \<Rightarrow> path option" where
  "path_strip_prefix base p = (if prefix base p then Some (drop (length base) p) else None)"

definition path_push :: "path \<Rightarrow> string \<Rightarrow> path" where
  "path_push p part = p @ [Normal part]"

definition path_pop :: "path \<Rightarrow> path" where
  "path_pop p = (if p = [] \<or> last p = RootDir then p else butlast p)"

definition path_parent :: "path \<Rightarrow> path option" where
  "path_parent p = (if p = [] \<or> last p = RootDir then None else Some (butlast p))"

definition path_join :: "path \<Rightarrow> path \<Rightarrow> path" where
  "path_join p q =
     (if is_absolute q then q
      else if p = [] then q
      else p @ filter (\<lambda>c. c \<noteq> CurDir) q)"

fun component_text :: "path_component \<Rightarrow> string" where
  "component_text RootDir = []"
| "component_text CurDir = ''.''"
| "component_text ParentDir = ''..''"
| "component_text (Normal w) = w"

definition path_text :: "path \<Rightarrow> string" where
  "path_text p = (if p = [RootDir] then ''/'' else join ''/'' (map component_text p))"

text \<open>A name as it occurs in a directory.\<close>

definition is_name :: "string \<Rightarrow> bool" where
  "is_name w \<longleftrightarrow> w \<noteq> [] \<and> w \<noteq> ''.'' \<and> w \<noteq> ''..'' \<and> CHR ''/'' \<notin> set w"

fun is_normal :: "path_component \<Rightarrow> bool" where
  "is_normal (Normal w) = is_name w"
| "is_normal _ = False"

text \<open>An absolute path of names only.\<close>

definition is_plain :: "path \<Rightarrow> bool" where
  "is_plain p \<longleftrightarrow> p \<noteq> [] \<and> hd p = RootDir \<and> list_all is_normal (tl p)"

text \<open>What \<^verbatim>\<open>symlink_metadata\<close> or \<^verbatim>\<open>metadata\<close> says a file is.\<close>

datatype file_kind = KFile | KDir | KLink | KOther

lemma path_new_pieces:
  assumes "c \<in> set (map component_of (filter (\<lambda>w. w \<noteq> []) (split_on CHR ''/'' s)))"
  shows "c = CurDir \<or> c = ParentDir \<or> is_normal c"
  using assms split_by_pieces[of _ "\<lambda>c. c = CHR ''/''" s "CHR ''/''"]
  by (auto simp: component_of_def is_name_def split_on_def)

lemma path_new_absolute:
  assumes "is_absolute (path_new s)"
  obtains r where "path_new s = RootDir # r" "\<forall>c\<in>set r. c = ParentDir \<or> is_normal c"
proof -
  define cs where "cs = map component_of (filter (\<lambda>w. w \<noteq> []) (split_on CHR ''/'' s))"
  have cs: "c = CurDir \<or> c = ParentDir \<or> is_normal c" if "c \<in> set cs" for c
    using that path_new_pieces unfolding cs_def by blast
  have "path_new s = RootDir # filter (\<lambda>c. c \<noteq> CurDir) cs"
  proof (cases "s \<noteq> [] \<and> hd s = CHR ''/''")
    case False
    then have "path_new s = (case cs of [] \<Rightarrow> [] | c # cs' \<Rightarrow> c # filter (\<lambda>c. c \<noteq> CurDir) cs')"
      unfolding path_new_def cs_def Let_def by (rule if_not_P)
    with assms cs[of "hd cs"] show ?thesis by (cases cs) (auto simp: is_absolute_def)
  qed (simp add: path_new_def cs_def)
  with cs that show ?thesis by auto
qed

lemma path_new_relative:
  assumes "\<not> is_absolute (path_new s)" "c \<in> set (path_new s)"
  shows "c = CurDir \<or> c = ParentDir \<or> is_normal c"
proof -
  define cs where "cs = map component_of (filter (\<lambda>w. w \<noteq> []) (split_on CHR ''/'' s))"
  have "path_new s = (case cs of [] \<Rightarrow> [] | c # cs' \<Rightarrow> c # filter (\<lambda>c. c \<noteq> CurDir) cs')"
    using assms(1) unfolding path_new_def cs_def Let_def by (auto simp: is_absolute_def)
  then have "set (path_new s) \<subseteq> set cs" by (cases cs) auto
  with assms(2) show ?thesis using path_new_pieces unfolding cs_def by blast
qed

text \<open>The text of a plain path reads back as the same path.\<close>

lemma path_new_text:
  assumes "is_plain p"
  shows "path_new (path_text p) = p"
proof -
  obtain ns where p: "p = RootDir # ns" "list_all is_normal ns"
    using assms by (cases p) (auto simp: is_plain_def)
  have n: "component_of (component_text c) = c \<and> c \<noteq> CurDir \<and> component_text c \<noteq> []
      \<and> CHR ''/'' \<notin> set (component_text c)" if "c \<in> set ns" for c
  proof -
    from that p(2) have "is_normal c" by (simp add: list_all_iff)
    then show ?thesis by (cases c) (auto simp: component_of_def is_name_def)
  qed
  show ?thesis
  proof (cases ns)
    case Nil
    then show ?thesis by (simp add: p path_text_def path_new_def split_on_def)
  next
    case (Cons c cs)
    let ?ws = "[] # map component_text ns"
    have "path_text p = join ''/'' ?ws" by (simp add: p Cons path_text_def)
    moreover have "split_on CHR ''/'' (join ''/'' ?ws) = ?ws"
      using n by (intro split_on_join) auto
    moreover have "filter (\<lambda>w. w \<noteq> []) ?ws = map component_text ns" using n by (auto simp: filter_id_conv)
    moreover have "map component_of (map component_text ns) = ns" using n by (auto intro: map_idI)
    moreover have "filter (\<lambda>c. c \<noteq> CurDir) ns = ns" using n by (auto simp: filter_id_conv)
    ultimately show ?thesis by (simp add: path_new_def p(1) Let_def Cons)
  qed
qed

end
