(* ===== verification/Mount_Policy.thy ===== *)
theory Mount_Policy
  imports Paths
begin

text \<open>
  Which paths may be mounted where, and the audit of what was mounted
  (\<^verbatim>\<open>src/src/filesystem/mount.rs\<close>): normalisation of container destinations, the rootfs checks,
  the deny lists for bind sources, provider configuration and volume destinations, and the parser
  of \<^verbatim>\<open>/proc/self/mountinfo\<close> with the table of required mount flags. The file system
  (\<^verbatim>\<open>canonicalize\<close>, \<^verbatim>\<open>metadata\<close>, the content of the proc file) is an argument.
\<close>

section \<open>Container destinations\<close>

definition normalize_step ::
  "path \<times> bool \<Rightarrow> path_component \<Rightarrow> (path \<times> bool) result" where
  "normalize_step = (\<lambda>(normalized, saw_component) c.
     case c of
       RootDir \<Rightarrow> Ok (normalized, saw_component)
     | CurDir \<Rightarrow> Ok (normalized, saw_component)
     | Normal part \<Rightarrow> Ok (path_push normalized part, True)
     | ParentDir \<Rightarrow> Err (ConfigError ''Container destination must not contain parent traversal: {:?}''))"

definition normalize_container_destination :: "path \<Rightarrow> path result" where
  "normalize_container_destination dest =
     (if \<not> is_absolute dest then Err (ConfigError ''Container destination must be absolute: {:?}'')
      else and_then (try_fold normalize_step ([RootDir], False) dest) (\<lambda>(normalized, saw_component).
        if \<not> saw_component
        then Err (ConfigError ''Container destination must not be the root directory: {:?}'')
        else Ok normalized))"

definition resolve_container_destination :: "path \<Rightarrow> path \<Rightarrow> path result" where
  "resolve_container_destination root dest =
     and_then (normalize_container_destination dest) (\<lambda>normalized.
     and_then (ok_or (path_strip_prefix [RootDir] normalized)
         (ConfigError ''Container destination is not absolute after normalization: {:?}''))
       (\<lambda>relative. Ok (path_join root relative)))"

section \<open>Root file systems\<close>

definition validate_rootfs_path_under_store ::
  "(path \<Rightarrow> path option) \<Rightarrow> (path \<Rightarrow> bool) \<Rightarrow> path \<Rightarrow> path \<Rightarrow> path result" where
  "validate_rootfs_path_under_store canonicalize is_dir rootfs_path store_root =
     (if \<not> is_absolute rootfs_path
      then Err (ConfigError ''Production rootfs path must be absolute: {}'')
      else and_then (for_each (\<lambda>c. reject_if (c = ParentDir)
          (ConfigError ''Production rootfs path must not contain parent traversal: {}'')) rootfs_path) (\<lambda>_.
        and_then (ok_or (canonicalize rootfs_path)
            (ConfigError ''Failed to canonicalize production rootfs path {}: {}'')) (\<lambda>canonical.
        if \<not> starts_with canonical store_root
        then Err (ConfigError ''Production mode requires rootfs path to resolve under {}: {} -> {}'')
        else if \<not> is_dir canonical
        then Err (ConfigError ''Production rootfs path must resolve to a directory: {}'')
        else Ok canonical)))"

definition validate_production_rootfs_path ::
  "(path \<Rightarrow> path option) \<Rightarrow> (path \<Rightarrow> bool) \<Rightarrow> path \<Rightarrow> path result" where
  "validate_production_rootfs_path canonicalize is_dir rootfs_path =
     validate_rootfs_path_under_store canonicalize is_dir rootfs_path (path_new ''/nix/store'')"

definition validate_agent_toolchain_rootfs_path ::
  "(path \<Rightarrow> path option) \<Rightarrow> (path \<Rightarrow> bool) \<Rightarrow> path \<Rightarrow> path result" where
  "validate_agent_toolchain_rootfs_path canonicalize is_dir rootfs_path =
     (if \<not> is_absolute rootfs_path
      then Err (ConfigError ''Agent toolchain rootfs path must be absolute: {}'')
      else and_then (for_each (\<lambda>c. reject_if (c = ParentDir)
          (ConfigError ''Agent toolchain rootfs path must not contain parent traversal: {}'')) rootfs_path) (\<lambda>_.
        and_then (ok_or (canonicalize rootfs_path)
            (ConfigError ''Failed to canonicalize agent toolchain rootfs path {}: {}'')) (\<lambda>canonical.
        if \<not> is_dir canonical
        then Err (ConfigError ''Agent toolchain rootfs path must resolve to a directory: {}'')
        else Ok canonical)))"

definition overlay_option_path :: "path \<Rightarrow> string result" where
  "overlay_option_path p =
     (let rendered = path_text p in
      if CHR '','' \<in> set rendered \<or> CHR '':'' \<in> set rendered
      then Err (FilesystemError
        ''{} path contains a character unsupported in overlay mount options: {}'')
      else Ok rendered)"

section \<open>Sources of bind mounts\<close>

definition denied_bind_mount_sources_exact :: "string list" where
  "denied_bind_mount_sources_exact = [''/'']"

definition denied_bind_mount_source_prefixes :: "string list" where
  "denied_bind_mount_source_prefixes =
     [''/boot'', ''/dev'', ''/etc'', ''/home'', ''/proc'', ''/root'', ''/run'', ''/sys'',
      ''/var/log'', ''/var/run'']"

definition denied_provider_config_source_exact :: "string list" where
  "denied_provider_config_source_exact = [''/'', ''/home'', ''/root'']"

definition denied_provider_config_source_prefixes :: "string list" where
  "denied_provider_config_source_prefixes =
     [''/boot'', ''/dev'', ''/etc'', ''/proc'', ''/run'', ''/sys'', ''/var/log'', ''/var/run'']"

definition reserved_volume_destination_prefixes :: "string list" where
  "reserved_volume_destination_prefixes =
     [''/bin'', ''/boot'', ''/dev'', ''/etc'', ''/lib'', ''/lib64'', ''/nix'', ''/proc'',
      ''/run/secrets'', ''/sbin'', ''/sys'', ''/usr'']"

definition policy_step :: "path \<Rightarrow> path_component \<Rightarrow> path" where
  "policy_step normalized c =
     (case c of
        RootDir \<Rightarrow> normalized
      | CurDir \<Rightarrow> normalized
      | Normal part \<Rightarrow> path_push normalized part
      | ParentDir \<Rightarrow>
          (let popped = path_pop normalized in if popped = [] then [RootDir] else popped))"

definition normalize_bind_mount_source_for_policy :: "path \<Rightarrow> path result" where
  "normalize_bind_mount_source_for_policy source =
     (if \<not> is_absolute source then Err (ConfigError ''Bind mount source must be absolute: {:?}'')
      else Ok (foldl policy_step [RootDir] source))"

definition reject_denied_bind_mount_source :: "path \<Rightarrow> unit result" where
  "reject_denied_bind_mount_source source =
     and_then (for_each (\<lambda>denied. reject_if (source = path_new denied)
         (ConfigError ''Bind mount source {} is a sensitive host path and cannot be mounted into containers''))
       denied_bind_mount_sources_exact) (\<lambda>_.
     for_each (\<lambda>denied. reject_if (source = path_new denied \<or> starts_with source (path_new denied))
         (ConfigError ''Bind mount source {} is under sensitive host path {} and cannot be mounted into containers''))
       denied_bind_mount_source_prefixes)"

definition reject_denied_provider_config_source :: "path \<Rightarrow> unit result" where
  "reject_denied_provider_config_source source =
     and_then (for_each (\<lambda>denied. reject_if (source = path_new denied)
         (ConfigError ''Provider config source {} is too broad; mount a specific provider config file or directory''))
       denied_provider_config_source_exact) (\<lambda>_.
     if path_parent source = Some (path_new ''/home'')
     then Err (ConfigError ''Provider config source {} is a whole host home directory; mount a specific provider config subdirectory'')
     else for_each (\<lambda>denied. reject_if (source = path_new denied \<or> starts_with source (path_new denied))
         (ConfigError ''Provider config source {} is under sensitive host path {} and cannot be mounted into containers''))
       denied_provider_config_source_prefixes)"

definition validate_bind_mount_source_policy :: "path \<Rightarrow> path result" where
  "validate_bind_mount_source_policy source =
     and_then (normalize_bind_mount_source_for_policy source) (\<lambda>normalized.
     and_then (reject_denied_bind_mount_source normalized) (\<lambda>_. Ok normalized))"

definition validate_bind_mount_source :: "(path \<Rightarrow> path option) \<Rightarrow> path \<Rightarrow> unit result" where
  "validate_bind_mount_source canonicalize source =
     and_then (validate_bind_mount_source_policy source) (\<lambda>_.
     and_then (ok_or (canonicalize source) (ConfigError ''Failed to resolve bind mount source {:?}: {}''))
       reject_denied_bind_mount_source)"

text \<open>\<^verbatim>\<open>metadata\<close> gives whether the path is a regular file and whether it is a directory.\<close>

definition validate_provider_config_source ::
  "(path \<Rightarrow> path option) \<Rightarrow> (path \<Rightarrow> (bool \<times> bool) option) \<Rightarrow> path \<Rightarrow> unit result" where
  "validate_provider_config_source canonicalize metadata source =
     and_then (normalize_bind_mount_source_for_policy source) (\<lambda>_.
     and_then (ok_or (canonicalize source)
         (ConfigError ''Failed to resolve provider config source {:?}: {}'')) (\<lambda>canonical.
     and_then (ok_or (metadata canonical)
         (ConfigError ''Failed to stat provider config source {:?}: {}'')) (\<lambda>(is_file, is_dir).
     if \<not> is_file \<and> \<not> is_dir
     then Err (ConfigError ''Provider config source {} must be a regular file or directory'')
     else reject_denied_provider_config_source canonical)))"

section \<open>Destinations of volumes and provider configuration\<close>

definition reject_reserved_volume_destination :: "path \<Rightarrow> unit result" where
  "reject_reserved_volume_destination dest =
     for_each (\<lambda>reserved. reject_if (dest = path_new reserved \<or> starts_with dest (path_new reserved))
         (ConfigError ''Volume destination {} is reserved for trusted container/runtime paths and cannot be overlaid''))
       reserved_volume_destination_prefixes"

definition normalize_volume_destination :: "path \<Rightarrow> path result" where
  "normalize_volume_destination dest =
     and_then (normalize_container_destination dest) (\<lambda>normalized.
     and_then (reject_reserved_volume_destination normalized) (\<lambda>_. Ok normalized))"

definition provider_relative_step :: "path \<Rightarrow> path_component \<Rightarrow> path result" where
  "provider_relative_step relative c =
     (case c of
        CurDir \<Rightarrow> Ok relative
      | Normal part \<Rightarrow> Ok (path_push relative part)
      | ParentDir \<Rightarrow> Err (ConfigError
          ''Provider config destination must not contain parent traversal: {:?}'')
      | RootDir \<Rightarrow> Err (ConfigError ''Unsupported provider config destination: {:?}''))"

definition normalize_provider_config_destination :: "path \<Rightarrow> path \<Rightarrow> path result" where
  "normalize_provider_config_destination home_path dest =
     and_then (normalize_container_destination home_path) (\<lambda>home.
     and_then
       (if is_absolute dest then normalize_container_destination dest
        else and_then (try_fold provider_relative_step [] dest) (\<lambda>relative.
          if relative = []
          then Err (ConfigError ''Provider config destination must not be empty: {:?}'')
          else normalize_container_destination (path_join home relative))) (\<lambda>candidate.
     if candidate = home \<or> \<not> starts_with candidate home
     then Err (ConfigError ''Provider config destination {} must be under configured home {}'')
     else Ok candidate))"

definition resolve_volume_destination :: "path \<Rightarrow> path \<Rightarrow> path result" where
  "resolve_volume_destination root dest =
     and_then (normalize_volume_destination dest) (\<lambda>normalized.
     and_then (ok_or (path_strip_prefix [RootDir] normalized)
         (ConfigError ''Volume destination is not absolute after normalization: {:?}''))
       (\<lambda>relative. Ok (path_join root relative)))"

section \<open>Audit of the mounts\<close>

text \<open>
  Escapes in \<^verbatim>\<open>mountinfo\<close>. The code takes three characters after a backslash; the model takes three
  bytes, which is the same unless a backslash that starts no escape is followed by a non-ASCII
  character, which the kernel never writes.
\<close>

definition unescape :: "string \<Rightarrow> string" where
  "unescape code =
     (if code = ''040'' then '' ''
      else if code = ''011'' then [CHR 0x09]
      else if code = ''012'' then [CHR 0x0A]
      else if code = ''134'' then [CHR 0x5C]
      else CHR 0x5C # code)"

fun decode_mountinfo_field :: "string \<Rightarrow> string" where
  "decode_mountinfo_field [] = []"
| "decode_mountinfo_field (ch # chars) =
     (if ch = CHR 0x5C then unescape (take 3 chars) @ decode_mountinfo_field (drop 3 chars)
      else ch # decode_mountinfo_field chars)"

definition parse_mountinfo_line :: "string \<Rightarrow> (string \<times> string set) option" where
  "parse_mountinfo_line line =
     (case split_once_str '' - '' line of
        None \<Rightarrow> None
      | Some (left, _) \<Rightarrow>
          (let fields = split_whitespace left in
           if length fields < 6 then None
           else Some (decode_mountinfo_field (fields ! 4),
                      set (filter (\<lambda>opt. opt \<noteq> []) (map trim (split_on CHR '','' (fields ! 5)))))))"

record expected_mount =
  em_path :: string
  required_flags :: "string list"
  critical :: bool

definition expect :: "string \<Rightarrow> string list \<Rightarrow> bool \<Rightarrow> expected_mount" where
  "expect p fs c = \<lparr>em_path = p, required_flags = fs, critical = c\<rparr>"

definition production_mount_expectations :: "expected_mount list" where
  "production_mount_expectations =
     [expect ''/bin'' [''ro'', ''nosuid'', ''nodev''] True,
      expect ''/usr'' [''ro'', ''nosuid'', ''nodev''] True,
      expect ''/lib'' [''ro'', ''nosuid'', ''nodev''] False,
      expect ''/lib64'' [''ro'', ''nosuid'', ''nodev''] False,
      expect ''/etc'' [''ro'', ''nosuid'', ''nodev''] True,
      expect ''/nix'' [''ro'', ''nosuid'', ''nodev''] False,
      expect ''/sbin'' [''ro'', ''nosuid'', ''nodev''] False,
      expect ''/proc'' [''nosuid'', ''nodev'', ''noexec''] True,
      expect ''/run/secrets'' [''nosuid'', ''nodev'', ''noexec''] False]"

text \<open>A \<^verbatim>\<open>HashMap\<close> collected from pairs: the last entry for a key stays.\<close>

definition mount_table :: "string \<Rightarrow> (string \<rightharpoonup> string set)" where
  "mount_table content =
     map_of (rev (List.map_filter parse_mountinfo_line (lines content)))"

definition mount_violations :: "(string \<rightharpoonup> string set) \<Rightarrow> bool \<Rightarrow> expected_mount \<Rightarrow> string list" where
  "mount_violations table production_mode e =
     (case table (em_path e) of
        Some options \<Rightarrow>
          map (\<lambda>_. ''Mount {} missing required flag {} (has: {})'')
            (filter (\<lambda>flag. flag \<notin> options) (required_flags e))
      | None \<Rightarrow>
          (if critical e \<and> production_mode
           then [''Critical mount {} is missing from the mount namespace''] else []))"

definition audit_mounts :: "string option \<Rightarrow> bool \<Rightarrow> unit result" where
  "audit_mounts mountinfo production_mode =
     and_then (ok_or mountinfo (FilesystemError ''Failed to read /proc/self/mountinfo: {}'')) (\<lambda>content.
     let violations = concat (map (mount_violations (mount_table content) production_mode)
           production_mount_expectations) in
     if violations = [] then Ok ()
     else if production_mode
     then Err (FilesystemError ''Mount audit failed in production mode: {}'')
     else Ok ())"

section \<open>Lemmas\<close>

lemma try_fold_normalize:
  "try_fold normalize_step (p, b) cs =
     (if ParentDir \<in> set cs
      then Err (ConfigError ''Container destination must not contain parent traversal: {:?}'')
      else Ok (p @ filter (\<lambda>c. c \<noteq> RootDir \<and> c \<noteq> CurDir) cs,
               b \<or> (\<exists>c\<in>set cs. c \<noteq> RootDir \<and> c \<noteq> CurDir)))"
  by (induction cs arbitrary: p b)
    (auto simp: normalize_step_def path_push_def split: path_component.splits)

lemma normalize_eq:
  "normalize_container_destination dest =
     (if \<not> is_absolute dest then Err (ConfigError ''Container destination must be absolute: {:?}'')
      else if ParentDir \<in> set dest
      then Err (ConfigError ''Container destination must not contain parent traversal: {:?}'')
      else if filter (\<lambda>c. c \<noteq> RootDir \<and> c \<noteq> CurDir) dest = []
      then Err (ConfigError ''Container destination must not be the root directory: {:?}'')
      else Ok (RootDir # filter (\<lambda>c. c \<noteq> RootDir \<and> c \<noteq> CurDir) dest))"
  by (auto simp: normalize_container_destination_def try_fold_normalize filter_empty_conv)

text \<open>On a path read from a text, normalisation only checks: the components are already in order.\<close>

lemma normalize_path_new:
  "normalize_container_destination (path_new s) = Ok p \<longleftrightarrow>
     is_absolute (path_new s) \<and> ParentDir \<notin> set (path_new s) \<and> path_new s \<noteq> [RootDir]
     \<and> p = path_new s"
proof (cases "is_absolute (path_new s)")
  case True
  then obtain r where r: "path_new s = RootDir # r"
    "\<forall>c\<in>set r. c = ParentDir \<or> is_normal c"
    by (rule path_new_absolute)
  then have "filter (\<lambda>c. c \<noteq> RootDir \<and> c \<noteq> CurDir) r = r"
    by (fastforce simp: filter_id_conv)
  then show ?thesis by (auto simp: normalize_eq r(1) is_absolute_def)
qed (simp add: normalize_eq)

lemma normalize_plain:
  assumes "normalize_container_destination (path_new s) = Ok p"
  shows "is_plain p \<and> tl p \<noteq> []"
proof -
  from assms have a: "is_absolute (path_new s)" "ParentDir \<notin> set (path_new s)"
    "path_new s \<noteq> [RootDir]" "p = path_new s" by (simp_all add: normalize_path_new)
  obtain r where "path_new s = RootDir # r" "\<forall>c\<in>set r. c = ParentDir \<or> is_normal c"
    by (rule path_new_absolute[OF a(1)])
  with a show ?thesis by (auto simp: is_plain_def list_all_iff)
qed

lemma resolve_destination_under:
  assumes "normalize_container_destination (path_new s) = Ok p" "root \<noteq> []"
  shows "path_join root (tl p) = root @ tl p"
proof -
  have "list_all is_normal (tl p)" using normalize_plain[OF assms(1)] by (simp add: is_plain_def)
  then have "filter (\<lambda>c. c \<noteq> CurDir) (tl p) = tl p" "\<not> is_absolute (tl p)"
    by (auto simp: filter_id_conv list_all_iff is_absolute_def)
      (metis is_normal.simps(2,3) list.set_sel(1))+
  then show ?thesis using assms(2) by (simp add: path_join_def)
qed

lemma foldl_policy_plain:
  assumes "is_plain p" "\<forall>c\<in>set cs. c = RootDir \<or> c = CurDir \<or> c = ParentDir \<or> is_normal c"
  shows "is_plain (foldl policy_step p cs)"
  using assms
proof (induction cs arbitrary: p)
  case (Cons c cs)
  have "is_plain (policy_step p c)"
  proof (cases c)
    case ParentDir
    obtain ns where p: "p = RootDir # ns" "list_all is_normal ns"
      using Cons.prems(1) by (cases p) (auto simp: is_plain_def)
    show ?thesis
    proof (cases ns rule: rev_cases)
      case (snoc ms m)
      then have "m \<noteq> RootDir" using p(2) by auto
      with snoc p ParentDir show ?thesis
        by (simp add: policy_step_def path_pop_def Let_def is_plain_def butlast_append)
    qed (simp add: p ParentDir policy_step_def path_pop_def is_plain_def)
  next
    case (Normal w)
    then show ?thesis using Cons.prems
      by (cases p) (auto simp: policy_step_def path_push_def is_plain_def)
  qed (use Cons.prems in \<open>auto simp: policy_step_def\<close>)
  with Cons show ?case by simp
qed simp

lemma reject_denied_Ok:
  "reject_denied_bind_mount_source p = Ok () \<longleftrightarrow>
     p \<noteq> [RootDir] \<and> (\<forall>d\<in>set denied_bind_mount_source_prefixes. \<not> prefix (path_new d) p)"
proof -
  have "path_new ''/'' = [RootDir]" by (simp add: path_new_def split_on_def)
  then show ?thesis
    by (auto simp: reject_denied_bind_mount_source_def result_simps denied_bind_mount_sources_exact_def
        starts_with_def)
qed

lemma validate_policy_Ok:
  "validate_bind_mount_source_policy s = Ok p \<longleftrightarrow>
     is_absolute s \<and> p = foldl policy_step [RootDir] s \<and> reject_denied_bind_mount_source p = Ok ()"
  by (auto simp: validate_bind_mount_source_policy_def normalize_bind_mount_source_for_policy_def
      result_simps)

text \<open>The kernel's escapes of a mount point, which decoding undoes.\<close>

definition mountinfo_escape :: "char \<Rightarrow> string" where
  "mountinfo_escape c =
     (if c = CHR '' '' then CHR 0x5C # ''040''
      else if c = CHR 0x09 then CHR 0x5C # ''011''
      else if c = CHR 0x0A then CHR 0x5C # ''012''
      else if c = CHR 0x5C then CHR 0x5C # ''134''
      else [c])"

lemma decode_escape: "decode_mountinfo_field (concat (map mountinfo_escape s)) = s"
  by (induction s) (auto simp: mountinfo_escape_def unescape_def)

lemmas path_eval = path_new_def component_of_def split_on_def is_absolute_def starts_with_def

section \<open>Properties\<close>

text \<open>
  C17: a container destination is accepted exactly when it is absolute, names something below the
  root and has no parent component, and is then the same path; resolved under a host directory it
  is a path strictly below that directory that goes on with names only, so no destination leaves
  the container's root.
\<close>

theorem container_destination_confined:
  assumes "root \<noteq> []"
  shows "(normalize_container_destination (path_new s) = Ok p \<longleftrightarrow>
       is_absolute (path_new s) \<and> ParentDir \<notin> set (path_new s) \<and> path_new s \<noteq> [RootDir]
       \<and> p = path_new s)
     \<and> (\<forall>q. resolve_container_destination root (path_new s) = Ok q \<longrightarrow>
          (\<exists>ns. ns \<noteq> [] \<and> list_all is_normal ns \<and> q = root @ ns))"
proof (intro conjI allI impI)
  fix q
  assume "resolve_container_destination root (path_new s) = Ok q"
  then obtain n where n: "normalize_container_destination (path_new s) = Ok n"
    and q: "q = path_join root (tl n)"
    by (auto simp: resolve_container_destination_def result_simps path_strip_prefix_def drop_Suc
        split: if_splits)
  from normalize_plain[OF n] have "tl n \<noteq> []" "list_all is_normal (tl n)"
    by (simp_all add: is_plain_def)
  then show "\<exists>ns. ns \<noteq> [] \<and> list_all is_normal ns \<and> q = root @ ns"
    using q resolve_destination_under[OF n assms] by blast
qed (rule normalize_path_new)

theorem container_destination_confined_witness:
  "\<exists>ns. ns \<noteq> [] \<and> list_all is_normal ns
     \<and> [RootDir, Normal ''c'', Normal ''data'', Normal ''x''] = [RootDir, Normal ''c''] @ ns"
proof -
  have "resolve_container_destination [RootDir, Normal ''c''] (path_new ''/data/./x'')
      = Ok [RootDir, Normal ''c'', Normal ''data'', Normal ''x'']"
    by (simp add: resolve_container_destination_def normalize_eq path_eval path_strip_prefix_def
        path_join_def)
  with container_destination_confined[of "[RootDir, Normal ''c'']" "''/data/./x''"] show ?thesis
    by blast
qed

text \<open>
  the destination of a volume is, in addition, neither one of the reserved paths nor below one.
\<close>

theorem volume_destination_not_reserved:
  assumes "resolve_volume_destination root (path_new s) = Ok q" and "root \<noteq> []"
  shows "\<exists>ns. ns \<noteq> [] \<and> list_all is_normal ns \<and> q = root @ ns
    \<and> (\<forall>r\<in>set reserved_volume_destination_prefixes. \<not> prefix (path_new r) (RootDir # ns))"
proof -
  from assms(1) obtain n where n: "normalize_container_destination (path_new s) = Ok n"
    and q: "q = path_join root (tl n)" and r: "reject_reserved_volume_destination n = Ok ()"
    by (auto simp: resolve_volume_destination_def normalize_volume_destination_def result_simps
        path_strip_prefix_def drop_Suc split: if_splits)
  from normalize_plain[OF n] have p: "n = RootDir # tl n" "tl n \<noteq> []" "list_all is_normal (tl n)"
    by (cases n; auto simp: is_plain_def)+
  from r have "\<forall>r\<in>set reserved_volume_destination_prefixes. \<not> prefix (path_new r) (RootDir # tl n)"
    by (subst p(1)[symmetric])
      (auto simp: reject_reserved_volume_destination_def result_simps starts_with_def)
  with p q resolve_destination_under[OF n assms(2)] show ?thesis by blast
qed

theorem volume_destination_not_reserved_witness:
  "\<exists>ns. ns \<noteq> [] \<and> list_all is_normal ns \<and> [RootDir, Normal ''c'', Normal ''data''] = [RootDir, Normal ''c''] @ ns
    \<and> (\<forall>r\<in>set reserved_volume_destination_prefixes. \<not> prefix (path_new r) (RootDir # ns))"
  by (rule volume_destination_not_reserved[of "[RootDir, Normal ''c'']" "''/data''"])
    (simp_all add: resolve_volume_destination_def normalize_volume_destination_def normalize_eq
      reject_reserved_volume_destination_def reserved_volume_destination_prefixes_def reject_if_def
      path_eval path_strip_prefix_def path_join_def)

lemma path_new_components:
  "\<forall>c\<in>set (path_new s). c = RootDir \<or> c = CurDir \<or> c = ParentDir \<or> is_normal c"
proof (cases "is_absolute (path_new s)")
  case True
  obtain r where "path_new s = RootDir # r" "\<forall>c\<in>set r. c = ParentDir \<or> is_normal c"
    by (rule path_new_absolute[OF True])
  then show ?thesis by auto
qed (use path_new_relative in blast)

text \<open>
  a bind source that passes validation is, after resolving its parent components in the text
  and again after resolving symbolic links, neither the root directory nor in one of the sensitive
  host subtrees.
\<close>

theorem bind_source_not_sensitive:
  assumes "validate_bind_mount_source canonicalize (path_new s) = Ok ()"
  shows "\<exists>p c. validate_bind_mount_source_policy (path_new s) = Ok p \<and> canonicalize (path_new s) = Some c
    \<and> is_plain p \<and> p \<noteq> [RootDir] \<and> c \<noteq> [RootDir]
    \<and> (\<forall>d\<in>set denied_bind_mount_source_prefixes. \<not> prefix (path_new d) p \<and> \<not> prefix (path_new d) c)"
proof -
  from assms obtain p c where p: "validate_bind_mount_source_policy (path_new s) = Ok p"
    and c: "canonicalize (path_new s) = Some c" "reject_denied_bind_mount_source c = Ok ()"
    by (auto simp: validate_bind_mount_source_def result_simps)
  from p have "is_plain p"
    using foldl_policy_plain[of "[RootDir]" "path_new s"] path_new_components[of s]
    by (simp add: validate_policy_Ok is_plain_def)
  with p c show ?thesis by (auto simp: validate_policy_Ok reject_denied_Ok)
qed

theorem bind_source_not_sensitive_witness:
  "\<exists>p c. validate_bind_mount_source_policy (path_new ''/srv/x/../data'') = Ok p
    \<and> Some [RootDir, Normal ''srv'', Normal ''data''] = Some c \<and> is_plain p \<and> p \<noteq> [RootDir] \<and> c \<noteq> [RootDir]
    \<and> (\<forall>d\<in>set denied_bind_mount_source_prefixes. \<not> prefix (path_new d) p \<and> \<not> prefix (path_new d) c)"
  by (rule bind_source_not_sensitive[of "\<lambda>_. Some [RootDir, Normal ''srv'', Normal ''data'']"])
    (simp add: validate_bind_mount_source_def validate_bind_mount_source_policy_def result_simps
      normalize_bind_mount_source_for_policy_def reject_denied_Ok denied_bind_mount_source_prefixes_def
      path_eval policy_step_def path_push_def path_pop_def)

text \<open>
  the deny lists compare only in one direction. The sensitive subtrees are documented as not
  exposed to a container at all, yet a bind mount of \<^verbatim>\<open>/var\<close>, which contains \<^verbatim>\<open>/var/log\<close> and
  \<^verbatim>\<open>/var/run\<close>, is accepted; and a volume may be mounted on \<^verbatim>\<open>/run\<close>, over the reserved \<^verbatim>\<open>/run/secrets\<close>.
\<close>

theorem parents_of_denied_accepted:
  "validate_bind_mount_source_policy (path_new ''/var'') = Ok (path_new ''/var'')
     \<and> ''/var/log'' \<in> set denied_bind_mount_source_prefixes
     \<and> starts_with (path_new ''/var/log'') (path_new ''/var'')
     \<and> normalize_volume_destination (path_new ''/run'') = Ok (path_new ''/run'')
     \<and> ''/run/secrets'' \<in> set reserved_volume_destination_prefixes
     \<and> starts_with (path_new ''/run/secrets'') (path_new ''/run'')"
  by (simp add: validate_bind_mount_source_policy_def normalize_bind_mount_source_for_policy_def
      result_simps reject_denied_Ok denied_bind_mount_source_prefixes_def normalize_volume_destination_def normalize_eq
      reject_reserved_volume_destination_def reserved_volume_destination_prefixes_def reject_if_def
      path_eval policy_step_def path_push_def)

text \<open>
  a provider configuration is mounted strictly below the container's home directory, at a path
  of names only, whether its destination was given relative to the home or absolute.
\<close>

theorem provider_config_under_home:
  assumes "normalize_provider_config_destination (path_new h) (path_new d) = Ok p"
  shows "is_plain p \<and> (\<exists>ns. ns \<noteq> [] \<and> p = path_new h @ ns)"
proof -
  from assms obtain home where home: "normalize_container_destination (path_new h) = Ok home"
    and ne: "p \<noteq> home" and pre: "prefix home p"
    and src: "normalize_container_destination (path_new d) = Ok p
      \<or> (\<exists>rel. normalize_container_destination (path_join home rel) = Ok p
           \<and> try_fold provider_relative_step [] (path_new d) = Ok rel)"
    by (auto simp: normalize_provider_config_destination_def result_simps starts_with_def
        split: if_splits)
  have hp: "is_plain home" "home = path_new h"
    using normalize_plain[OF home] home by (auto simp: normalize_path_new)
  have "is_plain p"
    using src
  proof (elim disjE exE conjE)
    fix rel
    assume n: "normalize_container_destination (path_join home rel) = Ok p"
      and f: "try_fold provider_relative_step [] (path_new d) = Ok rel"
    have "list_all is_normal rel"
      by (rule try_fold_invariant[OF f])
        (use path_new_components[of d] in
          \<open>auto simp: provider_relative_step_def path_push_def split: path_component.splits\<close>)
    then have "list_all is_normal (filter (\<lambda>c. c \<noteq> RootDir \<and> c \<noteq> CurDir) (path_join home rel))"
      using hp(1)
      by (cases home; cases rel) (auto simp: path_join_def is_plain_def is_absolute_def list_all_iff)
    with n show ?thesis by (auto simp: normalize_eq is_plain_def split: if_splits)
  qed (use normalize_plain in blast)
  with ne pre hp(2) show ?thesis by (auto simp: prefix_def)
qed

theorem provider_config_under_home_witness:
  "is_plain [RootDir, Normal ''home'', Normal ''.aws''] \<and> (\<exists>ns. ns \<noteq> []
     \<and> [RootDir, Normal ''home'', Normal ''.aws''] = path_new ''/home'' @ ns)"
  by (rule provider_config_under_home[of _ "''./.aws''"])
    (simp add: normalize_provider_config_destination_def normalize_eq path_eval
      provider_relative_step_def path_push_def path_join_def)

text \<open>
  in production mode the audit passes exactly when the mount table was read, every critical
  mount is present, and every mount of the table of expectations that is present carries all its
  required flags; outside production mode a table that was read always passes.
\<close>

theorem audit_mounts_iff:
  "audit_mounts mountinfo production_mode = Ok () \<longleftrightarrow>
     (\<exists>content. mountinfo = Some content
       \<and> (production_mode \<longrightarrow> (\<forall>e\<in>set production_mount_expectations.
            case mount_table content (em_path e) of
              None \<Rightarrow> \<not> critical e
            | Some options \<Rightarrow> set (required_flags e) \<subseteq> options)))"
proof (cases mountinfo)
  case (Some content)
  have "mount_violations (mount_table content) True e = [] \<longleftrightarrow>
      (case mount_table content (em_path e) of
         None \<Rightarrow> \<not> critical e | Some options \<Rightarrow> set (required_flags e) \<subseteq> options)" for e
    by (auto simp: mount_violations_def filter_empty_conv split: option.splits)
  then show ?thesis by (auto simp: audit_mounts_def Some Let_def)
qed (simp add: audit_mounts_def)

theorem audit_mounts_iff_witness:
  "audit_mounts (Some []) True \<noteq> Ok () \<and> audit_mounts (Some []) False = Ok ()"
proof -
  have "mount_table [] = Map.empty"
    by (simp add: mount_table_def lines_def split_on_def map_filter_def)
  then show ?thesis
    by (simp add: audit_mounts_iff production_mount_expectations_def expect_def)
qed

end
