(* ===== verification/Topology_Config.thy ===== *)
theory Topology_Config
  imports Dependency_Graph Mount_Policy
begin

text \<open>
  Validation of a topology (\<^verbatim>\<open>src/src/topology/config.rs\<close>, lines 223 to 500, with
  \<^verbatim>\<open>validate_container_name\<close> of \<^verbatim>\<open>src/src/container/config.rs\<close>) and what it gives the operations that
  rely on it. The deserialiser is not modelled; the hash of a service definition (JSON text,
  SHA-256) is an argument.
\<close>

section \<open>Model\<close>

definition valid_name_char :: "char \<Rightarrow> bool" where
  "valid_name_char c \<longleftrightarrow> is_ascii_alphanumeric c \<or> c = CHR ''-'' \<or> c = CHR ''_'' \<or> c = CHR ''.''"

definition validate_container_name :: "string \<Rightarrow> unit result" where
  "validate_container_name name =
     (if name = [] \<or> length name > 128
      then Err (ConfigError ''Invalid container name: must be 1-128 characters'')
      else if \<not> list_all valid_name_char name
      then Err (ConfigError ''Invalid container name: allowed characters are a-zA-Z0-9, -, _, .'')
      else Ok ())"

record service_volume_mount =
  svm_volume :: string
  svm_dest :: path
  svm_read_only :: bool

definition parse_service_volume_mount :: "string \<Rightarrow> service_volume_mount result" where
  "parse_service_volume_mount spec =
     and_then
       (case split_on CHR '':'' spec of
          [volume, dest] \<Rightarrow> Ok (volume, dest, False)
        | [volume, dest, mode] \<Rightarrow>
            (if mode = ''ro'' then Ok (volume, dest, True)
             else if mode = ''rw'' then Ok (volume, dest, False)
             else Err (ConfigError ''Invalid volume mount {}, expected VOLUME:DEST[:ro|rw]''))
        | _ \<Rightarrow> Err (ConfigError ''Invalid volume mount {}, expected VOLUME:DEST[:ro|rw]''))
       (\<lambda>(volume, dest, read_only).
        if volume = [] then Err (ConfigError ''Volume mount {} must name a topology volume'')
        else and_then (normalize_volume_destination (path_new dest)) (\<lambda>dest.
          Ok \<lparr>svm_volume = volume, svm_dest = dest, svm_read_only = read_only\<rparr>))"

definition parse_volume_owner :: "string \<Rightarrow> (u32 \<times> u32) result" where
  "parse_volume_owner owner =
     and_then (ok_or (split_once CHR '':'' owner) (ConfigError ''Invalid volume owner {}, expected UID:GID''))
       (\<lambda>(uid, gid).
        and_then (ok_or (parse_word uid) (ConfigError ''Invalid volume owner UID {} in {}: {}'')) (\<lambda>uid.
        and_then (ok_or (parse_word gid) (ConfigError ''Invalid volume owner GID {} in {}: {}'')) (\<lambda>gid.
        Ok (uid, gid))))"

definition validate_volume :: "volume_def \<Rightarrow> unit result" where
  "validate_volume v =
     and_then
       (if volume_type v = ''persistent''
        then and_then (ok_or (vol_path v) (ConfigError ''Persistent volume {} must define path'')) (\<lambda>p.
          if \<not> is_absolute (path_new p)
          then Err (ConfigError ''Persistent volume {} path must be absolute: {}'')
          else and_then (validate_bind_mount_source_policy (path_new p)) (\<lambda>_. Ok ()))
        else if volume_type v = ''ephemeral''
        then reject_if (vol_path v \<noteq> None) (ConfigError ''Ephemeral volume {} must not define path'')
        else Err (ConfigError ''Volume {} has unsupported type {}''))
       (\<lambda>_. case vol_owner v of
          None \<Rightarrow> Ok ()
        | Some owner \<Rightarrow> and_then (parse_volume_owner owner) (\<lambda>_. Ok ()))"

definition validate_dependency :: "topology_config \<Rightarrow> depends_on \<Rightarrow> unit result" where
  "validate_dependency self dep =
     (if \<not> bt_contains (services self) (dep_service dep)
      then Err (ConfigError ''Service {} depends on unknown service {}'')
      else if dep_condition dep \<noteq> ''started'' \<and> dep_condition dep \<noteq> ''healthy''
      then Err (ConfigError ''Invalid dependency condition {} for service {}'')
      else if dep_condition dep = ''healthy''
      then and_then (ok_or (bt_get (services self) (dep_service dep))
             (ConfigError ''Service {} depends on unknown service {}'')) (\<lambda>dep_svc.
           reject_if (svc_health_check dep_svc = None)
             (ConfigError ''Service {} depends on {} being healthy, but {} has no health_check''))
      else Ok ())"

definition validate_service_broker :: "topology_config \<Rightarrow> service_def \<Rightarrow> unit result" where
  "validate_service_broker self svc =
     (case svc_credential_broker svc of
        Some endpoint \<Rightarrow>
          and_then (map_err (\<lambda>e. ConfigError (''Service {} has invalid credential_broker {}: '' @ e))
              (parse_endpoint endpoint)) (\<lambda>broker.
          and_then (reject_if (svc_networks svc = [])
              (ConfigError ''Service {} uses credential_broker but has no bridge network'')) (\<lambda>_.
          and_then (ok_or (bt_get (networks self) (hd (svc_networks svc)))
              (ConfigError ''Service {} references unknown network {}'')) (\<lambda>network.
          and_then (map_err (\<lambda>e. ConfigError (''Service {} has invalid credential_broker {}: '' @ e))
              (validate_for_bridge broker (default_bridge_config\<lparr>subnet := net_subnet network\<rparr>))) (\<lambda>_.
          reject_if (svc_egress_allow svc \<noteq> [] \<or> svc_egress_domains svc \<noteq> []
              \<or> svc_egress_tcp_ports svc \<noteq> [] \<or> svc_egress_udp_ports svc \<noteq> [])
            (ConfigError ''Service {} cannot combine credential_broker with raw egress allowlists'')))))
      | None \<Rightarrow>
          reject_if (svc_credential_broker_no_proxy_env svc)
            (ConfigError ''Service {} sets credential_broker_no_proxy_env without credential_broker''))"

definition validate_volume_mount :: "topology_config \<Rightarrow> string \<Rightarrow> unit result" where
  "validate_volume_mount self vol_mount =
     and_then (parse_service_volume_mount vol_mount) (\<lambda>parsed.
     if strip_prefix ''/'' (svm_volume parsed) \<noteq> None
     then Err (ConfigError ''Service {} uses absolute host-path volume mount {}; topology configs must reference a named volume instead'')
     else if \<not> bt_contains (volumes self) (svm_volume parsed)
     then Err (ConfigError ''Service {} references unknown volume {}'')
     else Ok ())"

definition validate_service :: "topology_config \<Rightarrow> service_def \<Rightarrow> unit result" where
  "validate_service self svc =
     and_then (for_each (validate_dependency self) (svc_depends_on svc)) (\<lambda>_.
     and_then (for_each (\<lambda>net. reject_if (\<not> bt_contains (networks self) net)
         (ConfigError ''Service {} references unknown network {}'')) (svc_networks svc)) (\<lambda>_.
     and_then (for_each (\<lambda>cidr. map_err (\<lambda>e. ConfigError (''Service {} has invalid egress_allow entry {}: '' @ e))
         (validate_egress_cidr cidr)) (svc_egress_allow svc)) (\<lambda>_.
     and_then (for_each (\<lambda>domain. map_err (\<lambda>e. ConfigError (''Service {} has invalid egress_domains entry {}: '' @ e))
         (validate_egress_domain domain)) (svc_egress_domains svc)) (\<lambda>_.
     and_then (validate_service_broker self svc) (\<lambda>_.
     for_each (validate_volume_mount self) (svc_volumes svc))))))"

definition topology_validate :: "topology_config \<Rightarrow> unit result" where
  "topology_validate self =
     and_then (reject_if (topo_name self = []) (ConfigError ''Topology name cannot be empty'')) (\<lambda>_.
     and_then (map_err (\<lambda>_. ConfigError ''Topology name {} contains invalid characters (allowed: a-zA-Z0-9, -, _, .)'')
         (validate_container_name (topo_name self))) (\<lambda>_.
     and_then (for_each (\<lambda>n. map_err (\<lambda>_. ConfigError ''Service name {} contains invalid characters (allowed: a-zA-Z0-9, -, _, .)'')
         (validate_container_name n)) (bt_keys (services self))) (\<lambda>_.
     and_then (reject_if (services self = []) (ConfigError ''Topology must have at least one service'')) (\<lambda>_.
     and_then (for_each (\<lambda>(name, v). validate_volume v) (volumes self)) (\<lambda>_.
     for_each (\<lambda>(name, svc). validate_service self svc) (services self))))))"

definition service_config_hash :: "(service_def \<Rightarrow> u64 option) \<Rightarrow> topology_config \<Rightarrow> string \<Rightarrow> u64 option" where
  "service_config_hash hash self service_name =
     (case bt_get (services self) service_name of None \<Rightarrow> None | Some svc \<Rightarrow> hash svc)"

section \<open>Lemmas\<close>

lemma topology_validate_Ok:
  "topology_validate t = Ok () \<longleftrightarrow>
     validate_container_name (topo_name t) = Ok ()
     \<and> (\<forall>n\<in>set (bt_keys (services t)). validate_container_name n = Ok ())
     \<and> services t \<noteq> [] \<and> (\<forall>(n, v)\<in>set (volumes t). validate_volume v = Ok ())
     \<and> (\<forall>(n, svc)\<in>set (services t). validate_service t svc = Ok ())"
  by (auto simp: topology_validate_def result_simps validate_container_name_def)

lemma validated_service:
  assumes "topology_validate t = Ok ()" "bt_get (services t) n = Some svc"
  shows "validate_service t svc = Ok ()"
  using assms bt_get_in[OF assms(2)] by (auto simp: topology_validate_Ok)

text \<open>
  a topology that passes validation never fails to resolve for an undefined dependency: the
  only error left for the dependency graph is a cycle. Every dependency on a healthy service is on
  a service that has a health check.
\<close>

theorem validated_dependencies:
  assumes "topology_validate t = Ok ()" and "bt_inv (services t)"
  shows "(\<exists>r. resolve t = Some r \<and> (r = Err (ConfigError ''Circular dependency detected among services: {:?}'')
            \<or> is_ok r \<and> acyclic (depends t)))
    \<and> (\<forall>n svc dep. bt_get (services t) n = Some svc \<and> dep \<in> set (svc_depends_on svc)
         \<and> dep_condition dep = ''healthy''
         \<longrightarrow> (\<exists>up. bt_get (services t) (dep_service dep) = Some up \<and> svc_health_check up \<noteq> None))"
proof (intro conjI allI impI)
  have dep: "validate_dependency t dep = Ok ()"
    if "bt_get (services t) n = Some svc" "dep \<in> set (svc_depends_on svc)" for n svc dep
    using validated_service[OF assms(1) that(1)] that(2)
    by (simp add: validate_service_def result_simps)
  have "deps_defined t"
    unfolding deps_defined_def
  proof (intro ballI subsetI)
    fix n d assume "d \<in> set (dep_names t n)"
    then obtain svc x where "bt_get (services t) n = Some svc" "x \<in> set (svc_depends_on svc)"
      "d = dep_service x"
      by (cases "bt_get (services t) n") (auto simp: dep_names_def)
    with dep[of n svc x] show "d \<in> set (bt_keys (services t))"
      by (simp add: validate_dependency_def bt_contains_keys split: if_splits)
  qed
  then show "\<exists>r. resolve t = Some r \<and> (r = Err (ConfigError ''Circular dependency detected among services: {:?}'')
            \<or> is_ok r \<and> acyclic (depends t))"
    using resolve_verdict[OF assms(2)] by auto
  fix n svc d
  assume "bt_get (services t) n = Some svc \<and> d \<in> set (svc_depends_on svc) \<and> dep_condition d = ''healthy''"
  with dep[of n svc d]
  show "\<exists>up. bt_get (services t) (dep_service d) = Some up \<and> svc_health_check up \<noteq> None"
    by (auto simp: validate_dependency_def result_simps split: if_splits)
qed

text \<open>A topology with a named volume, a network, a broker and a dependency on health.\<close>

definition demo_topology :: topology_config where
  "demo_topology =
     \<lparr>topo_name = ''shop'', networks = [(''net'', \<lparr>net_subnet = ''10.42.0.0/24'', encrypted = False\<rparr>)],
      volumes = [(''data'', \<lparr>volume_type = ''persistent'', vol_path = Some ''/srv/data'',
                              vol_owner = Some ''1000:1000'', vol_size = None\<rparr>)],
      services =
        [(''db'', (service_new ''/nix/store/r'' [''run''] ''64M'')
            \<lparr>svc_health_check := Some ''ok'', svc_volumes := [''data:/data:ro'']\<rparr>),
         (''web'', (waits_for ''db'' ''healthy'')
            \<lparr>svc_networks := [''net''], svc_credential_broker := Some ''10.42.0.1:8080''\<rparr>)]\<rparr>"

lemma bt_inv_demo: "bt_inv (services demo_topology)"
  by (simp add: bt_inv_def demo_topology_def less_char_def)

lemma demo_gateway:
  "gateway_ipv4 (default_bridge_config\<lparr>subnet := ''10.42.0.0/24''\<rparr>) = Ok (ipv4_of_octets 10 42 0 1)"
proof -
  let ?b = "default_bridge_config\<lparr>subnet := ''10.42.0.0/24''\<rparr>"
  have "parse_ipv4_cidr (subnet ?b) = Ok (ipv4_of_octets 10 42 0 0, 24)"
    by (simp add: parse_ipv4_cidr_def validate_ipv4_addr_def validate_octet_def parse_ipv4_def
        parse_octet_def string_eval)
  from gateway_contained[OF this] show ?thesis
    by (auto simp: ipv4_of_octets_def word_unat_eq_iff)
qed

lemma demo_broker: "parse_endpoint ''10.42.0.1:8080'' = Ok (broker_new (ipv4_of_octets 10 42 0 1) 8080)"
  by (simp add: parse_endpoint_def parse_socket_addr_v4_def parse_ipv4_def parse_octet_def string_eval
      broker_validate_def broker_new_def octet_def ipv4_of_octets_def)

lemma demo_broker_valid:
  "validate_for_bridge (broker_new (ipv4_of_octets 10 42 0 1) 8080)
     (default_bridge_config\<lparr>subnet := ''10.42.0.0/24''\<rparr>) = Ok ()"
  by (simp add: validate_for_bridge_def demo_gateway)
    (simp add: broker_validate_def broker_new_def octet_def ipv4_of_octets_def)

lemma demo_volume_policy: "\<exists>p. validate_bind_mount_source_policy (path_new ''/srv/data'') = Ok p"
  by (simp add: validate_policy_Ok reject_denied_Ok denied_bind_mount_source_prefixes_def path_eval
      policy_step_def path_push_def)

lemma demo_volume_mount: "parse_service_volume_mount ''data:/data:ro'' =
    Ok \<lparr>svm_volume = ''data'', svm_dest = [RootDir, Normal ''data''], svm_read_only = True\<rparr>"
  by (simp add: parse_service_volume_mount_def normalize_volume_destination_def normalize_eq path_eval
      reject_reserved_volume_destination_def reserved_volume_destination_prefixes_def reject_if_def)

lemma demo_valid: "topology_validate demo_topology = Ok ()"
proof -
  have names: "\<forall>n\<in>set [''shop'', ''db'', ''web'']. validate_container_name n = Ok ()"
    by (simp add: validate_container_name_def valid_name_char_def string_eval)
  have owner: "parse_volume_owner ''1000:1000'' = Ok (1000, 1000)"
    by (simp add: parse_volume_owner_def string_eval)
  show ?thesis
    using names demo_volume_policy owner demo_volume_mount demo_broker demo_broker_valid
    by (auto simp: topology_validate_Ok demo_topology_def bt_keys_def validate_volume_def
        validate_service_def validate_dependency_def validate_service_broker_def reject_if_def
        validate_volume_mount_def waits_for_def service_new_def bt_contains_def bt_get_def)
      (simp add: path_eval)
qed

theorem validated_dependencies_witness:
  "\<exists>r. resolve demo_topology = Some r \<and> (r = Err (ConfigError ''Circular dependency detected among services: {:?}'')
            \<or> is_ok r \<and> acyclic (depends demo_topology))"
  using validated_dependencies[OF demo_valid bt_inv_demo] by blast



end
