(* ===== verification/Service_Command.thy ===== *)
theory Service_Command
  imports Topology_Config
begin

text \<open>
  What the start of a service does to the host before its process is spawned
  (\<^verbatim>\<open>src/src/topology/reconcile.rs\<close>): the preparation of persistent volumes and the command line
  of the service.

  The file system under the volumes is the record \<open>volume_fs\<close>: how \<^verbatim>\<open>mkdirat\<close> ends for a path,
  whether a path opens as a directory without following a symbolic link, what a path resolves to,
  and whether its owner can be changed. The changes made are a list of events in their order.
\<close>

section \<open>Persistent volumes\<close>

datatype mkdir_error = EEXIST | EACCES

record volume_fs =
  fs_mkdirat :: "path \<Rightarrow> mkdir_error option"
  fs_openat :: "path \<Rightarrow> bool"
  fs_canonicalize :: "path \<Rightarrow> path option"
  fs_fchown :: "path \<Rightarrow> u32 \<Rightarrow> u32 \<Rightarrow> bool"

datatype volume_event =
    Mkdir path nat
  | Chown path u32 u32

text \<open>A name with a NUL character cannot be passed to the system.\<close>

definition path_component_cstring :: "string \<Rightarrow> string result" where
  "path_component_cstring component =
     (if CHR 0x00 \<in> set component then Err (ConfigError ''Persistent volume path contains NUL byte: {:?}'')
      else Ok component)"

definition open_root_dir_nofollow :: "volume_fs \<Rightarrow> path result" where
  "open_root_dir_nofollow fs =
     (if fs_openat fs [RootDir] then Ok [RootDir]
      else Err (ConfigError ''Failed to open filesystem root for persistent volume setup: {}''))"

definition mkdirat_child :: "volume_fs \<Rightarrow> path \<Rightarrow> string \<Rightarrow> nat \<Rightarrow> volume_event list \<times> unit result" where
  "mkdirat_child fs parent name mode =
     (case fs_mkdirat fs (path_push parent name) of
        None \<Rightarrow> ([Mkdir (path_push parent name) mode], Ok ())
      | Some EEXIST \<Rightarrow> ([], Ok ())
      | Some _ \<Rightarrow> ([], Err (ConfigError ''Failed to create persistent volume directory component under {:?}: {}'')))"

definition openat_dir_nofollow :: "volume_fs \<Rightarrow> path \<Rightarrow> string \<Rightarrow> path result" where
  "openat_dir_nofollow fs parent name =
     (if fs_openat fs (path_push parent name) then Ok (path_push parent name)
      else Err (ConfigError ''Failed to open persistent volume directory component under {:?} without following symlinks: {}''))"

text \<open>The mode of the last directory is octal 700, of those above it octal 755.\<close>

fun create_components :: "volume_fs \<Rightarrow> path \<Rightarrow> string list \<Rightarrow> volume_event list \<times> path result" where
  "create_components fs dir [] = ([], Ok dir)"
| "create_components fs dir (component # components) =
     (case path_component_cstring component of
        Inl e \<Rightarrow> ([], Err e)
      | Inr name \<Rightarrow>
          (let mode = (if components = [] then 448 else 493) in
           case mkdirat_child fs dir name mode of
             (evs, Inl e) \<Rightarrow> (evs, Err e)
           | (evs, Inr _) \<Rightarrow>
               (case openat_dir_nofollow fs dir name of
                  Inl e \<Rightarrow> (evs, Err e)
                | Inr dir' \<Rightarrow>
                    (case create_components fs dir' components of (evs', r) \<Rightarrow> (evs @ evs', r)))))"

fun volume_components :: "path \<Rightarrow> string list result" where
  "volume_components [] = Ok []"
| "volume_components (RootDir # cs) = volume_components cs"
| "volume_components (CurDir # cs) = volume_components cs"
| "volume_components (Normal name # cs) = and_then (volume_components cs) (\<lambda>names. Ok (name # names))"
| "volume_components (ParentDir # cs) = Err (ConfigError ''Persistent volume path is not normalized: {:?}'')"

definition create_persistent_volume_dir_all_nofollow ::
  "volume_fs \<Rightarrow> path \<Rightarrow> volume_event list \<times> path result" where
  "create_persistent_volume_dir_all_nofollow fs path =
     (if \<not> is_absolute path then ([], Err (ConfigError ''Persistent volume path must be absolute: {:?}''))
      else
        (case volume_components path of
           Inl e \<Rightarrow> ([], Err e)
         | Inr components \<Rightarrow>
             (if components = [] then ([], Err (ConfigError ''Persistent volume path must not be the filesystem root''))
              else
                (case open_root_dir_nofollow fs of
                   Inl e \<Rightarrow> ([], Err e)
                 | Inr dir \<Rightarrow> create_components fs dir components))))"

definition fchown_persistent_volume :: "volume_fs \<Rightarrow> path \<Rightarrow> string \<Rightarrow> volume_event list \<times> unit result" where
  "fchown_persistent_volume fs dir owner =
     (case parse_volume_owner owner of
        Inl e \<Rightarrow> ([], Err e)
      | Inr (uid, gid) \<Rightarrow>
          (if fs_fchown fs dir uid gid then ([Chown dir uid gid], Ok ())
           else ([], Err (ConfigError ''Failed to set owner {} on persistent volume {} at {:?}: {}''))))"

definition prepare_persistent_volume :: "volume_fs \<Rightarrow> volume_def \<Rightarrow> volume_event list \<times> path result" where
  "prepare_persistent_volume fs v =
     (case and_then (ok_or (vol_path v) (ConfigError ''Persistent volume {} must define path'')) (\<lambda>p.
          if \<not> is_absolute (path_new p)
          then Err (ConfigError ''Persistent volume {} path must be absolute: {:?}'')
          else validate_bind_mount_source_policy (path_new p)) of
        Inl e \<Rightarrow> ([], Err e)
      | Inr normalized \<Rightarrow>
          (case create_persistent_volume_dir_all_nofollow fs normalized of
             (evs, Inl e) \<Rightarrow> (evs, Err e)
           | (evs, Inr volume_dir) \<Rightarrow>
               (case and_then (ok_or (fs_canonicalize fs normalized)
                     (ConfigError ''Failed to canonicalize persistent volume {} at {:?}: {}'')) (\<lambda>canonical.
                     and_then (validate_bind_mount_source (fs_canonicalize fs) canonical) (\<lambda>_. Ok canonical)) of
                  Inl e \<Rightarrow> (evs, Err e)
                | Inr canonical \<Rightarrow>
                    (case vol_owner v of
                       None \<Rightarrow> (evs, Ok canonical)
                     | Some owner \<Rightarrow>
                         (case fchown_persistent_volume fs volume_dir owner of
                            (evs', Inl e) \<Rightarrow> (evs @ evs', Err e)
                          | (evs', Inr _) \<Rightarrow> (evs @ evs', Ok canonical))))))"

section \<open>The command line of a service\<close>

definition flag_each :: "string \<Rightarrow> string list \<Rightarrow> string list" where
  "flag_each flag values = concat (map (\<lambda>v. [flag, v]) values)"

definition flag_opt :: "string \<Rightarrow> string option \<Rightarrow> string list" where
  "flag_opt flag value = (case value of None \<Rightarrow> [] | Some v \<Rightarrow> [flag, v])"

text \<open>
  The arguments for one volume. \<open>prepare\<close> is the result of \<open>prepare_persistent_volume\<close> for the named
  volume, with its events.
\<close>

definition volume_args ::
  "(volume_def \<Rightarrow> volume_event list \<times> path result) \<Rightarrow> topology_config \<Rightarrow> string \<Rightarrow> volume_event list \<times> string list result" where
  "volume_args prepare config spec =
     (case parse_service_volume_mount spec of
        Inl e \<Rightarrow> ([], Err e)
      | Inr m \<Rightarrow>
          (case bt_get (volumes config) (svm_volume m) of
             None \<Rightarrow> ([], Err (ConfigError ''Service {} references unknown volume {}''))
           | Some v \<Rightarrow>
               (if volume_type v = ''persistent'' then
                  (case prepare v of
                     (evs, Inl e) \<Rightarrow> (evs, Err e)
                   | (evs, Inr host_path) \<Rightarrow>
                       (evs, Ok [''--volume'', path_text host_path @ '':'' @ path_text (svm_dest m) @ '':''
                          @ (if svm_read_only m then ''ro'' else ''rw'')]))
                else if volume_type v = ''ephemeral'' then
                  ([], Ok [''--tmpfs'', path_text (svm_dest m)
                     @ (case vol_size v of None \<Rightarrow> [] | Some sz \<Rightarrow> '':'' @ sz)
                     @ (if svm_read_only m then '':ro'' else [])])
                else ([], Err (ConfigError ''Volume {} for service {} has unsupported type {}'')))))"

fun volumes_args ::
  "(volume_def \<Rightarrow> volume_event list \<times> path result) \<Rightarrow> topology_config \<Rightarrow> string list \<Rightarrow> volume_event list \<times> string list result" where
  "volumes_args prepare config [] = ([], Ok [])"
| "volumes_args prepare config (spec # specs) =
     (case volume_args prepare config spec of
        (evs, Inl e) \<Rightarrow> (evs, Err e)
      | (evs, Inr args) \<Rightarrow>
          (case volumes_args prepare config specs of
             (evs', Inl e) \<Rightarrow> (evs @ evs', Err e)
           | (evs', Inr args') \<Rightarrow> (evs @ evs', Ok (args @ args'))))"

text \<open>
  \<open>show_f64\<close> writes a floating point number as Rust does, \<open>write_secrets_fd\<close> is the number of the
  descriptor of the anonymous secrets file.
\<close>

definition build_service_run_command ::
  "(real \<Rightarrow> string) \<Rightarrow> (string list \<Rightarrow> string result) \<Rightarrow> (volume_def \<Rightarrow> volume_event list \<times> path result) \<Rightarrow>
   topology_config \<Rightarrow> service_def \<Rightarrow> string \<Rightarrow> u64 \<Rightarrow> string option \<Rightarrow> volume_event list \<times> string list result" where
  "build_service_run_command show_f64 write_secrets_fd prepare config svc name desired_hash state_root =
     (case volumes_args prepare config (svc_volumes svc) of
        (evs, Inl e) \<Rightarrow> (evs, Err e)
      | (evs, Inr volume_flags) \<Rightarrow>
          (case (if svc_secrets svc = [] then Ok []
                 else and_then (write_secrets_fd (svc_secrets svc)) (\<lambda>fd. Ok [''--secrets-fd'', fd])) of
             Inl e \<Rightarrow> (evs, Err e)
           | Inr secret_flags \<Rightarrow>
               (evs, Ok ([''nucleus''] @ flag_opt ''--root'' state_root
                 @ [''create'', ''--service-mode'', ''production'', ''--quiet-id'',
                    ''--topology-config-hash'', show_word desired_hash, ''--name'', name,
                    ''--rootfs'', svc_rootfs svc, ''--memory'', svc_memory svc,
                    ''--cpus'', show_f64 (svc_cpus svc), ''--pids'', show_word (svc_pids svc),
                    ''--network'', (if svc_networks svc = [] then ''none'' else ''bridge'')]
                 @ flag_each ''--dns'' (svc_dns svc)
                 @ (if svc_networks svc = [] then []
                    else [''--nat-backend'', nat_backend_as_str (svc_nat_backend svc)])
                 @ flag_each ''--egress-allow'' (svc_egress_allow svc)
                 @ flag_each ''--egress-domain'' (svc_egress_domains svc)
                 @ flag_each ''--egress-tcp-port'' (map show_word (svc_egress_tcp_ports svc))
                 @ flag_each ''--egress-udp-port'' (map show_word (svc_egress_udp_ports svc))
                 @ (case svc_credential_broker svc of
                      None \<Rightarrow> []
                    | Some endpoint \<Rightarrow> [''--credential-broker'', endpoint]
                        @ (if svc_credential_broker_no_proxy_env svc
                           then [''--credential-broker-no-proxy-env''] else []))
                 @ flag_each ''-p'' (svc_port_forwards svc)
                 @ volume_flags @ secret_flags
                 @ flag_each ''-e'' (map (\<lambda>(key, v). key @ ''='' @ v) (svc_environment svc))
                 @ flag_opt ''--user'' (svc_user svc) @ flag_opt ''--group'' (svc_group svc)
                 @ flag_each ''--additional-group'' (svc_additional_groups svc)
                 @ (case svc_health_check svc of
                      None \<Rightarrow> []
                    | Some hc \<Rightarrow> [''--health-cmd'', hc, ''--health-interval'', show_word (svc_health_interval svc)])
                 @ (if svc_runtime svc = ''gvisor'' then [''--runtime'', ''gvisor''] else [])
                 @ [''--sd-notify'', ''--''] @ svc_command svc))))"

section \<open>Lemmas on the directories of a volume\<close>

lemma mkdirat_child_cases:
  "(\<exists>evs. mkdirat_child fs parent name mode = (evs, Ok ())
      \<and> set evs \<subseteq> {Mkdir (path_push parent name) mode})
   \<or> (\<exists>e. mkdirat_child fs parent name mode = ([], Err e))"
  by (auto simp: mkdirat_child_def split: option.splits mkdir_error.splits)

text \<open>
  A directory is created only inside one that opened without following a link, and the result is the
  directory of all the names.
\<close>

lemma create_components_spec:
  assumes "create_components fs dir cs = (evs, r)" and "fs_openat fs dir"
  shows "(\<forall>e\<in>set evs. \<exists>xs y zs. cs = xs @ y # zs
            \<and> e = Mkdir (dir @ map Normal (xs @ [y])) (if zs = [] then 448 else 493)
            \<and> (\<forall>a. prefix a xs \<longrightarrow> fs_openat fs (dir @ map Normal a)))
    \<and> (\<forall>d. r = Ok d \<longrightarrow> d = dir @ map Normal cs \<and> (\<forall>a. prefix a cs \<longrightarrow> fs_openat fs (dir @ map Normal a)))"
  using assms
proof (induction cs arbitrary: dir evs r)
  case (Cons c cs)
  let ?dir = "path_push dir c" and ?mode = "if cs = [] then 448 else 493 :: nat"
  consider (stop) evs0 e where "evs = evs0" "r = Err e" "set evs0 \<subseteq> {Mkdir ?dir ?mode}"
    | (go) evs0 evs1 where "set evs0 \<subseteq> {Mkdir ?dir ?mode}" "fs_openat fs ?dir" "evs = evs0 @ evs1"
        "create_components fs ?dir cs = (evs1, r)"
    using Cons.prems(1) mkdirat_child_cases[of fs dir c ?mode]
    by (auto simp: path_component_cstring_def openat_dir_nofollow_def Let_def
        split: if_splits prod.splits sum.splits)
  then show ?case
  proof cases
    case stop
    then have "\<exists>xs y zs. c # cs = xs @ y # zs
        \<and> e = Mkdir (dir @ map Normal (xs @ [y])) (if zs = [] then 448 else 493)
        \<and> (\<forall>a. prefix a xs \<longrightarrow> fs_openat fs (dir @ map Normal a))" if "e \<in> set evs" for e
      using that Cons.prems(2) by (intro exI[of _ "[]"] exI[of _ c] exI[of _ cs]) (auto simp: path_push_def)
    with stop show ?thesis by blast
  next
    case go
    have open_below: "fs_openat fs (dir @ map Normal a)"
      if "prefix a (c # bs)" "\<forall>a. prefix a bs \<longrightarrow> fs_openat fs (?dir @ map Normal a)" for a bs
      using that Cons.prems(2) by (cases a) (auto simp: path_push_def)
    have "\<exists>xs y zs. c # cs = xs @ y # zs
        \<and> e = Mkdir (dir @ map Normal (xs @ [y])) (if zs = [] then 448 else 493)
        \<and> (\<forall>a. prefix a xs \<longrightarrow> fs_openat fs (dir @ map Normal a))" if e: "e \<in> set evs" for e
    proof (cases "e \<in> set evs1")
      case True
      with Cons.IH[OF go(4,2)] obtain xs y zs where "cs = xs @ y # zs"
        "e = Mkdir (?dir @ map Normal (xs @ [y])) (if zs = [] then 448 else 493)"
        "\<forall>a. prefix a xs \<longrightarrow> fs_openat fs (?dir @ map Normal a)" by blast
      then show ?thesis using open_below[of _ xs]
        by (intro exI[of _ "c # xs"] exI[of _ y] exI[of _ zs]) (auto simp: path_push_def)
    next
      case False
      with e go show ?thesis using Cons.prems(2)
        by (intro exI[of _ "[]"] exI[of _ c] exI[of _ cs]) (auto simp: path_push_def)
    qed
    moreover have "\<forall>d. r = Ok d \<longrightarrow> d = dir @ map Normal (c # cs)
        \<and> (\<forall>a. prefix a (c # cs) \<longrightarrow> fs_openat fs (dir @ map Normal a))"
      using Cons.IH[OF go(4,2)] open_below[of _ cs] by (auto simp: path_push_def)
    ultimately show ?thesis by blast
  qed
qed simp

lemma volume_components_names: "list_all is_normal cs \<Longrightarrow> \<exists>names. volume_components cs = Ok names \<and> cs = map Normal names"
proof (induction cs)
  case (Cons c cs)
  then obtain names where n: "volume_components cs = Ok names" "cs = map Normal names" by auto
  from Cons.prems obtain w where c: "c = Normal w" by (cases c) auto
  have "volume_components (c # cs) = Ok (w # names)" by (simp add: c n(1))
  moreover have "c # cs = map Normal (w # names)" by (simp add: c n(2))
  ultimately show ?case by (intro exI[of _ "w # names"] conjI)
qed simp

lemma volume_components_plain:
  assumes "is_plain p"
  obtains names where "volume_components p = Ok names" "p = RootDir # map Normal names"
proof -
  from assms have p: "p = RootDir # tl p" "list_all is_normal (tl p)" by (auto simp: is_plain_def neq_Nil_conv)
  from volume_components_names[OF p(2)] obtain names where
    "volume_components (tl p) = Ok names" "tl p = map Normal names" by blast
  with p(1) that[of names] show ?thesis by (metis volume_components.simps(2))
qed

text \<open>The ancestors of a path below the root, as paths and as lists of names.\<close>

lemma prefix_root_map: "prefix a (RootDir # map Normal xs) \<and> a \<noteq> [] \<longleftrightarrow> (\<exists>b. prefix b xs \<and> a = RootDir # map Normal b)"
proof
  assume "prefix a (RootDir # map Normal xs) \<and> a \<noteq> []"
  then obtain a' where "a = RootDir # a'" "prefix a' (map Normal xs)" by (cases a) auto
  then show "\<exists>b. prefix b xs \<and> a = RootDir # map Normal b" using prefix_map_rightE[of a' Normal xs] by blast
qed (auto simp: map_mono_prefix)

definition volume_change_ok :: "volume_fs \<Rightarrow> path \<Rightarrow> volume_event \<Rightarrow> bool" where
  "volume_change_ok fs q e =
     (case e of
        Mkdir d mode \<Rightarrow> prefix d q \<and> d \<noteq> [RootDir] \<and> mode = (if d = q then 448 else 493)
          \<and> (\<forall>a. prefix a d \<and> a \<noteq> d \<and> a \<noteq> [] \<longrightarrow> fs_openat fs a)
      | Chown d uid gid \<Rightarrow> d = q \<and> (\<forall>a. prefix a q \<and> a \<noteq> [] \<longrightarrow> fs_openat fs a)
          \<and> (\<exists>c. fs_canonicalize fs q = Some c \<and> validate_bind_mount_source (fs_canonicalize fs) c = Ok ()))"

lemma create_dirs_spec:
  assumes "create_persistent_volume_dir_all_nofollow fs q = (evs, r)" and "is_plain q"
  shows "(\<forall>e\<in>set evs. volume_change_ok fs q e)
    \<and> (\<forall>d. r = Ok d \<longrightarrow> d = q \<and> (\<forall>a. prefix a q \<and> a \<noteq> [] \<longrightarrow> fs_openat fs a))"
proof (cases "fs_openat fs [RootDir] \<and> q \<noteq> [RootDir]")
  case False
  with assms volume_components_plain[OF assms(2)] show ?thesis
    by (auto simp: create_persistent_volume_dir_all_nofollow_def open_root_dir_nofollow_def split: sum.splits if_splits)
next
  case True
  from volume_components_plain[OF assms(2)] obtain names where
    names: "volume_components q = Ok names" "q = RootDir # map Normal names" .
  have "create_components fs [RootDir] names = (evs, r)"
    using assms(1) True names
    by (auto simp: create_persistent_volume_dir_all_nofollow_def open_root_dir_nofollow_def is_absolute_def)
  note spec = create_components_spec[OF this]
  have "volume_change_ok fs q e" if "e \<in> set evs" for e
  proof -
    from that spec True obtain xs y zs where e: "names = xs @ y # zs"
      "e = Mkdir (RootDir # map Normal (xs @ [y])) (if zs = [] then 448 else 493)"
      "\<forall>a. prefix a xs \<longrightarrow> fs_openat fs (RootDir # map Normal a)" by fastforce
    have "fs_openat fs a" if a: "prefix a (RootDir # map Normal (xs @ [y]))" "a \<noteq> RootDir # map Normal (xs @ [y])" "a \<noteq> []" for a
    proof -
      from a prefix_root_map[of a "xs @ [y]"] obtain b where b: "prefix b (xs @ [y])" "a = RootDir # map Normal b" by blast
      with a(2) have "prefix b xs" by (auto simp: prefix_snoc)
      with e(3) b(2) show ?thesis by blast
    qed
    then show ?thesis by (simp add: volume_change_ok_def e names(2))
  qed
  moreover have "d = q \<and> (\<forall>a. prefix a q \<and> a \<noteq> [] \<longrightarrow> fs_openat fs a)" if "r = Ok d" for d
    using that spec True by (auto simp: names(2) prefix_root_map)
  ultimately show ?thesis by blast
qed

lemma fchown_events: "e \<in> set (fst (fchown_persistent_volume fs d owner)) \<Longrightarrow> \<exists>uid gid. e = Chown d uid gid"
  by (cases "parse_volume_owner owner") (auto simp: fchown_persistent_volume_def split: if_splits prod.splits)

section \<open>Properties\<close>

text \<open>
  preparing a persistent volume changes the file system only below the policy: every change is
  for a path the mount policy accepts (absolute, without parent components, below no sensitive
  host path). Directories are created on the way to it, each inside a directory that opened without
  following a symbolic link, the last one with mode 700 and the others with 755; the owner changes only at the
  volume itself, after every component opened as a real directory and the resolved path passed the
  policy again.
\<close>

theorem prepare_volume_confined:
  assumes "prepare_persistent_volume fs v = (evs, r)" and "e \<in> set evs"
  shows "\<exists>s q. vol_path v = Some s \<and> validate_bind_mount_source_policy (path_new s) = Ok q
    \<and> is_plain q \<and> q \<noteq> [RootDir]
    \<and> (\<forall>d\<in>set denied_bind_mount_source_prefixes. \<not> prefix (path_new d) q)
    \<and> (case e of
         Mkdir d mode \<Rightarrow> prefix d q \<and> d \<noteq> [RootDir] \<and> mode = (if d = q then 448 else 493)
           \<and> (\<forall>a. prefix a d \<and> a \<noteq> d \<and> a \<noteq> [] \<longrightarrow> fs_openat fs a)
       | Chown d uid gid \<Rightarrow> d = q \<and> (\<forall>a. prefix a q \<and> a \<noteq> [] \<longrightarrow> fs_openat fs a)
           \<and> (\<exists>c. fs_canonicalize fs q = Some c \<and> validate_bind_mount_source (fs_canonicalize fs) c = Ok ()))"
proof -
  from assms obtain s q where s: "vol_path v = Some s" "validate_bind_mount_source_policy (path_new s) = Ok q"
    by (auto simp: prepare_persistent_volume_def and_then_def ok_or_def split: sum.splits option.splits if_splits)
  have plain: "is_plain q"
    using s(2) foldl_policy_plain[of "[RootDir]" "path_new s"] path_new_components[of s]
    by (simp add: validate_policy_Ok is_plain_def)
  obtain evs0 r0 where c: "create_persistent_volume_dir_all_nofollow fs q = (evs0, r0)" by fastforce
  note spec = create_dirs_spec[OF c plain]
  have "volume_change_ok fs q e"
  proof (cases "e \<in> set evs0")
    case False
    with assms s c have "\<exists>d owner. r0 = Ok d \<and> vol_owner v = Some owner
        \<and> e \<in> set (fst (fchown_persistent_volume fs d owner))
        \<and> (\<exists>c. fs_canonicalize fs q = Some c \<and> validate_bind_mount_source (fs_canonicalize fs) c = Ok ())"
      by (auto simp: prepare_persistent_volume_def and_then_def ok_or_def split: sum.splits option.splits if_splits prod.splits)
    then obtain d uid gid where "r0 = Ok d" "e = Chown d uid gid"
      "\<exists>c. fs_canonicalize fs q = Some c \<and> validate_bind_mount_source (fs_canonicalize fs) c = Ok ()"
      using fchown_events by blast
    then show ?thesis using spec by (simp add: volume_change_ok_def)
  qed (use spec in blast)
  moreover have "q \<noteq> [RootDir] \<and> (\<forall>d\<in>set denied_bind_mount_source_prefixes. \<not> prefix (path_new d) q)"
    using s(2) by (auto simp: validate_policy_Ok reject_denied_Ok)
  ultimately show ?thesis using s plain by (auto simp: volume_change_ok_def)
qed

theorem prepare_volume_confined_witness:
  "\<exists>s q. Some ''/srv'' = Some s \<and> validate_bind_mount_source_policy (path_new s) = Ok q \<and> is_plain q
     \<and> prefix [RootDir, Normal ''srv''] q"
proof -
  let ?v = "\<lparr>volume_type = ''persistent'', vol_path = Some ''/srv'', vol_owner = None, vol_size = None\<rparr>"
  let ?fs = "\<lparr>fs_mkdirat = (\<lambda>_. None), fs_openat = (\<lambda>_. True), fs_canonicalize = (\<lambda>_. None), fs_fchown = (\<lambda>_ _ _. True)\<rparr>"
  have "validate_bind_mount_source_policy (path_new ''/srv'') = Ok [RootDir, Normal ''srv'']"
    "is_absolute (path_new ''/srv'')"
    by (simp_all add: validate_policy_Ok reject_denied_Ok denied_bind_mount_source_prefixes_def path_eval
        policy_step_def path_push_def)
  then have "prepare_persistent_volume ?fs ?v = ([Mkdir [RootDir, Normal ''srv''] 448],
      Err (ConfigError ''Failed to canonicalize persistent volume {} at {:?}: {}''))"
    by (simp add: prepare_persistent_volume_def create_persistent_volume_dir_all_nofollow_def is_absolute_def
        open_root_dir_nofollow_def path_component_cstring_def mkdirat_child_def openat_dir_nofollow_def path_push_def
        ok_or_def and_then_def)
  from prepare_volume_confined[OF this, of "Mkdir [RootDir, Normal ''srv''] 448"] show ?thesis by auto
qed

text \<open>
  the subnet a topology declares for a network never reaches the container: the command line of
  a service is the same whatever the topology's networks are, and the container's bridge has the
  default subnet. A service that passes validation with a credential broker at the gateway of its
  own network is then rejected when the container validates the broker against its bridge.
\<close>

theorem topology_subnet_not_propagated:
  "build_service_run_command sf wr prepare (config\<lparr>networks := nets\<rparr>) svc name h state_root
     = build_service_run_command sf wr prepare config svc name h state_root
   \<and> topology_validate demo_topology = Ok ()
   \<and> (\<exists>svc b. bt_get (services demo_topology) ''web'' = Some svc
       \<and> svc_credential_broker svc = Some ''10.42.0.1:8080''
       \<and> parse_endpoint ''10.42.0.1:8080'' = Ok b
       \<and> \<not> is_ok (validate_for_bridge b default_bridge_config))"
proof -
  have "volume_args prepare (config\<lparr>networks := nets\<rparr>) spec = volume_args prepare config spec" for spec
    by (cases "parse_service_volume_mount spec") (simp_all add: volume_args_def)
  then have "volumes_args prepare (config\<lparr>networks := nets\<rparr>) specs = volumes_args prepare config specs" for specs
    by (induction specs) simp_all
  then have same: "build_service_run_command sf wr prepare (config\<lparr>networks := nets\<rparr>) svc name h state_root
     = build_service_run_command sf wr prepare config svc name h state_root"
    by (simp add: build_service_run_command_def)
  obtain gw where gw: "gateway_ipv4 default_bridge_config = Ok gw" "unat gw = 0x0A002A01"
    using gateway_contained[OF parse_default_subnet] by (auto simp: ipv4_of_octets_def)
  then have "gw \<noteq> ipv4_of_octets 10 42 0 1" by (auto simp: ipv4_of_octets_def word_unat_eq_iff)
  then have "\<not> is_ok (validate_for_bridge (broker_new (ipv4_of_octets 10 42 0 1) 8080) default_bridge_config)"
    by (auto simp: validate_for_bridge_def gw broker_new_def is_ok_iff result_simps)
  moreover obtain svc where "bt_get (services demo_topology) ''web'' = Some svc"
    "svc_credential_broker svc = Some ''10.42.0.1:8080''" by (auto simp: demo_topology_def bt_get_def)
  ultimately show ?thesis using same demo_valid demo_broker by blast
qed

end
