(* ===== verification/Container_State.thy ===== *)
theory Container_State
  imports BTree_Map
begin

text \<open>
  The record kept for each container and the manager of the state directory
  (\<^verbatim>\<open>src/src/container/state.rs\<close>): liveness by process id and start time, lookup by reference, and
  saving, loading, listing and deleting of state files.

  The state directory is the list of its entries in the order \<^verbatim>\<open>read_dir\<close> gives them. Which file
  operation fails is an argument, as is the text a failed write leaves behind; the JSON serialiser
  and its inverse are arguments \<open>to_json\<close> and \<open>from_json\<close>; the content of \<^verbatim>\<open>/proc/<pid>/stat\<close> is
  an argument \<open>proc_stat\<close>. The choice and the permissions of the directory are not modelled.
\<close>

section \<open>State of a container\<close>

datatype oci_status = Creating | Created | Running | Stopped

fun oci_status_display :: "oci_status \<Rightarrow> string" where
  "oci_status_display Creating = ''creating''"
| "oci_status_display Created = ''created''"
| "oci_status_display Running = ''running''"
| "oci_status_display Stopped = ''stopped''"

datatype rootfs_mode = Bind | Overlay

record container_state =
  cs_id :: string
  cs_name :: string
  cs_pid :: u32
  cs_command :: "string list"
  cs_environment :: "(string, string) btree_map"
  cs_workdir :: string
  cs_started_at :: u64
  cs_memory_limit :: "u64 option"
  cs_cpu_limit :: "u64 option"
  cs_using_gvisor :: bool
  cs_rootless :: bool
  cs_cgroup_path :: "string option"
  cs_config_hash :: "u64 option"
  cs_creator_uid :: u32
  cs_process_uid :: u32
  cs_process_gid :: u32
  cs_additional_gids :: "u32 list"
  cs_start_ticks :: u64
  cs_status :: oci_status
  cs_bundle_path :: "string option"
  cs_annotations :: "string \<rightharpoonup> string"
  cs_rootfs_path :: "string option"
  cs_rootfs_mode :: rootfs_mode
  cs_rootfs_upperdir :: "string option"
  cs_rootfs_workdir :: "string option"

record container_state_params =
  csp_id :: string
  csp_name :: string
  csp_pid :: u32
  csp_command :: "string list"
  csp_memory_limit :: "u64 option"
  csp_cpu_limit :: "u64 option"
  csp_using_gvisor :: bool
  csp_rootless :: bool
  csp_cgroup_path :: "string option"
  csp_process_uid :: u32
  csp_process_gid :: u32
  csp_additional_gids :: "u32 list"

text \<open>
  The start time of a process: field 22 of its \<^verbatim>\<open>stat\<close> line, counted after the last closing
  parenthesis of the command name. Slicing two bytes past the parenthesis panics when the text ends
  before; that is the outer \<^term>\<open>None\<close>.
\<close>

definition parse_start_ticks :: "string \<Rightarrow> u64 option option" where
  "parse_start_ticks content =
     (case rsplit_once CHR '')'' content of
        None \<Rightarrow> Some None
      | Some (_, after) \<Rightarrow>
          (if after = [] then None
           else (let fields = split_whitespace (drop 1 after) in
                 if length fields \<le> 19 then Some None else Some (parse_word (fields ! 19)))))"

text \<open>Up to five reads of the \<^verbatim>\<open>stat\<close> file, the first start time found.\<close>

fun read_start_ticks :: "string option list \<Rightarrow> u64 option" where
  "read_start_ticks [] = Some 0"
| "read_start_ticks (None # attempts) = read_start_ticks attempts"
| "read_start_ticks (Some content # attempts) =
     (case parse_start_ticks content of
        None \<Rightarrow> None
      | Some (Some ticks) \<Rightarrow> Some ticks
      | Some None \<Rightarrow> read_start_ticks attempts)"

definition state_new :: "u64 \<Rightarrow> u64 \<Rightarrow> u32 \<Rightarrow> container_state_params \<Rightarrow> container_state" where
  "state_new now ticks euid p =
     \<lparr>cs_id = csp_id p, cs_name = csp_name p, cs_pid = csp_pid p, cs_command = csp_command p,
      cs_environment = [], cs_workdir = ''/workspace'', cs_started_at = now,
      cs_memory_limit = csp_memory_limit p, cs_cpu_limit = csp_cpu_limit p,
      cs_using_gvisor = csp_using_gvisor p, cs_rootless = csp_rootless p,
      cs_cgroup_path = csp_cgroup_path p, cs_config_hash = None, cs_creator_uid = euid,
      cs_process_uid = csp_process_uid p, cs_process_gid = csp_process_gid p,
      cs_additional_gids = csp_additional_gids p, cs_start_ticks = ticks, cs_status = Creating,
      cs_bundle_path = None, cs_annotations = Map.empty, cs_rootfs_path = None,
      cs_rootfs_mode = Bind, cs_rootfs_upperdir = None, cs_rootfs_workdir = None\<rparr>"

text \<open>A panic while parsing counts as not running in what follows.\<close>

definition is_running :: "(u32 \<Rightarrow> string option) \<Rightarrow> container_state \<Rightarrow> bool" where
  "is_running proc_stat self \<longleftrightarrow>
     (if cs_status self = Stopped then False
      else case proc_stat (cs_pid self) of
        None \<Rightarrow> False
      | Some content \<Rightarrow>
          (if cs_start_ticks self = 0 then False
           else parse_start_ticks content = Some (Some (cs_start_ticks self))))"

definition live_status :: "(u32 \<Rightarrow> string option) \<Rightarrow> container_state \<Rightarrow> string" where
  "live_status proc_stat self =
     (if cs_status self = Running \<and> \<not> is_running proc_stat self then ''stopped''
      else oci_status_display (cs_status self))"

record oci_state =
  oci_version :: string
  oci_id :: string
  oci_status_text :: string
  oci_pid :: u32
  oci_bundle :: string
  oci_annotations :: "string \<rightharpoonup> string"

definition oci_state_of :: "(u32 \<Rightarrow> string option) \<Rightarrow> container_state \<Rightarrow> oci_state" where
  "oci_state_of proc_stat self =
     \<lparr>oci_version = ''1.0.2'', oci_id = cs_id self, oci_status_text = live_status proc_stat self,
      oci_pid = (if live_status proc_stat self = ''stopped'' then 0 else cs_pid self),
      oci_bundle = (case cs_bundle_path self of None \<Rightarrow> [] | Some b \<Rightarrow> b),
      oci_annotations = cs_annotations self\<rparr>"

definition uptime :: "u64 \<Rightarrow> container_state \<Rightarrow> u64" where
  "uptime now self = (if cs_started_at self \<le> now then now - cs_started_at self else 0)"

section \<open>The state directory\<close>

datatype dir_file = Regular string | Symlink string

type_synonym state_dir = "(string \<times> dir_file) list"

definition dir_put :: "string \<Rightarrow> dir_file \<Rightarrow> state_dir \<Rightarrow> state_dir" where
  "dir_put n f d =
     (if n \<in> set (map fst d) then map (\<lambda>(m, g). if m = n then (m, f) else (m, g)) d
      else d @ [(n, f)])"

definition dir_remove :: "string \<Rightarrow> state_dir \<Rightarrow> state_dir" where
  "dir_remove n d = filter (\<lambda>(m, _). m \<noteq> n) d"

definition valid_id_char :: "char \<Rightarrow> bool" where
  "valid_id_char c \<longleftrightarrow> is_ascii_alphanumeric c \<or> c = CHR ''-'' \<or> c = CHR ''_''"

definition validate_container_id :: "string \<Rightarrow> unit result" where
  "validate_container_id container_id =
     (if container_id = [] then Err (ConfigError ''Container ID cannot be empty'')
      else if \<not> list_all valid_id_char container_id
      then Err (ConfigError ''Invalid container ID (allowed: a-zA-Z0-9_-): {}'')
      else Ok ())"

definition state_file_path :: "string \<Rightarrow> string result" where
  "state_file_path container_id =
     and_then (validate_container_id container_id) (\<lambda>_. Ok (container_id @ ''.json''))"

definition exec_fifo_path :: "string \<Rightarrow> string result" where
  "exec_fifo_path container_id =
     and_then (validate_container_id container_id) (\<lambda>_. Ok (container_id @ ''.exec''))"

definition rootfs_overlay_dir_path :: "string \<Rightarrow> string result" where
  "rootfs_overlay_dir_path container_id =
     and_then (validate_container_id container_id) (\<lambda>_. Ok (container_id @ ''.rootfs-overlay''))"

text \<open>The steps of a save, each of which may fail.\<close>

datatype io_step = OpenTmp | WriteTmp | SyncTmp | RenameTmp

definition save_state ::
  "(container_state \<Rightarrow> string option) \<Rightarrow> (io_step \<Rightarrow> bool) \<Rightarrow> string \<Rightarrow> container_state \<Rightarrow> state_dir \<Rightarrow>
   state_dir \<times> unit result" where
  "save_state to_json fails partial state d =
     (case state_file_path (cs_id state) of
        Inl e \<Rightarrow> (d, Err e)
      | Inr path \<Rightarrow>
          (let tmp = cs_id state @ ''.json.tmp'' in
           case to_json state of
             None \<Rightarrow> (d, Err (ConfigError ''Failed to serialize container state: {}''))
           | Some json \<Rightarrow>
               (if fails OpenTmp \<or> (\<exists>t. map_of d tmp = Some (Symlink t))
                then (d, Err (ConfigError ''Failed to open temp state file {:?}: {}''))
                else if fails WriteTmp
                then (dir_put tmp (Regular partial) d,
                      Err (ConfigError ''Failed to write state file {:?}: {}''))
                else if fails SyncTmp
                then (dir_put tmp (Regular json) d,
                      Err (ConfigError ''Failed to sync state file {:?}: {}''))
                else if fails RenameTmp
                then (dir_put tmp (Regular json) d,
                      Err (ConfigError ''Failed to atomically replace state file {:?}: {}''))
                else (dir_put path (Regular json) (dir_remove tmp d), Ok ()))))"

text \<open>\<^verbatim>\<open>O_NOFOLLOW\<close>: a symbolic link is not read.\<close>

definition read_file_nofollow :: "state_dir \<Rightarrow> string \<Rightarrow> string option" where
  "read_file_nofollow d n =
     (case map_of d n of Some (Regular content) \<Rightarrow> Some content | _ \<Rightarrow> None)"

definition load_state ::
  "(string \<Rightarrow> container_state option) \<Rightarrow> state_dir \<Rightarrow> string \<Rightarrow> container_state result" where
  "load_state from_json d container_id =
     and_then (state_file_path container_id) (\<lambda>path.
     and_then (ok_or (read_file_nofollow d path) (ConfigError ''Failed to read state file {:?}: {}'')) (\<lambda>json.
     ok_or (from_json json) (ConfigError ''Failed to parse container state: {}'')))"

text \<open>Removing a file that is not there succeeds.\<close>

definition delete_state :: "(string \<Rightarrow> bool) \<Rightarrow> string \<Rightarrow> state_dir \<Rightarrow> state_dir \<times> unit result" where
  "delete_state remove_fails container_id d =
     (case state_file_path container_id of
        Inl e \<Rightarrow> (d, Err e)
      | Inr path \<Rightarrow>
          (if path \<in> set (map fst d) \<and> remove_fails path
           then (d, Err (ConfigError ''Failed to delete state file {:?}: {}''))
           else (dir_remove path d, Ok ())))"

text \<open>\<^verbatim>\<open>Path::extension\<close> of a file name: what follows the last dot, unless nothing precedes it.\<close>

definition extension :: "string \<Rightarrow> string option" where
  "extension n =
     (case rsplit_once CHR ''.'' n of
        None \<Rightarrow> None
      | Some (stem, ext) \<Rightarrow> (if stem = [] then None else Some ext))"

definition dir_states ::
  "(string \<Rightarrow> container_state option) \<Rightarrow> state_dir \<Rightarrow> container_state list" where
  "dir_states from_json d =
     List.map_filter (\<lambda>(n, _).
       if extension n = Some ''json''
       then Option.bind (read_file_nofollow d n) from_json else None) d"

definition list_states ::
  "(string \<Rightarrow> container_state option) \<Rightarrow> bool \<Rightarrow> state_dir \<Rightarrow> container_state list result" where
  "list_states from_json readable d =
     (if \<not> readable then Err (ConfigError ''Failed to read state directory {:?}: {}'')
      else Ok (dir_states from_json d))"

definition list_running ::
  "(string \<Rightarrow> container_state option) \<Rightarrow> (u32 \<Rightarrow> string option) \<Rightarrow> bool \<Rightarrow> state_dir \<Rightarrow>
   container_state list result" where
  "list_running from_json proc_stat readable d =
     and_then (list_states from_json readable d) (\<lambda>states. Ok (filter (is_running proc_stat) states))"

definition resolve_reference :: "container_state list \<Rightarrow> string \<Rightarrow> container_state result" where
  "resolve_reference states reference =
     (case find (\<lambda>s. cs_id s = reference) states of
        Some s \<Rightarrow> Ok s
      | None \<Rightarrow>
          (case filter (\<lambda>s. cs_name s = reference) states of
             [s] \<Rightarrow> Ok s
           | s # s' # ss \<Rightarrow> Err (AmbiguousContainer
               ''Name {} matches {} containers; use container ID instead'')
           | [] \<Rightarrow>
               (case filter (\<lambda>s. strip_prefix reference (cs_id s) \<noteq> None) states of
                  [] \<Rightarrow> Err (ContainerNotFound reference)
                | [s] \<Rightarrow> Ok s
                | _ \<Rightarrow> Err (AmbiguousContainer ''{} matches {} containers''))))"

definition resolve_container ::
  "(string \<Rightarrow> container_state option) \<Rightarrow> bool \<Rightarrow> state_dir \<Rightarrow> string \<Rightarrow> container_state result" where
  "resolve_container from_json readable d reference =
     and_then (list_states from_json readable d) (\<lambda>states. resolve_reference states reference)"

fun delete_stale ::
  "(string \<Rightarrow> bool) \<Rightarrow> (u32 \<Rightarrow> string option) \<Rightarrow> container_state list \<Rightarrow> state_dir \<Rightarrow> state_dir \<times> unit result"
where
  "delete_stale remove_fails proc_stat [] d = (d, Ok ())"
| "delete_stale remove_fails proc_stat (s # ss) d =
     (if is_running proc_stat s then delete_stale remove_fails proc_stat ss d
      else case delete_state remove_fails (cs_id s) d of
        (d', Inl e) \<Rightarrow> (d', Err e)
      | (d', Inr _) \<Rightarrow> delete_stale remove_fails proc_stat ss d')"

definition cleanup_stale ::
  "(string \<Rightarrow> container_state option) \<Rightarrow> bool \<Rightarrow> (string \<Rightarrow> bool) \<Rightarrow> (u32 \<Rightarrow> string option) \<Rightarrow> state_dir \<Rightarrow>
   state_dir \<times> unit result" where
  "cleanup_stale from_json readable remove_fails proc_stat d =
     (case list_states from_json readable d of
        Inl e \<Rightarrow> (d, Err e)
      | Inr states \<Rightarrow> delete_stale remove_fails proc_stat states d)"

section \<open>Lemmas\<close>

lemma map_of_dir_put: "map_of (dir_put n f d) = (map_of d)(n \<mapsto> f)"
proof -
  have "map_of (map (\<lambda>(m, g). if m = n then (m, f) else (m, g)) d) k =
      (if k = n \<and> n \<in> set (map fst d) then Some f else map_of d k)" for k
  proof (induction d)
    case (Cons x d)
    obtain a b where "x = (a, b)" by fastforce
    with Cons show ?case by (cases "k = n"; cases "a = n"; simp)
  qed simp
  moreover have "map_of d n = None" if "n \<notin> set (map fst d)"
    using that by (simp add: map_of_eq_None_iff)
  ultimately show ?thesis
    by (cases "n \<in> set (map fst d)") (auto simp: dir_put_def fun_eq_iff map_add_def split: option.splits)
qed

lemma map_of_dir_remove: "map_of (dir_remove n d) = (map_of d)(n := None)"
  by (induction d) (auto simp: dir_remove_def fun_eq_iff)

lemma state_file_path_Ok: "state_file_path i = Ok p \<longleftrightarrow> validate_container_id i = Ok () \<and> p = i @ ''.json''"
  by (auto simp: state_file_path_def result_simps)

lemma valid_id_no_dot: "validate_container_id i = Ok () \<Longrightarrow> i \<noteq> [] \<and> CHR ''.'' \<notin> set i \<and> CHR ''/'' \<notin> set i"
  by (auto simp: validate_container_id_def list_all_iff valid_id_char_def is_ascii_alphanumeric_def
      is_ascii_digit_def split: if_splits)

lemma extension_json [simp]: "i \<noteq> [] \<Longrightarrow> extension (i @ ''.json'') = Some ''json''"
proof -
  assume "i \<noteq> []"
  moreover have "rsplit_once CHR ''.'' (i @ ''.json'') = Some (i, ''json'')"
    by (simp add: rsplit_once_Some_iff)
  ultimately show ?thesis by (simp add: extension_def)
qed

lemma extension_json_iff: "extension n = Some ''json'' \<longleftrightarrow> (\<exists>i. i \<noteq> [] \<and> n = i @ ''.json'')"
proof
  assume "extension n = Some ''json''"
  then obtain i where "rsplit_once CHR ''.'' n = Some (i, ''json'')" "i \<noteq> []"
    by (auto simp: extension_def split: option.splits if_splits)
  then show "\<exists>i. i \<noteq> [] \<and> n = i @ ''.json''" by (auto simp: rsplit_once_Some_iff)
qed auto

lemma json_tmp_neq: "j @ ''.json'' \<noteq> i @ ''.json.tmp''"
proof
  assume "j @ ''.json'' = i @ ''.json.tmp''"
  then have "last (j @ ''.json'') = last (i @ ''.json.tmp'')" by (rule arg_cong)
  then show False by simp
qed

text \<open>What a save does to the files that listing and loading look at.\<close>

lemma save_state_files:
  assumes "save_state to_json fails partial s d = (d', r)"
  shows "(r = Ok () \<longrightarrow> validate_container_id (cs_id s) = Ok () \<and> (\<exists>json. to_json s = Some json
            \<and> (\<forall>j. map_of d' (j @ ''.json'') =
                  (if j = cs_id s then Some (Regular json) else map_of d (j @ ''.json'')))))
    \<and> (r \<noteq> Ok () \<longrightarrow> (\<forall>j. map_of d' (j @ ''.json'') = map_of d (j @ ''.json'')))"
  using assms json_tmp_neq[of _ "cs_id s"]
  by (auto simp: save_state_def Let_def map_of_dir_put map_of_dir_remove state_file_path_Ok
      split: sum.splits option.splits if_splits)

text \<open>
  C20: saving a container's state is atomic. Whichever step of it fails, every state file is as it
  was; when it succeeds, loading the container gives the saved state and no other container's state
  file has changed.
\<close>

theorem save_state_atomic:
  assumes "save_state to_json fails partial s d = (d', r)"
    and "\<And>s json. to_json s = Some json \<Longrightarrow> from_json json = Some s"
  shows "(r = Ok () \<longrightarrow> load_state from_json d' (cs_id s) = Ok s)
    \<and> (\<forall>j. r \<noteq> Ok () \<or> j \<noteq> cs_id s \<longrightarrow> load_state from_json d' j = load_state from_json d j)"
proof -
  have load: "load_state from_json d1 j = load_state from_json d2 j"
    if "map_of d1 (j @ ''.json'') = map_of d2 (j @ ''.json'')" for d1 d2 j
    using that by (cases "validate_container_id j")
      (simp_all add: load_state_def state_file_path_def read_file_nofollow_def)
  note f = save_state_files[OF assms(1)]
  show ?thesis
  proof (cases "r = Ok ()")
    case True
    with f obtain json where v: "validate_container_id (cs_id s) = Ok ()" and j: "to_json s = Some json"
      and m: "\<forall>j. map_of d' (j @ ''.json'') =
        (if j = cs_id s then Some (Regular json) else map_of d (j @ ''.json''))" by blast
    have "load_state from_json d' (cs_id s) = Ok s"
      using v m assms(2)[OF j] by (simp add: load_state_def state_file_path_def read_file_nofollow_def)
    with True m show ?thesis by (auto intro: load)
  next
    case False
    with f show ?thesis by (auto intro: load)
  qed
qed

definition demo_state :: "string \<Rightarrow> container_state" where
  "demo_state i = state_new 0 7 0 \<lparr>csp_id = i, csp_name = i, csp_pid = 42, csp_command = [''run''],
     csp_memory_limit = None, csp_cpu_limit = None, csp_using_gvisor = False, csp_rootless = False,
     csp_cgroup_path = None, csp_process_uid = 0, csp_process_gid = 0, csp_additional_gids = []\<rparr>"

theorem save_state_atomic_witness:
  "load_state (\<lambda>j. if j = ''x'' then Some (demo_state ''a1'') else None)
     [(''a1.json'', Regular ''x'')] ''a1'' = Ok (demo_state ''a1'')"
proof -
  let ?to = "\<lambda>s. if s = demo_state ''a1'' then Some ''x'' else None"
  let ?from = "\<lambda>j. if j = ''x'' then Some (demo_state ''a1'') else None"
  have save: "save_state ?to (\<lambda>_. False) [] (demo_state ''a1'') [] = ([(''a1.json'', Regular ''x'')], Ok ())"
    by (simp add: save_state_def state_file_path_def validate_container_id_def valid_id_char_def
        string_eval dir_put_def dir_remove_def demo_state_def state_new_def)
  have id: "cs_id (demo_state ''a1'') = ''a1''" by (simp add: demo_state_def state_new_def)
  have "?to s = Some json \<Longrightarrow> ?from json = Some s" for s json by (simp split: if_splits)
  from save_state_atomic[OF save this] show ?thesis by (simp add: id)
qed

lemma filter_singleton_unique: "filter P xs = [s] \<Longrightarrow> s \<in> set xs \<and> P s \<and> (\<forall>x\<in>set xs. P x \<longrightarrow> x = s)"
proof -
  assume "filter P xs = [s]"
  then have "{x \<in> set xs. P x} = {s}" by (metis list.simps(15) empty_set set_filter)
  then show ?thesis by blast
qed

lemma strip_prefix_prefix: "strip_prefix p s \<noteq> None \<longleftrightarrow> prefix p s"
  by (cases "strip_prefix p s") (auto simp: prefix_def strip_prefix_Some_iff[symmetric])

text \<open>
  a reference that resolves gives a listed container, found by its full id first, else by a
  name no other container has, else by an id prefix no other container shares; a reference that does
  not resolve either matches nothing or is reported as ambiguous.
\<close>

theorem resolve_reference_sound:
  "case resolve_reference states reference of
     Inr s \<Rightarrow> s \<in> set states \<and>
       (cs_id s = reference
        \<or> (\<forall>x\<in>set states. cs_id x \<noteq> reference) \<and>
          (cs_name s = reference \<and> (\<forall>x\<in>set states. cs_name x = reference \<longrightarrow> x = s)
           \<or> (\<forall>x\<in>set states. cs_name x \<noteq> reference) \<and> prefix reference (cs_id s)
              \<and> (\<forall>x\<in>set states. prefix reference (cs_id x) \<longrightarrow> x = s)))
   | Inl e \<Rightarrow>
       (e = ContainerNotFound reference \<and>
          (\<forall>x\<in>set states. cs_name x \<noteq> reference \<and> \<not> prefix reference (cs_id x)))
       \<or> (\<exists>m. e = AmbiguousContainer m) \<and> length states \<ge> 2"
proof (cases "find (\<lambda>s. cs_id s = reference) states")
  case (Some s)
  then have "s \<in> set states \<and> cs_id s = reference" by (auto simp: find_Some_iff)
  then show ?thesis by (simp add: resolve_reference_def Some)
next
  case None
  then have no_id: "\<forall>x\<in>set states. cs_id x \<noteq> reference" by (auto simp: find_None_iff)
  have len: "2 \<le> length states" if "filter P states = a # b # cs" for P a b cs
    using that length_filter_le[of P states] by simp
  show ?thesis
  proof (cases "filter (\<lambda>s. cs_name s = reference) states")
    case Nil
    then have no_name: "\<forall>x\<in>set states. cs_name x \<noteq> reference" by (simp add: filter_empty_conv)
    have r: "resolve_reference states reference =
        (case filter (\<lambda>s. prefix reference (cs_id s)) states of
           [] \<Rightarrow> Err (ContainerNotFound reference)
         | [s] \<Rightarrow> Ok s
         | _ \<Rightarrow> Err (AmbiguousContainer ''{} matches {} containers''))"
      by (simp only: resolve_reference_def None Nil strip_prefix_prefix option.case list.case)
    show ?thesis
    proof (cases "filter (\<lambda>s. prefix reference (cs_id s)) states")
      case Nil2: Nil
      then show ?thesis using no_name
        by (simp add: r filter_empty_conv)
    next
      case (Cons s ss)
      then show ?thesis
        using no_name no_id filter_singleton_unique[of "\<lambda>s. prefix reference (cs_id s)" states s] len
        by (cases ss) (simp_all add: r)
    qed
  next
    case (Cons s ss)
    then show ?thesis
      using no_id filter_singleton_unique[of "\<lambda>s. cs_name s = reference" states s] len
      by (cases ss) (simp_all add: resolve_reference_def None)
  qed
qed

theorem resolve_reference_sound_witness:
  "demo_state ''ab'' \<in> {demo_state ''ab'', demo_state ''cd''} \<and> prefix ''a'' (cs_id (demo_state ''ab''))"
proof -
  have "resolve_reference [demo_state ''ab'', demo_state ''cd''] ''a'' = Ok (demo_state ''ab'')"
    by (simp add: resolve_reference_def demo_state_def state_new_def)
  with resolve_reference_sound[of "''a''" "[demo_state ''ab'', demo_state ''cd'']"] show ?thesis
    by (auto simp: demo_state_def state_new_def)
qed

text \<open>The line of \<^verbatim>\<open>/proc/<pid>/stat\<close> for a command name and the fields after it.\<close>

definition stat_line :: "u32 \<Rightarrow> string \<Rightarrow> string list \<Rightarrow> string" where
  "stat_line pid comm fs = show_word pid @ '' ('' @ comm @ '') '' @ join '' '' fs"

lemma set_join: "set (join sep ws) \<subseteq> set sep \<union> \<Union>(set ` set ws)"
  by (induction sep ws rule: join.induct) auto

lemma parse_stat_line:
  assumes "\<forall>w\<in>set fs. w \<noteq> [] \<and> CHR '')'' \<notin> set w \<and> (\<forall>c\<in>set w. \<not> is_whitespace c)"
    and "length fs > 19"
  shows "parse_start_ticks (stat_line pid comm fs) = Some (parse_word (fs ! 19))"
proof -
  have "CHR '')'' \<notin> set (join '' '' fs)"
    using assms(1) set_join[of "'' ''" fs] by auto
  then have "rsplit_once CHR '')'' (stat_line pid comm fs) =
      Some (show_word pid @ '' ('' @ comm, '' '' @ join '' '' fs)"
    by (simp add: rsplit_once_Some_iff stat_line_def)
  moreover have "split_whitespace (join '' '' fs) = fs"
    using assms(1) by (intro split_whitespace_join) auto
  ultimately show ?thesis using assms(2) by (simp add: parse_start_ticks_def)
qed

text \<open>
  for a process with a well-formed \<^verbatim>\<open>stat\<close> line, whatever characters its command name has
  (spaces and parentheses included), a container counts as running exactly when its status is not
  stopped, its recorded start time is not zero and it is the start time of the process that now has
  its process id. A process that reuses the id of a dead container is not taken for it.
\<close>

theorem is_running_iff_same_process:
  assumes "proc_stat (cs_pid s) = Some (stat_line (cs_pid s) comm fs)"
    and "\<forall>w\<in>set fs. w \<noteq> [] \<and> CHR '')'' \<notin> set w \<and> (\<forall>c\<in>set w. \<not> is_whitespace c)"
    and "length fs > 19" and "fs ! 19 = show_word (ticks :: u64)"
  shows "is_running proc_stat s \<longleftrightarrow> cs_status s \<noteq> Stopped \<and> cs_start_ticks s \<noteq> 0 \<and> cs_start_ticks s = ticks"
  using parse_stat_line[OF assms(2,3), of "cs_pid s" comm] assms(1,4) by (auto simp: is_running_def)

theorem is_running_iff_same_process_witness:
  "is_running (\<lambda>_. Some (stat_line 42 ''a) (b'' (replicate 20 (show_word (7 :: u64))))) (demo_state ''x'')
     \<and> \<not> is_running (\<lambda>_. Some (stat_line 42 ''a) (b'' (replicate 20 (show_word (8 :: u64))))) (demo_state ''x'')"
proof -
  have f: "\<forall>w\<in>set (replicate 20 (show_word n)). w \<noteq> [] \<and> CHR '')'' \<notin> set w \<and> (\<forall>c\<in>set w. \<not> is_whitespace c)"
    for n :: u64
  proof -
    have "is_ascii_digit c" if "c \<in> set (show_word n)" for c
      using that by (simp add: show_word_def show_nat_digits)
    moreover have "\<not> is_ascii_digit CHR '')''" by (simp add: is_ascii_digit_def)
    ultimately show ?thesis using digit_not_sep by (auto simp: show_word_def)
  qed
  have p: "cs_pid (demo_state ''x'') = 42" "cs_start_ticks (demo_state ''x'') = 7"
    "cs_status (demo_state ''x'') = Creating" by (simp_all add: demo_state_def state_new_def)
  from is_running_iff_same_process[of "\<lambda>_. Some (stat_line 42 ''a) (b'' (replicate 20 (show_word (7 :: u64))))"
      "demo_state ''x''" "''a) (b''" _ 7] is_running_iff_same_process[of
      "\<lambda>_. Some (stat_line 42 ''a) (b'' (replicate 20 (show_word (8 :: u64))))"
      "demo_state ''x''" "''a) (b''" _ 8] f p
  show ?thesis by simp
qed

section \<open>Cleaning up\<close>

definition file_state :: "(string \<Rightarrow> container_state option) \<Rightarrow> string \<times> dir_file \<Rightarrow> container_state option" where
  "file_state from_json e =
     (case e of
        (n, Regular c) \<Rightarrow> (if extension n = Some ''json'' then from_json c else None)
      | (n, Symlink _) \<Rightarrow> None)"

text \<open>
  A directory as the manager keeps it: no name twice, and every state file is named after the
  container it describes.
\<close>

definition dir_wf :: "(string \<Rightarrow> container_state option) \<Rightarrow> state_dir \<Rightarrow> bool" where
  "dir_wf from_json d \<longleftrightarrow> distinct (map fst d)
     \<and> (\<forall>e\<in>set d. \<forall>s. file_state from_json e = Some s \<longrightarrow> fst e = cs_id s @ ''.json'')"

lemma map_filter_cong:
  "(\<And>x. x \<in> set xs \<Longrightarrow> f x = g x) \<Longrightarrow> List.map_filter f xs = List.map_filter g xs"
  by (induction xs) (auto simp: map_filter_simps split: option.splits)

lemma dir_states_file_state:
  assumes "distinct (map fst d)"
  shows "dir_states from_json d = List.map_filter (file_state from_json) d"
  unfolding dir_states_def
proof (rule map_filter_cong)
  fix e assume e: "e \<in> set d"
  obtain n f where nf: "e = (n, f)" by fastforce
  from assms e have "map_of d n = Some f" by (simp add: nf)
  then show "(case e of (n, _) \<Rightarrow> if extension n = Some ''json''
       then Option.bind (read_file_nofollow d n) from_json else None) = file_state from_json e"
    by (cases f) (simp_all add: nf file_state_def read_file_nofollow_def)
qed

lemma set_map_filter: "set (List.map_filter f xs) = {y. \<exists>x\<in>set xs. f x = Some y}"
  by (induction xs) (auto simp: map_filter_simps split: option.splits)

lemma map_filter_filter:
  "(\<And>x y. x \<in> set xs \<Longrightarrow> f x = Some y \<Longrightarrow> P x \<longleftrightarrow> Q y) \<Longrightarrow>
     List.map_filter f (filter P xs) = filter Q (List.map_filter f xs)"
  by (induction xs) (auto simp: map_filter_simps split: option.splits)

lemma delete_stale_files:
  "delete_stale remove_fails proc_stat ss d = (d', Ok ()) \<Longrightarrow>
     d' = filter (\<lambda>e. \<forall>s\<in>set ss. is_running proc_stat s \<or> fst e \<noteq> cs_id s @ ''.json'') d"
proof (induction ss arbitrary: d)
  case (Cons s ss)
  show ?case
  proof (cases "is_running proc_stat s")
    case False
    with Cons.prems have "delete_stale remove_fails proc_stat ss (dir_remove (cs_id s @ ''.json'') d) = (d', Ok ())"
      by (auto simp: delete_state_def state_file_path_def and_then_def Let_def split: sum.splits if_splits)
    from Cons.IH[OF this] False show ?thesis
      by (auto simp: dir_remove_def split_beta intro: filter_cong)
  qed (use Cons in simp)
qed simp

text \<open>
  cleaning up a directory whose files are named after their containers, when it ends without
  an error, leaves exactly the states of the containers that are running, in their order, and no
  other file is removed.
\<close>

theorem cleanup_stale_exact:
  assumes "dir_wf from_json d"
    and "cleanup_stale from_json readable remove_fails proc_stat d = (d', Ok ())"
  shows "dir_states from_json d' = filter (is_running proc_stat) (dir_states from_json d)
    \<and> (\<forall>e\<in>set d. (\<forall>s. file_state from_json e = Some s \<longrightarrow> is_running proc_stat s) \<longrightarrow> e \<in> set d')"
proof -
  let ?keep = "\<lambda>e. \<forall>s\<in>set (dir_states from_json d). is_running proc_stat s \<or> fst e \<noteq> cs_id s @ ''.json''"
  have dist: "distinct (map fst d)" using assms(1) by (simp add: dir_wf_def)
  from assms(2) have d': "d' = filter ?keep d"
    by (auto simp: cleanup_stale_def list_states_def dest: delete_stale_files split: if_splits)
  have st: "set (dir_states from_json d) = {s. \<exists>e\<in>set d. file_state from_json e = Some s}"
    by (simp add: dir_states_file_state[OF dist] set_map_filter)
  have same: "e' = e" if "e \<in> set d" "e' \<in> set d" "fst e = fst e'" for e e'
    using that dist by (auto simp: distinct_map inj_on_def)
  have keep: "?keep e \<longleftrightarrow> (\<forall>s. file_state from_json e = Some s \<longrightarrow> is_running proc_stat s)"
    if e: "e \<in> set d" and json: "\<exists>s. file_state from_json e = Some s" for e
  proof -
    from json obtain s where s: "file_state from_json e = Some s" by blast
    then have n: "fst e = cs_id s @ ''.json''" using assms(1) e by (simp add: dir_wf_def)
    have "s' = s" if "s' \<in> set (dir_states from_json d)" "fst e = cs_id s' @ ''.json''" for s'
    proof -
      from that(1) st obtain e' where e': "e' \<in> set d" "file_state from_json e' = Some s'" by blast
      then have "fst e' = cs_id s' @ ''.json''" using assms(1) by (simp add: dir_wf_def)
      with same[OF e e'(1)] that(2) e'(2) s show ?thesis by simp
    qed
    then show ?thesis using s n e st by auto
  qed
  have "dir_states from_json d' = List.map_filter (file_state from_json) (filter ?keep d)"
    using dist by (simp add: dir_states_file_state d' distinct_map_filter)
  also have "\<dots> = filter (is_running proc_stat) (List.map_filter (file_state from_json) d)"
    by (rule map_filter_filter) (use keep in auto)
  finally have "dir_states from_json d' = filter (is_running proc_stat) (dir_states from_json d)"
    by (simp add: dir_states_file_state[OF dist])
  moreover have "e \<in> set d'"
    if e: "e \<in> set d" "\<forall>s. file_state from_json e = Some s \<longrightarrow> is_running proc_stat s" for e
  proof (cases "\<exists>s. file_state from_json e = Some s")
    case False
    have "fst e \<noteq> cs_id s @ ''.json''" if "s \<in> set (dir_states from_json d)" for s
    proof
      assume n: "fst e = cs_id s @ ''.json''"
      from that st obtain e' where e': "e' \<in> set d" "file_state from_json e' = Some s" by blast
      then have "fst e' = cs_id s @ ''.json''" using assms(1) by (simp add: dir_wf_def)
      with same[OF e(1) e'(1)] n e'(2) False show False by simp
    qed
    then show ?thesis using e(1) by (simp add: d')
  qed (use keep e d' in auto)
  ultimately show ?thesis by blast
qed

theorem cleanup_stale_exact_witness:
  "filter (is_running (\<lambda>_. None)) (dir_states (\<lambda>j. if j = ''x'' then Some (demo_state ''a1'') else None)
     [(''a1.json'', Regular ''x'')]) = []"
proof -
  let ?from = "\<lambda>j. if j = ''x'' then Some (demo_state ''a1'') else None"
  let ?d = "[(''a1.json'', Regular ''x'')]"
  have ext: "extension ''a1.json'' = Some ''json''" using extension_json[of "''a1''"] by simp
  have id: "cs_id (demo_state ''a1'') = ''a1''" by (simp add: demo_state_def state_new_def)
  have wf: "dir_wf ?from ?d" by (simp add: dir_wf_def file_state_def ext id)
  have st: "dir_states ?from ?d = [demo_state ''a1'']"
    by (simp add: dir_states_file_state file_state_def ext map_filter_simps)
  have "cleanup_stale ?from True (\<lambda>_. False) (\<lambda>_. None) ?d = ([], Ok ())"
    by (simp add: cleanup_stale_def list_states_def st is_running_def delete_state_def state_file_path_def id
        validate_container_id_def valid_id_char_def string_eval dir_remove_def)
  from cleanup_stale_exact[OF wf this] show ?thesis by (simp add: dir_states_def map_filter_simps)
qed

end
