(* ===== verification/Service_Wait.thy ===== *)
theory Service_Wait
  imports Topology_Types Container_State
begin

text \<open>
  The waits after the start of a service (\<^verbatim>\<open>src/src/topology/reconcile.rs\<close>).

  Poll number \<open>i\<close> sees what the reference of the container resolves to (\<open>resolve_at i\<close>), the process
  table (\<open>stat_at i\<close>) and, for a health check, what the probe run in the container returns. A sleep
  lasts at least as long as asked for, so when poll \<open>i\<close> looks at the clock the time since the start is
  \<open>i\<close> sleeps and a remainder \<open>lag i\<close> that depends on the system. With that the loops end, whatever
  the polls see.
\<close>

section \<open>Model\<close>

function wait_for_started ::
  "(nat \<Rightarrow> container_state result) \<Rightarrow> (nat \<Rightarrow> u32 \<Rightarrow> string option) \<Rightarrow> (nat \<Rightarrow> nat) \<Rightarrow> nat \<Rightarrow> nat \<Rightarrow> u32 result" where
  "wait_for_started resolve_at stat_at lag timeout i =
     (case resolve_at i of
        Inr state \<Rightarrow>
          (if is_running (stat_at i) state then Ok (cs_pid state)
           else if 100 * i + lag i < timeout then wait_for_started resolve_at stat_at lag timeout (Suc i)
           else Err (ExecError ''Service {} did not enter running state within {:?}''))
      | Inl e \<Rightarrow>
          (if 100 * i + lag i < timeout then wait_for_started resolve_at stat_at lag timeout (Suc i)
           else Err (ExecError ''Service {} failed to register state within {:?}: {}'')))"
  by pat_completeness auto
termination
  by (relation "measure (\<lambda>(_, _, _, timeout, i). timeout - 100 * i)") auto

declare wait_for_started.simps [simp del]

definition safe_health_check_chars :: string where
  "safe_health_check_chars =
     ''abcdefghijklmnopqrstuvwxyzABCDEFGHIJKLMNOPQRSTUVWXYZ0123456789 -_./:@=?''"

definition validate_health_check_command :: "string \<Rightarrow> unit result" where
  "validate_health_check_command command =
     (if command = [] then Err (ConfigError ''Health check command must not be empty'')
      else for_each (\<lambda>ch. reject_if (ch \<notin> set safe_health_check_chars)
        (ConfigError ''Health check command contains unsafe character {} (code point U+{:04X}): {}'')) command)"

text \<open>
  The probe: the command is run by the shell in the namespaces of the container's process. How that
  run ends is the argument \<open>run\<close>.
\<close>

definition health_check_passes ::
  "(container_state \<Rightarrow> string list \<Rightarrow> bool result) \<Rightarrow> container_state \<Rightarrow> string \<Rightarrow> bool result" where
  "health_check_passes run state command =
     and_then (validate_health_check_command command) (\<lambda>_. run state [''/bin/sh'', ''-c'', command])"

definition health_timeout_secs :: "service_def \<Rightarrow> u64" where
  "health_timeout_secs svc = max (saturating_add (saturating_mul (svc_health_interval svc) 3) 10) 20"

function wait_for_healthy_loop ::
  "(nat \<Rightarrow> container_state result) \<Rightarrow> (nat \<Rightarrow> u32 \<Rightarrow> string option) \<Rightarrow>
   (nat \<Rightarrow> container_state \<Rightarrow> string list \<Rightarrow> bool result) \<Rightarrow> (nat \<Rightarrow> nat) \<Rightarrow> string \<Rightarrow> nat \<Rightarrow> nat \<Rightarrow> unit result" where
  "wait_for_healthy_loop resolve_at stat_at run_at lag command timeout i =
     (case resolve_at i of
        Inl e \<Rightarrow> Err e
      | Inr state \<Rightarrow>
          (if \<not> is_running (stat_at i) state
           then Err (ExecError ''Service {} exited before becoming healthy'')
           else
             (case health_check_passes (run_at i) state command of
                Inl e \<Rightarrow> Err e
              | Inr passed \<Rightarrow>
                  (if passed then Ok ()
                   else if timeout \<le> 1000 * i + lag i
                   then Err (ExecError ''Service {} did not become healthy within {:?}'')
                   else wait_for_healthy_loop resolve_at stat_at run_at lag command timeout (Suc i)))))"
  by pat_completeness auto
termination
  by (relation "measure (\<lambda>(_, _, _, _, _, timeout, i). timeout - 1000 * i)") auto

declare wait_for_healthy_loop.simps [simp del]

definition wait_for_healthy ::
  "(nat \<Rightarrow> container_state result) \<Rightarrow> (nat \<Rightarrow> u32 \<Rightarrow> string option) \<Rightarrow>
   (nat \<Rightarrow> container_state \<Rightarrow> string list \<Rightarrow> bool result) \<Rightarrow> (nat \<Rightarrow> nat) \<Rightarrow> service_def \<Rightarrow> unit result" where
  "wait_for_healthy resolve_at stat_at run_at lag svc =
     (case svc_health_check svc of
        None \<Rightarrow> Err (ConfigError ''Service {} must define health_check to satisfy healthy dependencies'')
      | Some health_cmd \<Rightarrow>
          wait_for_healthy_loop resolve_at stat_at run_at lag health_cmd (unat (health_timeout_secs svc) * 1000) 0)"

section \<open>Lemmas\<close>

text \<open>How the wait for a start ends: with the first poll that sees the process, or past the timeout.\<close>

lemma wait_for_started_spec:
  "case wait_for_started resolve_at stat_at lag timeout i of
     Inr pid \<Rightarrow> \<exists>j\<ge>i. \<exists>s. resolve_at j = Ok s \<and> is_running (stat_at j) s \<and> cs_pid s = pid
       \<and> (\<forall>k. i \<le> k \<and> k < j \<longrightarrow> 100 * k + lag k < timeout)
   | Inl e \<Rightarrow> \<exists>j\<ge>i. timeout \<le> 100 * j + lag j
       \<and> (\<forall>k s. i \<le> k \<and> k \<le> j \<and> resolve_at k = Ok s \<longrightarrow> \<not> is_running (stat_at k) s)"
proof (induction resolve_at stat_at lag timeout i rule: wait_for_started.induct)
  case (1 resolve_at stat_at lag timeout i)
  let ?seen = "\<exists>s. resolve_at i = Ok s \<and> is_running (stat_at i) s"
  show ?case
  proof (cases ?seen)
    case True
    then show ?thesis by (auto simp: wait_for_started.simps[of resolve_at stat_at lag timeout i] intro!: exI[of _ i])
  next
    case unseen: False
    show ?thesis
    proof (cases "100 * i + lag i < timeout")
      case True
      have step: "wait_for_started resolve_at stat_at lag timeout i = wait_for_started resolve_at stat_at lag timeout (Suc i)"
        using True unseen by (auto simp: wait_for_started.simps[of resolve_at stat_at lag timeout i] split: sum.splits)
      have IH: "case wait_for_started resolve_at stat_at lag timeout (Suc i) of
           Inr pid \<Rightarrow> \<exists>j\<ge>Suc i. \<exists>s. resolve_at j = Ok s \<and> is_running (stat_at j) s \<and> cs_pid s = pid
             \<and> (\<forall>k. Suc i \<le> k \<and> k < j \<longrightarrow> 100 * k + lag k < timeout)
         | Inl e \<Rightarrow> \<exists>j\<ge>Suc i. timeout \<le> 100 * j + lag j
             \<and> (\<forall>k s. Suc i \<le> k \<and> k \<le> j \<and> resolve_at k = Ok s \<longrightarrow> \<not> is_running (stat_at k) s)"
        using 1 True unseen by (cases "resolve_at i") auto
      have split_i: "(\<forall>k. i \<le> k \<and> P k \<longrightarrow> Q k)" if "\<forall>k. Suc i \<le> k \<and> P k \<longrightarrow> Q k" "Q i" for P Q :: "nat \<Rightarrow> bool"
        using that by (metis le_antisym not_less_eq_eq)
      show ?thesis
      proof (cases "wait_for_started resolve_at stat_at lag timeout (Suc i)")
        case (Inr pid)
        with IH obtain j s where "j \<ge> Suc i" "resolve_at j = Ok s" "is_running (stat_at j) s" "cs_pid s = pid"
          "\<forall>k. Suc i \<le> k \<and> k < j \<longrightarrow> 100 * k + lag k < timeout" by auto
        then show ?thesis using True split_i[of "\<lambda>k. k < j" "\<lambda>k. 100 * k + lag k < timeout"]
          by (auto simp: step Inr intro!: exI[of _ j])
      next
        case (Inl e)
        with IH obtain j where j: "j \<ge> Suc i" "timeout \<le> 100 * j + lag j"
          "\<forall>k. Suc i \<le> k \<and> k \<le> j \<longrightarrow> (\<forall>s. resolve_at k = Ok s \<longrightarrow> \<not> is_running (stat_at k) s)" by auto
        have "\<forall>k. i \<le> k \<and> k \<le> j \<longrightarrow> (\<forall>s. resolve_at k = Ok s \<longrightarrow> \<not> is_running (stat_at k) s)"
          by (rule split_i[OF j(3)]) (use unseen in auto)
        with j show ?thesis by (auto simp: step Inl intro!: exI[of _ j])
      qed
    next
      case False
      have "\<exists>e. wait_for_started resolve_at stat_at lag timeout i = Err e"
        using False unseen by (auto simp: wait_for_started.simps[of resolve_at stat_at lag timeout i] split: sum.splits)
      with False unseen show ?thesis by (auto intro!: exI[of _ i] dest: le_antisym)
    qed
  qed
qed

lemma wait_for_healthy_loop_Ok:
  "wait_for_healthy_loop resolve_at stat_at run_at lag command timeout i = Ok () \<Longrightarrow>
     \<exists>j\<ge>i. \<exists>s. resolve_at j = Ok s \<and> is_running (stat_at j) s
       \<and> health_check_passes (run_at j) s command = Ok True"
proof (induction resolve_at stat_at run_at lag command timeout i rule: wait_for_healthy_loop.induct)
  case (1 resolve_at stat_at run_at lag command timeout i)
  from "1.prems" obtain s where s: "resolve_at i = Ok s" "is_running (stat_at i) s"
    by (subst (asm) wait_for_healthy_loop.simps) (auto split: sum.splits if_splits)
  show ?case
  proof (cases "health_check_passes (run_at i) s command")
    case (Inr passed)
    show ?thesis
    proof (cases passed)
      case False
      with "1.prems" s Inr have "\<not> timeout \<le> 1000 * i + lag i"
        "wait_for_healthy_loop resolve_at stat_at run_at lag command timeout (Suc i) = Ok ()"
        by (auto simp: wait_for_healthy_loop.simps[of resolve_at stat_at run_at lag command timeout i] split: if_splits)
      with "1.IH"[OF s(1) _ Inr] s(2) False show ?thesis by (meson Suc_leD)
    qed (use s Inr in auto)
  next
    case (Inl e)
    with "1.prems" s show ?thesis
      by (simp add: wait_for_healthy_loop.simps[of resolve_at stat_at run_at lag command timeout i])
  qed
qed

lemma wait_for_healthy_Ok:
  assumes "wait_for_healthy resolve_at stat_at run_at lag svc = Ok ()"
  obtains j s command where "svc_health_check svc = Some command" "resolve_at j = Ok s"
    "is_running (stat_at j) s" "health_check_passes (run_at j) s command = Ok True"
proof -
  from assms obtain command where c: "svc_health_check svc = Some command"
    "wait_for_healthy_loop resolve_at stat_at run_at lag command (unat (health_timeout_secs svc) * 1000) 0 = Ok ()"
    by (auto simp: wait_for_healthy_def split: option.splits)
  from wait_for_healthy_loop_Ok[OF c(2)] c(1) that show ?thesis by blast
qed

lemma health_timeout_ge: "20 \<le> health_timeout_secs svc"
  by (simp add: health_timeout_secs_def)

section \<open>Properties\<close>

text \<open>
  C28: the wait for a service to start ends, whatever the polls see. It returns a process id exactly
  from a poll that resolved the name to a container whose process was running, with every poll
  before it within the timeout; and it fails only once the timeout has passed without any poll
  having seen the process running.
\<close>

theorem wait_for_started_outcome:
  "case wait_for_started resolve_at stat_at lag timeout 0 of
     Inr pid \<Rightarrow> \<exists>j s. resolve_at j = Ok s \<and> is_running (stat_at j) s \<and> cs_pid s = pid
       \<and> (\<forall>k<j. 100 * k + lag k < timeout)
   | Inl e \<Rightarrow> \<exists>j. timeout \<le> 100 * j + lag j
       \<and> (\<forall>k\<le>j. \<forall>s. resolve_at k = Ok s \<longrightarrow> \<not> is_running (stat_at k) s)"
  using wait_for_started_spec[where resolve_at = resolve_at and stat_at = stat_at and lag = lag
      and timeout = timeout and i = 0]
  by (cases "wait_for_started resolve_at stat_at lag timeout 0") auto

text \<open>A container that the second poll finds running, with its stat line.\<close>

theorem wait_for_started_outcome_witness:
  "wait_for_started (\<lambda>i. if i = 0 then Err (ContainerNotFound ''t-db'') else Ok (demo_state ''t-db''))
      (\<lambda>_ _. Some (stat_line 42 ''db'' (replicate 20 ''7''))) (\<lambda>_. 3) 10000 0 = Ok 42
   \<and> (\<exists>j :: nat. \<forall>k<j. 100 * k + 3 < (10000 :: nat))"
proof -
  let ?resolve = "\<lambda>i :: nat. if i = 0 then Err (ContainerNotFound ''t-db'') else Ok (demo_state ''t-db'')"
  let ?stat = "\<lambda>_ _. Some (stat_line 42 ''db'' (replicate 20 ''7''))"
  have "parse_start_ticks (stat_line 42 ''db'' (replicate 20 ''7'')) = Some (parse_word (replicate 20 ''7'' ! 19))"
    by (rule parse_stat_line) (simp_all add: is_whitespace_def)
  moreover have "parse_word ''7'' = Some (7 :: u64)" by (simp add: string_eval)
  ultimately have "is_running (?stat i) (demo_state ''t-db'')" for i :: nat
    by (simp add: is_running_def demo_state_def state_new_def)
  then have run: "wait_for_started ?resolve ?stat (\<lambda>_. 3) 10000 0 = Ok 42"
    by (simp add: wait_for_started.simps demo_state_def state_new_def)
  from wait_for_started_outcome[where resolve_at = ?resolve and stat_at = ?stat and lag = "\<lambda>_. 3"
      and timeout = 10000] run show ?thesis by auto
qed

text \<open>A health command that is accepted has no character that is special to the shell.\<close>

definition shell_special_chars :: string where
  "shell_special_chars = ''`$;&|<>(){}[]*!~#%^+,'' @ [CHR 0x22, CHR 0x27, CHR 0x5C, CHR 0x0A]"

lemma health_command_no_shell_syntax:
  assumes "validate_health_check_command c = Ok ()"
  shows "c \<noteq> [] \<and> set c \<inter> set shell_special_chars = {}"
proof -
  have "set safe_health_check_chars \<inter> set shell_special_chars = {}"
    by (simp add: safe_health_check_chars_def shell_special_chars_def)
  moreover have "c \<noteq> []" "set c \<subseteq> set safe_health_check_chars"
    using assms by (auto simp: validate_health_check_command_def result_simps split: if_splits)
  ultimately show ?thesis by blast
qed

end
