(* ===== verification/Container_Lifecycle.thy ===== *)
theory Container_Lifecycle
  imports Container_State
begin

text \<open>
  Stopping, signalling and removing a container, and the names of signals
  (\<^verbatim>\<open>src/src/container/lifecycle.rs\<close>).

  The host is an argument: the effective user, what \<^verbatim>\<open>/proc/<pid>/stat\<close> says at each look (look 0 is
  the one before any signal, look \<open>k + 1\<close> the \<open>k\<close>-th poll of the wait), and the error of each \<^verbatim>\<open>kill\<close>
  call. The signals that were delivered are part of the result, in their order.
\<close>

section \<open>Model\<close>

datatype signal =
    SIGABRT | SIGALRM | SIGBUS | SIGCHLD | SIGCONT | SIGFPE | SIGHUP | SIGILL | SIGINT | SIGIO
  | SIGKILL | SIGPIPE | SIGPROF | SIGPWR | SIGQUIT | SIGSEGV | SIGSTKFLT | SIGSTOP | SIGSYS | SIGTERM
  | SIGTRAP | SIGTSTP | SIGTTIN | SIGTTOU | SIGURG | SIGUSR1 | SIGUSR2 | SIGVTALRM | SIGWINCH
  | SIGXCPU | SIGXFSZ

datatype errno = ESRCH | EPERM | EINVAL

record host =
  effective_uid :: u32
  look :: "nat \<Rightarrow> u32 \<Rightarrow> string option"
  kill_errno :: "int \<Rightarrow> signal option \<Rightarrow> errno option"

definition ensure_container_access :: "u32 \<Rightarrow> container_state \<Rightarrow> unit result" where
  "ensure_container_access current_uid state =
     (if current_uid = 0 \<or> current_uid = cs_creator_uid state then Ok ()
      else Err (PermissionDenied ''container {} owned by UID {}, caller is UID {}''))"

text \<open>The process id as the signed number that \<^verbatim>\<open>kill\<close> takes.\<close>

definition kill_pid :: "container_state \<Rightarrow> int" where
  "kill_pid state = sint (cs_pid state)"

text \<open>The wait for the process to exit: a poll every 100 milliseconds until the deadline.\<close>

function stop_wait :: "(nat \<Rightarrow> bool) \<Rightarrow> nat \<Rightarrow> nat \<Rightarrow> bool" where
  "stop_wait running deadline polls =
     (if 100 * polls < deadline then
        (if \<not> running polls then True else stop_wait running deadline (polls + 1))
      else False)"
  by pat_completeness auto
termination
  by (relation "measure (\<lambda>(_, deadline, polls). deadline - 100 * polls)") auto

declare stop_wait.simps [simp del]

definition stop :: "host \<Rightarrow> container_state \<Rightarrow> u64 \<Rightarrow> (int \<times> signal) list \<times> unit result" where
  "stop h state timeout_secs =
     (case ensure_container_access (effective_uid h) state of
        Inl e \<Rightarrow> ([], Err e)
      | Inr _ \<Rightarrow>
          (if \<not> is_running (look h 0) state then ([], Ok ())
           else
             (let pid = kill_pid state in
              if kill_errno h pid None = Some ESRCH then ([], Ok ())
              else
                (case kill_errno h pid (Some SIGTERM) of
                   Some ESRCH \<Rightarrow> ([], Ok ())
                 | Some e \<Rightarrow> ([], Err (ExecError ''Failed to send SIGTERM: {}''))
                 | None \<Rightarrow>
                     (if stop_wait (\<lambda>k. is_running (look h (k + 1)) state) (unat timeout_secs * 1000) 0
                      then ([(pid, SIGTERM)], Ok ())
                      else
                        (case kill_errno h pid (Some SIGKILL) of
                           Some ESRCH \<Rightarrow> ([(pid, SIGTERM)], Ok ())
                         | Some e \<Rightarrow> ([(pid, SIGTERM)], Err (ExecError ''Failed to send SIGKILL: {}''))
                         | None \<Rightarrow> ([(pid, SIGTERM), (pid, SIGKILL)], Ok ())))))))"

definition kill_container :: "host \<Rightarrow> container_state \<Rightarrow> signal \<Rightarrow> (int \<times> signal) list \<times> unit result" where
  "kill_container h state sig =
     (case ensure_container_access (effective_uid h) state of
        Inl e \<Rightarrow> ([], Err e)
      | Inr _ \<Rightarrow>
          (if \<not> is_running (look h 0) state
           then ([], Err (ContainerNotRunning ''Container {} is not running''))
           else
             (case kill_errno h (kill_pid state) (Some sig) of
                Some e \<Rightarrow> ([], Err (ExecError ''Failed to send signal {:?}: {}''))
              | None \<Rightarrow> ([(kill_pid state, sig)], Ok ()))))"

text \<open>
  Removal. \<open>now\<close> is the process table at the first check, before the stop looks again; \<open>path_exists\<close>
  says which of the two directories is there. Errors of removing a directory are only logged, so the
  directories it tries to remove are part of the result without an answer.
\<close>

definition remove ::
  "host \<Rightarrow> (u32 \<Rightarrow> string option) \<Rightarrow> (string \<Rightarrow> bool) \<Rightarrow> (string \<Rightarrow> bool) \<Rightarrow> container_state \<Rightarrow> bool \<Rightarrow>
   state_dir \<Rightarrow> (int \<times> signal) list \<times> string list \<times> state_dir \<times> unit result" where
  "remove h now path_exists remove_fails state force d =
     (case ensure_container_access (effective_uid h) state of
        Inl e \<Rightarrow> ([], [], d, Err e)
      | Inr _ \<Rightarrow>
          (case (if is_running now state then
                   (if force then stop h state 5
                    else ([], Err (ExecError ''Container {} is still running. Stop it first or use --force'')))
                 else ([], Ok ())) of
             (sent, Inl e) \<Rightarrow> (sent, [], d, Err e)
           | (sent, Inr _) \<Rightarrow>
               (let cgroup = (case cs_cgroup_path state of None \<Rightarrow> [] | Some p \<Rightarrow> if path_exists p then [p] else []);
                    overlay = (case rootfs_overlay_dir_path (cs_id state) of
                                 Inl _ \<Rightarrow> [] | Inr p \<Rightarrow> if path_exists p then [p] else [])
                in case delete_state remove_fails (cs_id state) d of
                     (d', r) \<Rightarrow> (sent, cgroup @ overlay, d', r))))"

section \<open>Names of signals\<close>

text \<open>Rust's \<^verbatim>\<open>parse::<i32>()\<close>: an optional sign and digits, within the range.\<close>

definition parse_i32 :: "string \<Rightarrow> int option" where
  "parse_i32 s =
     (case strip_prefix ''-'' s of
        Some ds \<Rightarrow>
          (if ds \<noteq> [] \<and> list_all is_ascii_digit ds \<and> digits_val ds \<le> 2 ^ 31
           then Some (- int (digits_val ds)) else None)
      | None \<Rightarrow> map_option int (parse_uint 31 s))"

definition to_ascii_uppercase :: "char \<Rightarrow> char" where
  "to_ascii_uppercase c =
     (if 97 \<le> (of_char c :: nat) \<and> (of_char c :: nat) \<le> 122 then char_of ((of_char c :: nat) - 32) else c)"

definition signal_names :: "(string \<times> signal) list" where
  "signal_names =
     [(''ABRT'', SIGABRT), (''IOT'', SIGABRT), (''ALRM'', SIGALRM), (''BUS'', SIGBUS),
      (''CHLD'', SIGCHLD), (''CLD'', SIGCHLD), (''CONT'', SIGCONT), (''FPE'', SIGFPE),
      (''HUP'', SIGHUP), (''ILL'', SIGILL), (''INT'', SIGINT), (''IO'', SIGIO), (''POLL'', SIGIO),
      (''KILL'', SIGKILL), (''PIPE'', SIGPIPE), (''PROF'', SIGPROF), (''PWR'', SIGPWR),
      (''QUIT'', SIGQUIT), (''SEGV'', SIGSEGV), (''STKFLT'', SIGSTKFLT), (''STOP'', SIGSTOP),
      (''SYS'', SIGSYS), (''TERM'', SIGTERM), (''TRAP'', SIGTRAP), (''TSTP'', SIGTSTP),
      (''TTIN'', SIGTTIN), (''TTOU'', SIGTTOU), (''URG'', SIGURG), (''USR1'', SIGUSR1),
      (''USR2'', SIGUSR2), (''VTALRM'', SIGVTALRM), (''WINCH'', SIGWINCH), (''XCPU'', SIGXCPU),
      (''XFSZ'', SIGXFSZ)]"

text \<open>\<open>try_from\<close> is the conversion of a number to a signal, of the package \<^verbatim>\<open>nix\<close>.\<close>

definition parse_signal :: "(int \<Rightarrow> signal option) \<Rightarrow> string \<Rightarrow> signal result" where
  "parse_signal try_from s =
     (case parse_i32 s of
        Some num \<Rightarrow> ok_or (try_from num) (ConfigError ''Invalid signal number: {}'')
      | None \<Rightarrow>
          (let upper = map to_ascii_uppercase s;
               normalized = (case strip_prefix ''SIG'' upper of None \<Rightarrow> upper | Some r \<Rightarrow> r)
           in ok_or (map_of signal_names normalized) (ConfigError ''Unknown signal: {}'')))"

section \<open>Lemmas\<close>

lemma stop_wait_False:
  "\<not> stop_wait running deadline polls \<longleftrightarrow> (\<forall>k\<ge>polls. 100 * k < deadline \<longrightarrow> running k)"
proof (induction running deadline polls rule: stop_wait.induct)
  case (1 running deadline polls)
  show ?case
  proof (cases "100 * polls < deadline \<and> running polls")
    case True
    with 1 have "\<not> stop_wait running deadline polls \<longleftrightarrow> (\<forall>k\<ge>Suc polls. 100 * k < deadline \<longrightarrow> running k)"
      by (simp add: stop_wait.simps[of running deadline polls])
    also have "\<dots> \<longleftrightarrow> (\<forall>k\<ge>polls. 100 * k < deadline \<longrightarrow> running k)"
      using True by (metis Suc_leD le_antisym not_less_eq_eq)
    finally show ?thesis .
  next
    case False
    then consider "deadline \<le> 100 * polls" | "100 * polls < deadline" "\<not> running polls" by linarith
    then show ?thesis
      by cases (auto simp: stop_wait.simps[of running deadline polls] not_less)
  qed
qed

lemma stop_wait_True:
  "stop_wait running deadline polls \<longleftrightarrow> (\<exists>k\<ge>polls. 100 * k < deadline \<and> \<not> running k)"
  using stop_wait_False[of running deadline polls] by blast

lemma access_Ok: "ensure_container_access u s = Ok () \<longleftrightarrow> u = 0 \<or> u = cs_creator_uid s"
  by (simp add: ensure_container_access_def)

text \<open>The results of a stop, one case per way through the code.\<close>

lemma stop_cases:
  obtains (denied) "effective_uid h \<noteq> 0" "effective_uid h \<noteq> cs_creator_uid s"
      "\<exists>e. stop h s t = ([], Err e)"
  | (gone) "effective_uid h = 0 \<or> effective_uid h = cs_creator_uid s"
      "\<not> is_running (look h 0) s \<or> kill_errno h (kill_pid s) None = Some ESRCH
        \<or> kill_errno h (kill_pid s) (Some SIGTERM) = Some ESRCH" "stop h s t = ([], Ok ())"
  | (refused) "effective_uid h = 0 \<or> effective_uid h = cs_creator_uid s"
      "kill_errno h (kill_pid s) (Some SIGTERM) \<noteq> None" "\<exists>e. stop h s t = ([], Err e)"
  | (graceful) "effective_uid h = 0 \<or> effective_uid h = cs_creator_uid s" "is_running (look h 0) s"
      "\<exists>k. 100 * k < unat t * 1000 \<and> \<not> is_running (look h (k + 1)) s"
      "stop h s t = ([(kill_pid s, SIGTERM)], Ok ())"
  | (exited) "effective_uid h = 0 \<or> effective_uid h = cs_creator_uid s" "is_running (look h 0) s"
      "kill_errno h (kill_pid s) (Some SIGKILL) = Some ESRCH"
      "stop h s t = ([(kill_pid s, SIGTERM)], Ok ())"
  | (unkillable) "effective_uid h = 0 \<or> effective_uid h = cs_creator_uid s" "is_running (look h 0) s"
      "\<exists>e. stop h s t = ([(kill_pid s, SIGTERM)], Err e)"
  | (killed) "effective_uid h = 0 \<or> effective_uid h = cs_creator_uid s" "is_running (look h 0) s"
      "\<forall>k. 100 * k < unat t * 1000 \<longrightarrow> is_running (look h (k + 1)) s"
      "stop h s t = ([(kill_pid s, SIGTERM), (kill_pid s, SIGKILL)], Ok ())"
proof (cases "effective_uid h = 0 \<or> effective_uid h = cs_creator_uid s")
  case False
  with denied show ?thesis by (simp add: stop_def ensure_container_access_def)
next
  case acc: True
  then have a: "ensure_container_access (effective_uid h) s = Ok ()" by (simp add: access_Ok)
  show ?thesis
  proof (cases "is_running (look h 0) s \<and> kill_errno h (kill_pid s) None \<noteq> Some ESRCH")
    case False
    with acc a gone show ?thesis by (auto simp: stop_def Let_def)
  next
    case run: True
    show ?thesis
    proof (cases "kill_errno h (kill_pid s) (Some SIGTERM)")
      case (Some e)
      with acc a run gone refused show ?thesis by (cases e) (auto simp: stop_def Let_def)
    next
      case None
      show ?thesis
      proof (cases "stop_wait (\<lambda>k. is_running (look h (k + 1)) s) (unat t * 1000) 0")
        case True
        with None acc a run graceful show ?thesis by (auto simp: stop_def Let_def stop_wait_True)
      next
        case wait: False
        then have w: "\<forall>k. 100 * k < unat t * 1000 \<longrightarrow> is_running (look h (k + 1)) s"
          by (auto simp: stop_wait_False)
        show ?thesis
        proof (cases "kill_errno h (kill_pid s) (Some SIGKILL)")
          case None2: None
          with None wait w acc a run killed show ?thesis by (simp add: stop_def Let_def)
        next
          case (Some e)
          with None wait acc a run exited unkillable show ?thesis by (cases e) (auto simp: stop_def Let_def)
        qed
      qed
    qed
  qed
qed

section \<open>Properties\<close>

text \<open>
  C23: stopping escalates. A signal is sent only by root or the container's creator, only while the
  container's own process was seen running, only to its process, SIGTERM first and SIGKILL only
  after every poll until the deadline found the process running; and a stop that succeeds has seen
  the process gone or delivered SIGKILL.
\<close>

theorem stop_escalates:
  assumes "stop h state timeout = (sent, r)"
  shows "(sent \<noteq> [] \<or> r = Ok () \<longrightarrow> effective_uid h = 0 \<or> effective_uid h = cs_creator_uid state)
    \<and> (sent \<noteq> [] \<longrightarrow> is_running (look h 0) state)
    \<and> prefix sent [(kill_pid state, SIGTERM), (kill_pid state, SIGKILL)]
    \<and> ((kill_pid state, SIGKILL) \<in> set sent \<longrightarrow>
         (\<forall>k. 100 * k < unat timeout * 1000 \<longrightarrow> is_running (look h (k + 1)) state))
    \<and> (r = Ok () \<longrightarrow> (\<exists>k. \<not> is_running (look h k) state)
         \<or> (\<exists>sig. kill_errno h (kill_pid state) sig = Some ESRCH)
         \<or> (kill_pid state, SIGKILL) \<in> set sent)"
  by (cases rule: stop_cases[of h state timeout]) (use assms in auto)

theorem stop_escalates_witness:
  "\<exists>sent r. stop \<lparr>effective_uid = 0, look = (\<lambda>_ _. None), kill_errno = (\<lambda>_ _. None)\<rparr> (demo_state ''a'') 1 = (sent, r)
     \<and> prefix sent [(kill_pid (demo_state ''a''), SIGTERM), (kill_pid (demo_state ''a''), SIGKILL)]"
proof -
  let ?h = "\<lparr>effective_uid = 0, look = (\<lambda>_ _. None), kill_errno = (\<lambda>_ _. None)\<rparr>"
  have "stop ?h (demo_state ''a'') 1 = ([], Ok ())"
    by (simp add: stop_def ensure_container_access_def is_running_def)
  from stop_escalates[OF this] this show ?thesis by blast
qed

text \<open>
  removal. The state directory changes only for root or the creator, and only when the
  container was not running or the removal was forced and the stop succeeded; a removal that fails
  leaves the directory as it was, and one that succeeds takes away the container's state file and
  nothing else.
\<close>

theorem remove_guarded:
  assumes "remove h now path_exists remove_fails state force d = (sent, trees, d', r)"
  shows "(d' \<noteq> d \<or> trees \<noteq> [] \<or> r = Ok () \<longrightarrow>
           (effective_uid h = 0 \<or> effective_uid h = cs_creator_uid state)
           \<and> (is_running now state \<longrightarrow> force \<and> snd (stop h state 5) = Ok ()))
    \<and> (r \<noteq> Ok () \<longrightarrow> d' = d)
    \<and> (r = Ok () \<longrightarrow> map_of d' = (map_of d)(cs_id state @ ''.json'' := None))"
proof (cases "ensure_container_access (effective_uid h) state")
  case (Inl e)
  with assms show ?thesis by (auto simp: remove_def)
next
  case (Inr u)
  then have acc: "effective_uid h = 0 \<or> effective_uid h = cs_creator_uid state" using access_Ok by simp
  define st where "st = (if is_running now state then
       (if force then stop h state 5
        else ([], Err (ExecError ''Container {} is still running. Stop it first or use --force'')))
     else ([], Ok ()))"
  obtain sent0 r0 where st0: "st = (sent0, r0)" by fastforce
  have del: "(snd (delete_state remove_fails i d) \<noteq> Ok () \<longrightarrow> fst (delete_state remove_fails i d) = d)
      \<and> (snd (delete_state remove_fails i d) = Ok () \<longrightarrow>
           map_of (fst (delete_state remove_fails i d)) = (map_of d)(i @ ''.json'' := None))" for i
    by (auto simp: delete_state_def state_file_path_Ok map_of_dir_remove split: sum.splits)
  show ?thesis
  proof (cases r0)
    case (Inl e)
    with assms Inr st0 show ?thesis by (auto simp: remove_def st_def[symmetric])
  next
    case (Inr u0)
    then have stopped: "is_running now state \<longrightarrow> force \<and> snd (stop h state 5) = Ok ()"
      using st0 by (auto simp: st_def split: if_splits)
    have "(d', r) = delete_state remove_fails (cs_id state) d"
      using assms \<open>ensure_container_access (effective_uid h) state = Inr u\<close> st0 Inr
      by (auto simp: remove_def st_def[symmetric] Let_def split: prod.splits)
    with acc stopped del[of "cs_id state"] show ?thesis by (metis fst_conv snd_conv)
  qed
qed

theorem remove_guarded_witness:
  "\<exists>d'. remove \<lparr>effective_uid = 0, look = (\<lambda>_ _. None), kill_errno = (\<lambda>_ _. None)\<rparr> (\<lambda>_. None) (\<lambda>_. False) (\<lambda>_. False)
        (demo_state ''a'') False [(''a.json'', Regular ''x''), (''b.json'', Regular ''y'')] = ([], [], d', Ok ())
     \<and> map_of d' = (map_of [(''a.json'', Regular ''x''), (''b.json'', Regular ''y'')])(''a.json'' := None)"
proof -
  let ?h = "\<lparr>effective_uid = 0, look = (\<lambda>_ _. None), kill_errno = (\<lambda>_ _. None)\<rparr>"
  let ?d = "[(''a.json'', Regular ''x''), (''b.json'', Regular ''y'')]"
  have id: "cs_id (demo_state ''a'') = ''a''" "cs_cgroup_path (demo_state ''a'') = None"
    by (simp_all add: demo_state_def state_new_def)
  have "remove ?h (\<lambda>_. None) (\<lambda>_. False) (\<lambda>_. False) (demo_state ''a'') False ?d
      = ([], [], [(''b.json'', Regular ''y'')], Ok ())"
    by (simp add: remove_def ensure_container_access_def is_running_def delete_state_def state_file_path_def
        rootfs_overlay_dir_path_def id validate_container_id_def valid_id_char_def string_eval dir_remove_def)
  with remove_guarded[OF this] show ?thesis by (simp add: id)
qed

text \<open>A text whose first character is a letter once in upper case is no number.\<close>

definition is_upper :: "char \<Rightarrow> bool" where
  "is_upper c \<longleftrightarrow> 65 \<le> (of_char c :: nat) \<and> (of_char c :: nat) \<le> 90"

lemma upper_fixed: "is_ascii_digit c \<or> c = CHR ''-'' \<or> c = CHR ''+'' \<Longrightarrow>
    to_ascii_uppercase c = c \<and> \<not> is_upper c"
  by (auto simp: is_ascii_digit_def to_ascii_uppercase_def is_upper_def)

lemma parse_i32_letter:
  assumes "is_upper (to_ascii_uppercase c)"
  shows "parse_i32 (c # s) = None"
proof -
  have c: "\<not> is_ascii_digit c" "c \<noteq> CHR ''-''" "c \<noteq> CHR ''+''"
    using assms upper_fixed by metis+
  then show ?thesis by (simp add: parse_i32_def parse_uint_def Let_def)
qed

lemma signal_names_upper:
  "\<forall>(n, s)\<in>set signal_names. n \<noteq> [] \<and> is_upper (hd n) \<and> strip_prefix ''SIG'' n = None \<and> map_of signal_names n = Some s"
  by (simp add: signal_names_def is_upper_def)

text \<open>
  every signal of the table is understood by its name in any mixture of cases, with or without
  the prefix SIG, and nothing that is no number is understood otherwise.
\<close>

theorem parse_signal_names:
  assumes "parse_i32 t = None"
  shows "parse_signal try_from t = Ok sig \<longleftrightarrow>
    (\<exists>n. (n, sig) \<in> set signal_names \<and> map to_ascii_uppercase t \<in> {n, ''SIG'' @ n})"
proof
  assume "parse_signal try_from t = Ok sig"
  then have m: "map_of signal_names (case strip_prefix ''SIG'' (map to_ascii_uppercase t) of
      None \<Rightarrow> map to_ascii_uppercase t | Some r \<Rightarrow> r) = Some sig"
    using assms by (simp add: parse_signal_def Let_def result_simps)
  show "\<exists>n. (n, sig) \<in> set signal_names \<and> map to_ascii_uppercase t \<in> {n, ''SIG'' @ n}"
  proof (cases "strip_prefix ''SIG'' (map to_ascii_uppercase t)")
    case None
    with m show ?thesis by (auto dest: map_of_SomeD)
  next
    case (Some r)
    with m have "(r, sig) \<in> set signal_names" by (auto dest: map_of_SomeD)
    moreover have "map to_ascii_uppercase t = ''SIG'' @ r" using Some by (simp add: strip_prefix_Some_iff)
    ultimately show ?thesis by auto
  qed
next
  assume "\<exists>n. (n, sig) \<in> set signal_names \<and> map to_ascii_uppercase t \<in> {n, ''SIG'' @ n}"
  then obtain n where n: "(n, sig) \<in> set signal_names" "map to_ascii_uppercase t \<in> {n, ''SIG'' @ n}" by blast
  have ns: "strip_prefix ''SIG'' n = None" "map_of signal_names n = Some sig"
    using signal_names_upper n(1) by auto
  have sig: "strip_prefix ''SIG'' (''SIG'' @ n) = Some n" by (simp add: strip_prefix_Some_iff)
  from n(2) consider "map to_ascii_uppercase t = n" | "map to_ascii_uppercase t = ''SIG'' @ n" by blast
  then show "parse_signal try_from t = Ok sig"
    by cases (use assms ns sig in \<open>auto simp: parse_signal_def Let_def ok_or_def\<close>)
qed

theorem parse_signal_names_witness: "parse_signal (\<lambda>_. None) ''sigTerm'' = Ok SIGTERM"
proof -
  have "parse_i32 ''sigTerm'' = None"
    by (rule parse_i32_letter) (simp add: is_upper_def to_ascii_uppercase_def)
  moreover have "map to_ascii_uppercase ''sigTerm'' = ''SIG'' @ ''TERM''"
    by (simp add: to_ascii_uppercase_def char_of_def bit_Suc_0_iff)
  moreover have "(''TERM'', SIGTERM) \<in> set signal_names" by (simp add: signal_names_def)
  ultimately show ?thesis using parse_signal_names[of "''sigTerm''" "\<lambda>_. None" SIGTERM] by blast
qed

end
