(* ===== verification/Reconcile.thy ===== *)
theory Reconcile
  imports Service_Command Service_Wait Container_Lifecycle
begin

text \<open>
  The reconciliation engine (\<^verbatim>\<open>src/src/topology/reconcile.rs\<close>): the plan that compares a topology with
  the running containers, and its execution in two phases.

  What the engine does to the system is a list of events in the order they happen. The system's
  answers are the record \<open>system\<close>. What changes while the engine runs (the state directory, the
  process table, the clock) is a function of the moment of the look: before a stop, at a poll after
  the start of a service, at a poll of its health. Nothing relates the answers of two moments, so the
  properties hold whatever other processes do in between.
\<close>

section \<open>Planning\<close>

datatype reconcile_action = NoChange | Start | Restart | Stop

record reconcile_plan =
  actions :: "(string \<times> reconcile_action) list"
  plan_order :: "string list"

definition container_name :: "string \<Rightarrow> string \<Rightarrow> string" where
  "container_name topology service = topology @ ''-'' @ service"

definition running_by_name :: "string \<Rightarrow> container_state list \<Rightarrow> (string, u64 option) btree_map" where
  "running_by_name topology running =
     fold (\<lambda>state m.
       case strip_prefix (topology @ ''-'') (cs_name state) of
         None \<Rightarrow> m
       | Some service \<Rightarrow> bt_insert service (cs_config_hash state) m)
     running []"

definition plan_action ::
  "(service_def \<Rightarrow> u64 option) \<Rightarrow> topology_config \<Rightarrow> (string, u64 option) btree_map \<Rightarrow> string \<Rightarrow> reconcile_action" where
  "plan_action hash config running service_name =
     (let desired_hash = (case service_config_hash hash config service_name of None \<Rightarrow> 0 | Some h \<Rightarrow> h) in
      case bt_get running service_name of
        Some running_hash \<Rightarrow> (if running_hash = Some desired_hash then NoChange else Restart)
      | None \<Rightarrow> Start)"

text \<open>As for resolution, the outer option is a panic; \<open>running\<close> is the list of running containers.\<close>

definition plan_reconcile ::
  "(service_def \<Rightarrow> u64 option) \<Rightarrow> topology_config \<Rightarrow> container_state list result \<Rightarrow> reconcile_plan result option" where
  "plan_reconcile hash config list_running_result =
     map_option (\<lambda>r. and_then r (\<lambda>graph.
       let running_states = (case list_running_result of Inl _ \<Rightarrow> [] | Inr ss \<Rightarrow> ss);
           running = running_by_name (topo_name config) running_states
       in Ok \<lparr>actions =
                map (\<lambda>n. (n, plan_action hash config running n)) (startup_order graph)
                @ map (\<lambda>n. (n, Stop)) (filter (\<lambda>n. \<not> bt_contains (services config) n) (bt_keys running)),
              plan_order = startup_order graph\<rparr>))
     (resolve config)"

datatype post_start_wait = Started | Healthy

definition post_start_wait_of :: "dependency_graph \<Rightarrow> string \<Rightarrow> post_start_wait" where
  "post_start_wait_of graph service_name =
     (if (\<exists>dep\<in>set (case bt_get (dependents graph) service_name of None \<Rightarrow> [] | Some ds \<Rightarrow> ds).
            case bt_get (edges graph) dep of
              None \<Rightarrow> False
            | Some es \<Rightarrow> list_ex (\<lambda>e. edge_service e = service_name \<and> edge_condition e = ''healthy'') es)
      then Healthy else Started)"

section \<open>Execution\<close>

datatype event =
    Volume volume_event
  | StopContainer string "(int \<times> signal) list"
  | Spawn string "string list"

datatype moment = BeforeStop string | StartPoll string nat | HealthPoll string nat

record system =
  sys_show_f64 :: "real \<Rightarrow> string"
  sys_secrets_file :: "string list \<Rightarrow> string result"
  sys_volumes :: volume_fs
  sys_state_root :: "string option"
  sys_current_exe :: "string result"
  sys_secret_fd :: "string list \<Rightarrow> unit result"
  sys_spawn :: "string \<Rightarrow> string list \<Rightarrow> unit result"
  sys_from_json :: "string \<Rightarrow> container_state option"
  sys_readable :: "moment \<Rightarrow> bool"
  sys_dir :: "moment \<Rightarrow> state_dir"
  sys_stat :: "moment \<Rightarrow> u32 \<Rightarrow> string option"
  sys_lag :: "moment \<Rightarrow> nat"
  sys_run :: "moment \<Rightarrow> container_state \<Rightarrow> string list \<Rightarrow> bool result"
  sys_host :: "string \<Rightarrow> host"

definition resolve_at :: "system \<Rightarrow> moment \<Rightarrow> string \<Rightarrow> container_state result" where
  "resolve_at sys m name = resolve_container (sys_from_json sys) (sys_readable sys m) (sys_dir sys m) name"

text \<open>A container that is not found has stopped, and a stop that fails is only logged.\<close>

definition stop_service :: "system \<Rightarrow> u64 \<Rightarrow> string \<Rightarrow> string \<Rightarrow> event list" where
  "stop_service sys stop_timeout topology service =
     (let name = container_name topology service in
      case resolve_at sys (BeforeStop service) name of
        Inl _ \<Rightarrow> []
      | Inr state \<Rightarrow> [StopContainer name (fst (stop (sys_host sys name) state stop_timeout))])"

definition stop_phase :: "system \<Rightarrow> u64 \<Rightarrow> topology_config \<Rightarrow> reconcile_plan \<Rightarrow> string list \<Rightarrow> event list" where
  "stop_phase sys stop_timeout config plan shutdown =
     concat (map (\<lambda>n. case map_of (actions plan) n of
         Some Restart \<Rightarrow> stop_service sys stop_timeout (topo_name config) n
       | Some Stop \<Rightarrow> stop_service sys stop_timeout (topo_name config) n
       | _ \<Rightarrow> []) shutdown)
     @ concat (map (\<lambda>(n, action).
         if action \<noteq> Stop then []
         else if n \<in> set shutdown then []
         else stop_service sys stop_timeout (topo_name config) n) (actions plan))"

definition start_service ::
  "system \<Rightarrow> (service_def \<Rightarrow> u64 option) \<Rightarrow> topology_config \<Rightarrow> dependency_graph \<Rightarrow> string \<Rightarrow> event list \<times> unit result" where
  "start_service sys hash config graph n =
     (case bt_get (services config) n of
        None \<Rightarrow> ([], Err (ConfigError ''Service {} not found in topology''))
      | Some svc \<Rightarrow>
          (let name = container_name (topo_name config) n in
           case service_config_hash hash config n of
             None \<Rightarrow> ([], Err (ConfigError ''Service {} missing config hash''))
           | Some desired_hash \<Rightarrow>
               (case build_service_run_command (sys_show_f64 sys) (sys_secrets_file sys)
                     (prepare_persistent_volume (sys_volumes sys))
                     config svc name desired_hash (sys_state_root sys) of
                  (evs, Inl e) \<Rightarrow> (map Volume evs, Err e)
                | (evs, Inr args) \<Rightarrow>
                    (case and_then (sys_current_exe sys) (\<lambda>bin.
                          and_then (sys_secret_fd sys args) (\<lambda>_. sys_spawn sys bin (tl args))) of
                       Inl e \<Rightarrow> (map Volume evs, Err e)
                     | Inr _ \<Rightarrow>
                         (map Volume evs @ [Spawn n args],
                          and_then (wait_for_started (\<lambda>i. resolve_at sys (StartPoll n i) name)
                            (\<lambda>i. sys_stat sys (StartPoll n i)) (\<lambda>i. sys_lag sys (StartPoll n i)) 10000 0) (\<lambda>_.
                          if post_start_wait_of graph n = Healthy
                          then wait_for_healthy (\<lambda>i. resolve_at sys (HealthPoll n i) name)
                            (\<lambda>i. sys_stat sys (HealthPoll n i)) (\<lambda>i. sys_run sys (HealthPoll n i))
                            (\<lambda>i. sys_lag sys (HealthPoll n i)) svc
                          else Ok ()))))))"

fun start_phase ::
  "(string \<Rightarrow> event list \<times> unit result) \<Rightarrow> (string \<Rightarrow> reconcile_action option) \<Rightarrow> string list \<Rightarrow> event list \<times> unit result" where
  "start_phase start action [] = ([], Ok ())"
| "start_phase start action (n # ns) =
     (if action n = Some Start \<or> action n = Some Restart then
        (case start n of
           (evs, Inl e) \<Rightarrow> (evs, Err e)
         | (evs, Inr _) \<Rightarrow> (case start_phase start action ns of (evs', r) \<Rightarrow> (evs @ evs', r)))
      else start_phase start action ns)"

definition execute_reconcile ::
  "system \<Rightarrow> (service_def \<Rightarrow> u64 option) \<Rightarrow> topology_config \<Rightarrow> reconcile_plan \<Rightarrow> u64 \<Rightarrow>
   (event list \<times> unit result) option" where
  "execute_reconcile sys hash config plan stop_timeout =
     map_option (\<lambda>r. case r of
       Inl e \<Rightarrow> ([], Err e)
     | Inr graph \<Rightarrow>
         (case start_phase (start_service sys hash config graph) (map_of (actions plan)) (plan_order plan) of
            (evs, r) \<Rightarrow> (stop_phase sys stop_timeout config plan (shutdown_order graph) @ evs, r)))
     (resolve config)"

section \<open>Lemmas on the plan\<close>

lemma running_by_name_fold:
  "running_by_name topology rs = fold (\<lambda>(a, v). bt_insert a v)
     (List.map_filter (\<lambda>s. map_option (\<lambda>n. (n, cs_config_hash s)) (strip_prefix (topology @ ''-'') (cs_name s))) rs) []"
proof -
  have "fold (\<lambda>state m.
       case strip_prefix (topology @ ''-'') (cs_name state) of
         None \<Rightarrow> m
       | Some service \<Rightarrow> bt_insert service (cs_config_hash state) m) rs m =
    fold (\<lambda>(a, v). bt_insert a v)
     (List.map_filter (\<lambda>s. map_option (\<lambda>n. (n, cs_config_hash s)) (strip_prefix (topology @ ''-'') (cs_name s))) rs) m"
    for m by (induction rs arbitrary: m) (auto simp: map_filter_simps split: option.splits)
  then show ?thesis by (simp add: running_by_name_def)
qed

lemma strip_container_name:
  "strip_prefix (topology @ ''-'') c = Some n \<longleftrightarrow> c = container_name topology n"
  by (simp add: strip_prefix_Some_iff container_name_def)

definition running_entries :: "string \<Rightarrow> container_state list \<Rightarrow> (string \<times> u64 option) list" where
  "running_entries topology rs = List.map_filter (\<lambda>s. map_option (\<lambda>n. (n, cs_config_hash s))
     (strip_prefix (topology @ ''-'') (cs_name s))) rs"

lemma running_by_name_inv: "bt_inv (running_by_name topology rs)"
  and running_by_name_get:
    "bt_get (running_by_name topology rs) = map_of (rev (running_entries topology rs))"
  unfolding running_by_name_fold running_entries_def[symmetric]
  by (simp_all add: bt.fold_insert[OF bt.invar_empty]) (simp add: bt_get_def)

lemma running_entries_iff:
  "(n, h) \<in> set (running_entries topology rs) \<longleftrightarrow>
     (\<exists>s\<in>set rs. cs_name s = container_name topology n \<and> cs_config_hash s = h)"
  by (auto simp: running_entries_def set_map_filter strip_container_name)

lemma running_by_name_None:
  "bt_get (running_by_name topology rs) n = None \<longleftrightarrow> (\<forall>s\<in>set rs. cs_name s \<noteq> container_name topology n)"
proof -
  have "bt_get (running_by_name topology rs) n = None \<longleftrightarrow> (\<forall>h. (n, h) \<notin> set (running_entries topology rs))"
    by (auto simp: running_by_name_get map_of_eq_None_iff image_iff)
  then show ?thesis by (auto simp: running_entries_iff)
qed

lemma running_by_name_Some:
  assumes "bt_get (running_by_name topology rs) n = Some h"
  shows "\<exists>s\<in>set rs. cs_name s = container_name topology n \<and> cs_config_hash s = h"
  using assms map_of_SomeD[of "rev (running_entries topology rs)" n h]
  by (simp add: running_by_name_get running_entries_iff)

lemma plan_reconcile_Ok:
  assumes "plan_reconcile hash config (Ok rs) = Some (Ok plan)"
  obtains g where "resolve config = Some (Ok g)" "plan_order plan = startup_order g"
    "actions plan = map (\<lambda>n. (n, plan_action hash config (running_by_name (topo_name config) rs) n)) (startup_order g)
       @ map (\<lambda>n. (n, Stop)) (filter (\<lambda>n. \<not> bt_contains (services config) n)
           (bt_keys (running_by_name (topo_name config) rs)))"
  using assms by (auto simp: plan_reconcile_def result_simps Let_def)

lemma plan_action_not_Stop: "plan_action hash config running n \<noteq> Stop"
  by (simp add: plan_action_def Let_def split: option.splits)

lemma map_of_plan:
  assumes "bt_inv (services config)" "plan_reconcile hash config (Ok rs) = Some (Ok plan)"
    "n \<in> set (bt_keys (services config))"
  shows "map_of (actions plan) n = Some (plan_action hash config (running_by_name (topo_name config) rs) n)"
proof -
  from assms(2) obtain g where g: "resolve config = Some (Ok g)"
    "actions plan = map (\<lambda>n. (n, plan_action hash config (running_by_name (topo_name config) rs) n)) (startup_order g)
       @ map (\<lambda>n. (n, Stop)) (filter (\<lambda>n. \<not> bt_contains (services config) n)
           (bt_keys (running_by_name (topo_name config) rs)))"
    by (rule plan_reconcile_Ok)
  have "n \<in> set (startup_order g)"
    using resolve_cases[OF assms(1)] g(1) assms(3) by (auto simp del: adjacency_of.simps)
  then show ?thesis by (simp add: g(2) map_add_def map_of_map_restrict)
qed

section \<open>Properties of the plan\<close>

text \<open>
  C11: the plan gives every service of the topology one action: no change exactly when a container
  of that service runs with the hash of the service's definition, a restart when one runs with
  another hash or none, a start when none runs; it stops exactly the running containers of the
  topology's name space that are no service of the topology, and no name has two actions.
\<close>

theorem plan_reconcile_correct:
  assumes "bt_inv (services config)" and "plan_reconcile hash config (Ok running) = Some (Ok plan)"
    and "distinct (map cs_name running)"
  shows "distinct (map fst (actions plan))
    \<and> (\<forall>n svc h. bt_get (services config) n = Some svc \<and> hash svc = Some h \<longrightarrow>
         map_of (actions plan) n = Some
           (case find (\<lambda>s. cs_name s = container_name (topo_name config) n) running of
              None \<Rightarrow> Start
            | Some s \<Rightarrow> if cs_config_hash s = Some h then NoChange else Restart))
    \<and> (\<forall>n. (n, Stop) \<in> set (actions plan) \<longleftrightarrow>
         bt_get (services config) n = None
         \<and> (\<exists>s\<in>set running. cs_name s = container_name (topo_name config) n))"
proof (intro conjI allI impI)
  let ?run = "running_by_name (topo_name config) running"
  from assms(2) obtain g where g: "resolve config = Some (Ok g)"
    "actions plan = map (\<lambda>n. (n, plan_action hash config ?run n)) (startup_order g)
       @ map (\<lambda>n. (n, Stop)) (filter (\<lambda>n. \<not> bt_contains (services config) n) (bt_keys ?run))"
    by (rule plan_reconcile_Ok)
  have ord: "distinct (startup_order g)" "set (startup_order g) = set (bt_keys (services config))"
    using resolve_cases[OF assms(1)] g(1) by (auto simp del: adjacency_of.simps)
  show "distinct (map fst (actions plan))"
    using ord bt_keys_distinct[OF running_by_name_inv, of "topo_name config" running]
    by (auto simp: g(2) comp_def bt_contains_keys)
  show "(n, Stop) \<in> set (actions plan) \<longleftrightarrow> bt_get (services config) n = None
         \<and> (\<exists>s\<in>set running. cs_name s = container_name (topo_name config) n)" for n
  proof -
    have "(n, Stop) \<in> set (actions plan) \<longleftrightarrow> \<not> bt_contains (services config) n \<and> bt_contains ?run n"
      using plan_action_not_Stop[of hash config ?run n]
      by (auto simp: g(2) bt_contains_keys image_iff)
    then show ?thesis by (simp add: bt_contains_def running_by_name_None)
  qed
  fix n svc h
  assume a: "bt_get (services config) n = Some svc \<and> hash svc = Some h"
  then have n: "n \<in> set (bt_keys (services config))"
    by (simp add: bt_contains_keys[symmetric] bt_contains_def)
  have uniq: "s = s'" if "s \<in> set running" "s' \<in> set running" "cs_name s = cs_name s'" for s s'
    using that assms(3) by (auto simp: distinct_map inj_on_def)
  have "bt_get ?run n = map_option cs_config_hash
      (find (\<lambda>s. cs_name s = container_name (topo_name config) n) running)"
  proof (cases "find (\<lambda>s. cs_name s = container_name (topo_name config) n) running")
    case None
    then have "bt_get ?run n = None" by (auto simp: running_by_name_None find_None_iff)
    with None show ?thesis by simp
  next
    case (Some s)
    then have s: "s \<in> set running" "cs_name s = container_name (topo_name config) n"
      by (auto simp: find_Some_iff)
    then obtain x where "bt_get ?run n = Some x"
      using running_by_name_None[of "topo_name config" running n] by (cases "bt_get ?run n") auto
    with running_by_name_Some[OF this] uniq[OF s(1)] s(2) Some show ?thesis by auto
  qed
  then show "map_of (actions plan) n = Some
      (case find (\<lambda>s. cs_name s = container_name (topo_name config) n) running of
         None \<Rightarrow> Start
       | Some s \<Rightarrow> if cs_config_hash s = Some h then NoChange else Restart)"
    using map_of_plan[OF assms(1,2) n] a
    by (simp add: plan_action_def service_config_hash_def split: option.splits)
qed

text \<open>A running container of a topology, by its name and hash.\<close>

definition running_container :: "string \<Rightarrow> u64 option \<Rightarrow> container_state" where
  "running_container name h = (demo_state name)\<lparr>cs_config_hash := h\<rparr>"

lemma plan_web:
  "plan_reconcile (\<lambda>_. Some 5) web_topology (Ok [running_container ''t-db'' (Some 5), running_container ''t-old'' None])
     = Some (Ok \<lparr>actions = [(''db'', NoChange), (''web'', Start), (''old'', Stop)], plan_order = [''db'', ''web'']\<rparr>)"
  unfolding plan_reconcile_def resolve_web
  by (simp add: running_by_name_def running_container_def demo_state_def
      state_new_def plan_action_def service_config_hash_def bt_get_def bt_keys_def bt_contains_def
      web_topology_def topology_of_def less_char_def)

theorem plan_reconcile_correct_witness:
  "(\<forall>n. (n, Stop) \<in> set [(''db'', NoChange), (''web'', Start), (''old'', Stop)] \<longleftrightarrow>
     bt_get (services web_topology) n = None
     \<and> (\<exists>s\<in>set [running_container ''t-db'' (Some 5), running_container ''t-old'' None].
          cs_name s = container_name ''t'' n))"
proof -
  have "distinct (map cs_name [running_container ''t-db'' (Some 5), running_container ''t-old'' None])"
    by (simp add: running_container_def demo_state_def state_new_def)
  from plan_reconcile_correct[OF bt_inv_web plan_web this] have
    "\<forall>n. (n, Stop) \<in> set [(''db'', NoChange), (''web'', Start), (''old'', Stop)] \<longleftrightarrow>
     bt_get (services web_topology) n = None
     \<and> (\<exists>s\<in>set [running_container ''t-db'' (Some 5), running_container ''t-old'' None].
          cs_name s = container_name (topo_name web_topology) n)" by simp
  then show ?thesis by (simp add: web_topology_def topology_of_def)
qed

text \<open>
  the name space of a topology is every container name that starts with the topology's name and
  a dash, and both may contain dashes. Planning topology \<^verbatim>\<open>t\<close> while topology \<^verbatim>\<open>t-x\<close> runs its service \<^verbatim>\<open>db\<close>
  therefore plans to stop that container, which belongs to another topology.
\<close>

theorem plan_stops_other_topology:
  "validate_container_name ''t-x'' = Ok ()
     \<and> container_name ''t-x'' ''db'' = container_name ''t'' ''x-db''
     \<and> (\<exists>plan. plan_reconcile (\<lambda>_. Some 5) web_topology (Ok [running_container (container_name ''t-x'' ''db'') None])
          = Some (Ok plan) \<and> (''x-db'', Stop) \<in> set (actions plan))"
  unfolding plan_reconcile_def resolve_web
  by (simp add: running_by_name_def running_container_def demo_state_def
      state_new_def plan_action_def service_config_hash_def bt_get_def bt_keys_def bt_contains_def
      web_topology_def topology_of_def less_char_def container_name_def validate_container_name_def
      valid_name_char_def string_eval)

section \<open>Lemmas on the execution\<close>

fun is_stop :: "event \<Rightarrow> bool" where
  "is_stop (StopContainer c sent) = True"
| "is_stop _ = False"

fun spawned :: "event list \<Rightarrow> string list" where
  "spawned [] = []"
| "spawned (Spawn n args # evs) = n # spawned evs"
| "spawned (_ # evs) = spawned evs"

lemma spawned_append [simp]: "spawned (xs @ ys) = spawned xs @ spawned ys"
  by (induction xs rule: spawned.induct) auto

lemma spawned_volumes [simp]: "spawned (map Volume evs) = []"
  by (induction evs) auto

text \<open>The results of starting a service: an error before the spawn, or the spawn and the waits.\<close>

lemma start_service_cases:
  obtains (failed) evs e where "start_service sys hash config g n = (map Volume evs, Err e)"
  | (spawn) svc evs args where "bt_get (services config) n = Some svc"
      "start_service sys hash config g n = (map Volume evs @ [Spawn n args],
         and_then (wait_for_started (\<lambda>i. resolve_at sys (StartPoll n i) (container_name (topo_name config) n))
            (\<lambda>i. sys_stat sys (StartPoll n i)) (\<lambda>i. sys_lag sys (StartPoll n i)) 10000 0) (\<lambda>_.
         if post_start_wait_of g n = Healthy
         then wait_for_healthy (\<lambda>i. resolve_at sys (HealthPoll n i) (container_name (topo_name config) n))
           (\<lambda>i. sys_stat sys (HealthPoll n i)) (\<lambda>i. sys_run sys (HealthPoll n i))
           (\<lambda>i. sys_lag sys (HealthPoll n i)) svc
         else Ok ()))"
proof (cases "bt_get (services config) n = None \<or> service_config_hash hash config n = None")
  case True
  then have "\<exists>e. start_service sys hash config g n = (map Volume [], Err e)"
    by (auto simp: start_service_def Let_def split: option.splits)
  then show ?thesis using failed by blast
next
  case False
  then obtain svc h where sh: "bt_get (services config) n = Some svc" "service_config_hash hash config n = Some h"
    by auto
  let ?build = "build_service_run_command (sys_show_f64 sys) (sys_secrets_file sys)
     (prepare_persistent_volume (sys_volumes sys)) config svc (container_name (topo_name config) n) h (sys_state_root sys)"
  obtain vs b where b: "?build = (vs, b)" by fastforce
  show ?thesis
  proof (cases b)
    case (Inl e)
    then show ?thesis using failed by (simp add: start_service_def Let_def sh b)
  next
    case (Inr args)
    define sp where "sp = and_then (sys_current_exe sys) (\<lambda>bin.
       and_then (sys_secret_fd sys args) (\<lambda>_. sys_spawn sys bin (tl args)))"
    show ?thesis using failed spawn[of svc vs args]
      by (cases sp) (simp_all add: start_service_def Let_def sh b Inr sp_def[symmetric])
  qed
qed

lemma start_service_events:
  assumes "start_service sys hash config g n = (evs, r)"
  shows "(\<forall>e\<in>set evs. \<not> is_stop e) \<and> (spawned evs = [n] \<or> spawned evs = [] \<and> r \<noteq> Ok ())"
  by (cases rule: start_service_cases[of sys hash config g n]) (use assms in auto)

text \<open>
  The second phase starts services in the given order and stops at the first failure; a service is
  started only when every start before it, with its waits, succeeded.
\<close>

lemma start_phase_events:
  assumes "start_phase start act ns = (evs, r)"
    and "\<And>n evs r. start n = (evs, r) \<Longrightarrow>
      (\<forall>e\<in>set evs. \<not> is_stop e) \<and> (spawned evs = [n] \<or> spawned evs = [] \<and> r \<noteq> Ok ())"
  shows "(\<forall>e\<in>set evs. \<not> is_stop e)
    \<and> (\<exists>rest. filter (\<lambda>n. act n = Some Start \<or> act n = Some Restart) ns = spawned evs @ rest
         \<and> (r = Ok () \<longrightarrow> rest = []))
    \<and> (\<forall>xs n m ys. spawned evs = xs @ n # m # ys \<longrightarrow> snd (start n) = Ok ())"
  using assms(1)
proof (induction ns arbitrary: evs r)
  case (Cons n ns)
  show ?case
  proof (cases "act n = Some Start \<or> act n = Some Restart")
    case True
    obtain e1 r1 where s: "start n = (e1, r1)" by fastforce
    note e1 = assms(2)[OF s]
    show ?thesis
    proof (cases r1)
      case (Inl e)
      with Cons.prems True s have "evs = e1" "r \<noteq> Ok ()" by auto
      with e1 True show ?thesis by auto
    next
      case (Inr u)
      obtain e2 where e2: "start_phase start act ns = (e2, r)" "evs = e1 @ e2"
        using Cons.prems True s Inr by (auto split: prod.splits)
      have sp: "spawned evs = n # spawned e2" using e1 Inr e2 by auto
      have "snd (start m) = Ok ()" if "spawned evs = xs @ m # k # ys" for xs m k ys
      proof (cases xs)
        case Nil
        with that sp s Inr show ?thesis by simp
      next
        case Cons2: (Cons x xs')
        with that sp have "spawned e2 = xs' @ m # k # ys" by simp
        with Cons.IH[OF e2(1)] show ?thesis by blast
      qed
      with Cons.IH[OF e2(1)] e1 e2(2) True sp show ?thesis by auto
    qed
  qed (use Cons in auto)
qed simp

lemma stop_phase_events: "\<forall>e\<in>set (stop_phase sys t config plan shutdown). is_stop e"
proof -
  have "(case x of Some Restart \<Rightarrow> s | Some Stop \<Rightarrow> s | _ \<Rightarrow> []) =
      (if x = Some Restart \<or> x = Some Stop then s else [])" for x and s :: "event list"
    by (cases x; cases "the x") auto
  then show ?thesis by (auto simp: stop_phase_def stop_service_def Let_def split: sum.splits)
qed

lemma filter_split:
  "filter P zs = xs @ n # ws \<Longrightarrow> \<exists>as bs. zs = as @ n # bs \<and> filter P as = xs"
proof (induction zs arbitrary: xs)
  case (Cons z zs)
  show ?case
  proof (cases "P z")
    case True
    show ?thesis
    proof (cases xs)
      case Nil
      with True Cons.prems have "z # zs = [] @ n # zs" by simp
      then show ?thesis using Nil by fastforce
    next
      case Cons2: (Cons x xs')
      with True Cons.prems have "filter P zs = xs' @ n # ws" "x = z" by auto
      with Cons.IH obtain as bs where "zs = as @ n # bs" "filter P as = xs'" by blast
      then have "z # zs = (z # as) @ n # bs \<and> filter P (z # as) = xs"
        using True Cons2 \<open>x = z\<close> by simp
      then show ?thesis by blast
    qed
  next
    case False
    with Cons obtain as bs where "zs = as @ n # bs" "filter P as = xs" by auto
    then have "z # zs = (z # as) @ n # bs \<and> filter P (z # as) = xs" using False by simp
    then show ?thesis by blast
  qed
qed simp

text \<open>
  The shape of an execution: the stops, then the starts in the order of the plan, an initial part of
  those the plan asks for.
\<close>

lemma execute_reconcile_shape:
  assumes "bt_inv (services config)" and "plan_reconcile hash config (Ok running) = Some (Ok plan)"
  obtains g starts r where "resolve config = Some (Ok g)"
    "execute_reconcile sys hash config plan t = Some (stop_phase sys t config plan (shutdown_order g) @ starts, r)"
    "\<forall>e\<in>set starts. \<not> is_stop e"
    "\<exists>rest. filter (\<lambda>n. map_of (actions plan) n \<in> {Some Start, Some Restart}) (startup_order g)
       = spawned starts @ rest \<and> (r = Ok () \<longrightarrow> rest = [])"
    "\<forall>xs n m ys. spawned starts = xs @ n # m # ys \<longrightarrow> snd (start_service sys hash config g n) = Ok ()"
    "distinct (startup_order g)" "set (startup_order g) = set (bt_keys (services config))"
    "dependencies_first (dep_names config) (startup_order g)"
proof -
  from assms(2) obtain g where g: "resolve config = Some (Ok g)" "plan_order plan = startup_order g"
    by (rule plan_reconcile_Ok)
  let ?act = "map_of (actions plan)"
  obtain starts r where s: "start_phase (start_service sys hash config g) ?act (startup_order g) = (starts, r)"
    by fastforce
  note ev = start_phase_events[OF s start_service_events]
  have todo: "(\<lambda>n. ?act n = Some Start \<or> ?act n = Some Restart) = (\<lambda>n. ?act n \<in> {Some Start, Some Restart})" by auto
  have top: "dependencies_first (dep_names config) (startup_order g)" "distinct (startup_order g)"
    "set (startup_order g) = set (bt_keys (services config))"
    using resolve_cases[OF assms(1)] g(1) by (auto simp del: adjacency_of.simps)
  have ex: "execute_reconcile sys hash config plan t =
      Some (stop_phase sys t config plan (shutdown_order g) @ starts, r)"
    by (simp add: execute_reconcile_def g s)
  have rest: "\<exists>rest. filter (\<lambda>n. ?act n \<in> {Some Start, Some Restart}) (startup_order g)
       = spawned starts @ rest \<and> (r = Ok () \<longrightarrow> rest = [])"
    using ev by (simp only: todo)
  show ?thesis
    by (rule that[OF g(1) ex ev[THEN conjunct1] rest ev[THEN conjunct2, THEN conjunct2] top(2,3,1)])
qed

lemma spawned_after_dependencies:
  assumes "bt_inv (services config)" "plan_reconcile hash config (Ok running) = Some (Ok plan)"
    and ord: "dependencies_first (dep_names config) order" "distinct order"
      "set order = set (bt_keys (services config))"
    and rest: "filter (\<lambda>n. map_of (actions plan) n \<in> {Some Start, Some Restart}) order = xs @ n # ys"
    and d: "d \<in> set (dep_names config n)"
  shows "d \<in> set xs \<or> map_of (actions plan) d = Some NoChange"
proof -
  let ?act = "map_of (actions plan)"
  obtain as bs where o: "order = as @ n # bs" "filter (\<lambda>n. ?act n \<in> {Some Start, Some Restart}) as = xs"
    using filter_split[OF rest] by blast
  have "d \<in> set as" using dependencies_first_step[OF ord(1,2) _ o(1), of d] d ord(3) o(1)
    by (auto simp: depends_def)
  then have "d \<in> set (bt_keys (services config))" using ord(3) o(1) by auto
  from map_of_plan[OF assms(1,2) this] have "?act d \<noteq> None" "?act d \<noteq> Some Stop"
    by (simp_all add: plan_action_not_Stop)
  then have "?act d \<in> {Some Start, Some Restart} \<or> ?act d = Some NoChange"
    by (cases "?act d"; cases "the (?act d)") auto
  with \<open>d \<in> set as\<close> o(2) show ?thesis by auto
qed

section \<open>Properties of the execution\<close>

text \<open>
  C7: executing the plan of a topology never panics and always ends; all stops come before the first
  start; the services started are, in the dependency order, those the plan starts or restarts, all of
  them when the execution succeeds and an initial part of them otherwise; a service is started only
  after every service it depends on was left unchanged or was started before it; and a start is
  followed by another one only if it and its waits succeeded.
\<close>

theorem execute_reconcile_order:
  assumes "bt_inv (services config)" and "plan_reconcile hash config (Ok running) = Some (Ok plan)"
  shows "\<exists>g stops starts r. resolve config = Some (Ok g)
    \<and> execute_reconcile sys hash config plan stop_timeout = Some (stops @ starts, r)
    \<and> (\<forall>e\<in>set stops. is_stop e) \<and> (\<forall>e\<in>set starts. \<not> is_stop e)
    \<and> (\<exists>rest. filter (\<lambda>n. map_of (actions plan) n \<in> {Some Start, Some Restart}) (startup_order g)
          = spawned starts @ rest \<and> (r = Ok () \<longrightarrow> rest = []))
    \<and> (\<forall>xs n ys. spawned starts = xs @ n # ys \<longrightarrow>
         (\<forall>d\<in>set (dep_names config n). d \<in> set xs \<or> map_of (actions plan) d = Some NoChange))
    \<and> (\<forall>xs n m ys. spawned starts = xs @ n # m # ys \<longrightarrow> snd (start_service sys hash config g n) = Ok ())"
proof -
  obtain g starts r where g: "resolve config = Some (Ok g)"
    and ex: "execute_reconcile sys hash config plan stop_timeout =
      Some (stop_phase sys stop_timeout config plan (shutdown_order g) @ starts, r)"
    and st: "\<forall>e\<in>set starts. \<not> is_stop e"
    and rest: "\<exists>rest. filter (\<lambda>n. map_of (actions plan) n \<in> {Some Start, Some Restart}) (startup_order g)
       = spawned starts @ rest \<and> (r = Ok () \<longrightarrow> rest = [])"
    and nxt: "\<forall>xs n m ys. spawned starts = xs @ n # m # ys \<longrightarrow> snd (start_service sys hash config g n) = Ok ()"
    and ord: "distinct (startup_order g)" "set (startup_order g) = set (bt_keys (services config))"
      "dependencies_first (dep_names config) (startup_order g)"
    by (rule execute_reconcile_shape[OF assms])
  have dep: "\<forall>xs n ys. spawned starts = xs @ n # ys \<longrightarrow>
      (\<forall>d\<in>set (dep_names config n). d \<in> set xs \<or> map_of (actions plan) d = Some NoChange)"
    using rest spawned_after_dependencies[OF assms ord(3,1,2)] by (metis append.assoc append_Cons)
  show ?thesis
    by (rule exI[of _ g], rule exI[of _ "stop_phase sys stop_timeout config plan (shutdown_order g)"],
        rule exI[of _ starts], rule exI[of _ r], intro conjI g ex stop_phase_events st rest dep nxt)
qed

text \<open>A system on which everything succeeds at once.\<close>

definition good_system :: system where
  "good_system = \<lparr>sys_show_f64 = (\<lambda>_. ''1''), sys_secrets_file = (\<lambda>_. Ok ''3''),
     sys_volumes = \<lparr>fs_mkdirat = (\<lambda>_. None), fs_openat = (\<lambda>_. True), fs_canonicalize = Some, fs_fchown = (\<lambda>_ _ _. True)\<rparr>,
     sys_state_root = None, sys_current_exe = Ok ''/bin/nucleus'', sys_secret_fd = (\<lambda>_. Ok ()),
     sys_spawn = (\<lambda>_ _. Ok ()), sys_from_json = (\<lambda>n. Some (demo_state n)), sys_readable = (\<lambda>_. True),
     sys_dir = (\<lambda>m. case m of BeforeStop n \<Rightarrow> [] | StartPoll n _ \<Rightarrow> [(''a.json'', Regular (''t-'' @ n))]
       | HealthPoll n _ \<Rightarrow> [(''a.json'', Regular (''t-'' @ n))]),
     sys_stat = (\<lambda>_ _. Some (stat_line 42 ''run'' (replicate 20 ''7''))), sys_lag = (\<lambda>_. 0),
     sys_run = (\<lambda>_ _ _. Ok True), sys_host = (\<lambda>_. \<lparr>effective_uid = 0, look = (\<lambda>_ _. None), kill_errno = (\<lambda>_ _. None)\<rparr>)\<rparr>"

theorem execute_reconcile_order_witness:
  "\<exists>g stops starts r. resolve web_topology = Some (Ok g)
    \<and> execute_reconcile good_system (\<lambda>_. Some 5) web_topology
        \<lparr>actions = [(''db'', NoChange), (''web'', Start), (''old'', Stop)], plan_order = [''db'', ''web'']\<rparr> 10
        = Some (stops @ starts, r) \<and> (\<forall>e\<in>set stops. is_stop e)"
  using execute_reconcile_order[OF bt_inv_web plan_web, of good_system 10] by blast

lemma spawned_stops: "\<forall>e\<in>set evs. is_stop e \<Longrightarrow> spawned evs = []"
  by (induction evs rule: spawned.induct) auto

lemma post_start_wait_healthy:
  assumes "bt_inv (services config)" "resolve config = Some (Ok g)" "bt_get (services config) n = Some svc"
    and "dep \<in> set (svc_depends_on svc)" "dep_condition dep = ''healthy''"
  shows "post_start_wait_of g (dep_service dep) = Healthy"
proof -
  let ?N = "set (bt_keys (services config))"
  from resolve_cases[OF assms(1)] assms(2) obtain I where
    adj: "adjacency_of ?N (declared config) (I, edges g, dependents g)" and def: "deps_defined config"
    by (auto simp del: adjacency_of.simps)
  have n: "n \<in> ?N" using assms(3) by (simp add: bt_contains_keys[symmetric] bt_contains_def)
  have mem: "(n, dep) \<in> set (declared config)" using assms by (simp add: declared_mem)
  have d: "dep_service dep \<in> ?N"
    using def[unfolded deps_defined_def, THEN bspec, OF n] assms(3,4) by (auto simp: dep_names_def)
  have "n \<in> set (map fst (filter (\<lambda>p. dep_service (snd p) = dep_service dep) (declared config)))"
    using mem by force
  moreover have "bt_get (edges g) n = Some (map edge_of (svc_depends_on svc))"
    using adj n declared_of_service[OF assms(1,3)] by (simp add: comp_def)
  moreover have "list_ex (\<lambda>e. edge_service e = dep_service dep \<and> edge_condition e = ''healthy'')
      (map edge_of (svc_depends_on svc))"
    using assms(4,5) by (auto simp: list_ex_iff edge_of_def)
  moreover have "bt_get (dependents g) (dep_service dep) =
      Some (map fst (filter (\<lambda>p. dep_service (snd p) = dep_service dep) (declared config)))"
    using adj d by simp
  ultimately have "\<exists>m\<in>set (case bt_get (dependents g) (dep_service dep) of None \<Rightarrow> [] | Some ds \<Rightarrow> ds).
      case bt_get (edges g) m of None \<Rightarrow> False
      | Some es \<Rightarrow> list_ex (\<lambda>e. edge_service e = dep_service dep \<and> edge_condition e = ''healthy'') es"
    by (intro bexI[of _ n]) simp_all
  then show ?thesis by (simp add: post_start_wait_of_def)
qed

lemma start_service_healthy:
  assumes "snd (start_service sys hash config g n) = Ok ()" "post_start_wait_of g n = Healthy"
  obtains svc j s command where "bt_get (services config) n = Some svc" "svc_health_check svc = Some command"
    "resolve_at sys (HealthPoll n j) (container_name (topo_name config) n) = Ok s"
    "is_running (sys_stat sys (HealthPoll n j)) s"
    "health_check_passes (sys_run sys (HealthPoll n j)) s command = Ok True"
proof (cases rule: start_service_cases[of sys hash config g n])
  case (spawn svc evs args)
  from assms(1) have "wait_for_healthy (\<lambda>i. resolve_at sys (HealthPoll n i) (container_name (topo_name config) n))
      (\<lambda>i. sys_stat sys (HealthPoll n i)) (\<lambda>i. sys_run sys (HealthPoll n i)) (\<lambda>i. sys_lag sys (HealthPoll n i)) svc = Ok ()"
    unfolding spawn(2) by (simp only: snd_conv and_then_Inr_iff assms(2) simp_thms if_True) blast
  then obtain j s command where "svc_health_check svc = Some command"
    "resolve_at sys (HealthPoll n j) (container_name (topo_name config) n) = Ok s"
    "is_running (sys_stat sys (HealthPoll n j)) s"
    "health_check_passes (sys_run sys (HealthPoll n j)) s command = Ok True" by (rule wait_for_healthy_Ok)
  with spawn(1) show ?thesis by (rule that)
qed (use assms in simp)

text \<open>
  when a service that needs another one to be healthy is spawned after it, the other's health
  check was run in a container found under its name whose process was running, and passed, and the
  command it ran has no character with a meaning to the shell.
\<close>

theorem healthy_dependency_passed:
  assumes "bt_inv (services config)" and "plan_reconcile hash config (Ok running) = Some (Ok plan)"
    and "execute_reconcile sys hash config plan stop_timeout = Some (evs, r)"
    and "spawned evs = xs @ n # ys" and "bt_get (services config) n = Some svc"
    and "dep \<in> set (svc_depends_on svc)" and "dep_condition dep = ''healthy''"
    and "dep_service dep \<in> set xs"
  shows "\<exists>dsvc j s command. bt_get (services config) (dep_service dep) = Some dsvc
    \<and> svc_health_check dsvc = Some command \<and> set command \<inter> set shell_special_chars = {}
    \<and> resolve_at sys (HealthPoll (dep_service dep) j) (container_name (topo_name config) (dep_service dep)) = Ok s
    \<and> is_running (sys_stat sys (HealthPoll (dep_service dep) j)) s
    \<and> sys_run sys (HealthPoll (dep_service dep) j) s [''/bin/sh'', ''-c'', command] = Ok True"
proof -
  obtain g starts r' where g: "resolve config = Some (Ok g)"
    and ex: "execute_reconcile sys hash config plan stop_timeout =
      Some (stop_phase sys stop_timeout config plan (shutdown_order g) @ starts, r')"
    and nxt: "\<forall>xs n m ys. spawned starts = xs @ n # m # ys \<longrightarrow> snd (start_service sys hash config g n) = Ok ()"
    by (rule execute_reconcile_shape[OF assms(1,2)])
  have sp: "spawned starts = xs @ n # ys"
    using ex assms(3,4) spawned_stops[OF stop_phase_events] by auto
  let ?d = "dep_service dep"
  obtain as bs where xs: "xs = as @ ?d # bs" using assms(8) by (meson split_list)
  have "\<exists>m zs. spawned starts = as @ ?d # m # zs"
    using sp xs by (cases bs) auto
  then have "snd (start_service sys hash config g ?d) = Ok ()" using nxt by blast
  from start_service_healthy[OF this post_start_wait_healthy[OF assms(1) g assms(5-7)]]
  obtain dsvc j s command where h: "bt_get (services config) ?d = Some dsvc" "svc_health_check dsvc = Some command"
    "resolve_at sys (HealthPoll ?d j) (container_name (topo_name config) ?d) = Ok s"
    "is_running (sys_stat sys (HealthPoll ?d j)) s"
    "health_check_passes (sys_run sys (HealthPoll ?d j)) s command = Ok True" .
  from h(5) have "validate_health_check_command command = Ok ()"
    "sys_run sys (HealthPoll ?d j) s [''/bin/sh'', ''-c'', command] = Ok True"
    by (simp_all add: health_check_passes_def result_simps)
  with h health_command_no_shell_syntax[of command] show ?thesis by blast
qed

text \<open>A topology whose database has a health check, and its first start.\<close>

definition checked_topology :: topology_config where
  "checked_topology = topology_of
     [(''db'', (service_new ''/nix/store/r'' [''run''] ''64M'')\<lparr>svc_health_check := Some ''/bin/ping''\<rparr>),
      (''web'', waits_for ''db'' ''healthy'')]"

lemma checked_inv: "bt_inv (services checked_topology)"
  by (simp add: bt_inv_def checked_topology_def topology_of_def less_char_def)

lemma resolve_checked:
  "resolve checked_topology = Some (Ok \<lparr>startup_order = [''db'', ''web''],
     edges = [(''db'', []), (''web'', [\<lparr>edge_service = ''db'', edge_condition = ''healthy''\<rparr>])],
     dependents = [(''db'', [''web'']), (''web'', [])]\<rparr>)"
  by (simp add: resolve_def build_adjacency_def checked_topology_def topology_of_def waits_for_def
      service_new_def init_node_def add_service_def add_dependency_def bt_keys_def bt_entry_def
      bt_get_def bt_contains_def initial_queue_def less_char_def)

lemma plan_checked:
  "plan_reconcile (\<lambda>_. Some 5) checked_topology (Ok []) = Some (Ok
     \<lparr>actions = [(''db'', Start), (''web'', Start)], plan_order = [''db'', ''web'']\<rparr>)"
  unfolding plan_reconcile_def resolve_checked
  by (simp add: running_by_name_def plan_action_def bt_get_def bt_keys_def)

lemma good_system_running: "is_running (sys_stat good_system m) (demo_state x)"
proof -
  have "parse_start_ticks (stat_line 42 ''run'' (replicate 20 ''7'')) = Some (parse_word (replicate 20 ''7'' ! 19))"
    by (rule parse_stat_line) (simp_all add: is_whitespace_def)
  moreover have "parse_word ''7'' = Some (7 :: u64)" by (simp add: string_eval)
  ultimately show ?thesis by (simp add: is_running_def demo_state_def state_new_def good_system_def)
qed

lemma good_system_resolves:
  "resolve_at good_system (StartPoll n i) (''t-'' @ n) = Ok (demo_state (''t-'' @ n))"
  "resolve_at good_system (HealthPoll n i) (''t-'' @ n) = Ok (demo_state (''t-'' @ n))"
  using extension_json[of "''a''"]
  by (simp_all add: resolve_at_def good_system_def resolve_container_def list_states_def dir_states_def
      read_file_nofollow_def map_filter_simps resolve_reference_def demo_state_def state_new_def)

lemma start_checked:
  assumes "bt_get (services checked_topology) n = Some svc" "svc_volumes svc = []" "svc_secrets svc = []"
    and "post_start_wait_of g n = Healthy \<longrightarrow> svc_health_check svc = Some ''/bin/ping''"
  shows "\<exists>args. start_service good_system (\<lambda>_. Some 5) checked_topology g n = ([Spawn n args], Ok ())"
proof -
  define name where "name = ''t-'' @ n"
  note res = good_system_resolves[of n, folded name_def]
  have name: "container_name (topo_name checked_topology) n = name"
    by (simp add: container_name_def checked_topology_def topology_of_def name_def)
  have st: "wait_for_started (\<lambda>i. resolve_at good_system (StartPoll n i) name) (\<lambda>i. sys_stat good_system (StartPoll n i))
      (\<lambda>i. sys_lag good_system (StartPoll n i)) 10000 0 = Ok (cs_pid (demo_state name))"
    using res(1)[of 0] good_system_running[of "StartPoll n 0" name]
    by (subst wait_for_started.simps) simp
  have "validate_health_check_command ''/bin/ping'' = Ok ()"
    by (simp add: validate_health_check_command_def safe_health_check_chars_def reject_if_def)
  moreover have "sys_run good_system m s c = Ok True" for m s c by (simp add: good_system_def)
  ultimately have he: "wait_for_healthy (\<lambda>i. resolve_at good_system (HealthPoll n i) name)
      (\<lambda>i. sys_stat good_system (HealthPoll n i)) (\<lambda>i. sys_run good_system (HealthPoll n i))
      (\<lambda>i. sys_lag good_system (HealthPoll n i)) svc = Ok ()" if "post_start_wait_of g n = Healthy"
    using that assms(4) res(2)[of 0] good_system_running[of "HealthPoll n 0" name]
    by (simp add: wait_for_healthy_def wait_for_healthy_loop.simps health_check_passes_def and_then_def)
  obtain args where b: "build_service_run_command (sys_show_f64 good_system) (sys_secrets_file good_system)
     (prepare_persistent_volume (sys_volumes good_system)) checked_topology svc name 5 (sys_state_root good_system)
     = ([], Ok args)"
    using assms(2,3) by (simp add: build_service_run_command_def)
  have sp: "and_then (sys_current_exe good_system) (\<lambda>bin. and_then (sys_secret_fd good_system args)
      (\<lambda>_. sys_spawn good_system bin (tl args))) = Ok ()" by (simp add: good_system_def)
  show ?thesis using he
    by (cases "post_start_wait_of g n")
      (simp_all add: start_service_def assms(1) name service_config_hash_def b sp st)
qed

theorem healthy_dependency_passed_witness:
  "\<exists>dsvc j s command. bt_get (services checked_topology) ''db'' = Some dsvc \<and> svc_health_check dsvc = Some command
    \<and> resolve_at good_system (HealthPoll ''db'' j) ''t-db'' = Ok s
    \<and> sys_run good_system (HealthPoll ''db'' j) s [''/bin/sh'', ''-c'', command] = Ok True"
proof -
  let ?plan = "\<lparr>actions = [(''db'', Start), (''web'', Start)], plan_order = [''db'', ''web'']\<rparr>"
  let ?db = "(service_new ''/nix/store/r'' [''run''] ''64M'')\<lparr>svc_health_check := Some ''/bin/ping''\<rparr>"
  let ?dep = "\<lparr>dep_service = ''db'', dep_condition = ''healthy''\<rparr>"
  obtain g where g: "resolve checked_topology = Some (Ok g)" "startup_order g = [''db'', ''web'']"
    "dependents g = [(''db'', [''web'']), (''web'', [])]" using resolve_checked by auto
  have svc: "bt_get (services checked_topology) ''db'' = Some ?db"
    "bt_get (services checked_topology) ''web'' = Some (waits_for ''db'' ''healthy'')"
    by (simp_all add: checked_topology_def topology_of_def bt_get_def)
  have web: "post_start_wait_of g ''web'' = Started" by (simp add: post_start_wait_of_def g bt_get_def)
  obtain a1 where s1: "start_service good_system (\<lambda>_. Some 5) checked_topology g ''db'' = ([Spawn ''db'' a1], Ok ())"
    using start_checked[OF svc(1)] by (auto simp: service_new_def)
  obtain a2 where s2: "start_service good_system (\<lambda>_. Some 5) checked_topology g ''web'' = ([Spawn ''web'' a2], Ok ())"
    using start_checked[OF svc(2), of g] web by (auto simp: service_new_def waits_for_def)
  have ex: "execute_reconcile good_system (\<lambda>_. Some 5) checked_topology ?plan 10
      = Some ([Spawn ''db'' a1, Spawn ''web'' a2], Ok ())"
    by (simp add: execute_reconcile_def g s1 s2 stop_phase_def shutdown_order_def)
  have "spawned [Spawn ''db'' a1, Spawn ''web'' a2] = [''db''] @ ''web'' # []" by simp
  from healthy_dependency_passed[OF checked_inv plan_checked ex this svc(2), of ?dep]
  show ?thesis by (auto simp: waits_for_def container_name_def checked_topology_def topology_of_def)
qed

end
