(* ===== verification/Bpf.thy ===== *)
theory Bpf
  imports Nucleus_Prelude
begin

text \<open>
  Classic BPF, as far as the two filter generators use it: the instruction format and the machine.
  \<open>bpf_eval\<close> is the interpreter of \<^verbatim>\<open>src/src/security/seccomp_bpf.rs\<close> (lines 327 to 422), with a
  program counter and a step limit. \<open>bpf_exec\<close> runs the rest of a program without a limit: every
  jump goes forward, so it ends. The two agree, and reasoning about generated programs uses the
  second.
\<close>

unbundle bit_operations_syntax

record sock_filter =
  sf_code :: u16
  sf_jt :: u8
  sf_jf :: u8
  sf_k :: u32

definition bpf_stmt :: "u16 \<Rightarrow> u32 \<Rightarrow> sock_filter" where
  "bpf_stmt code k = \<lparr>sf_code = code, sf_jt = 0, sf_jf = 0, sf_k = k\<rparr>"

definition bpf_jump :: "u16 \<Rightarrow> u32 \<Rightarrow> u8 \<Rightarrow> u8 \<Rightarrow> sock_filter" where
  "bpf_jump code k jt jf = \<lparr>sf_code = code, sf_jt = jt, sf_jf = jf, sf_k = k\<rparr>"

text \<open>Accumulator, index register and scratch memory of 16 words.\<close>

record bpf_state =
  acc :: u32
  idx :: u32
  scratch :: "nat \<Rightarrow> u32"

text \<open>
  One instruction on the packet \<open>data\<close> (the word at a byte offset, \<^term>\<open>None\<close> out of range): a
  value returned, or the number of instructions to skip and the new state, or \<^term>\<open>None\<close> where the
  interpreter panics.
\<close>

definition bpf_step ::
  "(nat \<Rightarrow> u32 option) \<Rightarrow> sock_filter \<Rightarrow> bpf_state \<Rightarrow> (u32 + nat \<times> bpf_state) option" where
  "bpf_step data i s =
     (let c = sf_code i; k = sf_k i;
          branch = (\<lambda>b. Some (Inr (unat (if b then sf_jt i else sf_jf i), s))) in
      if c = 0x00 then Some (Inr (0, s\<lparr>acc := k\<rparr>))
      else if c = 0x20 then map_option (\<lambda>w. Inr (0, s\<lparr>acc := w\<rparr>)) (data (unat k))
      else if c = 0x60 then (if unat k < 16 then Some (Inr (0, s\<lparr>acc := scratch s (unat k)\<rparr>)) else None)
      else if c = 0x61 then (if unat k < 16 then Some (Inr (0, s\<lparr>idx := scratch s (unat k)\<rparr>)) else None)
      else if c = 0x02
      then (if unat k < 16 then Some (Inr (0, s\<lparr>scratch := (scratch s)(unat k := acc s)\<rparr>)) else None)
      else if c = 0x54 then Some (Inr (0, s\<lparr>acc := acc s AND k\<rparr>))
      else if c = 0x74 then (if unat k < 32 then Some (Inr (0, s\<lparr>acc := drop_bit (unat k) (acc s)\<rparr>)) else None)
      else if c = 0x7c
      then Some (Inr (0, s\<lparr>acc := if unat (idx s) < 32 then drop_bit (unat (idx s)) (acc s) else 0\<rparr>))
      else if c = 0x05 then Some (Inr (unat k, s))
      else if c = 0x15 then branch (acc s = k)
      else if c = 0x25 then branch (k < acc s)
      else if c = 0x35 then branch (k \<le> acc s)
      else if c = 0x45 then branch (acc s AND k \<noteq> 0)
      else if c = 0x06 then Some (Inl k)
      else if c = 0x07 then Some (Inr (0, s\<lparr>idx := acc s\<rparr>))
      else None)"

fun bpf_eval :: "nat \<Rightarrow> (nat \<Rightarrow> u32 option) \<Rightarrow> sock_filter list \<Rightarrow> nat \<Rightarrow> bpf_state \<Rightarrow> u32 option" where
  "bpf_eval 0 data prog pc s = None"
| "bpf_eval (Suc fuel) data prog pc s =
     (if length prog \<le> pc then None
      else case bpf_step data (prog ! pc) s of
        None \<Rightarrow> None
      | Some (Inl r) \<Rightarrow> Some r
      | Some (Inr (off, s')) \<Rightarrow> bpf_eval fuel data prog (pc + 1 + off) s')"

function bpf_exec :: "(nat \<Rightarrow> u32 option) \<Rightarrow> sock_filter list \<Rightarrow> bpf_state \<Rightarrow> u32 option" where
  "bpf_exec data [] s = None"
| "bpf_exec data (i # prog) s =
     (case bpf_step data i s of
        None \<Rightarrow> None
      | Some (Inl r) \<Rightarrow> Some r
      | Some (Inr (off, s')) \<Rightarrow> bpf_exec data (drop off prog) s')"
  by pat_completeness auto
termination
  by (relation "measure (\<lambda>(_, prog, _). length prog)") auto

definition bpf_initial :: bpf_state where
  "bpf_initial = \<lparr>acc = 0, idx = 0, scratch = (\<lambda>_. 0)\<rparr>"

text \<open>A limit of as many steps as the program has instructions is enough.\<close>

lemma bpf_eval_exec:
  "length prog - pc < fuel \<Longrightarrow> bpf_eval fuel data prog pc s = bpf_exec data (drop pc prog) s"
proof (induction fuel arbitrary: pc s)
  case (Suc fuel)
  show ?case
  proof (cases "length prog \<le> pc")
    case False
    then have d: "drop pc prog = prog ! pc # drop (Suc pc) prog" by (simp add: Cons_nth_drop_Suc)
    have "bpf_eval fuel data prog (pc + 1 + off) s' = bpf_exec data (drop off (drop (Suc pc) prog)) s'" for off s'
      using Suc.IH[of "pc + 1 + off" s'] Suc.prems False by (simp add: add.commute)
    then show ?thesis using False by (simp add: d split: option.splits sum.splits prod.splits)
  qed simp
qed simp

lemma bpf_eval_exec_start: "length prog < 10000 \<Longrightarrow> bpf_eval 10000 data prog 0 s = bpf_exec data prog s"
  using bpf_eval_exec[of prog 0 10000 data s] by simp

text \<open>The behaviour of single instructions, for symbolic execution of generated code.\<close>

lemma bpf_step_simps [simp]:
  "bpf_step data (bpf_stmt 0x00 k) s = Some (Inr (0, s\<lparr>acc := k\<rparr>))"
  "bpf_step data (bpf_stmt 0x20 k) s = map_option (\<lambda>w. Inr (0, s\<lparr>acc := w\<rparr>)) (data (unat k))"
  "bpf_step data (bpf_stmt 0x05 k) s = Some (Inr (unat k, s))"
  "bpf_step data (bpf_stmt 0x06 k) s = Some (Inl k)"
  "bpf_step data (bpf_stmt 0x54 k) s = Some (Inr (0, s\<lparr>acc := acc s AND k\<rparr>))"
  "bpf_step data (bpf_jump 0x15 k jt jf) s = Some (Inr (unat (if acc s = k then jt else jf), s))"
  "bpf_step data (bpf_jump 0x45 k jt jf) s = Some (Inr (unat (if acc s AND k \<noteq> 0 then jt else jf), s))"
  by (simp_all add: bpf_step_def bpf_stmt_def bpf_jump_def)

lemma bpf_step_shift_mem:
  "unat k < 32 \<Longrightarrow> bpf_step data (bpf_stmt 0x74 k) s = Some (Inr (0, s\<lparr>acc := drop_bit (unat k) (acc s)\<rparr>))"
  "unat (idx s) < 32 \<Longrightarrow> bpf_step data (bpf_stmt 0x7c k) s = Some (Inr (0, s\<lparr>acc := drop_bit (unat (idx s)) (acc s)\<rparr>))"
  "unat k < 16 \<Longrightarrow> bpf_step data (bpf_stmt 0x02 k) s = Some (Inr (0, s\<lparr>scratch := (scratch s)(unat k := acc s)\<rparr>))"
  "unat k < 16 \<Longrightarrow> bpf_step data (bpf_stmt 0x61 k) s = Some (Inr (0, s\<lparr>idx := scratch s (unat k)\<rparr>))"
  by (simp_all add: bpf_step_def bpf_stmt_def)

end
