(* ===== verification/Cgroup_Device.thy ===== *)
theory Cgroup_Device
  imports Bpf
begin

text \<open>
  The device allowlist of a cgroup (\<^verbatim>\<open>src/src/resources/cgroup_device.rs\<close>): the generated filter
  program and the steps that install it. The \<^verbatim>\<open>bpf\<close> system calls and the opening of the cgroup
  directory are arguments. The program is run on the layout of the device context that the source
  gives; that layout is the source's, not the kernel's.
\<close>

definition DEV_ACCESS_ALL :: u32 where
  "DEV_ACCESS_ALL = 1 OR 2 OR 4"

record device_allow_spec =
  is_block :: bool
  dev_major :: u32
  dev_minor :: u32

definition device_type :: "device_allow_spec \<Rightarrow> u32" where
  "device_type self = (if is_block self then 2 else 1)"

definition char_device :: "u32 \<Rightarrow> u32 \<Rightarrow> device_allow_spec" where
  "char_device ma mi = \<lparr>is_block = False, dev_major = ma, dev_minor = mi\<rparr>"

definition base_device_specs :: "bool \<Rightarrow> device_allow_spec list" where
  "base_device_specs include_tty =
     [char_device 1 3, char_device 1 5, char_device 1 7, char_device 1 8, char_device 1 9]
     @ (if include_tty then [char_device 5 0] else [])"

definition ld_abs :: "u32 \<Rightarrow> sock_filter" where
  "ld_abs off = bpf_stmt 0x20 off"

definition jeq_k :: "u32 \<Rightarrow> u8 \<Rightarrow> u8 \<Rightarrow> sock_filter" where
  "jeq_k k jt jf = bpf_jump 0x15 k jt jf"

definition jset_k :: "u32 \<Rightarrow> u8 \<Rightarrow> u8 \<Rightarrow> sock_filter" where
  "jset_k k jt jf = bpf_jump 0x45 k jt jf"

definition ret_k :: "u32 \<Rightarrow> sock_filter" where
  "ret_k k = bpf_stmt 0x06 k"

definition device_entry :: "device_allow_spec \<Rightarrow> sock_filter list" where
  "device_entry spec =
     [ld_abs 4, jeq_k (device_type spec) 0 7, ld_abs 8, jeq_k (dev_major spec) 0 5,
      ld_abs 12, jeq_k (dev_minor spec) 0 3, ld_abs 0, jset_k DEV_ACCESS_ALL 0 1, ret_k 1]"

definition build_device_program :: "device_allow_spec list \<Rightarrow> sock_filter list" where
  "build_device_program specs = concat (map device_entry specs) @ [ret_k 0]"

text \<open>What the system did: descriptors closed, and whether the program was attached.\<close>

datatype device_event = Loaded | OpenedCgroup | Attached | ClosedProg | ClosedCgroup

definition install_device_allowlist ::
  "(sock_filter list \<Rightarrow> bool) \<Rightarrow> bool \<Rightarrow> bool \<Rightarrow> device_allow_spec list \<Rightarrow> bool \<Rightarrow>
   device_event list \<times> bool result" where
  "install_device_allowlist load_ok open_ok attach_ok specs best_effort =
     (if specs = [] then ([], Ok False)
      else if \<not> load_ok (build_device_program specs)
      then ([], if best_effort then Ok False
                else Err (CgroupError ''Failed to load cgroup device BPF: {}''))
      else if \<not> open_ok
      then ([Loaded, ClosedProg], if best_effort then Ok False
                else Err (CgroupError ''Failed to open cgroup {:?}: {}''))
      else if attach_ok then ([Loaded, OpenedCgroup, Attached, ClosedProg, ClosedCgroup], Ok True)
      else ([Loaded, OpenedCgroup, ClosedProg, ClosedCgroup],
            if best_effort then Ok False
            else Err (CgroupError ''Failed to attach cgroup device BPF: {}'')))"

text \<open>A device access request in the layout the generator assumes.\<close>

record device_request =
  req_access :: u32
  req_type :: u32
  req_major :: u32
  req_minor :: u32

definition request_data :: "device_request \<Rightarrow> nat \<Rightarrow> u32 option" where
  "request_data r off =
     (if off = 0 then Some (req_access r) else if off = 4 then Some (req_type r)
      else if off = 8 then Some (req_major r) else if off = 12 then Some (req_minor r) else None)"

definition spec_matches :: "device_allow_spec \<Rightarrow> device_request \<Rightarrow> bool" where
  "spec_matches spec r \<longleftrightarrow> req_type r = device_type spec \<and> req_major r = dev_major spec
     \<and> req_minor r = dev_minor spec \<and> req_access r AND DEV_ACCESS_ALL \<noteq> 0"

lemma exec_device_entry:
  "\<exists>s'. bpf_exec (request_data r) (device_entry spec @ rest) s =
     (if spec_matches spec r then Some 1 else bpf_exec (request_data r) rest s')"
  by (auto simp: device_entry_def ld_abs_def jeq_k_def jset_k_def ret_k_def request_data_def spec_matches_def)

text \<open>
  the device program denies by default: it returns 1 exactly when some entry of the allowlist
  has the type, major and minor number of the requested device and at least one of the requested
  access bits is read, write or mknod, and 0 otherwise. It never reads outside the context and never
  runs off its end.
\<close>

theorem device_program_allows_iff:
  "bpf_exec (request_data r) (build_device_program specs) s =
     Some (if \<exists>spec\<in>set specs. spec_matches spec r then 1 else 0)"
proof -
  have "bpf_exec (request_data r) (concat (map device_entry specs) @ [ret_k 0]) s =
      Some (if \<exists>spec\<in>set specs. spec_matches spec r then 1 else 0)" for s
  proof (induction specs arbitrary: s)
    case (Cons spec specs)
    obtain s' where "bpf_exec (request_data r)
        (device_entry spec @ concat (map device_entry specs) @ [ret_k 0]) s =
      (if spec_matches spec r then Some 1
       else bpf_exec (request_data r) (concat (map device_entry specs) @ [ret_k 0]) s')"
      using exec_device_entry by blast
    with Cons.IH[of s'] show ?case by simp
  qed (simp add: ret_k_def)
  then show ?thesis by (simp add: build_device_program_def)
qed

end
