(* ===== verification/Syscall_Table.thy ===== *)
theory Syscall_Table
  imports Nucleus_Prelude
begin

text \<open>
  Names and numbers of system calls on x86-64: the match of \<^verbatim>\<open>syscall_name_to_number\<close> in
  \<^verbatim>\<open>src/src/security/seccomp.rs\<close> and the table of \<^verbatim>\<open>src/src/security/seccomp_generate.rs\<close>, both in
  the order of the source. The numbers are those of the kernel, as the package \<^verbatim>\<open>libc\<close> has them.
\<close>

section \<open>Numbers of the kernel\<close>

abbreviation SYS_read :: int where "SYS_read \<equiv> 0"
abbreviation SYS_write :: int where "SYS_write \<equiv> 1"
abbreviation SYS_open :: int where "SYS_open \<equiv> 2"
abbreviation SYS_close :: int where "SYS_close \<equiv> 3"
abbreviation SYS_stat :: int where "SYS_stat \<equiv> 4"
abbreviation SYS_fstat :: int where "SYS_fstat \<equiv> 5"
abbreviation SYS_lstat :: int where "SYS_lstat \<equiv> 6"
abbreviation SYS_poll :: int where "SYS_poll \<equiv> 7"
abbreviation SYS_lseek :: int where "SYS_lseek \<equiv> 8"
abbreviation SYS_mmap :: int where "SYS_mmap \<equiv> 9"
abbreviation SYS_mprotect :: int where "SYS_mprotect \<equiv> 10"
abbreviation SYS_munmap :: int where "SYS_munmap \<equiv> 11"
abbreviation SYS_brk :: int where "SYS_brk \<equiv> 12"
abbreviation SYS_rt_sigaction :: int where "SYS_rt_sigaction \<equiv> 13"
abbreviation SYS_rt_sigprocmask :: int where "SYS_rt_sigprocmask \<equiv> 14"
abbreviation SYS_rt_sigreturn :: int where "SYS_rt_sigreturn \<equiv> 15"
abbreviation SYS_ioctl :: int where "SYS_ioctl \<equiv> 16"
abbreviation SYS_pread64 :: int where "SYS_pread64 \<equiv> 17"
abbreviation SYS_pwrite64 :: int where "SYS_pwrite64 \<equiv> 18"
abbreviation SYS_readv :: int where "SYS_readv \<equiv> 19"
abbreviation SYS_writev :: int where "SYS_writev \<equiv> 20"
abbreviation SYS_access :: int where "SYS_access \<equiv> 21"
abbreviation SYS_pipe :: int where "SYS_pipe \<equiv> 22"
abbreviation SYS_select :: int where "SYS_select \<equiv> 23"
abbreviation SYS_sched_yield :: int where "SYS_sched_yield \<equiv> 24"
abbreviation SYS_mremap :: int where "SYS_mremap \<equiv> 25"
abbreviation SYS_msync :: int where "SYS_msync \<equiv> 26"
abbreviation SYS_mincore :: int where "SYS_mincore \<equiv> 27"
abbreviation SYS_madvise :: int where "SYS_madvise \<equiv> 28"
abbreviation SYS_shmget :: int where "SYS_shmget \<equiv> 29"
abbreviation SYS_shmat :: int where "SYS_shmat \<equiv> 30"
abbreviation SYS_shmctl :: int where "SYS_shmctl \<equiv> 31"
abbreviation SYS_dup :: int where "SYS_dup \<equiv> 32"
abbreviation SYS_dup2 :: int where "SYS_dup2 \<equiv> 33"
abbreviation SYS_pause :: int where "SYS_pause \<equiv> 34"
abbreviation SYS_nanosleep :: int where "SYS_nanosleep \<equiv> 35"
abbreviation SYS_getitimer :: int where "SYS_getitimer \<equiv> 36"
abbreviation SYS_alarm :: int where "SYS_alarm \<equiv> 37"
abbreviation SYS_setitimer :: int where "SYS_setitimer \<equiv> 38"
abbreviation SYS_getpid :: int where "SYS_getpid \<equiv> 39"
abbreviation SYS_sendfile :: int where "SYS_sendfile \<equiv> 40"
abbreviation SYS_socket :: int where "SYS_socket \<equiv> 41"
abbreviation SYS_connect :: int where "SYS_connect \<equiv> 42"
abbreviation SYS_accept :: int where "SYS_accept \<equiv> 43"
abbreviation SYS_sendto :: int where "SYS_sendto \<equiv> 44"
abbreviation SYS_recvfrom :: int where "SYS_recvfrom \<equiv> 45"
abbreviation SYS_sendmsg :: int where "SYS_sendmsg \<equiv> 46"
abbreviation SYS_recvmsg :: int where "SYS_recvmsg \<equiv> 47"
abbreviation SYS_shutdown :: int where "SYS_shutdown \<equiv> 48"
abbreviation SYS_bind :: int where "SYS_bind \<equiv> 49"
abbreviation SYS_listen :: int where "SYS_listen \<equiv> 50"
abbreviation SYS_getsockname :: int where "SYS_getsockname \<equiv> 51"
abbreviation SYS_getpeername :: int where "SYS_getpeername \<equiv> 52"
abbreviation SYS_socketpair :: int where "SYS_socketpair \<equiv> 53"
abbreviation SYS_setsockopt :: int where "SYS_setsockopt \<equiv> 54"
abbreviation SYS_getsockopt :: int where "SYS_getsockopt \<equiv> 55"
abbreviation SYS_clone :: int where "SYS_clone \<equiv> 56"
abbreviation SYS_fork :: int where "SYS_fork \<equiv> 57"
abbreviation SYS_vfork :: int where "SYS_vfork \<equiv> 58"
abbreviation SYS_execve :: int where "SYS_execve \<equiv> 59"
abbreviation SYS_exit :: int where "SYS_exit \<equiv> 60"
abbreviation SYS_wait4 :: int where "SYS_wait4 \<equiv> 61"
abbreviation SYS_kill :: int where "SYS_kill \<equiv> 62"
abbreviation SYS_uname :: int where "SYS_uname \<equiv> 63"
abbreviation SYS_semget :: int where "SYS_semget \<equiv> 64"
abbreviation SYS_semop :: int where "SYS_semop \<equiv> 65"
abbreviation SYS_semctl :: int where "SYS_semctl \<equiv> 66"
abbreviation SYS_shmdt :: int where "SYS_shmdt \<equiv> 67"
abbreviation SYS_msgget :: int where "SYS_msgget \<equiv> 68"
abbreviation SYS_msgsnd :: int where "SYS_msgsnd \<equiv> 69"
abbreviation SYS_msgrcv :: int where "SYS_msgrcv \<equiv> 70"
abbreviation SYS_msgctl :: int where "SYS_msgctl \<equiv> 71"
abbreviation SYS_fcntl :: int where "SYS_fcntl \<equiv> 72"
abbreviation SYS_flock :: int where "SYS_flock \<equiv> 73"
abbreviation SYS_fsync :: int where "SYS_fsync \<equiv> 74"
abbreviation SYS_fdatasync :: int where "SYS_fdatasync \<equiv> 75"
abbreviation SYS_truncate :: int where "SYS_truncate \<equiv> 76"
abbreviation SYS_ftruncate :: int where "SYS_ftruncate \<equiv> 77"
abbreviation SYS_getdents :: int where "SYS_getdents \<equiv> 78"
abbreviation SYS_getcwd :: int where "SYS_getcwd \<equiv> 79"
abbreviation SYS_chdir :: int where "SYS_chdir \<equiv> 80"
abbreviation SYS_fchdir :: int where "SYS_fchdir \<equiv> 81"
abbreviation SYS_rename :: int where "SYS_rename \<equiv> 82"
abbreviation SYS_mkdir :: int where "SYS_mkdir \<equiv> 83"
abbreviation SYS_rmdir :: int where "SYS_rmdir \<equiv> 84"
abbreviation SYS_creat :: int where "SYS_creat \<equiv> 85"
abbreviation SYS_link :: int where "SYS_link \<equiv> 86"
abbreviation SYS_unlink :: int where "SYS_unlink \<equiv> 87"
abbreviation SYS_symlink :: int where "SYS_symlink \<equiv> 88"
abbreviation SYS_readlink :: int where "SYS_readlink \<equiv> 89"
abbreviation SYS_chmod :: int where "SYS_chmod \<equiv> 90"
abbreviation SYS_fchmod :: int where "SYS_fchmod \<equiv> 91"
abbreviation SYS_chown :: int where "SYS_chown \<equiv> 92"
abbreviation SYS_fchown :: int where "SYS_fchown \<equiv> 93"
abbreviation SYS_lchown :: int where "SYS_lchown \<equiv> 94"
abbreviation SYS_umask :: int where "SYS_umask \<equiv> 95"
abbreviation SYS_gettimeofday :: int where "SYS_gettimeofday \<equiv> 96"
abbreviation SYS_getrlimit :: int where "SYS_getrlimit \<equiv> 97"
abbreviation SYS_getrusage :: int where "SYS_getrusage \<equiv> 98"
abbreviation SYS_sysinfo :: int where "SYS_sysinfo \<equiv> 99"
abbreviation SYS_times :: int where "SYS_times \<equiv> 100"
abbreviation SYS_ptrace :: int where "SYS_ptrace \<equiv> 101"
abbreviation SYS_getuid :: int where "SYS_getuid \<equiv> 102"
abbreviation SYS_syslog :: int where "SYS_syslog \<equiv> 103"
abbreviation SYS_getgid :: int where "SYS_getgid \<equiv> 104"
abbreviation SYS_setuid :: int where "SYS_setuid \<equiv> 105"
abbreviation SYS_setgid :: int where "SYS_setgid \<equiv> 106"
abbreviation SYS_geteuid :: int where "SYS_geteuid \<equiv> 107"
abbreviation SYS_getegid :: int where "SYS_getegid \<equiv> 108"
abbreviation SYS_setpgid :: int where "SYS_setpgid \<equiv> 109"
abbreviation SYS_getppid :: int where "SYS_getppid \<equiv> 110"
abbreviation SYS_getpgrp :: int where "SYS_getpgrp \<equiv> 111"
abbreviation SYS_setsid :: int where "SYS_setsid \<equiv> 112"
abbreviation SYS_setreuid :: int where "SYS_setreuid \<equiv> 113"
abbreviation SYS_setregid :: int where "SYS_setregid \<equiv> 114"
abbreviation SYS_getgroups :: int where "SYS_getgroups \<equiv> 115"
abbreviation SYS_setgroups :: int where "SYS_setgroups \<equiv> 116"
abbreviation SYS_setresuid :: int where "SYS_setresuid \<equiv> 117"
abbreviation SYS_getresuid :: int where "SYS_getresuid \<equiv> 118"
abbreviation SYS_setresgid :: int where "SYS_setresgid \<equiv> 119"
abbreviation SYS_getresgid :: int where "SYS_getresgid \<equiv> 120"
abbreviation SYS_getpgid :: int where "SYS_getpgid \<equiv> 121"
abbreviation SYS_setfsuid :: int where "SYS_setfsuid \<equiv> 122"
abbreviation SYS_setfsgid :: int where "SYS_setfsgid \<equiv> 123"
abbreviation SYS_getsid :: int where "SYS_getsid \<equiv> 124"
abbreviation SYS_capget :: int where "SYS_capget \<equiv> 125"
abbreviation SYS_capset :: int where "SYS_capset \<equiv> 126"
abbreviation SYS_rt_sigpending :: int where "SYS_rt_sigpending \<equiv> 127"
abbreviation SYS_rt_sigtimedwait :: int where "SYS_rt_sigtimedwait \<equiv> 128"
abbreviation SYS_rt_sigqueueinfo :: int where "SYS_rt_sigqueueinfo \<equiv> 129"
abbreviation SYS_rt_sigsuspend :: int where "SYS_rt_sigsuspend \<equiv> 130"
abbreviation SYS_sigaltstack :: int where "SYS_sigaltstack \<equiv> 131"
abbreviation SYS_utime :: int where "SYS_utime \<equiv> 132"
abbreviation SYS_mknod :: int where "SYS_mknod \<equiv> 133"
abbreviation SYS_personality :: int where "SYS_personality \<equiv> 135"
abbreviation SYS_ustat :: int where "SYS_ustat \<equiv> 136"
abbreviation SYS_statfs :: int where "SYS_statfs \<equiv> 137"
abbreviation SYS_fstatfs :: int where "SYS_fstatfs \<equiv> 138"
abbreviation SYS_sysfs :: int where "SYS_sysfs \<equiv> 139"
abbreviation SYS_getpriority :: int where "SYS_getpriority \<equiv> 140"
abbreviation SYS_setpriority :: int where "SYS_setpriority \<equiv> 141"
abbreviation SYS_sched_setparam :: int where "SYS_sched_setparam \<equiv> 142"
abbreviation SYS_sched_getparam :: int where "SYS_sched_getparam \<equiv> 143"
abbreviation SYS_sched_setscheduler :: int where "SYS_sched_setscheduler \<equiv> 144"
abbreviation SYS_sched_getscheduler :: int where "SYS_sched_getscheduler \<equiv> 145"
abbreviation SYS_sched_get_priority_max :: int where "SYS_sched_get_priority_max \<equiv> 146"
abbreviation SYS_sched_get_priority_min :: int where "SYS_sched_get_priority_min \<equiv> 147"
abbreviation SYS_sched_rr_get_interval :: int where "SYS_sched_rr_get_interval \<equiv> 148"
abbreviation SYS_mlock :: int where "SYS_mlock \<equiv> 149"
abbreviation SYS_munlock :: int where "SYS_munlock \<equiv> 150"
abbreviation SYS_mlockall :: int where "SYS_mlockall \<equiv> 151"
abbreviation SYS_munlockall :: int where "SYS_munlockall \<equiv> 152"
abbreviation SYS_vhangup :: int where "SYS_vhangup \<equiv> 153"
abbreviation SYS_modify_ldt :: int where "SYS_modify_ldt \<equiv> 154"
abbreviation SYS_pivot_root :: int where "SYS_pivot_root \<equiv> 155"
abbreviation SYS_prctl :: int where "SYS_prctl \<equiv> 157"
abbreviation SYS_arch_prctl :: int where "SYS_arch_prctl \<equiv> 158"
abbreviation SYS_adjtimex :: int where "SYS_adjtimex \<equiv> 159"
abbreviation SYS_setrlimit :: int where "SYS_setrlimit \<equiv> 160"
abbreviation SYS_chroot :: int where "SYS_chroot \<equiv> 161"
abbreviation SYS_sync :: int where "SYS_sync \<equiv> 162"
abbreviation SYS_acct :: int where "SYS_acct \<equiv> 163"
abbreviation SYS_settimeofday :: int where "SYS_settimeofday \<equiv> 164"
abbreviation SYS_mount :: int where "SYS_mount \<equiv> 165"
abbreviation SYS_umount2 :: int where "SYS_umount2 \<equiv> 166"
abbreviation SYS_swapon :: int where "SYS_swapon \<equiv> 167"
abbreviation SYS_swapoff :: int where "SYS_swapoff \<equiv> 168"
abbreviation SYS_reboot :: int where "SYS_reboot \<equiv> 169"
abbreviation SYS_sethostname :: int where "SYS_sethostname \<equiv> 170"
abbreviation SYS_setdomainname :: int where "SYS_setdomainname \<equiv> 171"
abbreviation SYS_iopl :: int where "SYS_iopl \<equiv> 172"
abbreviation SYS_ioperm :: int where "SYS_ioperm \<equiv> 173"
abbreviation SYS_init_module :: int where "SYS_init_module \<equiv> 175"
abbreviation SYS_delete_module :: int where "SYS_delete_module \<equiv> 176"
abbreviation SYS_quotactl :: int where "SYS_quotactl \<equiv> 179"
abbreviation SYS_gettid :: int where "SYS_gettid \<equiv> 186"
abbreviation SYS_readahead :: int where "SYS_readahead \<equiv> 187"
abbreviation SYS_setxattr :: int where "SYS_setxattr \<equiv> 188"
abbreviation SYS_lsetxattr :: int where "SYS_lsetxattr \<equiv> 189"
abbreviation SYS_fsetxattr :: int where "SYS_fsetxattr \<equiv> 190"
abbreviation SYS_getxattr :: int where "SYS_getxattr \<equiv> 191"
abbreviation SYS_lgetxattr :: int where "SYS_lgetxattr \<equiv> 192"
abbreviation SYS_fgetxattr :: int where "SYS_fgetxattr \<equiv> 193"
abbreviation SYS_listxattr :: int where "SYS_listxattr \<equiv> 194"
abbreviation SYS_llistxattr :: int where "SYS_llistxattr \<equiv> 195"
abbreviation SYS_flistxattr :: int where "SYS_flistxattr \<equiv> 196"
abbreviation SYS_removexattr :: int where "SYS_removexattr \<equiv> 197"
abbreviation SYS_lremovexattr :: int where "SYS_lremovexattr \<equiv> 198"
abbreviation SYS_fremovexattr :: int where "SYS_fremovexattr \<equiv> 199"
abbreviation SYS_tkill :: int where "SYS_tkill \<equiv> 200"
abbreviation SYS_time :: int where "SYS_time \<equiv> 201"
abbreviation SYS_futex :: int where "SYS_futex \<equiv> 202"
abbreviation SYS_sched_setaffinity :: int where "SYS_sched_setaffinity \<equiv> 203"
abbreviation SYS_sched_getaffinity :: int where "SYS_sched_getaffinity \<equiv> 204"
abbreviation SYS_io_setup :: int where "SYS_io_setup \<equiv> 206"
abbreviation SYS_io_destroy :: int where "SYS_io_destroy \<equiv> 207"
abbreviation SYS_io_getevents :: int where "SYS_io_getevents \<equiv> 208"
abbreviation SYS_io_submit :: int where "SYS_io_submit \<equiv> 209"
abbreviation SYS_lookup_dcookie :: int where "SYS_lookup_dcookie \<equiv> 212"
abbreviation SYS_epoll_create :: int where "SYS_epoll_create \<equiv> 213"
abbreviation SYS_remap_file_pages :: int where "SYS_remap_file_pages \<equiv> 216"
abbreviation SYS_getdents64 :: int where "SYS_getdents64 \<equiv> 217"
abbreviation SYS_set_tid_address :: int where "SYS_set_tid_address \<equiv> 218"
abbreviation SYS_restart_syscall :: int where "SYS_restart_syscall \<equiv> 219"
abbreviation SYS_semtimedop :: int where "SYS_semtimedop \<equiv> 220"
abbreviation SYS_fadvise64 :: int where "SYS_fadvise64 \<equiv> 221"
abbreviation SYS_timer_create :: int where "SYS_timer_create \<equiv> 222"
abbreviation SYS_timer_settime :: int where "SYS_timer_settime \<equiv> 223"
abbreviation SYS_timer_gettime :: int where "SYS_timer_gettime \<equiv> 224"
abbreviation SYS_timer_getoverrun :: int where "SYS_timer_getoverrun \<equiv> 225"
abbreviation SYS_timer_delete :: int where "SYS_timer_delete \<equiv> 226"
abbreviation SYS_clock_settime :: int where "SYS_clock_settime \<equiv> 227"
abbreviation SYS_clock_gettime :: int where "SYS_clock_gettime \<equiv> 228"
abbreviation SYS_clock_getres :: int where "SYS_clock_getres \<equiv> 229"
abbreviation SYS_clock_nanosleep :: int where "SYS_clock_nanosleep \<equiv> 230"
abbreviation SYS_exit_group :: int where "SYS_exit_group \<equiv> 231"
abbreviation SYS_epoll_wait :: int where "SYS_epoll_wait \<equiv> 232"
abbreviation SYS_epoll_ctl :: int where "SYS_epoll_ctl \<equiv> 233"
abbreviation SYS_tgkill :: int where "SYS_tgkill \<equiv> 234"
abbreviation SYS_utimes :: int where "SYS_utimes \<equiv> 235"
abbreviation SYS_mbind :: int where "SYS_mbind \<equiv> 237"
abbreviation SYS_set_mempolicy :: int where "SYS_set_mempolicy \<equiv> 238"
abbreviation SYS_get_mempolicy :: int where "SYS_get_mempolicy \<equiv> 239"
abbreviation SYS_mq_open :: int where "SYS_mq_open \<equiv> 240"
abbreviation SYS_mq_unlink :: int where "SYS_mq_unlink \<equiv> 241"
abbreviation SYS_mq_timedsend :: int where "SYS_mq_timedsend \<equiv> 242"
abbreviation SYS_mq_timedreceive :: int where "SYS_mq_timedreceive \<equiv> 243"
abbreviation SYS_mq_notify :: int where "SYS_mq_notify \<equiv> 244"
abbreviation SYS_mq_getsetattr :: int where "SYS_mq_getsetattr \<equiv> 245"
abbreviation SYS_kexec_load :: int where "SYS_kexec_load \<equiv> 246"
abbreviation SYS_waitid :: int where "SYS_waitid \<equiv> 247"
abbreviation SYS_add_key :: int where "SYS_add_key \<equiv> 248"
abbreviation SYS_request_key :: int where "SYS_request_key \<equiv> 249"
abbreviation SYS_keyctl :: int where "SYS_keyctl \<equiv> 250"
abbreviation SYS_ioprio_set :: int where "SYS_ioprio_set \<equiv> 251"
abbreviation SYS_ioprio_get :: int where "SYS_ioprio_get \<equiv> 252"
abbreviation SYS_inotify_init :: int where "SYS_inotify_init \<equiv> 253"
abbreviation SYS_inotify_add_watch :: int where "SYS_inotify_add_watch \<equiv> 254"
abbreviation SYS_inotify_rm_watch :: int where "SYS_inotify_rm_watch \<equiv> 255"
abbreviation SYS_migrate_pages :: int where "SYS_migrate_pages \<equiv> 256"
abbreviation SYS_openat :: int where "SYS_openat \<equiv> 257"
abbreviation SYS_mkdirat :: int where "SYS_mkdirat \<equiv> 258"
abbreviation SYS_mknodat :: int where "SYS_mknodat \<equiv> 259"
abbreviation SYS_fchownat :: int where "SYS_fchownat \<equiv> 260"
abbreviation SYS_futimesat :: int where "SYS_futimesat \<equiv> 261"
abbreviation SYS_newfstatat :: int where "SYS_newfstatat \<equiv> 262"
abbreviation SYS_unlinkat :: int where "SYS_unlinkat \<equiv> 263"
abbreviation SYS_renameat :: int where "SYS_renameat \<equiv> 264"
abbreviation SYS_linkat :: int where "SYS_linkat \<equiv> 265"
abbreviation SYS_symlinkat :: int where "SYS_symlinkat \<equiv> 266"
abbreviation SYS_readlinkat :: int where "SYS_readlinkat \<equiv> 267"
abbreviation SYS_fchmodat :: int where "SYS_fchmodat \<equiv> 268"
abbreviation SYS_faccessat :: int where "SYS_faccessat \<equiv> 269"
abbreviation SYS_pselect6 :: int where "SYS_pselect6 \<equiv> 270"
abbreviation SYS_ppoll :: int where "SYS_ppoll \<equiv> 271"
abbreviation SYS_unshare :: int where "SYS_unshare \<equiv> 272"
abbreviation SYS_set_robust_list :: int where "SYS_set_robust_list \<equiv> 273"
abbreviation SYS_get_robust_list :: int where "SYS_get_robust_list \<equiv> 274"
abbreviation SYS_splice :: int where "SYS_splice \<equiv> 275"
abbreviation SYS_tee :: int where "SYS_tee \<equiv> 276"
abbreviation SYS_sync_file_range :: int where "SYS_sync_file_range \<equiv> 277"
abbreviation SYS_vmsplice :: int where "SYS_vmsplice \<equiv> 278"
abbreviation SYS_move_pages :: int where "SYS_move_pages \<equiv> 279"
abbreviation SYS_utimensat :: int where "SYS_utimensat \<equiv> 280"
abbreviation SYS_epoll_pwait :: int where "SYS_epoll_pwait \<equiv> 281"
abbreviation SYS_signalfd :: int where "SYS_signalfd \<equiv> 282"
abbreviation SYS_timerfd_create :: int where "SYS_timerfd_create \<equiv> 283"
abbreviation SYS_eventfd :: int where "SYS_eventfd \<equiv> 284"
abbreviation SYS_fallocate :: int where "SYS_fallocate \<equiv> 285"
abbreviation SYS_timerfd_settime :: int where "SYS_timerfd_settime \<equiv> 286"
abbreviation SYS_timerfd_gettime :: int where "SYS_timerfd_gettime \<equiv> 287"
abbreviation SYS_accept4 :: int where "SYS_accept4 \<equiv> 288"
abbreviation SYS_signalfd4 :: int where "SYS_signalfd4 \<equiv> 289"
abbreviation SYS_eventfd2 :: int where "SYS_eventfd2 \<equiv> 290"
abbreviation SYS_epoll_create1 :: int where "SYS_epoll_create1 \<equiv> 291"
abbreviation SYS_dup3 :: int where "SYS_dup3 \<equiv> 292"
abbreviation SYS_pipe2 :: int where "SYS_pipe2 \<equiv> 293"
abbreviation SYS_inotify_init1 :: int where "SYS_inotify_init1 \<equiv> 294"
abbreviation SYS_preadv :: int where "SYS_preadv \<equiv> 295"
abbreviation SYS_pwritev :: int where "SYS_pwritev \<equiv> 296"
abbreviation SYS_rt_tgsigqueueinfo :: int where "SYS_rt_tgsigqueueinfo \<equiv> 297"
abbreviation SYS_perf_event_open :: int where "SYS_perf_event_open \<equiv> 298"
abbreviation SYS_recvmmsg :: int where "SYS_recvmmsg \<equiv> 299"
abbreviation SYS_fanotify_init :: int where "SYS_fanotify_init \<equiv> 300"
abbreviation SYS_fanotify_mark :: int where "SYS_fanotify_mark \<equiv> 301"
abbreviation SYS_prlimit64 :: int where "SYS_prlimit64 \<equiv> 302"
abbreviation SYS_name_to_handle_at :: int where "SYS_name_to_handle_at \<equiv> 303"
abbreviation SYS_open_by_handle_at :: int where "SYS_open_by_handle_at \<equiv> 304"
abbreviation SYS_clock_adjtime :: int where "SYS_clock_adjtime \<equiv> 305"
abbreviation SYS_syncfs :: int where "SYS_syncfs \<equiv> 306"
abbreviation SYS_sendmmsg :: int where "SYS_sendmmsg \<equiv> 307"
abbreviation SYS_setns :: int where "SYS_setns \<equiv> 308"
abbreviation SYS_getcpu :: int where "SYS_getcpu \<equiv> 309"
abbreviation SYS_process_vm_readv :: int where "SYS_process_vm_readv \<equiv> 310"
abbreviation SYS_process_vm_writev :: int where "SYS_process_vm_writev \<equiv> 311"
abbreviation SYS_kcmp :: int where "SYS_kcmp \<equiv> 312"
abbreviation SYS_finit_module :: int where "SYS_finit_module \<equiv> 313"
abbreviation SYS_sched_setattr :: int where "SYS_sched_setattr \<equiv> 314"
abbreviation SYS_sched_getattr :: int where "SYS_sched_getattr \<equiv> 315"
abbreviation SYS_renameat2 :: int where "SYS_renameat2 \<equiv> 316"
abbreviation SYS_seccomp :: int where "SYS_seccomp \<equiv> 317"
abbreviation SYS_getrandom :: int where "SYS_getrandom \<equiv> 318"
abbreviation SYS_memfd_create :: int where "SYS_memfd_create \<equiv> 319"
abbreviation SYS_kexec_file_load :: int where "SYS_kexec_file_load \<equiv> 320"
abbreviation SYS_bpf :: int where "SYS_bpf \<equiv> 321"
abbreviation SYS_execveat :: int where "SYS_execveat \<equiv> 322"
abbreviation SYS_userfaultfd :: int where "SYS_userfaultfd \<equiv> 323"
abbreviation SYS_membarrier :: int where "SYS_membarrier \<equiv> 324"
abbreviation SYS_mlock2 :: int where "SYS_mlock2 \<equiv> 325"
abbreviation SYS_copy_file_range :: int where "SYS_copy_file_range \<equiv> 326"
abbreviation SYS_preadv2 :: int where "SYS_preadv2 \<equiv> 327"
abbreviation SYS_pwritev2 :: int where "SYS_pwritev2 \<equiv> 328"
abbreviation SYS_pkey_mprotect :: int where "SYS_pkey_mprotect \<equiv> 329"
abbreviation SYS_pkey_alloc :: int where "SYS_pkey_alloc \<equiv> 330"
abbreviation SYS_pkey_free :: int where "SYS_pkey_free \<equiv> 331"
abbreviation SYS_statx :: int where "SYS_statx \<equiv> 332"
abbreviation SYS_rseq :: int where "SYS_rseq \<equiv> 334"
abbreviation SYS_pidfd_send_signal :: int where "SYS_pidfd_send_signal \<equiv> 424"
abbreviation SYS_io_uring_setup :: int where "SYS_io_uring_setup \<equiv> 425"
abbreviation SYS_io_uring_enter :: int where "SYS_io_uring_enter \<equiv> 426"
abbreviation SYS_io_uring_register :: int where "SYS_io_uring_register \<equiv> 427"
abbreviation SYS_open_tree :: int where "SYS_open_tree \<equiv> 428"
abbreviation SYS_move_mount :: int where "SYS_move_mount \<equiv> 429"
abbreviation SYS_fsopen :: int where "SYS_fsopen \<equiv> 430"
abbreviation SYS_fsconfig :: int where "SYS_fsconfig \<equiv> 431"
abbreviation SYS_fsmount :: int where "SYS_fsmount \<equiv> 432"
abbreviation SYS_fspick :: int where "SYS_fspick \<equiv> 433"
abbreviation SYS_pidfd_open :: int where "SYS_pidfd_open \<equiv> 434"
abbreviation SYS_clone3 :: int where "SYS_clone3 \<equiv> 435"
abbreviation SYS_close_range :: int where "SYS_close_range \<equiv> 436"
abbreviation SYS_openat2 :: int where "SYS_openat2 \<equiv> 437"
abbreviation SYS_pidfd_getfd :: int where "SYS_pidfd_getfd \<equiv> 438"
abbreviation SYS_faccessat2 :: int where "SYS_faccessat2 \<equiv> 439"
abbreviation SYS_process_madvise :: int where "SYS_process_madvise \<equiv> 440"
abbreviation SYS_epoll_pwait2 :: int where "SYS_epoll_pwait2 \<equiv> 441"
abbreviation SYS_mount_setattr :: int where "SYS_mount_setattr \<equiv> 442"
abbreviation SYS_quotactl_fd :: int where "SYS_quotactl_fd \<equiv> 443"
abbreviation SYS_landlock_create_ruleset :: int where "SYS_landlock_create_ruleset \<equiv> 444"
abbreviation SYS_landlock_add_rule :: int where "SYS_landlock_add_rule \<equiv> 445"
abbreviation SYS_landlock_restrict_self :: int where "SYS_landlock_restrict_self \<equiv> 446"
abbreviation SYS_memfd_secret :: int where "SYS_memfd_secret \<equiv> 447"
abbreviation SYS_process_mrelease :: int where "SYS_process_mrelease \<equiv> 448"
abbreviation SYS_futex_waitv :: int where "SYS_futex_waitv \<equiv> 449"
abbreviation SYS_set_mempolicy_home_node :: int where "SYS_set_mempolicy_home_node \<equiv> 450"
abbreviation SYS_fchmodat2 :: int where "SYS_fchmodat2 \<equiv> 452"
abbreviation SYS_mseal :: int where "SYS_mseal \<equiv> 462"

section \<open>The two tables\<close>

text \<open>A match on a string: the first arm that is equal to it.\<close>

definition syscall_arms :: "(string \<times> int) list" where
  "syscall_arms =
    [(''read'', SYS_read), (''write'', SYS_write), (''open'', SYS_open), (''openat'', SYS_openat),
     (''close'', SYS_close), (''stat'', SYS_stat), (''fstat'', SYS_fstat), (''lstat'', SYS_lstat),
     (''lseek'', SYS_lseek), (''access'', SYS_access), (''fcntl'', SYS_fcntl), (''readv'', SYS_readv),
     (''writev'', SYS_writev), (''preadv'', SYS_preadv), (''pwritev'', SYS_pwritev), (''preadv2'', SYS_preadv2),
     (''pwritev2'', SYS_pwritev2), (''pread64'', SYS_pread64), (''pwrite64'', SYS_pwrite64),
     (''readlink'', SYS_readlink), (''readlinkat'', SYS_readlinkat), (''newfstatat'', SYS_newfstatat),
     (''statx'', SYS_statx), (''faccessat'', SYS_faccessat), (''faccessat2'', SYS_faccessat2),
     (''dup'', SYS_dup), (''dup2'', SYS_dup2), (''dup3'', SYS_dup3), (''pipe'', SYS_pipe),
     (''pipe2'', SYS_pipe2), (''unlink'', SYS_unlink), (''unlinkat'', SYS_unlinkat), (''rename'', SYS_rename),
     (''renameat'', SYS_renameat), (''renameat2'', SYS_renameat2), (''link'', SYS_link),
     (''linkat'', SYS_linkat), (''symlink'', SYS_symlink), (''symlinkat'', SYS_symlinkat),
     (''chmod'', SYS_chmod), (''fchmod'', SYS_fchmod), (''fchmodat'', SYS_fchmodat),
     (''truncate'', SYS_truncate), (''ftruncate'', SYS_ftruncate), (''fallocate'', SYS_fallocate),
     (''fadvise64'', SYS_fadvise64), (''fsync'', SYS_fsync), (''fdatasync'', SYS_fdatasync),
     (''flock'', SYS_flock), (''sendfile'', SYS_sendfile), (''copy_file_range'', SYS_copy_file_range),
     (''splice'', SYS_splice), (''tee'', SYS_tee), (''mmap'', SYS_mmap), (''munmap'', SYS_munmap),
     (''mprotect'', SYS_mprotect), (''brk'', SYS_brk), (''mremap'', SYS_mremap), (''madvise'', SYS_madvise),
     (''msync'', SYS_msync), (''mlock'', SYS_mlock), (''mlock2'', SYS_mlock2), (''munlock'', SYS_munlock),
     (''shmget'', SYS_shmget), (''shmat'', SYS_shmat), (''shmdt'', SYS_shmdt), (''shmctl'', SYS_shmctl),
     (''semget'', SYS_semget), (''semop'', SYS_semop), (''semctl'', SYS_semctl),
     (''semtimedop'', SYS_semtimedop), (''fork'', SYS_fork), (''clone'', SYS_clone), (''clone3'', SYS_clone3),
     (''execve'', SYS_execve), (''execveat'', SYS_execveat), (''wait4'', SYS_wait4), (''waitid'', SYS_waitid),
     (''exit'', SYS_exit), (''exit_group'', SYS_exit_group), (''getpid'', SYS_getpid), (''gettid'', SYS_gettid),
     (''getuid'', SYS_getuid), (''getgid'', SYS_getgid), (''geteuid'', SYS_geteuid), (''getegid'', SYS_getegid),
     (''getppid'', SYS_getppid), (''getpgrp'', SYS_getpgrp), (''setsid'', SYS_setsid),
     (''getgroups'', SYS_getgroups), (''rt_sigaction'', SYS_rt_sigaction),
     (''rt_sigprocmask'', SYS_rt_sigprocmask), (''rt_sigreturn'', SYS_rt_sigreturn),
     (''rt_sigsuspend'', SYS_rt_sigsuspend), (''rt_sigtimedwait'', SYS_rt_sigtimedwait),
     (''rt_sigpending'', SYS_rt_sigpending), (''rt_sigqueueinfo'', SYS_rt_sigqueueinfo),
     (''sigaltstack'', SYS_sigaltstack), (''restart_syscall'', SYS_restart_syscall), (''kill'', SYS_kill),
     (''tgkill'', SYS_tgkill), (''clock_gettime'', SYS_clock_gettime), (''clock_getres'', SYS_clock_getres),
     (''clock_nanosleep'', SYS_clock_nanosleep), (''gettimeofday'', SYS_gettimeofday),
     (''nanosleep'', SYS_nanosleep), (''getcwd'', SYS_getcwd), (''chdir'', SYS_chdir), (''fchdir'', SYS_fchdir),
     (''mkdir'', SYS_mkdir), (''mkdirat'', SYS_mkdirat), (''rmdir'', SYS_rmdir), (''getdents'', SYS_getdents),
     (''getdents64'', SYS_getdents64), (''socket'', SYS_socket), (''connect'', SYS_connect),
     (''sendto'', SYS_sendto), (''recvfrom'', SYS_recvfrom), (''sendmsg'', SYS_sendmsg),
     (''recvmsg'', SYS_recvmsg), (''shutdown'', SYS_shutdown), (''bind'', SYS_bind), (''listen'', SYS_listen),
     (''accept'', SYS_accept), (''accept4'', SYS_accept4), (''setsockopt'', SYS_setsockopt),
     (''getsockopt'', SYS_getsockopt), (''getsockname'', SYS_getsockname), (''getpeername'', SYS_getpeername),
     (''socketpair'', SYS_socketpair), (''poll'', SYS_poll), (''ppoll'', SYS_ppoll), (''select'', SYS_select),
     (''pselect6'', SYS_pselect6), (''epoll_create'', SYS_epoll_create), (''epoll_create1'', SYS_epoll_create1),
     (''epoll_ctl'', SYS_epoll_ctl), (''epoll_wait'', SYS_epoll_wait), (''epoll_pwait'', SYS_epoll_pwait),
     (''eventfd'', SYS_eventfd), (''eventfd2'', SYS_eventfd2), (''signalfd'', SYS_signalfd),
     (''signalfd4'', SYS_signalfd4), (''timerfd_create'', SYS_timerfd_create),
     (''timerfd_settime'', SYS_timerfd_settime), (''timerfd_gettime'', SYS_timerfd_gettime),
     (''uname'', SYS_uname), (''getrandom'', SYS_getrandom), (''futex'', SYS_futex),
     (''set_tid_address'', SYS_set_tid_address), (''set_robust_list'', SYS_set_robust_list),
     (''get_robust_list'', SYS_get_robust_list), (''arch_prctl'', SYS_arch_prctl), (''sysinfo'', SYS_sysinfo),
     (''umask'', SYS_umask), (''getrlimit'', SYS_getrlimit), (''prlimit64'', SYS_prlimit64),
     (''getrusage'', SYS_getrusage), (''times'', SYS_times), (''sched_yield'', SYS_sched_yield),
     (''sched_getaffinity'', SYS_sched_getaffinity), (''getcpu'', SYS_getcpu), (''rseq'', SYS_rseq),
     (''close_range'', SYS_close_range), (''fchown'', SYS_fchown), (''fchownat'', SYS_fchownat),
     (''chown'', SYS_chown), (''lchown'', SYS_lchown), (''io_uring_setup'', SYS_io_uring_setup),
     (''io_uring_enter'', SYS_io_uring_enter), (''io_uring_register'', SYS_io_uring_register),
     (''io_setup'', SYS_io_setup), (''io_destroy'', SYS_io_destroy), (''io_submit'', SYS_io_submit),
     (''io_getevents'', SYS_io_getevents), (''setitimer'', SYS_setitimer), (''getitimer'', SYS_getitimer),
     (''setpgid'', SYS_setpgid), (''getpgid'', SYS_getpgid), (''memfd_create'', SYS_memfd_create),
     (''ioctl'', SYS_ioctl), (''prctl'', SYS_prctl), (''landlock_create_ruleset'', SYS_landlock_create_ruleset),
     (''landlock_add_rule'', SYS_landlock_add_rule), (''landlock_restrict_self'', SYS_landlock_restrict_self),
     (''mincore'', SYS_mincore), (''mlockall'', SYS_mlockall), (''munlockall'', SYS_munlockall),
     (''mbind'', SYS_mbind), (''set_mempolicy'', SYS_set_mempolicy), (''get_mempolicy'', SYS_get_mempolicy),
     (''memfd_secret'', SYS_memfd_secret), (''membarrier'', SYS_membarrier),
     (''process_madvise'', SYS_process_madvise), (''pkey_mprotect'', SYS_pkey_mprotect),
     (''pkey_alloc'', SYS_pkey_alloc), (''pkey_free'', SYS_pkey_free), (''mseal'', SYS_mseal),
     (''map_shadow_stack'', 453), (''remap_file_pages'', SYS_remap_file_pages),
     (''set_mempolicy_home_node'', SYS_set_mempolicy_home_node), (''cachestat'', 451), (''vfork'', SYS_vfork),
     (''pause'', SYS_pause), (''alarm'', SYS_alarm), (''tkill'', SYS_tkill), (''ptrace'', SYS_ptrace),
     (''process_vm_readv'', SYS_process_vm_readv), (''process_vm_writev'', SYS_process_vm_writev),
     (''process_mrelease'', SYS_process_mrelease), (''kcmp'', SYS_kcmp), (''unshare'', SYS_unshare),
     (''setns'', SYS_setns), (''pidfd_open'', SYS_pidfd_open), (''pidfd_send_signal'', SYS_pidfd_send_signal),
     (''pidfd_getfd'', SYS_pidfd_getfd), (''setuid'', SYS_setuid), (''setgid'', SYS_setgid),
     (''setreuid'', SYS_setreuid), (''setregid'', SYS_setregid), (''setresuid'', SYS_setresuid),
     (''getresuid'', SYS_getresuid), (''setresgid'', SYS_setresgid), (''getresgid'', SYS_getresgid),
     (''setfsuid'', SYS_setfsuid), (''setfsgid'', SYS_setfsgid), (''setgroups'', SYS_setgroups),
     (''getsid'', SYS_getsid), (''capget'', SYS_capget), (''capset'', SYS_capset),
     (''rt_tgsigqueueinfo'', SYS_rt_tgsigqueueinfo), (''msgget'', SYS_msgget), (''msgsnd'', SYS_msgsnd),
     (''msgrcv'', SYS_msgrcv), (''msgctl'', SYS_msgctl), (''timer_create'', SYS_timer_create),
     (''timer_settime'', SYS_timer_settime), (''timer_gettime'', SYS_timer_gettime),
     (''timer_getoverrun'', SYS_timer_getoverrun), (''timer_delete'', SYS_timer_delete),
     (''clock_settime'', SYS_clock_settime), (''clock_adjtime'', SYS_clock_adjtime), (''time'', SYS_time),
     (''creat'', SYS_creat), (''readahead'', SYS_readahead), (''sync'', SYS_sync), (''syncfs'', SYS_syncfs),
     (''vmsplice'', SYS_vmsplice), (''utimensat'', SYS_utimensat), (''utimes'', SYS_utimes),
     (''utime'', SYS_utime), (''futimesat'', SYS_futimesat), (''openat2'', SYS_openat2),
     (''name_to_handle_at'', SYS_name_to_handle_at), (''open_by_handle_at'', SYS_open_by_handle_at),
     (''fchmodat2'', SYS_fchmodat2), (''statmount'', 457), (''listmount'', 458), (''setxattr'', SYS_setxattr),
     (''lsetxattr'', SYS_lsetxattr), (''fsetxattr'', SYS_fsetxattr), (''removexattr'', SYS_removexattr),
     (''lremovexattr'', SYS_lremovexattr), (''fremovexattr'', SYS_fremovexattr), (''setxattrat'', 463),
     (''getxattrat'', 464), (''listxattrat'', 465), (''removexattrat'', 466), (''recvmmsg'', SYS_recvmmsg),
     (''sendmmsg'', SYS_sendmmsg), (''inotify_init'', SYS_inotify_init), (''inotify_init1'', SYS_inotify_init1),
     (''inotify_add_watch'', SYS_inotify_add_watch), (''inotify_rm_watch'', SYS_inotify_rm_watch),
     (''fanotify_init'', SYS_fanotify_init), (''fanotify_mark'', SYS_fanotify_mark),
     (''epoll_pwait2'', SYS_epoll_pwait2), (''sched_setparam'', SYS_sched_setparam),
     (''sched_setscheduler'', SYS_sched_setscheduler), (''sched_get_priority_max'', SYS_sched_get_priority_max),
     (''sched_get_priority_min'', SYS_sched_get_priority_min),
     (''sched_rr_get_interval'', SYS_sched_rr_get_interval), (''sched_setattr'', SYS_sched_setattr),
     (''sched_getattr'', SYS_sched_getattr), (''sched_setaffinity'', SYS_sched_setaffinity),
     (''setrlimit'', SYS_setrlimit), (''getpriority'', SYS_getpriority), (''setpriority'', SYS_setpriority),
     (''ioprio_set'', SYS_ioprio_set), (''ioprio_get'', SYS_ioprio_get), (''futex_waitv'', SYS_futex_waitv),
     (''futex_wake'', 454), (''futex_wait'', 455), (''futex_requeue'', 456), (''init_module'', SYS_init_module),
     (''finit_module'', SYS_finit_module), (''delete_module'', SYS_delete_module), (''bpf'', SYS_bpf),
     (''perf_event_open'', SYS_perf_event_open), (''seccomp'', SYS_seccomp), (''userfaultfd'', SYS_userfaultfd),
     (''mount'', SYS_mount), (''umount2'', SYS_umount2), (''pivot_root'', SYS_pivot_root),
     (''mount_setattr'', SYS_mount_setattr), (''open_tree'', SYS_open_tree), (''open_tree_attr'', 467),
     (''move_mount'', SYS_move_mount), (''fsopen'', SYS_fsopen), (''fsconfig'', SYS_fsconfig),
     (''fsmount'', SYS_fsmount), (''fspick'', SYS_fspick), (''syslog'', SYS_syslog), (''reboot'', SYS_reboot),
     (''swapon'', SYS_swapon), (''swapoff'', SYS_swapoff), (''chroot'', SYS_chroot), (''acct'', SYS_acct),
     (''settimeofday'', SYS_settimeofday), (''sethostname'', SYS_sethostname),
     (''setdomainname'', SYS_setdomainname), (''adjtimex'', SYS_adjtimex), (''modify_ldt'', SYS_modify_ldt),
     (''iopl'', SYS_iopl), (''ioperm'', SYS_ioperm), (''quotactl'', SYS_quotactl),
     (''quotactl_fd'', SYS_quotactl_fd), (''personality'', SYS_personality), (''vhangup'', SYS_vhangup),
     (''ustat'', SYS_ustat), (''sysfs'', SYS_sysfs), (''mknod'', SYS_mknod), (''mknodat'', SYS_mknodat),
     (''migrate_pages'', SYS_migrate_pages), (''move_pages'', SYS_move_pages), (''kexec_load'', SYS_kexec_load),
     (''kexec_file_load'', SYS_kexec_file_load), (''mq_open'', SYS_mq_open), (''mq_unlink'', SYS_mq_unlink),
     (''mq_timedsend'', SYS_mq_timedsend), (''mq_timedreceive'', SYS_mq_timedreceive),
     (''mq_notify'', SYS_mq_notify), (''mq_getsetattr'', SYS_mq_getsetattr), (''add_key'', SYS_add_key),
     (''request_key'', SYS_request_key), (''keyctl'', SYS_keyctl), (''io_pgetevents'', 333),
     (''lsm_get_self_attr'', 459), (''lsm_set_self_attr'', 460), (''lsm_list_modules'', 461),
     (''lookup_dcookie'', SYS_lookup_dcookie), (''uretprobe'', 335)]"

definition syscall_name_to_number :: "string \<Rightarrow> int option" where
  "syscall_name_to_number name = match_arm name syscall_arms"

definition syscall_table :: "(string \<times> int) list" where
  "syscall_table =
    [(''read'', SYS_read), (''write'', SYS_write), (''openat'', SYS_openat), (''close'', SYS_close),
     (''fstat'', SYS_fstat), (''lseek'', SYS_lseek), (''fcntl'', SYS_fcntl), (''readv'', SYS_readv),
     (''writev'', SYS_writev), (''preadv'', SYS_preadv), (''pwritev'', SYS_pwritev), (''preadv2'', SYS_preadv2),
     (''pwritev2'', SYS_pwritev2), (''pread64'', SYS_pread64), (''pwrite64'', SYS_pwrite64),
     (''readlinkat'', SYS_readlinkat), (''newfstatat'', SYS_newfstatat), (''statx'', SYS_statx),
     (''faccessat'', SYS_faccessat), (''faccessat2'', SYS_faccessat2), (''dup'', SYS_dup), (''dup3'', SYS_dup3),
     (''pipe2'', SYS_pipe2), (''unlinkat'', SYS_unlinkat), (''renameat'', SYS_renameat),
     (''renameat2'', SYS_renameat2), (''linkat'', SYS_linkat), (''symlinkat'', SYS_symlinkat),
     (''fchmod'', SYS_fchmod), (''fchmodat'', SYS_fchmodat), (''truncate'', SYS_truncate),
     (''ftruncate'', SYS_ftruncate), (''fallocate'', SYS_fallocate), (''fadvise64'', SYS_fadvise64),
     (''fsync'', SYS_fsync), (''fdatasync'', SYS_fdatasync), (''flock'', SYS_flock),
     (''sendfile'', SYS_sendfile), (''copy_file_range'', SYS_copy_file_range), (''splice'', SYS_splice),
     (''tee'', SYS_tee), (''mmap'', SYS_mmap), (''munmap'', SYS_munmap), (''mprotect'', SYS_mprotect),
     (''brk'', SYS_brk), (''mremap'', SYS_mremap), (''madvise'', SYS_madvise), (''msync'', SYS_msync),
     (''mlock'', SYS_mlock), (''munlock'', SYS_munlock), (''clone'', SYS_clone), (''clone3'', SYS_clone3),
     (''execve'', SYS_execve), (''execveat'', SYS_execveat), (''wait4'', SYS_wait4), (''waitid'', SYS_waitid),
     (''exit'', SYS_exit), (''exit_group'', SYS_exit_group), (''getpid'', SYS_getpid), (''gettid'', SYS_gettid),
     (''getuid'', SYS_getuid), (''getgid'', SYS_getgid), (''geteuid'', SYS_geteuid), (''getegid'', SYS_getegid),
     (''getppid'', SYS_getppid), (''setsid'', SYS_setsid), (''getgroups'', SYS_getgroups),
     (''rt_sigaction'', SYS_rt_sigaction), (''rt_sigprocmask'', SYS_rt_sigprocmask),
     (''rt_sigreturn'', SYS_rt_sigreturn), (''rt_sigsuspend'', SYS_rt_sigsuspend),
     (''sigaltstack'', SYS_sigaltstack), (''kill'', SYS_kill), (''tgkill'', SYS_tgkill),
     (''clock_gettime'', SYS_clock_gettime), (''clock_getres'', SYS_clock_getres),
     (''clock_nanosleep'', SYS_clock_nanosleep), (''gettimeofday'', SYS_gettimeofday),
     (''nanosleep'', SYS_nanosleep), (''getcwd'', SYS_getcwd), (''chdir'', SYS_chdir), (''fchdir'', SYS_fchdir),
     (''mkdirat'', SYS_mkdirat), (''getdents64'', SYS_getdents64), (''socket'', SYS_socket),
     (''connect'', SYS_connect), (''sendto'', SYS_sendto), (''recvfrom'', SYS_recvfrom),
     (''sendmsg'', SYS_sendmsg), (''recvmsg'', SYS_recvmsg), (''shutdown'', SYS_shutdown), (''bind'', SYS_bind),
     (''listen'', SYS_listen), (''accept'', SYS_accept), (''accept4'', SYS_accept4),
     (''setsockopt'', SYS_setsockopt), (''getsockopt'', SYS_getsockopt), (''getsockname'', SYS_getsockname),
     (''getpeername'', SYS_getpeername), (''socketpair'', SYS_socketpair), (''ppoll'', SYS_ppoll),
     (''pselect6'', SYS_pselect6), (''epoll_create1'', SYS_epoll_create1), (''epoll_ctl'', SYS_epoll_ctl),
     (''epoll_pwait'', SYS_epoll_pwait), (''eventfd2'', SYS_eventfd2), (''signalfd4'', SYS_signalfd4),
     (''timerfd_create'', SYS_timerfd_create), (''timerfd_settime'', SYS_timerfd_settime),
     (''timerfd_gettime'', SYS_timerfd_gettime), (''uname'', SYS_uname), (''getrandom'', SYS_getrandom),
     (''futex'', SYS_futex), (''set_tid_address'', SYS_set_tid_address),
     (''set_robust_list'', SYS_set_robust_list), (''get_robust_list'', SYS_get_robust_list),
     (''sysinfo'', SYS_sysinfo), (''umask'', SYS_umask), (''prlimit64'', SYS_prlimit64),
     (''getrusage'', SYS_getrusage), (''times'', SYS_times), (''sched_yield'', SYS_sched_yield),
     (''sched_getaffinity'', SYS_sched_getaffinity), (''getcpu'', SYS_getcpu), (''rseq'', SYS_rseq),
     (''close_range'', SYS_close_range), (''memfd_create'', SYS_memfd_create), (''ioctl'', SYS_ioctl),
     (''prctl'', SYS_prctl), (''landlock_create_ruleset'', SYS_landlock_create_ruleset),
     (''landlock_add_rule'', SYS_landlock_add_rule), (''landlock_restrict_self'', SYS_landlock_restrict_self),
     (''open'', SYS_open), (''stat'', SYS_stat), (''lstat'', SYS_lstat), (''access'', SYS_access),
     (''readlink'', SYS_readlink), (''dup2'', SYS_dup2), (''pipe'', SYS_pipe), (''unlink'', SYS_unlink),
     (''rename'', SYS_rename), (''link'', SYS_link), (''symlink'', SYS_symlink), (''chmod'', SYS_chmod),
     (''fork'', SYS_fork), (''getpgrp'', SYS_getpgrp), (''mkdir'', SYS_mkdir), (''rmdir'', SYS_rmdir),
     (''getdents'', SYS_getdents), (''poll'', SYS_poll), (''select'', SYS_select),
     (''epoll_create'', SYS_epoll_create), (''epoll_wait'', SYS_epoll_wait), (''eventfd'', SYS_eventfd),
     (''signalfd'', SYS_signalfd), (''arch_prctl'', SYS_arch_prctl), (''getrlimit'', SYS_getrlimit)]"

definition syscall_number_to_name :: "int \<Rightarrow> string option" where
  "syscall_number_to_name nr = map_option fst (List.find (\<lambda>(_, n). n = nr) syscall_table)"

section \<open>Lookup\<close>

text \<open>Every entry of the table has an arm with the same number.\<close>

definition entry_matches :: "string \<times> int \<Rightarrow> bool" where
  "entry_matches e \<longleftrightarrow> match_arm (fst e) syscall_arms = Some (snd e)"

lemma table_arms: "list_all entry_matches syscall_table"
  unfolding syscall_table_def
  by (simp only: list.pred_inject entry_matches_def fst_conv snd_conv syscall_arms_def match_eval)

end
