(* ===== verification/Seccomp_Bpf.thy ===== *)
theory Seccomp_Bpf
  imports Bpf BTree_Map
begin

text \<open>
  The bitmap compiler for seccomp filters (\<^verbatim>\<open>src/src/security/seccomp_bpf.rs\<close>) and its correctness:
  running the generated program gives what the policy says of the system call.

  The translation of one argument rule into BPF is the \<^verbatim>\<open>seccompiler\<close> package's: it is the argument
  \<open>rule_bpf\<close>, and \<open>rule_translation\<close> states what its documentation says of it and the chain relies
  on: when the rule matches, execution goes on after the translated rule, and when it does not, it
  goes on one instruction further. The numbers of the package's actions are arguments too.
\<close>

section \<open>Model\<close>

definition BPF_LD :: u16 where "BPF_LD = 0x00"
definition BPF_LDX :: u16 where "BPF_LDX = 0x01"
definition BPF_ST :: u16 where "BPF_ST = 0x02"
definition BPF_ALU :: u16 where "BPF_ALU = 0x04"
definition BPF_JMP :: u16 where "BPF_JMP = 0x05"
definition BPF_RET :: u16 where "BPF_RET = 0x06"
definition BPF_W :: u16 where "BPF_W = 0x00"
definition BPF_ABS :: u16 where "BPF_ABS = 0x20"
definition BPF_IMM :: u16 where "BPF_IMM = 0x00"
definition BPF_MEM :: u16 where "BPF_MEM = 0x60"
definition BPF_AND :: u16 where "BPF_AND = 0x50"
definition BPF_RSH :: u16 where "BPF_RSH = 0x70"
definition BPF_JA :: u16 where "BPF_JA = 0x00"
definition BPF_JEQ :: u16 where "BPF_JEQ = 0x10"
definition BPF_K :: u16 where "BPF_K = 0x00"
definition BPF_X :: u16 where "BPF_X = 0x08"

lemmas bpf_codes = BPF_LD_def BPF_LDX_def BPF_ST_def BPF_ALU_def BPF_JMP_def BPF_RET_def BPF_W_def
  BPF_ABS_def BPF_IMM_def BPF_MEM_def BPF_AND_def BPF_RSH_def BPF_JA_def BPF_JEQ_def BPF_K_def BPF_X_def

datatype target_arch = X86_64 | Aarch64 | Riscv64

fun arch_audit_value :: "target_arch \<Rightarrow> u32" where
  "arch_audit_value X86_64 = 62 OR 0x80000000 OR 0x40000000"
| "arch_audit_value Aarch64 = 183 OR 0x80000000 OR 0x40000000"
| "arch_audit_value Riscv64 = 243 OR 0x80000000 OR 0x40000000"

definition NUM_BITMAP_WORDS :: nat where
  "NUM_BITMAP_WORDS = 15"

definition BPF_MAX_LEN :: nat where
  "BPF_MAX_LEN = 4096"

definition SECCOMP_RET_KILL_PROCESS :: u32 where
  "SECCOMP_RET_KILL_PROCESS = 0x80000000"

abbreviation ret :: "u32 \<Rightarrow> sock_filter" where
  "ret v \<equiv> bpf_stmt (BPF_RET OR BPF_K) v"

abbreviation load_word :: "u32 \<Rightarrow> sock_filter" where
  "load_word off \<equiv> bpf_stmt (BPF_LD OR BPF_W OR BPF_ABS) off"

abbreviation jump_eq :: "u32 \<Rightarrow> u8 \<Rightarrow> u8 \<Rightarrow> sock_filter" where
  "jump_eq k jt jf \<equiv> bpf_jump (BPF_JMP OR BPF_JEQ OR BPF_K) k jt jf"

abbreviation jump_always :: "u32 \<Rightarrow> sock_filter" where
  "jump_always k \<equiv> bpf_stmt (BPF_JMP OR BPF_JA) k"

text \<open>A rule set: system call numbers (\<^verbatim>\<open>i64\<close>) in order, each with its chain of argument rules.\<close>

type_synonym 'r rules = "(int, 'r list) btree_map"

definition errno_actions_of :: "(u32 \<Rightarrow> u32) \<Rightarrow> (int \<times> u32) list \<Rightarrow> (u32 \<times> u32) list" where
  "errno_actions_of errno_value errno_syscalls =
     List.map_filter (\<lambda>(nr, errno).
       if nr < 0 \<or> nr > 2 ^ 32 - 1 then None else Some (word_of_int nr, errno_value errno))
     errno_syscalls"

definition classify :: "u32 list \<times> (int \<times> 'r list) list \<Rightarrow> int \<times> 'r list \<Rightarrow> u32 list \<times> (int \<times> 'r list) list" where
  "classify = (\<lambda>(bitmap, arg_filtered) (nr, chain).
     if nr < 0 then (bitmap, arg_filtered)
     else if chain = [] then
       (let word_idx = nat (nr div 32) in
        (if word_idx < NUM_BITMAP_WORDS
         then bitmap[word_idx := bitmap ! word_idx OR push_bit (nat (nr mod 32)) 1]
         else bitmap, arg_filtered))
     else (bitmap, arg_filtered @ [(nr, chain)]))"

definition build_syscall_chain ::
  "('r \<Rightarrow> sock_filter list) \<Rightarrow> int \<Rightarrow> 'r list \<Rightarrow> u32 \<Rightarrow> u32 \<Rightarrow> sock_filter list" where
  "build_syscall_chain rule_bpf syscall_nr chain mismatch_val match_val =
     (let chain_bpf = map (\<lambda>rule. rule_bpf rule @ [ret match_val]) chain;
          chain_len = (if chain_bpf = [] then 1 else sum_list (map length chain_bpf)) in
      [jump_eq (word_of_int syscall_nr) 1 0, jump_always (of_nat (chain_len + 1))]
      @ (if chain_bpf = [] then [ret match_val] else concat chain_bpf)
      @ [ret mismatch_val])"

definition build_arg_section ::
  "('r \<Rightarrow> sock_filter list) \<Rightarrow> (int \<times> 'r list) list \<Rightarrow> u32 \<Rightarrow> u32 \<Rightarrow> sock_filter list" where
  "build_arg_section rule_bpf arg_filtered mismatch_val match_val =
     (if arg_filtered = [] then []
      else load_word 0 # concat (map (\<lambda>(nr, chain).
             build_syscall_chain rule_bpf nr chain mismatch_val match_val) arg_filtered))"

definition active_words_of :: "u32 list \<Rightarrow> (nat \<times> u32) list" where
  "active_words_of bitmap = filter (\<lambda>(_, w). w \<noteq> 0) (zip [0..<length bitmap] bitmap)"

definition errno_section :: "(u32 \<times> u32) list \<Rightarrow> sock_filter list" where
  "errno_section errno_actions =
     (if errno_actions = [] then []
      else load_word 0 # concat (map (\<lambda>(nr, action). [jump_eq nr 0 1, ret action]) errno_actions))"

definition setup_section :: "sock_filter list" where
  "setup_section =
     [load_word 0, bpf_stmt (BPF_ALU OR BPF_AND OR BPF_K) 31, bpf_stmt BPF_ST 0,
      load_word 0, bpf_stmt (BPF_ALU OR BPF_RSH OR BPF_K) 5]"

definition dispatch_section :: "(nat \<times> u32) list \<Rightarrow> sock_filter list" where
  "dispatch_section active_words =
     (let dispatch_len = length active_words * 3 + 1; test_start = dispatch_len in
      concat (map (\<lambda>(entry_idx, word_idx, word_val).
          let insn_pos = entry_idx * 3; ja_offset = test_start - insn_pos - 3 in
          [jump_eq (of_nat word_idx) 0 2, bpf_stmt (BPF_LD OR BPF_IMM) word_val,
           jump_always (of_nat ja_offset)]) (zip [0..<length active_words] active_words))
      @ [jump_always 5])"

definition test_section :: "u32 \<Rightarrow> sock_filter list" where
  "test_section match_val =
     [bpf_stmt (BPF_LDX OR BPF_MEM) 0, bpf_stmt (BPF_ALU OR BPF_RSH OR BPF_X) 0,
      bpf_stmt (BPF_ALU OR BPF_AND OR BPF_K) 1, jump_eq 1 0 1, ret match_val]"

definition compile_bitmap_bpf_with_errno_syscalls ::
  "('r \<Rightarrow> sock_filter list) \<Rightarrow> (u32 \<Rightarrow> u32) \<Rightarrow> 'r rules \<Rightarrow> (int \<times> u32) list \<Rightarrow> u32 \<Rightarrow> u32 \<Rightarrow> target_arch \<Rightarrow>
   sock_filter list result" where
  "compile_bitmap_bpf_with_errno_syscalls rule_bpf errno_value rules errno_syscalls mismatch_val match_val arch =
     (let (bitmap, arg_filtered) = foldl classify (replicate NUM_BITMAP_WORDS 0, []) rules;
          prog = [load_word 4, jump_eq (arch_audit_value arch) 1 0, ret SECCOMP_RET_KILL_PROCESS]
            @ errno_section (errno_actions_of errno_value errno_syscalls)
            @ setup_section
            @ dispatch_section (active_words_of bitmap)
            @ test_section match_val
            @ build_arg_section rule_bpf arg_filtered mismatch_val match_val
            @ [ret mismatch_val]
      in if length prog \<ge> BPF_MAX_LEN
         then Err (SeccompError ''BPF program too large: {} instructions (max {})'')
         else Ok prog)"

section \<open>Policy\<close>

text \<open>\<open>sat r data\<close>: the argument rule \<open>r\<close> matches the system call.\<close>

definition rule_translation ::
  "('r \<Rightarrow> sock_filter list) \<Rightarrow> ('r \<Rightarrow> (nat \<Rightarrow> u32 option) \<Rightarrow> bool) \<Rightarrow> (nat \<Rightarrow> u32 option) \<Rightarrow> bool" where
  "rule_translation rule_bpf sat data \<longleftrightarrow>
     (\<forall>r i rest s. \<exists>s'. bpf_exec data (rule_bpf r @ i # rest) s =
        (if sat r data then bpf_exec data (i # rest) s' else bpf_exec data rest s'))"

text \<open>The value a policy gives a system call number on the right architecture.\<close>

definition policy_value ::
  "('r \<Rightarrow> (nat \<Rightarrow> u32 option) \<Rightarrow> bool) \<Rightarrow> 'r rules \<Rightarrow> (u32 \<times> u32) list \<Rightarrow> u32 \<Rightarrow> u32 \<Rightarrow> (nat \<Rightarrow> u32 option) \<Rightarrow> u32 \<Rightarrow> u32" where
  "policy_value sat rules errnos mismatch_val match_val data nr =
     (case map_of errnos nr of
        Some action \<Rightarrow> action
      | None \<Rightarrow>
          (case bt_get rules (uint nr) of
             None \<Rightarrow> mismatch_val
           | Some chain \<Rightarrow>
               (if chain = [] then (if unat nr < 480 then match_val else mismatch_val)
                else if \<exists>r\<in>set chain. sat r data then match_val else mismatch_val)))"

section \<open>Execution of the sections\<close>

lemma code_values [simp]:
  "BPF_RET OR BPF_K = 0x06" "BPF_LD OR BPF_W OR BPF_ABS = 0x20" "BPF_JMP OR BPF_JEQ OR BPF_K = 0x15"
  "BPF_JMP OR BPF_JA = 0x05" "BPF_ALU OR BPF_AND OR BPF_K = 0x54" "BPF_ALU OR BPF_RSH OR BPF_K = 0x74"
  "BPF_ALU OR BPF_RSH OR BPF_X = 0x7c" "BPF_LDX OR BPF_MEM = 0x61" "BPF_LD OR BPF_IMM = 0x00"
  "BPF_ST = 0x02"
  by (simp_all add: bpf_codes)

lemma exec_errno_entries:
  "acc s = nr \<Longrightarrow>
     bpf_exec data (concat (map (\<lambda>(nr, action). [jump_eq nr 0 1, ret action]) es) @ rest) s =
     (case map_of es nr of Some action \<Rightarrow> Some action | None \<Rightarrow> bpf_exec data rest s)"
  by (induction es) auto

lemma exec_errno_section:
  "data 0 = Some nr \<Longrightarrow> \<exists>s'. bpf_exec data (errno_section es @ rest) s =
     (case map_of es nr of Some action \<Rightarrow> Some action | None \<Rightarrow> bpf_exec data rest s')"
proof (cases "es = []")
  case False
  assume "data 0 = Some nr"
  with False exec_errno_entries[of "s\<lparr>acc := nr\<rparr>" nr data es rest] show ?thesis
    by (auto simp: errno_section_def)
qed (auto simp: errno_section_def)

lemma exec_setup_section:
  assumes "data 0 = Some nr"
  shows "\<exists>s'. bpf_exec data (setup_section @ rest) s = bpf_exec data rest s'
    \<and> acc s' = drop_bit 5 nr \<and> scratch s' 0 = nr AND 31"
  using assms by (auto simp: setup_section_def bpf_step_shift_mem)

definition dispatch_entry :: "nat \<Rightarrow> nat \<times> nat \<times> u32 \<Rightarrow> sock_filter list" where
  "dispatch_entry n = (\<lambda>(entry_idx, word_idx, word_val).
     [jump_eq (of_nat word_idx) 0 2, bpf_stmt (BPF_LD OR BPF_IMM) word_val,
      jump_always (of_nat (n * 3 + 1 - entry_idx * 3 - 3))])"

lemma dispatch_section_entries:
  "dispatch_section ws =
     concat (map (dispatch_entry (length ws)) (zip [0..<length ws] ws)) @ [jump_always 5]"
  by (simp add: dispatch_section_def dispatch_entry_def Let_def split_beta)

lemma length_entries: "length (concat (map (dispatch_entry n) zs)) = 3 * length zs"
  by (induction zs) (auto simp: dispatch_entry_def split_beta)

lemma unat_of_nat_u32: "n < 2 ^ 32 \<Longrightarrow> unat (of_nat n :: u32) = n"
  by (simp add: unat_of_nat take_bit_nat_eq_self)

text \<open>Every jump of the table lands on the test, whatever its place in the table.\<close>

lemma exec_dispatch:
  assumes "n < 1000" "acc s = w" "length test = 5" "j + length ws = n"
  shows "\<exists>s'. scratch s' = scratch s \<and>
     bpf_exec data (concat (map (dispatch_entry n) (zip [j..<n] ws)) @ jump_always 5 # test @ rest) s =
     (case map_of (map (\<lambda>(i, v). (of_nat i, v)) ws) w of
        Some v \<Rightarrow> bpf_exec data (test @ rest) (s'\<lparr>acc := v\<rparr>)
      | None \<Rightarrow> bpf_exec data rest s')"
  using assms
proof (induction ws arbitrary: j)
  case Nil
  then show ?case by (intro exI[of _ s]) simp
next
  case (Cons x ws)
  obtain i v where x: "x = (i, v)" by fastforce
  have j: "[j..<n] = j # [Suc j..<n]" using Cons.prems by (simp add: upt_rec)
  let ?more = "concat (map (dispatch_entry n) (zip [Suc j..<n] ws))"
  have off: "n * 3 + 1 - j * 3 - 3 = length (?more @ [jump_always 5])"
    using Cons.prems by (simp add: length_entries)
  have u: "unat (of_nat (n * 3 + 1 - j * 3 - 3) :: u32) = length (?more @ [jump_always 5])"
  proof -
    have "n * 3 + 1 - j * 3 - 3 < 2 ^ 32" using Cons.prems(1) by simp
    then have "unat (of_nat (n * 3 + 1 - j * 3 - 3) :: u32) = n * 3 + 1 - j * 3 - 3"
      by (rule unat_of_nat_u32)
    then show ?thesis unfolding off .
  qed
  show ?case
  proof (cases "of_nat i = w")
    case True
    have "drop (length (?more @ [jump_always 5])) (?more @ jump_always 5 # test @ rest) = test @ rest"
      by (metis append.assoc append_Cons append_Nil append_eq_conv_conj)
    then show ?thesis using True Cons.prems(2) u
      by (intro exI[of _ s]) (simp add: j x dispatch_entry_def)
  next
    case False
    from Cons.IH[of "Suc j"] Cons.prems obtain s' where "scratch s' = scratch s"
      "bpf_exec data (?more @ jump_always 5 # test @ rest) s =
       (case map_of (map (\<lambda>(i, v). (of_nat i, v)) ws) w of
          Some v \<Rightarrow> bpf_exec data (test @ rest) (s'\<lparr>acc := v\<rparr>)
        | None \<Rightarrow> bpf_exec data rest s')" by auto
    then show ?thesis using False Cons.prems(2)
      by (intro exI[of _ s']) (simp add: j x dispatch_entry_def)
  qed
qed

lemma bit_test: "n < 32 \<Longrightarrow> (drop_bit n (v :: u32) AND 1 = 1) \<longleftrightarrow> bit v n"
  by (simp add: and_one_eq bit_iff_odd_drop_bit odd_iff_mod_2_eq_one)

lemma exec_test_section:
  assumes "unat (scratch s 0) < 32"
  shows "\<exists>s'. bpf_exec data (test_section match_val @ rest) s =
    (if bit (acc s) (unat (scratch s 0)) then Some match_val else bpf_exec data rest s')"
  using assms by (auto simp: test_section_def bpf_step_shift_mem bit_test)

section \<open>The bitmap\<close>

definition in_bitmap :: "(int \<times> 'r list) list \<Rightarrow> nat \<Rightarrow> nat \<Rightarrow> bool" where
  "in_bitmap rules w b \<longleftrightarrow> (int (w * 32 + b), []) \<in> set rules"

lemma bit_set_one: "b < 32 \<Longrightarrow> bit (v OR (2 ^ m :: u32)) b \<longleftrightarrow> bit v b \<or> m = b"
  by (auto simp: bit_or_iff bit_exp_iff)

lemma classify_bitmap:
  assumes "length bm = NUM_BITMAP_WORDS"
  shows "\<exists>bm'. foldl classify (bm, af) rules =
      (bm', af @ filter (\<lambda>(nr, chain). 0 \<le> nr \<and> chain \<noteq> []) rules)
    \<and> length bm' = NUM_BITMAP_WORDS
    \<and> (\<forall>w < NUM_BITMAP_WORDS. \<forall>b < 32. bit (bm' ! w) b \<longleftrightarrow> bit (bm ! w) b \<or> in_bitmap rules w b)"
  using assms
proof (induction rules arbitrary: bm af)
  case (Cons x rules)
  obtain nr chain where x: "x = (nr, chain)" by fastforce
  define bm1 where "bm1 = fst (classify (bm, af) x)"
  have l: "length bm1 = NUM_BITMAP_WORDS"
    using Cons.prems by (simp add: bm1_def classify_def x Let_def)
  have af: "classify (bm, af) x = (bm1, af @ filter (\<lambda>(nr, chain). 0 \<le> nr \<and> chain \<noteq> []) [x])"
    by (simp add: bm1_def classify_def x Let_def)
  have b: "bit (bm1 ! w) b \<longleftrightarrow> bit (bm ! w) b \<or> x = (int (w * 32 + b), [])"
    if "w < NUM_BITMAP_WORDS" "b < 32" for w b
  proof (cases "0 \<le> nr \<and> chain = []")
    case True
    then obtain n where n: "nr = int n" by (metis nonneg_int_cases)
    have d: "nat (nr div 32) = n div 32" "nat (nr mod 32) = n mod 32"
      by (simp_all add: n nat_div_distrib nat_mod_distrib)
    have "x = (int (w * 32 + b), []) \<longleftrightarrow> n = w * 32 + b"
      using True by (simp only: x n prod.inject of_nat_eq_iff) simp
    also have "\<dots> \<longleftrightarrow> n div 32 = w \<and> n mod 32 = b" using that(2) by auto
    finally have eq: "x = (int (w * 32 + b), []) \<longleftrightarrow> n div 32 = w \<and> n mod 32 = b" .
    have upd: "bm1 = (if n div 32 < NUM_BITMAP_WORDS
        then bm[n div 32 := bm ! (n div 32) OR push_bit (n mod 32) 1] else bm)"
      using True by (simp add: bm1_def classify_def x Let_def d)
    show ?thesis
    proof (cases "n div 32 = w")
      case w: True
      then have "bm1 ! w = bm ! w OR push_bit (n mod 32) 1"
        using that(1) Cons.prems upd by simp
      then have "bit (bm1 ! w) b \<longleftrightarrow> bit (bm ! w) b \<or> n mod 32 = b" using that(2) by (simp add: bit_set_one)
      with w eq show ?thesis by simp
    next
      case w: False
      then have "bm1 ! w = bm ! w" using upd by simp
      with w eq show ?thesis by simp
    qed
  next
    case False
    then show ?thesis by (auto simp: bm1_def classify_def x Let_def)
  qed
  from Cons.IH[OF l, of "af @ filter (\<lambda>(nr, chain). 0 \<le> nr \<and> chain \<noteq> []) [x]"] obtain bm' where
    "foldl classify (bm1, af @ filter (\<lambda>(nr, chain). 0 \<le> nr \<and> chain \<noteq> []) [x]) rules =
      (bm', (af @ filter (\<lambda>(nr, chain). 0 \<le> nr \<and> chain \<noteq> []) [x]) @ filter (\<lambda>(nr, chain). 0 \<le> nr \<and> chain \<noteq> []) rules)"
    "length bm' = NUM_BITMAP_WORDS"
    "\<forall>w < NUM_BITMAP_WORDS. \<forall>b < 32. bit (bm' ! w) b \<longleftrightarrow> bit (bm1 ! w) b \<or> in_bitmap rules w b"
    by blast
  then show ?case
    by (intro exI[of _ bm']) (auto simp: af b in_bitmap_def simp del: filter.simps(2) split: if_splits, simp)
qed (simp add: in_bitmap_def)

text \<open>Looking a word up in the table of non-zero words gives the bitmap's word.\<close>

lemma active_word:
  assumes "length bm \<le> 15"
  shows "map_of (map (\<lambda>(i, v). (of_nat i :: u32, v)) (active_words_of bm)) w =
    (if unat w < length bm \<and> bm ! unat w \<noteq> 0 then Some (bm ! unat w) else None)"
proof -
  have inj: "(of_nat i :: u32) = w \<longleftrightarrow> i = unat w" if "i < length bm" for i
    using that assms by (auto simp: word_unat_eq_iff unat_of_nat_u32)
  let ?ws = "map (\<lambda>(i, v). (of_nat i :: u32, v)) (active_words_of bm)"
  have mem: "(w, v) \<in> set ?ws \<longleftrightarrow> unat w < length bm \<and> v = bm ! unat w \<and> v \<noteq> 0" for v
  proof -
    have "(w, v) \<in> set ?ws \<longleftrightarrow> (\<exists>i<length bm. of_nat i = w \<and> v = bm ! i \<and> v \<noteq> 0)"
      by (force simp: active_words_of_def in_set_zip image_iff)
    also have "\<dots> \<longleftrightarrow> (\<exists>i<length bm. i = unat w \<and> v = bm ! i \<and> v \<noteq> 0)" using inj by blast
    finally show ?thesis by auto
  qed
  show ?thesis
  proof (cases "map_of ?ws w")
    case None
    then have "(w, bm ! unat w) \<notin> set ?ws" by (metis map_of_eq_None_iff fst_conv image_eqI)
    with None mem show ?thesis by auto
  next
    case (Some v)
    with map_of_SomeD[OF Some] mem show ?thesis by auto
  qed
qed

section \<open>Argument chains\<close>

lemma exec_chain_body:
  assumes "rule_translation rule_bpf sat data"
  shows "bpf_exec data (concat (map (\<lambda>rule. rule_bpf rule @ [ret match_val]) chain) @ ret mismatch_val # rest) s =
    Some (if \<exists>r\<in>set chain. sat r data then match_val else mismatch_val)"
proof (induction chain arbitrary: s)
  case (Cons r chain)
  let ?more = "concat (map (\<lambda>rule. rule_bpf rule @ [ret match_val]) chain) @ ret mismatch_val # rest"
  obtain s' where "bpf_exec data (rule_bpf r @ ret match_val # ?more) s =
      (if sat r data then bpf_exec data (ret match_val # ?more) s' else bpf_exec data ?more s')"
    using assms unfolding rule_translation_def by blast
  with Cons.IH[of s'] show ?case by simp
qed simp

lemma exec_syscall_chain:
  assumes rt: "rule_translation rule_bpf sat data" and "acc s = nr" "chain \<noteq> []"
    and len: "length (build_syscall_chain rule_bpf n chain mismatch_val match_val) < 2 ^ 32"
  shows "bpf_exec data (build_syscall_chain rule_bpf n chain mismatch_val match_val @ rest) s =
    (if nr = word_of_int n then Some (if \<exists>r\<in>set chain. sat r data then match_val else mismatch_val)
     else bpf_exec data rest s)"
proof -
  let ?body = "concat (map (\<lambda>rule. rule_bpf rule @ [ret match_val]) chain)"
  have b: "build_syscall_chain rule_bpf n chain mismatch_val match_val =
      jump_eq (word_of_int n) 1 0 # jump_always (of_nat (length ?body + 1)) # ?body @ [ret mismatch_val]"
    using assms(3) by (simp add: build_syscall_chain_def Let_def length_concat)
  have u: "unat (of_nat (length ?body + 1) :: u32) = length (?body @ [ret mismatch_val])"
    using len by (subst unat_of_nat_u32) (simp_all add: b)
  have d: "drop (length (?body @ [ret mismatch_val])) (?body @ ret mismatch_val # rest) = rest"
    by (metis append.assoc append_Cons append_Nil append_eq_conv_conj)
  show ?thesis
    using exec_chain_body[OF rt, of match_val chain mismatch_val rest s] assms(2) u d
    by (simp add: b)
qed

lemma exec_chains:
  assumes rt: "rule_translation rule_bpf sat data" and "acc s = nr" "\<forall>(n, chain)\<in>set af. chain \<noteq> []"
    and len: "length (concat (map (\<lambda>(n, chain). build_syscall_chain rule_bpf n chain mismatch_val match_val) af)) < 2 ^ 32"
  shows "bpf_exec data (concat (map (\<lambda>(n, chain).
      build_syscall_chain rule_bpf n chain mismatch_val match_val) af) @ rest) s =
    (case map_of (map (\<lambda>(n, chain). (word_of_int n, chain)) af) nr of
       Some chain \<Rightarrow> Some (if \<exists>r\<in>set chain. sat r data then match_val else mismatch_val)
     | None \<Rightarrow> bpf_exec data rest s)"
  using assms(3) len
proof (induction af)
  case (Cons x af)
  obtain n chain where x: "x = (n, chain)" by fastforce
  have ne: "chain \<noteq> []" "\<forall>(n, chain)\<in>set af. chain \<noteq> []" using Cons.prems(1) by (auto simp: x)
  have l: "length (build_syscall_chain rule_bpf n chain mismatch_val match_val) < 2 ^ 32"
    "length (concat (map (\<lambda>(n, chain). build_syscall_chain rule_bpf n chain mismatch_val match_val) af)) < 2 ^ 32"
    using Cons.prems(2) by (simp_all add: x)
  from Cons.IH[OF ne(2) l(2)] exec_syscall_chain[OF rt assms(2) ne(1) l(1)] show ?case
    by (simp add: x)
qed simp

section \<open>Correctness\<close>

lemma arg_lookup:
  assumes "bt_inv rules" "\<forall>(n, chain)\<in>set rules. n < 2 ^ 32"
  shows "map_of (map (\<lambda>(n, chain). (word_of_int n :: u32, chain))
      (filter (\<lambda>(nr, chain). 0 \<le> nr \<and> chain \<noteq> []) rules)) nr =
    (case bt_get rules (uint nr) of Some chain \<Rightarrow> if chain = [] then None else Some chain | None \<Rightarrow> None)"
proof -
  let ?af = "map (\<lambda>(n, chain). (word_of_int n :: u32, chain)) (filter (\<lambda>(nr, chain). 0 \<le> nr \<and> chain \<noteq> []) rules)"
  have mem: "(nr, chain) \<in> set ?af \<longleftrightarrow> bt_get rules (uint nr) = Some chain \<and> chain \<noteq> []" for chain
  proof
    assume "(nr, chain) \<in> set ?af"
    then obtain n where n: "(n, chain) \<in> set rules" "0 \<le> n" "chain \<noteq> []" "nr = word_of_int n" by auto
    then have "uint nr = n" using assms(2) by (auto simp: uint_word_of_int)
    with bt_entry_in[OF n(1) assms(1)] n(3) show "bt_get rules (uint nr) = Some chain \<and> chain \<noteq> []" by simp
  next
    assume "bt_get rules (uint nr) = Some chain \<and> chain \<noteq> []"
    then have "(uint nr, chain) \<in> set (filter (\<lambda>(nr, chain). 0 \<le> nr \<and> chain \<noteq> []) rules)"
      using bt_get_in by auto
    then show "(nr, chain) \<in> set ?af" by (force intro: image_eqI[of _ _ "(uint nr, chain)"])
  qed
  show ?thesis
  proof (cases "map_of ?af nr")
    case None
    then have "\<And>chain. (nr, chain) \<notin> set ?af" by (metis map_of_eq_None_iff fst_conv image_eqI)
    with mem None show ?thesis by (auto split: option.splits)
  next
    case (Some chain)
    with map_of_SomeD[OF Some] mem show ?thesis by auto
  qed
qed

lemma nr_position:
  fixes nr :: u32
  shows "unat (drop_bit 5 nr) = unat nr div 32" "unat (nr AND 31) = unat nr mod 32"
proof -
  show "unat (drop_bit 5 nr) = unat nr div 32"
    by (simp only: unat_drop_bit_eq) (simp add: drop_bit_eq_div)
  have "nr AND 31 = take_bit 5 nr" by (simp add: take_bit_eq_mask mask_numeral)
  then show "unat (nr AND 31) = unat nr mod 32"
    by (simp only: unsigned_take_bit_eq) (simp add: take_bit_eq_mod)
qed

lemma exec_arg_section:
  assumes "rule_translation rule_bpf sat data" "data 0 = Some nr"
    "\<forall>(n, chain)\<in>set af. chain \<noteq> []"
    "length (build_arg_section rule_bpf af mismatch_val match_val) < 2 ^ 32"
  shows "bpf_exec data (build_arg_section rule_bpf af mismatch_val match_val @ [ret mismatch_val]) s =
    Some (case map_of (map (\<lambda>(n, chain). (word_of_int n, chain)) af) nr of
       Some chain \<Rightarrow> (if \<exists>r\<in>set chain. sat r data then match_val else mismatch_val)
     | None \<Rightarrow> mismatch_val)"
proof (cases "af = []")
  case False
  have "length (concat (map (\<lambda>(n, chain). build_syscall_chain rule_bpf n chain mismatch_val match_val) af)) < 2 ^ 32"
    using assms(4) False by (simp add: build_arg_section_def)
  from exec_chains[OF assms(1) _ assms(3) this, of "s\<lparr>acc := nr\<rparr>" nr "[ret mismatch_val]"] assms(2) False
  show ?thesis by (simp add: build_arg_section_def split: option.splits)
qed (simp add: build_arg_section_def)

text \<open>From the dispatch table on: the bitmap decides, or the argument chains do.\<close>

lemma exec_from_dispatch:
  assumes "acc s = drop_bit 5 nr" "scratch s 0 = nr AND 31" "length bm = NUM_BITMAP_WORDS"
  shows "\<exists>s'. bpf_exec data (dispatch_section (active_words_of bm) @ test_section match_val @ rest) s =
    (if unat nr < 480 \<and> bit (bm ! (unat nr div 32)) (unat nr mod 32) then Some match_val
     else bpf_exec data rest s')"
proof -
  let ?ws = "active_words_of bm" and ?w = "drop_bit 5 nr"
  have len: "length ?ws < 1000"
  proof -
    have "length ?ws \<le> length bm" unfolding active_words_of_def
      by (rule order_trans[OF length_filter_le]) simp
    then show ?thesis using assms(3) by (simp add: NUM_BITMAP_WORDS_def)
  qed
  obtain s1 where s1: "scratch s1 = scratch s"
    "bpf_exec data (dispatch_section ?ws @ test_section match_val @ rest) s =
     (case map_of (map (\<lambda>(i, v). (of_nat i, v)) ?ws) ?w of
        Some v \<Rightarrow> bpf_exec data (test_section match_val @ rest) (s1\<lparr>acc := v\<rparr>)
      | None \<Rightarrow> bpf_exec data rest s1)"
    using exec_dispatch[OF len assms(1), of "test_section match_val" 0 ?ws data rest]
    by (auto simp: dispatch_section_entries test_section_def simp del: code_values)
  have lookup: "map_of (map (\<lambda>(i, v). (of_nat i, v)) ?ws) ?w =
    (if unat nr div 32 < 15 \<and> bm ! (unat nr div 32) \<noteq> 0 then Some (bm ! (unat nr div 32)) else None)"
    using active_word[of bm ?w] assms(3) by (simp add: nr_position NUM_BITMAP_WORDS_def)
  have lt: "unat nr div 32 < 15 \<longleftrightarrow> unat nr < 480" by auto
  show ?thesis
  proof (cases "unat nr div 32 < 15 \<and> bm ! (unat nr div 32) \<noteq> 0")
    case True
    have "unat (scratch (s1\<lparr>acc := bm ! (unat nr div 32)\<rparr>) 0) = unat nr mod 32"
      using s1(1) assms(2) by (simp add: nr_position)
    with exec_test_section[of "s1\<lparr>acc := bm ! (unat nr div 32)\<rparr>" data match_val rest] True s1(2) lookup lt
    show ?thesis by auto
  next
    case False
    with s1(2) lookup lt show ?thesis by auto
  qed
qed

lemma bitmap_lookup:
  fixes nr :: u32
  assumes "bt_inv rules"
  shows "in_bitmap rules (unat nr div 32) (unat nr mod 32) \<longleftrightarrow> bt_get rules (uint nr) = Some []"
proof -
  have "int (unat nr div 32 * 32 + unat nr mod 32) = uint nr" by (simp only: div_mult_mod_eq) simp
  then show ?thesis
    unfolding in_bitmap_def using bt_entry_in[OF _ assms] bt_get_in by metis
qed

lemma compiled_value:
  assumes "compile_bitmap_bpf_with_errno_syscalls rule_bpf errno_value rules errno_syscalls mismatch_val match_val arch
      = Ok prog"
    and "bt_inv rules" and "\<forall>(n, chain)\<in>set rules. n < 2 ^ 32"
    and "rule_translation rule_bpf sat data" and "data 4 = Some a" and "data 0 = Some nr"
  shows "bpf_eval 10000 data prog 0 bpf_initial =
    Some (if a \<noteq> arch_audit_value arch then SECCOMP_RET_KILL_PROCESS
          else policy_value sat rules (errno_actions_of errno_value errno_syscalls) mismatch_val match_val data nr)"
proof -
  let ?af = "filter (\<lambda>(nr, chain). 0 \<le> nr \<and> chain \<noteq> []) rules"
  let ?es = "errno_actions_of errno_value errno_syscalls"
  obtain bm where bm: "foldl classify (replicate NUM_BITMAP_WORDS 0, []) rules = (bm, ?af)"
    "length bm = NUM_BITMAP_WORDS"
    "\<forall>w < NUM_BITMAP_WORDS. \<forall>b < 32. bit (bm ! w) b \<longleftrightarrow> in_bitmap rules w b"
    using classify_bitmap[of "replicate NUM_BITMAP_WORDS 0" "[]" rules] by auto
  define rest where "rest = build_arg_section rule_bpf ?af mismatch_val match_val @ [ret mismatch_val]"
  define body where "body = dispatch_section (active_words_of bm) @ test_section match_val @ rest"
  have prog: "prog = [load_word 4, jump_eq (arch_audit_value arch) 1 0, ret SECCOMP_RET_KILL_PROCESS]
      @ errno_section ?es @ setup_section @ body" and len: "length prog < 4096"
    using assms(1) by (auto simp: compile_bitmap_bpf_with_errno_syscalls_def bm(1) Let_def rest_def body_def
        BPF_MAX_LEN_def simp del: code_values split: if_splits)
  have eval: "bpf_eval 10000 data prog 0 bpf_initial = bpf_exec data prog bpf_initial"
    using len by (intro bpf_eval_exec_start) simp
  have arg: "bpf_exec data rest s = Some (case bt_get rules (uint nr) of
       Some chain \<Rightarrow> if chain = [] then mismatch_val
         else if \<exists>r\<in>set chain. sat r data then match_val else mismatch_val
     | None \<Rightarrow> mismatch_val)" for s
  proof -
    have "length (build_arg_section rule_bpf ?af mismatch_val match_val) < 2 ^ 32"
      using len by (simp add: prog body_def rest_def)
    from exec_arg_section[OF assms(4,6) _ this, of s] show ?thesis
      by (auto simp: rest_def arg_lookup[OF assms(2,3)] simp del: code_values split: option.splits)
  qed
  define s1 where "s1 = bpf_initial\<lparr>acc := a\<rparr>"
  have s1: "bpf_exec data prog bpf_initial =
      (if a = arch_audit_value arch then bpf_exec data (errno_section ?es @ setup_section @ body) s1
       else Some SECCOMP_RET_KILL_PROCESS)"
    using assms(5) by (cases "a = arch_audit_value arch") (simp_all add: prog s1_def)
  obtain s2 where s2: "bpf_exec data (errno_section ?es @ setup_section @ body) s1 =
      (case map_of ?es nr of Some action \<Rightarrow> Some action | None \<Rightarrow> bpf_exec data (setup_section @ body) s2)"
    using exec_errno_section[where data = data and nr = nr, OF assms(6)] by blast
  obtain s3 where s3: "bpf_exec data (setup_section @ body) s2 = bpf_exec data body s3"
    "acc s3 = drop_bit 5 nr" "scratch s3 0 = nr AND 31"
    using exec_setup_section[where data = data and nr = nr, OF assms(6)] by blast
  obtain s4 where s4: "bpf_exec data body s3 =
    (if unat nr < 480 \<and> bit (bm ! (unat nr div 32)) (unat nr mod 32) then Some match_val
     else bpf_exec data rest s4)"
    using exec_from_dispatch[OF s3(2,3) bm(2)] unfolding body_def by blast
  have bits: "unat nr < 480 \<Longrightarrow>
      bit (bm ! (unat nr div 32)) (unat nr mod 32) \<longleftrightarrow> bt_get rules (uint nr) = Some []"
    using bm(3) bitmap_lookup[OF assms(2), of nr] by (auto simp: NUM_BITMAP_WORDS_def)
  show ?thesis
    using bits by (auto simp: eval s1 s2 s3(1) s4 arg policy_value_def split: option.splits)
qed

text \<open>
  C1: the compiled filter decides every system call as the policy says. On the wrong architecture
  the process is killed; otherwise an errno override wins, then an unconditional allow (for numbers
  below 480, which the bitmap covers), then the argument rules of the number, one of which has to
  match; every other call is denied. The interpreter never runs past the end of the program and
  never needs more than its step limit.
\<close>

theorem compile_bitmap_bpf_correct:
  assumes "compile_bitmap_bpf_with_errno_syscalls rule_bpf errno_value rules errno_syscalls mismatch_val match_val arch
      = Ok prog"
    and "bt_inv rules" and "\<forall>(n, chain)\<in>set rules. n < 2 ^ 32"
    and "rule_translation rule_bpf sat data" and "data 4 = Some a" and "data 0 = Some nr"
  shows "bpf_eval 10000 data prog 0 bpf_initial =
    Some (if a \<noteq> arch_audit_value arch then SECCOMP_RET_KILL_PROCESS
          else policy_value sat rules (errno_actions_of errno_value errno_syscalls) mismatch_val match_val data nr)"
  by (rule compiled_value[OF assms])

text \<open>An instance of the rule translation: a rule compares one argument word with a constant.\<close>

definition word_rule :: "u32 \<times> u32 \<Rightarrow> sock_filter list" where
  "word_rule = (\<lambda>(off, v). [load_word off, jump_eq v 0 1])"

definition word_sat :: "u32 \<times> u32 \<Rightarrow> (nat \<Rightarrow> u32 option) \<Rightarrow> bool" where
  "word_sat = (\<lambda>(off, v) data. data (unat off) = Some v)"

definition call_data :: "u32 \<Rightarrow> u32 \<Rightarrow> u32 \<Rightarrow> nat \<Rightarrow> u32 option" where
  "call_data a nr arg off = Some (if off = 4 then a else if off = 0 then nr else arg)"

lemma word_rule_translation: "rule_translation word_rule word_sat (call_data a nr arg)"
  unfolding rule_translation_def
proof (intro allI)
  fix r :: "u32 \<times> u32" and i rest s
  obtain off v where r: "r = (off, v)" by fastforce
  obtain w where w: "call_data a nr arg (unat off) = Some w" by (simp add: call_data_def)
  show "\<exists>s'. bpf_exec (call_data a nr arg) (word_rule r @ i # rest) s =
      (if word_sat r (call_data a nr arg) then bpf_exec (call_data a nr arg) (i # rest) s'
       else bpf_exec (call_data a nr arg) rest s')"
    by (rule exI[of _ "s\<lparr>acc := w\<rparr>"]) (cases "w = v"; simp add: word_rule_def word_sat_def r w)
qed

definition demo_rules :: "(u32 \<times> u32) rules" where
  "demo_rules = [(0, []), (56, [(16, 7)]), (500, [])]"

lemma compile_demo:
  "\<exists>prog. compile_bitmap_bpf_with_errno_syscalls word_rule (\<lambda>e. 0x50000 OR e) demo_rules [(435, 38)] 0x50001 0x7fff0000 X86_64 = Ok prog"
  by (simp add: compile_bitmap_bpf_with_errno_syscalls_def demo_rules_def classify_def NUM_BITMAP_WORDS_def
      BPF_MAX_LEN_def errno_section_def errno_actions_of_def map_filter_simps setup_section_def
      dispatch_section_entries active_words_of_def dispatch_entry_def test_section_def build_arg_section_def
      build_syscall_chain_def word_rule_def numeral_eq_Suc)

lemma demo_rules_ok: "bt_inv demo_rules" "\<forall>(n, chain)\<in>set demo_rules. n < 2 ^ 32"
  by (simp_all add: demo_rules_def bt_inv_def)

theorem compile_bitmap_bpf_correct_witness:
  "\<exists>prog. compile_bitmap_bpf_with_errno_syscalls word_rule (\<lambda>e. 0x50000 OR e) demo_rules [(435, 38)]
       0x50001 0x7fff0000 X86_64 = Ok prog
     \<and> bpf_eval 10000 (call_data (arch_audit_value X86_64) 56 7) prog 0 bpf_initial = Some 0x7fff0000"
proof -
  obtain prog where p: "compile_bitmap_bpf_with_errno_syscalls word_rule (\<lambda>e. 0x50000 OR e) demo_rules
      [(435, 38)] 0x50001 0x7fff0000 X86_64 = Ok prog"
    using compile_demo by blast
  have d: "call_data (arch_audit_value X86_64) 56 7 4 = Some (arch_audit_value X86_64)"
    "call_data (arch_audit_value X86_64) 56 7 0 = Some 56" by (simp_all add: call_data_def)
  have v: "policy_value word_sat demo_rules (errno_actions_of (\<lambda>e. 0x50000 OR e) [(435, 38)]) 0x50001 0x7fff0000
      (call_data (arch_audit_value X86_64) 56 7) 56 = 0x7fff0000"
    by (simp add: policy_value_def errno_actions_of_def map_filter_simps demo_rules_def bt_get_def word_sat_def
        call_data_def)
  from compile_bitmap_bpf_correct[OF p demo_rules_ok word_rule_translation d] v p show ?thesis by auto
qed

text \<open>
  the compiler is documented as equivalent to a linear scan of the rules. It is not for an
  unconditional allow of a number the bitmap does not cover: from 480 on such a rule is dropped and
  the call is denied.
\<close>

theorem high_syscall_allow_dropped:
  assumes "compile_bitmap_bpf_with_errno_syscalls rule_bpf errno_value rules [] mismatch_val match_val arch = Ok prog"
    and "bt_inv rules" and "\<forall>(n, chain)\<in>set rules. n < 2 ^ 32"
    and "rule_translation rule_bpf sat data"
    and "data 4 = Some (arch_audit_value arch)" and "data 0 = Some nr"
    and "bt_get rules (uint nr) = Some []" and "480 \<le> unat nr"
  shows "bpf_eval 10000 data prog 0 bpf_initial = Some mismatch_val"
  using compiled_value[OF assms(1-6)] assms(7,8)
  by (simp add: policy_value_def errno_actions_of_def map_filter_simps)

theorem high_syscall_allow_dropped_witness:
  "\<exists>prog. compile_bitmap_bpf_with_errno_syscalls word_rule id demo_rules [] 0x50001 0x7fff0000 X86_64 = Ok prog
     \<and> bpf_eval 10000 (call_data (arch_audit_value X86_64) 500 0) prog 0 bpf_initial = Some 0x50001"
proof -
  obtain prog where p: "compile_bitmap_bpf_with_errno_syscalls word_rule id demo_rules [] 0x50001 0x7fff0000 X86_64 = Ok prog"
    by (simp add: compile_bitmap_bpf_with_errno_syscalls_def demo_rules_def classify_def NUM_BITMAP_WORDS_def
      BPF_MAX_LEN_def errno_section_def errno_actions_of_def map_filter_simps setup_section_def
      dispatch_section_entries active_words_of_def dispatch_entry_def test_section_def build_arg_section_def
      build_syscall_chain_def word_rule_def numeral_eq_Suc)
  have "bt_get demo_rules (uint (500 :: u32)) = Some []" by (simp add: demo_rules_def bt_get_def)
  moreover have "call_data (arch_audit_value X86_64) 500 0 4 = Some (arch_audit_value X86_64)"
    "call_data (arch_audit_value X86_64) 500 0 0 = Some 500" by (simp_all add: call_data_def)
  ultimately have "bpf_eval 10000 (call_data (arch_audit_value X86_64) 500 0) prog 0 bpf_initial = Some 0x50001"
    using high_syscall_allow_dropped[OF p demo_rules_ok word_rule_translation, of "arch_audit_value X86_64" 500 0 500]
    by simp
  with p show ?thesis by blast
qed

end
