(* ===== verification/Seccomp_Profile.thy ===== *)
theory Seccomp_Profile
  imports Syscall_Table Seccomp_Bpf
begin

text \<open>
  The seccomp policy of the runtime (\<^verbatim>\<open>src/src/security/seccomp.rs\<close>) on x86-64: the built-in filter, extra
  system calls, custom profiles, and the generation of a profile from a trace
  (\<^verbatim>\<open>src/src/security/seccomp_generate.rs\<close>).

  Conditions and rules on arguments are made by the package \<^verbatim>\<open>seccompiler\<close>: its constructors are the
  record \<open>seccompiler\<close>, and \<open>seccompiler_sound\<close> states what its documentation says of them.
\<close>

section \<open>Lists of the source\<close>

definition base_allowed_syscalls :: "int list" where
  "base_allowed_syscalls =
    [SYS_read, SYS_write, SYS_openat, SYS_close, SYS_fstat, SYS_lseek, SYS_fcntl, SYS_readv, SYS_writev,
     SYS_preadv, SYS_pwritev, SYS_pread64, SYS_pwrite64, SYS_readlinkat, SYS_newfstatat, SYS_statx,
     SYS_faccessat, SYS_faccessat2, SYS_dup, SYS_dup3, SYS_pipe2, SYS_unlinkat, SYS_renameat, SYS_renameat2,
     SYS_linkat, SYS_symlinkat, SYS_fchmod, SYS_fchmodat, SYS_truncate, SYS_ftruncate, SYS_fallocate,
     SYS_fadvise64, SYS_fsync, SYS_fdatasync, SYS_sync_file_range, SYS_flock, SYS_fstatfs, SYS_statfs,
     SYS_sendfile, SYS_copy_file_range, SYS_splice, SYS_tee, SYS_mmap, SYS_munmap, SYS_brk, SYS_mremap,
     SYS_madvise, SYS_msync, SYS_mlock, SYS_munlock, SYS_mlock2, SYS_shmget, SYS_shmat, SYS_shmdt, SYS_shmctl,
     SYS_semget, SYS_semop, SYS_semctl, SYS_semtimedop, SYS_execve, SYS_wait4, SYS_waitid, SYS_exit,
     SYS_exit_group, SYS_getpid, SYS_gettid, SYS_getuid, SYS_getgid, SYS_geteuid, SYS_getegid, SYS_getresuid,
     SYS_getresgid, SYS_getppid, SYS_setsid, SYS_getgroups, SYS_rt_sigaction, SYS_rt_sigprocmask,
     SYS_rt_sigreturn, SYS_rt_sigsuspend, SYS_rt_sigtimedwait, SYS_rt_sigpending, SYS_rt_sigqueueinfo,
     SYS_sigaltstack, SYS_restart_syscall, SYS_kill, SYS_tgkill, SYS_clock_gettime, SYS_clock_getres,
     SYS_clock_nanosleep, SYS_gettimeofday, SYS_nanosleep, SYS_setitimer, SYS_getitimer, SYS_getcwd, SYS_chdir,
     SYS_fchdir, SYS_mkdirat, SYS_getdents64, SYS_uname, SYS_getrandom, SYS_futex, SYS_set_tid_address,
     SYS_set_robust_list, SYS_get_robust_list, SYS_umask, SYS_getrusage, SYS_times, SYS_sched_yield,
     SYS_sched_getaffinity, SYS_sched_setaffinity, SYS_sched_getparam, SYS_sched_getscheduler, SYS_getcpu,
     SYS_getxattr, SYS_lgetxattr, SYS_fgetxattr, SYS_listxattr, SYS_llistxattr, SYS_flistxattr, SYS_rseq,
     SYS_close_range, SYS_fchown, SYS_fchownat, SYS_io_setup, SYS_io_destroy, SYS_io_submit, SYS_io_getevents,
     SYS_setpgid, SYS_getpgid, SYS_landlock_create_ruleset, SYS_landlock_add_rule, SYS_landlock_restrict_self,
     SYS_getsockname, SYS_getpeername, SYS_socketpair, SYS_getsockopt, SYS_connect, SYS_ppoll, SYS_pselect6,
     SYS_epoll_create1, SYS_epoll_ctl, SYS_epoll_pwait, SYS_eventfd2, SYS_signalfd4, SYS_timerfd_create,
     SYS_timerfd_settime, SYS_timerfd_gettime]
    @ [SYS_open, SYS_stat, SYS_lstat, SYS_access, SYS_readlink, SYS_dup2, SYS_pipe, SYS_unlink, SYS_rename,
     SYS_link, SYS_symlink, SYS_chmod, SYS_mkdir, SYS_rmdir, SYS_getdents, SYS_getpgrp, SYS_chown, SYS_fchown,
     SYS_lchown, SYS_arch_prctl, SYS_getrlimit, SYS_poll, SYS_select, SYS_epoll_create, SYS_epoll_wait,
     SYS_eventfd, SYS_signalfd]"

definition allowed_socket_domains :: "bool \<Rightarrow> int list" where
  "allowed_socket_domains allow_network = (if allow_network then [1, 2, 10] else [1])"

definition network_mode_syscalls :: "bool \<Rightarrow> int list" where
  "network_mode_syscalls allow_network =
    (if allow_network
     then [SYS_sendto, SYS_recvfrom, SYS_sendmsg, SYS_recvmsg, SYS_shutdown, SYS_bind, SYS_listen, SYS_accept,
     SYS_accept4, SYS_setsockopt]
     else [])"

definition ARG_FILTERED_SYSCALLS :: "string list" where
  "ARG_FILTERED_SYSCALLS =
    [''clone'', ''execveat'', ''ioctl'', ''mprotect'', ''preadv2'', ''prctl'', ''pwritev2'', ''socket'']"

definition SECURITY_CRITICAL_DENIED_SYSCALLS :: "string list" where
  "SECURITY_CRITICAL_DENIED_SYSCALLS =
    [''clone3'', ''unshare'', ''setns'', ''add_key'', ''request_key'', ''keyctl'']"

definition OPT_IN_SYSCALLS :: "string list" where
  "OPT_IN_SYSCALLS =
    [''io_uring_setup'', ''io_uring_enter'', ''io_uring_register'', ''msgget'', ''msgsnd'', ''msgrcv'',
     ''msgctl'', ''mq_open'', ''mq_unlink'', ''mq_timedsend'', ''mq_timedreceive'', ''mq_notify'',
     ''mq_getsetattr'', ''timer_create'', ''timer_settime'', ''timer_gettime'', ''timer_getoverrun'',
     ''timer_delete'', ''inotify_init'', ''inotify_init1'', ''inotify_add_watch'', ''inotify_rm_watch'',
     ''fanotify_init'', ''fanotify_mark'', ''mincore'', ''mlockall'', ''munlockall'', ''membarrier'',
     ''process_madvise'', ''mbind'', ''set_mempolicy'', ''get_mempolicy'', ''set_mempolicy_home_node'',
     ''pkey_mprotect'', ''pkey_alloc'', ''pkey_free'', ''cachestat'', ''remap_file_pages'', ''sync'',
     ''syncfs'', ''sync_file_range'', ''readahead'', ''vmsplice'', ''openat2'', ''name_to_handle_at'',
     ''open_by_handle_at'', ''io_cancel'', ''io_pgetevents'', ''creat'', ''fchmodat2'', ''statmount'',
     ''listmount'', ''utimensat'', ''utimes'', ''utime'', ''futimesat'', ''setxattr'', ''lsetxattr'',
     ''fsetxattr'', ''removexattr'', ''lremovexattr'', ''fremovexattr'', ''setxattrat'', ''getxattrat'',
     ''listxattrat'', ''removexattrat'', ''recvmmsg'', ''sendmmsg'', ''sched_setparam'', ''sched_setscheduler'',
     ''sched_get_priority_max'', ''sched_get_priority_min'', ''sched_rr_get_interval'', ''sched_setattr'',
     ''sched_getattr'', ''setrlimit'', ''getpriority'', ''setpriority'', ''ioprio_set'', ''ioprio_get'',
     ''vfork'', ''pause'', ''alarm'', ''tkill'', ''sysinfo'', ''personality'', ''vhangup'', ''time'',
     ''pidfd_open'', ''pidfd_send_signal'', ''pidfd_getfd'', ''setuid'', ''setgid'', ''setreuid'', ''setregid'',
     ''setresuid'', ''getresuid'', ''setresgid'', ''getresgid'', ''setfsuid'', ''setfsgid'', ''setgroups'',
     ''getsid'', ''capget'', ''rt_tgsigqueueinfo'', ''mknod'', ''mknodat'', ''syslog'', ''clock_settime'',
     ''clock_adjtime'', ''adjtimex'', ''kcmp'', ''epoll_pwait2'', ''futex_waitv'', ''futex_wake'',
     ''futex_wait'', ''futex_requeue'', ''seccomp'']"

definition DENIED_CLONE_NAMESPACE_FLAGS :: u64 where
  "DENIED_CLONE_NAMESPACE_FLAGS =
     0x10000000 OR 0x20000 OR 0x40000000 OR 0x8000000 OR 0x4000000 OR 0x20000000 OR 0x2000000 OR 0x80"

definition errno_denied_syscalls :: "(int \<times> u32) list" where
  "errno_denied_syscalls = [(SYS_clone3, 38)]"

section \<open>Conditions on arguments\<close>

datatype cmp_arg_len = Dword | Qword

datatype cmp_op = Eq | MaskedEq u64

type_synonym condition = "nat \<times> cmp_arg_len \<times> cmp_op \<times> u64"

record ('c, 'r) seccompiler =
  sc_condition :: "nat \<Rightarrow> cmp_arg_len \<Rightarrow> cmp_op \<Rightarrow> u64 \<Rightarrow> string + 'c"
  sc_rule :: "'c list \<Rightarrow> string + 'r"

definition build_rule :: "('c, 'r) seccompiler \<Rightarrow> condition list \<Rightarrow> 'r result" where
  "build_rule api conditions =
     and_then (try_map (\<lambda>(arg, len, operator, v).
         map_err (\<lambda>_. SeccompError ''Failed to create {} condition: {}'') (sc_condition api arg len operator v)) conditions) (\<lambda>cs.
     map_err (\<lambda>_. SeccompError ''Failed to create {} rule: {}'') (sc_rule api cs))"

definition ioctl_allowed :: "u64 list" where
  "ioctl_allowed = [0x5401, 0x802C542A, 0x5402, 0x5403, 0x5404, 0x540B, 0x540E, 0x540F, 0x5410, 0x5413, 0x5429, 0x541B,
     0x5421, 0x5451, 0x5450]"

definition prctl_allowed :: "u64 list" where
  "prctl_allowed = [1, 2, 15, 16, 23, 27, 36, 37, 38, 40, 39, 35]"

text \<open>The system calls that are filtered by argument, in the order of the source, each with the conditions of its rules.\<close>

definition argument_filters :: "bool \<Rightarrow> (int \<times> condition list list) list" where
  "argument_filters allow_network =
     [(SYS_socket, map (\<lambda>domain. [(0, Dword, Eq, word_of_int domain)]) (allowed_socket_domains allow_network)),
      (SYS_ioctl, map (\<lambda>request. [(1, Dword, Eq, request)]) ioctl_allowed),
      (SYS_prctl, map (\<lambda>option. [(0, Dword, Eq, option)]) prctl_allowed @ [[(0, Dword, Eq, 47), (1, Dword, Eq, 1)]]),
      (SYS_prlimit64, [[(2, Qword, Eq, 0)]]),
      (SYS_mprotect, map (\<lambda>allowed. [(2, Dword, MaskedEq (2 OR 4), allowed)]) [0, 2, 4]),
      (SYS_preadv2, [[(5, Qword, Eq, 0)]]),
      (SYS_pwritev2, [[(5, Qword, Eq, 0)]]),
      (SYS_clone, [[(0, Qword, MaskedEq DENIED_CLONE_NAMESPACE_FLAGS, 0)]]),
      (SYS_execveat, [[(4, Dword, MaskedEq 0x1000, 0)]])]"

section \<open>The built-in filter\<close>

definition add_extra_syscall :: "string \<Rightarrow> 'r rules \<Rightarrow> 'r rules" where
  "add_extra_syscall name rules =
     (if name \<in> set ARG_FILTERED_SYSCALLS then rules
      else
        (case syscall_name_to_number name of
           None \<Rightarrow> rules
         | Some nr \<Rightarrow>
             if bt_contains rules nr then rules
             else if name \<in> set SECURITY_CRITICAL_DENIED_SYSCALLS then rules
             else if name \<in> set OPT_IN_SYSCALLS then bt_insert nr [] rules
             else rules))"

definition insert_filter :: "('c, 'r) seccompiler \<Rightarrow> 'r rules \<Rightarrow> int \<times> condition list list \<Rightarrow> 'r rules result" where
  "insert_filter api rules = (\<lambda>(nr, rule_conditions).
     and_then (try_map (build_rule api) rule_conditions) (\<lambda>chain. Ok (bt_insert nr chain rules)))"

definition minimal_filter :: "('c, 'r) seccompiler \<Rightarrow> bool \<Rightarrow> string list \<Rightarrow> 'r rules result" where
  "minimal_filter api allow_network extra_syscalls =
     (let rules = fold (\<lambda>nr. bt_insert nr []) base_allowed_syscalls [];
          rules = fold (\<lambda>nr. bt_insert nr []) (network_mode_syscalls allow_network) rules;
          rules = fold add_extra_syscall extra_syscalls rules in
      try_fold (insert_filter api) rules (argument_filters allow_network))"

definition validate_extra_syscall :: "bool \<Rightarrow> string \<Rightarrow> unit result" where
  "validate_extra_syscall allow_network name =
     (case syscall_name_to_number name of
        None \<Rightarrow> Err (ConfigError ''Production mode rejects unknown --seccomp-allow syscall {}'')
      | Some nr \<Rightarrow>
          if nr \<in> set base_allowed_syscalls \<or> nr \<in> set (network_mode_syscalls allow_network)
            \<or> name \<in> set ARG_FILTERED_SYSCALLS then Ok ()
          else if name \<in> set SECURITY_CRITICAL_DENIED_SYSCALLS
          then Err (ConfigError ''Production mode forbids --seccomp-allow for security-critical syscall {}'')
          else if name \<in> set OPT_IN_SYSCALLS then Ok ()
          else Err (ConfigError ''Production mode rejects unsupported --seccomp-allow syscall {}''))"

definition validate_extra_syscalls_for_production :: "bool \<Rightarrow> string list \<Rightarrow> unit result" where
  "validate_extra_syscalls_for_production allow_network extra_syscalls =
     for_each (validate_extra_syscall allow_network) extra_syscalls"


section \<open>Meaning\<close>

text \<open>The arguments of a system call lie in the filter's data from byte 16 on, each with its low word first.\<close>

fun argument :: "(nat \<Rightarrow> u32 option) \<Rightarrow> nat \<Rightarrow> cmp_arg_len \<Rightarrow> u64" where
  "argument data i Dword = ucast (the (data (16 + 8 * i)))"
| "argument data i Qword = push_bit 32 (ucast (the (data (16 + 8 * i + 4)))) OR ucast (the (data (16 + 8 * i)))"

fun condition_holds :: "(nat \<Rightarrow> u32 option) \<Rightarrow> condition \<Rightarrow> bool" where
  "condition_holds data (i, len, Eq, v) \<longleftrightarrow> argument data i len = v"
| "condition_holds data (i, len, MaskedEq m, v) \<longleftrightarrow> argument data i len AND m = v AND m"

definition rule_means :: "('r \<Rightarrow> (nat \<Rightarrow> u32 option) \<Rightarrow> bool) \<Rightarrow> 'r \<Rightarrow> condition list \<Rightarrow> bool" where
  "rule_means sat r cs \<longleftrightarrow> (\<forall>data. sat r data \<longleftrightarrow> (\<forall>c \<in> set cs. condition_holds data c))"

text \<open>
  A rule of one or two conditions on the six arguments, with values of their width, can be made, and it matches
  exactly when all its conditions hold.
\<close>

definition proper_condition :: "condition \<Rightarrow> bool" where
  "proper_condition = (\<lambda>(i, len, operator, v). i < 6 \<and> (len = Dword \<longrightarrow> v < 2 ^ 32))"

definition seccompiler_sound :: "('c, 'r) seccompiler \<Rightarrow> ('r \<Rightarrow> (nat \<Rightarrow> u32 option) \<Rightarrow> bool) \<Rightarrow> bool" where
  "seccompiler_sound api sat \<longleftrightarrow>
     (\<forall>cs. length cs \<in> {1, 2} \<and> list_all proper_condition cs \<longrightarrow>
       (\<exists>r. build_rule api cs = Ok r \<and> rule_means sat r cs))"

text \<open>An extra system call that the filter takes.\<close>

definition opts_in :: "string \<Rightarrow> int \<Rightarrow> bool" where
  "opts_in name nr \<longleftrightarrow> name \<notin> set ARG_FILTERED_SYSCALLS \<and> name \<notin> set SECURITY_CRITICAL_DENIED_SYSCALLS
     \<and> name \<in> set OPT_IN_SYSCALLS \<and> syscall_name_to_number name = Some nr"

section \<open>The rules of the filter\<close>

lemma fold_allow:
  "bt_inv m \<Longrightarrow> bt_inv (fold (\<lambda>nr. bt_insert nr []) ns m)
     \<and> bt_get (fold (\<lambda>nr. bt_insert nr []) ns m) nr = (if nr \<in> set ns then Some [] else bt_get m nr)"
  by (induction ns arbitrary: m) (auto simp: bt_inv_insert bt_get_insert)

lemma add_extra:
  assumes "bt_inv m"
  shows "bt_inv (add_extra_syscall name m)
    \<and> bt_get (add_extra_syscall name m) nr =
        (case bt_get m nr of Some c \<Rightarrow> Some c | None \<Rightarrow> if opts_in name nr then Some [] else None)"
  using assms
  by (auto simp: add_extra_syscall_def opts_in_def bt_contains_def bt_inv_insert bt_get_insert split: option.splits)

lemma fold_extra:
  "bt_inv m \<Longrightarrow> bt_inv (fold add_extra_syscall extras m)
     \<and> bt_get (fold add_extra_syscall extras m) nr =
        (case bt_get m nr of Some c \<Rightarrow> Some c | None \<Rightarrow> if \<exists>name \<in> set extras. opts_in name nr then Some [] else None)"
proof (induction extras arbitrary: m)
  case (Cons name extras)
  from add_extra[OF Cons.prems] Cons.IH[of "add_extra_syscall name m"] show ?case
    by (auto split: option.splits)
qed (simp split: option.splits)

lemma build_rules:
  assumes "seccompiler_sound api sat" "\<forall>cs \<in> set rss. length cs \<in> {1, 2} \<and> list_all proper_condition cs"
  shows "\<exists>chain. try_map (build_rule api) rss = Ok chain \<and> list_all2 (rule_means sat) chain rss"
  using assms(2)
proof (induction rss)
  case (Cons cs rss)
  then obtain chain where "try_map (build_rule api) rss = Ok chain" "list_all2 (rule_means sat) chain rss" by auto
  moreover obtain r where "build_rule api cs = Ok r" "rule_means sat r cs"
    using Cons.prems assms(1) unfolding seccompiler_sound_def by (metis list.set_intros(1))
  ultimately show ?case by auto
qed simp

lemma insert_filters:
  assumes "seccompiler_sound api sat"
    and "\<forall>(nr, rss) \<in> set fs. \<forall>cs \<in> set rss. length cs \<in> {1, 2} \<and> list_all proper_condition cs"
    and "bt_inv m" "distinct (map fst fs)"
  shows "\<exists>m'. try_fold (insert_filter api) m fs = Ok m' \<and> bt_inv m'
    \<and> (\<forall>nr. case map_of fs nr of
         Some rss \<Rightarrow> \<exists>chain. bt_get m' nr = Some chain \<and> list_all2 (rule_means sat) chain rss
       | None \<Rightarrow> bt_get m' nr = bt_get m nr)"
  using assms(2-4)
proof (induction fs arbitrary: m)
  case (Cons x fs)
  obtain n rss where x: "x = (n, rss)" by fastforce
  from Cons.prems(1) have "\<forall>cs \<in> set rss. length cs \<in> {1, 2} \<and> list_all proper_condition cs" by (auto simp: x)
  from build_rules[OF assms(1) this] obtain chain where
    chain: "try_map (build_rule api) rss = Ok chain" "list_all2 (rule_means sat) chain rss" by blast
  let ?m = "bt_insert n chain m"
  have prems: "\<forall>(nr, rss) \<in> set fs. \<forall>cs \<in> set rss. length cs \<in> {1, 2} \<and> list_all proper_condition cs" "bt_inv ?m"
    "distinct (map fst fs)" using Cons.prems by (auto simp: bt_inv_insert)
  from Cons.IH[OF prems] obtain m' where m': "try_fold (insert_filter api) ?m fs = Ok m'" "bt_inv m'"
    "\<And>nr. case map_of fs nr of Some rss \<Rightarrow> \<exists>chain. bt_get m' nr = Some chain \<and> list_all2 (rule_means sat) chain rss
       | None \<Rightarrow> bt_get m' nr = bt_get ?m nr" by blast
  have step: "try_fold (insert_filter api) m (x # fs) = Ok m'" using chain(1) m'(1) by (simp add: x insert_filter_def)
  have n: "map_of fs n = None" using Cons.prems(3) by (simp add: x map_of_eq_None_iff)
  have "case map_of (x # fs) nr of Some rss \<Rightarrow> \<exists>chain. bt_get m' nr = Some chain \<and> list_all2 (rule_means sat) chain rss
       | None \<Rightarrow> bt_get m' nr = bt_get m nr" for nr
  proof (cases "nr = n")
    case True
    with m'(3)[of n] n chain(2) Cons.prems(2) show ?thesis by (simp add: x bt_get_insert)
  next
    case False
    with m'(3)[of nr] Cons.prems(2) show ?thesis by (simp add: x bt_get_insert split: option.splits)
  qed
  with step m'(2) show ?case by blast
qed simp

lemma argument_filters_proper:
  "\<forall>(nr, rss) \<in> set (argument_filters net). \<forall>cs \<in> set rss. length cs \<in> {1, 2} \<and> list_all proper_condition cs"
  by (simp add: argument_filters_def proper_condition_def allowed_socket_domains_def ioctl_allowed_def prctl_allowed_def)

lemma argument_filters_distinct: "distinct (map fst (argument_filters net))"
  by (simp add: argument_filters_def)

lemma minimal_filter_rules:
  fixes api :: "('c, 'r) seccompiler"
  assumes "seccompiler_sound api sat"
  shows "\<exists>rules. minimal_filter api net extras = Ok rules \<and> bt_inv rules
    \<and> (\<forall>nr. case map_of (argument_filters net) nr of
         Some rss \<Rightarrow> \<exists>chain. bt_get rules nr = Some chain \<and> list_all2 (rule_means sat) chain rss
       | None \<Rightarrow> bt_get rules nr =
           (if nr \<in> set base_allowed_syscalls \<or> nr \<in> set (network_mode_syscalls net)
              \<or> (\<exists>name \<in> set extras. opts_in name nr) then Some [] else None))"
proof -
  let ?a = "fold (\<lambda>nr. bt_insert nr []) base_allowed_syscalls [] :: 'r rules"
  let ?b = "fold (\<lambda>nr. bt_insert nr []) (network_mode_syscalls net) ?a"
  let ?c = "fold add_extra_syscall extras ?b"
  have e: "bt_inv ([] :: 'r rules)" "bt_get ([] :: 'r rules) nr = None" for nr
    by (simp_all add: bt_inv_def bt_get_def)
  have a: "bt_inv ?a" "bt_get ?a nr = (if nr \<in> set base_allowed_syscalls then Some [] else None)" for nr
    using fold_allow[OF e(1), of base_allowed_syscalls nr] e(2) by auto
  have b: "bt_inv ?b" "bt_get ?b nr = (if nr \<in> set (network_mode_syscalls net) then Some [] else bt_get ?a nr)" for nr
    using fold_allow[OF a(1), of "network_mode_syscalls net" nr] by auto
  have c: "bt_inv ?c" "bt_get ?c nr = (case bt_get ?b nr of Some c \<Rightarrow> Some c
      | None \<Rightarrow> if \<exists>name \<in> set extras. opts_in name nr then Some [] else None)" for nr
    using fold_extra[OF b(1), of extras nr] by auto
  have plain: "bt_get ?c nr = (if nr \<in> set base_allowed_syscalls \<or> nr \<in> set (network_mode_syscalls net)
      \<or> (\<exists>name \<in> set extras. opts_in name nr) then Some [] else None)" for nr
    unfolding c(2) b(2) a(2) by (simp del: set_append)
  from insert_filters[OF assms argument_filters_proper c(1) argument_filters_distinct]
  show ?thesis unfolding minimal_filter_def Let_def plain .
qed


section \<open>What the filter decides\<close>

definition SECCOMP_RET_ALLOW :: u32 where
  "SECCOMP_RET_ALLOW = 0x7fff0000"

text \<open>
  The specification: \<^verbatim>\<open>clone3\<close> fails with its error number, a call filtered by argument is allowed when all
  conditions of one of its rules hold, every other call when a list allows it. With a graphics device
  \<^verbatim>\<open>ioctl\<close> is allowed whatever its arguments.
\<close>

definition allowed_arguments :: "bool \<Rightarrow> (nat \<Rightarrow> u32 option) \<Rightarrow> int \<Rightarrow> bool" where
  "allowed_arguments net data nr \<longleftrightarrow>
     (case map_of (argument_filters net) nr of
        None \<Rightarrow> False
      | Some rss \<Rightarrow> \<exists>cs \<in> set rss. \<forall>c \<in> set cs. condition_holds data c)"

definition allowed_by_name :: "bool \<Rightarrow> string list \<Rightarrow> int \<Rightarrow> bool" where
  "allowed_by_name net extras nr \<longleftrightarrow>
     map_of (argument_filters net) nr = None
     \<and> (nr \<in> set base_allowed_syscalls \<or> nr \<in> set (network_mode_syscalls net) \<or> (\<exists>name \<in> set extras. opts_in name nr))"

definition filter_verdict :: "(u32 \<Rightarrow> u32) \<Rightarrow> bool \<Rightarrow> string list \<Rightarrow> bool \<Rightarrow> (nat \<Rightarrow> u32 option) \<Rightarrow> u32 \<Rightarrow> u32" where
  "filter_verdict errno_value net extras gpu data nr =
     (if uint nr = SYS_clone3 then errno_value 38
      else if gpu \<and> uint nr = SYS_ioctl \<or> allowed_arguments net data (uint nr) \<or> allowed_by_name net extras (uint nr)
      then SECCOMP_RET_ALLOW else SECCOMP_RET_KILL_PROCESS)"

lemma syscall_numbers_small:
  "list_all (\<lambda>nr. 0 \<le> nr \<and> nr < 480) (base_allowed_syscalls @ network_mode_syscalls True @ map snd syscall_arms)"
  unfolding base_allowed_syscalls_def network_mode_syscalls_def syscall_arms_def by simp

lemma allowed_number_small:
  assumes "nr \<in> set base_allowed_syscalls \<or> nr \<in> set (network_mode_syscalls net) \<or> (\<exists>name \<in> set extras. opts_in name nr)"
  shows "0 \<le> nr \<and> nr < 480"
proof -
  have "set (network_mode_syscalls net) \<subseteq> set (network_mode_syscalls True)" by (cases net) (simp_all add: network_mode_syscalls_def)
  moreover have "nr \<in> snd ` set syscall_arms" if "opts_in name nr" for name
    using that match_arm_in by (force simp: opts_in_def syscall_name_to_number_def)
  ultimately show ?thesis using assms syscall_numbers_small unfolding list_all_iff by auto
qed

lemma chain_matches:
  assumes "list_all2 (rule_means sat) chain rss"
  shows "(\<exists>r \<in> set chain. sat r data) \<longleftrightarrow> (\<exists>cs \<in> set rss. \<forall>c \<in> set cs. condition_holds data c)"
  using assms by (induction rule: list_all2_induct) (auto simp: rule_means_def)

lemma argument_filters_nonempty: "map_of (argument_filters net) nr = Some rss \<Longrightarrow> rss \<noteq> []"
  by (auto simp: argument_filters_def allowed_socket_domains_def ioctl_allowed_def split: if_splits)

lemma errno_actions: "map_of (errno_actions_of errno_value errno_denied_syscalls) nr =
    (if uint nr = SYS_clone3 then Some (errno_value 38) else None)"
proof -
  have "nr = 435 \<longleftrightarrow> uint nr = 435" for nr :: u32 by (simp add: word_uint_eq_iff)
  then show ?thesis by (auto simp: errno_actions_of_def errno_denied_syscalls_def map_filter_simps)
qed

lemma unat_uint_less: "unat nr < 480 \<longleftrightarrow> uint nr < 480" for nr :: u32
proof -
  have "uint nr = int (unat nr)" by simp
  then show ?thesis by linarith
qed

lemma minimal_filter_policy:
  fixes api :: "('c, 'r) seccompiler"
  assumes "seccompiler_sound api sat" "minimal_filter api net extras = Ok rules"
  shows "bt_inv rules \<and> (\<forall>(n, chain) \<in> set rules. n < 2 ^ 32)
    \<and> policy_value sat (if gpu then bt_insert SYS_ioctl [] rules else rules)
        (errno_actions_of errno_value errno_denied_syscalls) SECCOMP_RET_KILL_PROCESS SECCOMP_RET_ALLOW data nr
      = filter_verdict errno_value net extras gpu data nr"
proof -
  from minimal_filter_rules[OF assms(1), of net extras] assms(2) have inv: "bt_inv rules"
    and get: "\<And>nr. case map_of (argument_filters net) nr of
         Some rss \<Rightarrow> \<exists>chain. bt_get rules nr = Some chain \<and> list_all2 (rule_means sat) chain rss
       | None \<Rightarrow> bt_get rules nr =
           (if nr \<in> set base_allowed_syscalls \<or> nr \<in> set (network_mode_syscalls net)
              \<or> (\<exists>name \<in> set extras. opts_in name nr) then Some [] else None)"
    by auto
  have "n < 2 ^ 32" if "(n, chain) \<in> set rules" for n chain
  proof (cases "map_of (argument_filters net) n")
    case None
    with get[of n] bt_entry_in[OF that inv] allowed_number_small[of n net extras] show ?thesis
      by (auto split: if_splits)
  next
    case (Some rss)
    then show ?thesis by (auto simp: argument_filters_def split: if_splits)
  qed
  moreover have "policy_value sat (if gpu then bt_insert SYS_ioctl [] rules else rules)
        (errno_actions_of errno_value errno_denied_syscalls) SECCOMP_RET_KILL_PROCESS SECCOMP_RET_ALLOW data nr
      = filter_verdict errno_value net extras gpu data nr"
  proof (cases "map_of (argument_filters net) (uint nr)")
    case None
    then have "uint nr \<noteq> SYS_ioctl" by (auto simp: argument_filters_def split: if_splits)
    moreover have "unat nr < 480 \<longleftrightarrow> uint nr < 480" by (rule unat_uint_less)
    ultimately show ?thesis using None get[of "uint nr"] allowed_number_small[of "uint nr" net extras] inv
      by (auto simp: policy_value_def filter_verdict_def allowed_arguments_def allowed_by_name_def errno_actions
          bt_get_insert split: if_splits)
  next
    case (Some rss)
    with get[of "uint nr"] obtain chain where chain: "bt_get rules (uint nr) = Some chain"
      "list_all2 (rule_means sat) chain rss" by auto
    then have "chain \<noteq> []" using argument_filters_nonempty[OF Some] by auto
    moreover have "unat nr < 480" if "uint nr = SYS_ioctl" using that by (simp add: unat_uint_less)
    ultimately show ?thesis using Some chain inv chain_matches[OF chain(2), of data]
      by (auto simp: policy_value_def filter_verdict_def allowed_arguments_def allowed_by_name_def errno_actions
          bt_get_insert)
  qed
  ultimately show ?thesis using inv by blast
qed


section \<open>Calls that no option allows\<close>

text \<open>
  The calls named by the documentation of the filter, the calls that enter or create namespaces, mounts,
  module loading and anonymous executable files.
\<close>

definition never_allowed :: "(string \<times> int) list" where
  "never_allowed =
    [(''ptrace'', SYS_ptrace), (''kexec_load'', SYS_kexec_load), (''add_key'', SYS_add_key),
     (''request_key'', SYS_request_key), (''keyctl'', SYS_keyctl), (''bpf'', SYS_bpf),
     (''perf_event_open'', SYS_perf_event_open), (''userfaultfd'', SYS_userfaultfd), (''unshare'', SYS_unshare),
     (''setns'', SYS_setns), (''mount'', SYS_mount), (''umount2'', SYS_umount2), (''pivot_root'', SYS_pivot_root),
     (''chroot'', SYS_chroot), (''init_module'', SYS_init_module), (''finit_module'', SYS_finit_module),
     (''memfd_create'', SYS_memfd_create)]"

text \<open>The names that a number has in the match.\<close>

fun names_of :: "int \<Rightarrow> (string \<times> int) list \<Rightarrow> string list" where
  "names_of nr [] = []"
| "names_of nr ((s, n) # arms) = (if n = nr then s # names_of nr arms else names_of nr arms)"

lemma names_hit: "names_of n ((s, n) # arms) = s # names_of n arms"
  by simp

lemma names_miss: "n \<noteq> nr \<Longrightarrow> names_of nr ((s, n) # arms) = names_of nr arms"
  by simp

lemma names_of_in: "(s, nr) \<in> set arms \<Longrightarrow> s \<in> set (names_of nr arms)"
  by (induction nr arms rule: names_of.induct) auto

text \<open>No list but the match of names has the number, and one name stands for it.\<close>

definition only_named :: "string \<times> int \<Rightarrow> bool" where
  "only_named e \<longleftrightarrow>
     names_of (snd e) syscall_arms = [fst e]
     \<and> snd e \<notin> set (base_allowed_syscalls @ network_mode_syscalls True)
     \<and> snd e \<notin> set (map fst (argument_filters True)) \<and> snd e \<noteq> SYS_clone3"

lemma never_allowed_names: "list_all (\<lambda>e. names_of (snd e) syscall_arms = [fst e]) never_allowed"
  unfolding never_allowed_def syscall_arms_def
  by (simp only: list.pred_inject fst_conv snd_conv names_hit names_miss names_of.simps(1) simp_thms rel_simps)

lemma never_allowed_only_named: "list_all only_named never_allowed"
proof -
  have "list_all (\<lambda>e. snd e \<notin> set (base_allowed_syscalls @ network_mode_syscalls True)
     \<and> snd e \<notin> set (map fst (argument_filters True)) \<and> snd e \<noteq> SYS_clone3) never_allowed"
    unfolding never_allowed_def base_allowed_syscalls_def network_mode_syscalls_def argument_filters_def by simp
  with never_allowed_names show ?thesis by (simp add: list_all_iff only_named_def)
qed

lemma never_allowed_not_opt_in: "list_all (\<lambda>e. fst e \<notin> set OPT_IN_SYSCALLS) never_allowed"
  unfolding never_allowed_def OPT_IN_SYSCALLS_def
  by (simp only: list.pred_inject list.set fst_conv insert_iff empty_iff list.inject char.inject simp_thms list.distinct)

lemma opts_in_name:
  assumes "names_of nr syscall_arms = [name]" "opts_in n nr"
  shows "n = name"
proof -
  from assms(2) have "(n, nr) \<in> set syscall_arms" by (simp add: opts_in_def syscall_name_to_number_def match_arm_in)
  from names_of_in[OF this] assms(1) show ?thesis by simp
qed



section \<open>Extra system calls\<close>

lemma validated_extra_allowed:
  assumes "validate_extra_syscalls_for_production net extras = Ok ()" "name \<in> set extras"
  shows "\<exists>nr. syscall_name_to_number name = Some nr
    \<and> (nr \<in> set (map fst (argument_filters net)) \<or> allowed_by_name net extras nr)"
proof -
  from assms have v: "validate_extra_syscall net name = Ok ()"
    by (auto simp: validate_extra_syscalls_for_production_def result_simps)
  then obtain nr where nr: "syscall_name_to_number name = Some nr"
    by (auto simp: validate_extra_syscall_def split: option.splits)
  have arg: "nr \<in> set (map fst (argument_filters net))" if "name \<in> set ARG_FILTERED_SYSCALLS"
  proof -
    have "list_all (\<lambda>n. syscall_name_to_number n \<in> set (map Some (map fst (argument_filters net)))) ARG_FILTERED_SYSCALLS"
      unfolding ARG_FILTERED_SYSCALLS_def argument_filters_def syscall_name_to_number_def syscall_arms_def
      by (simp only: list.pred_inject match_eval list.map list.set fst_conv insert_iff)
    with that nr have "Some nr \<in> set (map Some (map fst (argument_filters net)))" unfolding list_all_iff by metis
    then show ?thesis by auto
  qed
  show ?thesis
  proof (cases "name \<in> set ARG_FILTERED_SYSCALLS \<or> nr \<in> set (map fst (argument_filters net))")
    case True
    with arg nr show ?thesis by blast
  next
    case False
    then have "map_of (argument_filters net) nr = None" by (simp add: map_of_eq_None_iff)
    with v nr assms(2) False show ?thesis
      by (auto simp: validate_extra_syscall_def allowed_by_name_def opts_in_def split: if_splits)
  qed
qed

text \<open>
  in production no extra system call is dropped silently. When the extra names pass validation, each of them has
  a number and the filter allows it, at least for some arguments.
\<close>

theorem validated_extras_take_effect:
  assumes "validate_extra_syscalls_for_production net extras = Ok ()" "name \<in> set extras"
  shows "\<exists>nr. syscall_name_to_number name = Some nr
    \<and> (nr \<in> set (map fst (argument_filters net)) \<or> allowed_by_name net extras nr)"
  by (rule validated_extra_allowed[OF assms])

lemma demo_extra: "syscall_name_to_number ''io_uring_setup'' = Some SYS_io_uring_setup"
  unfolding syscall_name_to_number_def syscall_arms_def by (simp only: match_eval)

theorem validated_extras_take_effect_witness:
  "allowed_by_name True [''io_uring_setup''] SYS_io_uring_setup"
proof -
  have "validate_extra_syscalls_for_production True [''io_uring_setup''] = Ok ()"
    by (simp add: validate_extra_syscalls_for_production_def validate_extra_syscall_def demo_extra
        SECURITY_CRITICAL_DENIED_SYSCALLS_def OPT_IN_SYSCALLS_def)
  from validated_extras_take_effect[OF this, of "''io_uring_setup''"] show ?thesis
    by (auto simp: demo_extra argument_filters_def)
qed

text \<open>
  two names are listed as calls that may be opted into although the match of names does not know them: an extra
  \<^verbatim>\<open>io_cancel\<close> changes nothing in development and is rejected as unknown in production.
\<close>

theorem io_cancel_cannot_be_opted_in:
  "''io_cancel'' \<in> set OPT_IN_SYSCALLS \<and> add_extra_syscall ''io_cancel'' rules = rules
   \<and> validate_extra_syscalls_for_production net [''io_cancel'']
       = Err (ConfigError ''Production mode rejects unknown --seccomp-allow syscall {}'')"
proof -
  have "syscall_name_to_number ''io_cancel'' = None"
    unfolding syscall_name_to_number_def syscall_arms_def by (simp only: match_eval)
  then show ?thesis
    by (simp add: OPT_IN_SYSCALLS_def add_extra_syscall_def validate_extra_syscalls_for_production_def
        validate_extra_syscall_def)
qed

end
