(* ===== verification/Host_Actions.thy ===== *)
theory Host_Actions
  imports Nucleus_Prelude
begin

text \<open>
  Fallible code that changes state: an action takes the state and gives the new state with a result.
  \<open>seq\<close> is a statement followed by the rest of the function with the question mark operator, \<open>each\<close> a
  loop that stops at the first error, \<open>attempt\<close> a statement whose error is only logged.

  \<open>holds P m Q E\<close> states that an action started in a state with \<open>P\<close> ends with a value and a state
  related by \<open>Q\<close>, or with an error in a state with \<open>E\<close>. Its rules, collected in \<open>action_rules\<close>, follow
  the structure of the code.
\<close>

type_synonym ('s, 'a) action = "'s \<Rightarrow> 's \<times> 'a result"

definition seq :: "('s, 'a) action \<Rightarrow> ('a \<Rightarrow> ('s, 'b) action) \<Rightarrow> ('s, 'b) action" where
  "seq m f s = (case m s of (s', Inl e) \<Rightarrow> (s', Inl e) | (s', Inr x) \<Rightarrow> f x s')"

definition give :: "'a result \<Rightarrow> ('s, 'a) action" where
  "give r s = (s, r)"

definition modify :: "('s \<Rightarrow> 's) \<Rightarrow> ('s, unit) action" where
  "modify f s = (f s, Ok ())"

fun each :: "('a \<Rightarrow> ('s, unit) action) \<Rightarrow> 'a list \<Rightarrow> ('s, unit) action" where
  "each f [] = give (Ok ())"
| "each f (x # xs) = seq (f x) (\<lambda>_. each f xs)"

definition attempt :: "('s, 'a) action \<Rightarrow> ('s, unit) action" where
  "attempt m s = (fst (m s), Ok ())"

definition only_if :: "bool \<Rightarrow> ('s, unit) action \<Rightarrow> ('s, unit) action" where
  "only_if b m = (if b then m else give (Ok ()))"

definition holds :: "('s \<Rightarrow> bool) \<Rightarrow> ('s, 'a) action \<Rightarrow> ('a \<Rightarrow> 's \<Rightarrow> bool) \<Rightarrow> ('s \<Rightarrow> bool) \<Rightarrow> bool" where
  "holds P m Q E \<longleftrightarrow> (\<forall>s. P s \<longrightarrow> (case m s of (s', Inl e) \<Rightarrow> E s' | (s', Inr x) \<Rightarrow> Q x s'))"

named_theorems action_rules \<open>rules for actions\<close>

lemma holdsD:
  assumes "holds P m Q E" "P s" "m s = (s', r)"
  shows "(\<forall>x. r = Inr x \<longrightarrow> Q x s') \<and> (\<forall>e. r = Inl e \<longrightarrow> E s')"
  using assms unfolding holds_def by (cases r) fastforce+

lemma holds_sure: "holds P m Q (\<lambda>_. False) \<Longrightarrow> P s \<Longrightarrow> \<exists>s' x. m s = (s', Inr x) \<and> Q x s'"
  unfolding holds_def by (cases "m s"; cases "snd (m s)") fastforce+

lemma holds_seq [action_rules]: "holds P m R E \<Longrightarrow> (\<And>x. holds (R x) (f x) Q E) \<Longrightarrow> holds P (seq m f) Q E"
  unfolding holds_def seq_def by (fastforce split: prod.splits sum.splits)

lemma holds_give [action_rules]:
  "(\<And>x s. r = Inr x \<Longrightarrow> P s \<Longrightarrow> Q x s) \<Longrightarrow> (\<And>e s. r = Inl e \<Longrightarrow> P s \<Longrightarrow> E s) \<Longrightarrow> holds P (give r) Q E"
  unfolding holds_def give_def by (auto split: sum.splits)

lemma holds_modify [action_rules]: "(\<And>s. P s \<Longrightarrow> Q () (f s)) \<Longrightarrow> holds P (modify f) Q E"
  by (simp add: holds_def modify_def)

lemma holds_each [action_rules]:
  "(\<And>x. x \<in> set xs \<Longrightarrow> holds I (f x) (\<lambda>_. I) E) \<Longrightarrow> holds I (each f xs) (\<lambda>_. I) E"
proof (induction xs)
  case Nil
  then show ?case by (auto intro: holds_give)
next
  case (Cons x xs)
  then show ?case by (auto intro: holds_seq)
qed

lemma holds_attempt [action_rules]: "holds P m (\<lambda>_. Q) Q \<Longrightarrow> holds P (attempt m) (\<lambda>_. Q) E"
  unfolding holds_def attempt_def by (fastforce split: prod.splits sum.splits)

lemma holds_only_if [action_rules]:
  "(b \<Longrightarrow> holds P m Q E) \<Longrightarrow> (\<And>s. \<not> b \<Longrightarrow> P s \<Longrightarrow> Q () s) \<Longrightarrow> holds P (only_if b m) Q E"
  by (auto simp: only_if_def intro: holds_give)

lemma holds_weaken:
  "holds P m Q E \<Longrightarrow> (\<And>s. P' s \<Longrightarrow> P s) \<Longrightarrow> (\<And>x s. Q x s \<Longrightarrow> Q' x s) \<Longrightarrow> (\<And>s. E s \<Longrightarrow> E' s) \<Longrightarrow> holds P' m Q' E'"
  unfolding holds_def by (fastforce split: prod.splits sum.splits)

lemma seq_assoc: "seq (seq m f) g = seq m (\<lambda>x. seq (f x) g)"
  by (rule ext) (simp add: seq_def split: prod.splits sum.splits)

text \<open>Two statements taken as one, so that a condition may be broken between them.\<close>

lemma holds_seq2:
  "holds P (seq m f) R E \<Longrightarrow> (\<And>y. holds (R y) (g y) Q E) \<Longrightarrow> holds P (seq m (\<lambda>x. seq (f x) g)) Q E"
  unfolding seq_assoc[symmetric] by (rule holds_seq)

lemma holds_if: "(b \<Longrightarrow> holds P m Q E) \<Longrightarrow> (\<not> b \<Longrightarrow> holds P m' Q E) \<Longrightarrow> holds P (if b then m else m') Q E"
  by simp

text \<open>A loop whose state is related to the part of the list that is done.\<close>

lemma holds_each_index:
  assumes "\<And>before x rest. xs = before @ x # rest \<Longrightarrow> holds (I before) (f x) (\<lambda>_. I (before @ [x])) E"
  shows "holds (I []) (each f xs) (\<lambda>_. I xs) E"
proof -
  have "holds (I before) (each f rest) (\<lambda>_. I xs) E" if "xs = before @ rest" for before rest
    using that
  proof (induction rest arbitrary: before)
    case Nil
    then show ?case by (auto intro: holds_give)
  next
    case (Cons x rest)
    have "holds (I (before @ [x])) (each f rest) (\<lambda>_. I xs) E" by (rule Cons.IH) (simp add: Cons.prems)
    with assms[OF Cons.prems] show ?case by (auto intro: holds_seq)
  qed
  from this[of "[]" xs] show ?thesis by simp
qed

text \<open>Evaluation of actions.\<close>

lemma seq_Ok: "m s = (s', Inr x) \<Longrightarrow> seq m f s = f x s'"
  by (simp add: seq_def)

lemma seq_Ok_iff: "seq m f s = (s', Inr y) \<longleftrightarrow> (\<exists>s1 x. m s = (s1, Inr x) \<and> f x s1 = (s', Inr y))"
  by (auto simp: seq_def split: prod.splits sum.splits)

lemmas action_eval = seq_def give_def modify_def attempt_def only_if_def each.simps

end
