(* ===== verification/Seccomp_Manager.thy ===== *)
theory Seccomp_Manager
  imports Seccomp_Profile Host_Actions
begin

text \<open>
  Installing the seccomp filter (\<^verbatim>\<open>src/src/security/seccomp.rs\<close>, the manager) and generating a profile from a trace
  (\<^verbatim>\<open>src/src/security/seccomp_generate.rs\<close>).

  The state is the manager's flag and the programs that the kernel accepted. The kernel's answer to an
  installation, the digest of a file and the parsing of JSON are arguments.
\<close>

section \<open>Installation\<close>

record seccomp_manager =
  sm_applied :: bool
  sm_installed :: "sock_filter list list"

definition seccomp_manager_new :: seccomp_manager where
  "seccomp_manager_new = \<lparr>sm_applied = False, sm_installed = []\<rparr>"

text \<open>The answer to an installation: nothing, or the error number that the system call left, when there is one.\<close>

type_synonym install_answer = "sock_filter list \<Rightarrow> u32 \<Rightarrow> u32 option + unit"

definition SECCOMP_FILTER_FLAG_LOG :: u32 where
  "SECCOMP_FILTER_FLAG_LOG = 2"

definition EINVAL :: u32 where
  "EINVAL = 22"

definition install_program :: "install_answer \<Rightarrow> sock_filter list \<Rightarrow> u32 \<Rightarrow> seccomp_manager \<Rightarrow>
  seccomp_manager \<times> (u32 option + unit)" where
  "install_program install prog flags m =
     (case install prog flags of
        Inl e \<Rightarrow> (m, Err e)
      | Inr _ \<Rightarrow> (m\<lparr>sm_installed := sm_installed m @ [prog]\<rparr>, Ok ()))"

definition apply_bpf_program :: "install_answer \<Rightarrow> sock_filter list \<Rightarrow> bool \<Rightarrow> (seccomp_manager, unit) action" where
  "apply_bpf_program install prog log_denied m =
     (case install_program install prog (if log_denied then SECCOMP_FILTER_FLAG_LOG else 0) m of
        (m', Inr _) \<Rightarrow> (m', Ok ())
      | (m', Inl e) \<Rightarrow>
          if log_denied \<and> e = Some EINVAL
          then (case install_program install prog 0 m' of
                  (m'', Inr _) \<Rightarrow> (m'', Ok ())
                | (m'', Inl _) \<Rightarrow> (m'', Err (IoError ''{}'')))
          else (m', Err (SeccompError ''Failed to apply seccomp filter: {}'')))"

text \<open>What the compiler needs from the package: the translation of a rule and the number of an error action.\<close>

record ('c, 'r) seccomp_backend =
  sb_api :: "('c, 'r) seccompiler"
  sb_rule_bpf :: "'r \<Rightarrow> sock_filter list"
  sb_errno :: "u32 \<Rightarrow> u32"

definition compile_rules :: "('c, 'r) seccomp_backend \<Rightarrow> target_arch option \<Rightarrow> 'r rules \<Rightarrow> sock_filter list result" where
  "compile_rules backend arch rules =
     (case arch of
        None \<Rightarrow> Err (SeccompError ''Unsupported architecture: {:?}'')
      | Some a \<Rightarrow> compile_bitmap_bpf_with_errno_syscalls (sb_rule_bpf backend) (sb_errno backend) rules
          errno_denied_syscalls SECCOMP_RET_KILL_PROCESS SECCOMP_RET_ALLOW a)"

definition compile_minimal_filter :: "('c, 'r) seccomp_backend \<Rightarrow> target_arch option \<Rightarrow> sock_filter list result" where
  "compile_minimal_filter backend arch =
     and_then (minimal_filter (sb_api backend) True []) (compile_rules backend arch)"

text \<open>An error of a best-effort setup is logged, and the run goes on without a filter.\<close>

definition or_without :: "bool \<Rightarrow> nucleus_error \<Rightarrow> bool result" where
  "or_without best_effort e = (if best_effort then Ok False else Err e)"

definition apply_filter_with_options ::
  "('c, 'r) seccomp_backend \<Rightarrow> target_arch option \<Rightarrow> install_answer \<Rightarrow>
   bool \<Rightarrow> bool \<Rightarrow> bool \<Rightarrow> string list \<Rightarrow> bool \<Rightarrow> (seccomp_manager, bool) action" where
  "apply_filter_with_options backend arch install allow_network best_effort log_denied extra_syscalls gpu_mode m =
     (if sm_applied m then (m, Ok True)
      else
        (case minimal_filter (sb_api backend) allow_network extra_syscalls of
           Inl e \<Rightarrow> (m, or_without best_effort e)
         | Inr rules \<Rightarrow>
             (let rules = (if gpu_mode then bt_insert SYS_ioctl [] rules else rules) in
              case compile_rules backend arch rules of
                Inl e \<Rightarrow> (m, or_without best_effort e)
              | Inr prog \<Rightarrow>
                  (case apply_bpf_program install prog log_denied m of
                     (m', Inr _) \<Rightarrow> (m'\<lparr>sm_applied := True\<rparr>, Ok True)
                   | (m', Inl e) \<Rightarrow>
                       (m', or_without best_effort (SeccompError ''Failed to apply seccomp filter: {}''))))))"

definition apply_filter_for_network_mode ::
  "('c, 'r) seccomp_backend \<Rightarrow> target_arch option \<Rightarrow> install_answer \<Rightarrow>
   bool \<Rightarrow> bool \<Rightarrow> bool \<Rightarrow> string list \<Rightarrow> (seccomp_manager, bool) action" where
  "apply_filter_for_network_mode backend arch install allow_network best_effort log_denied extra_syscalls =
     apply_filter_with_options backend arch install allow_network best_effort log_denied extra_syscalls False"

definition apply_minimal_filter_with_mode ::
  "('c, 'r) seccomp_backend \<Rightarrow> target_arch option \<Rightarrow> install_answer \<Rightarrow> bool \<Rightarrow> bool \<Rightarrow> (seccomp_manager, bool) action" where
  "apply_minimal_filter_with_mode backend arch install best_effort log_denied =
     apply_filter_for_network_mode backend arch install True best_effort log_denied []"

definition apply_minimal_filter ::
  "('c, 'r) seccomp_backend \<Rightarrow> target_arch option \<Rightarrow> install_answer \<Rightarrow> (seccomp_manager, bool) action" where
  "apply_minimal_filter backend arch install = apply_minimal_filter_with_mode backend arch install False False"

section \<open>Profiles\<close>

record seccomp_arg_filter =
  af_index :: u32
  af_op :: string
  af_value :: u64

record seccomp_syscall_group =
  sg_names :: "string list"
  sg_action :: string
  sg_args :: "seccomp_arg_filter list"

record seccomp_profile =
  sp_default_action :: string
  sp_architectures :: "string list"
  sp_syscalls :: "seccomp_syscall_group list"

definition allow_profile_name :: "string \<Rightarrow> 'r rules \<Rightarrow> 'r rules" where
  "allow_profile_name name rules =
     (if name = ''clone3'' then rules
      else (case syscall_name_to_number name of None \<Rightarrow> rules | Some nr \<Rightarrow> bt_insert nr [] rules))"

definition profile_rules :: "seccomp_profile \<Rightarrow> 'r rules" where
  "profile_rules profile =
     fold (\<lambda>group rules. if sg_action group = ''SCMP_ACT_ALLOW'' then fold allow_profile_name (sg_names group) rules else rules)
       (sp_syscalls profile) []"

definition merge_builtin :: "'r rules \<Rightarrow> string \<Rightarrow> 'r rules \<Rightarrow> 'r rules" where
  "merge_builtin builtin name rules =
     (case syscall_name_to_number name of
        None \<Rightarrow> rules
      | Some nr \<Rightarrow>
          if bt_contains rules nr then
            (case bt_get builtin nr of
               None \<Rightarrow> rules
             | Some chain \<Rightarrow> if chain = [] then rules else bt_insert nr chain rules)
          else rules)"

definition load_profile :: "('c, 'r) seccomp_backend \<Rightarrow> seccomp_profile \<Rightarrow> 'r rules result" where
  "load_profile backend profile =
     and_then (minimal_filter (sb_api backend) True []) (\<lambda>builtin.
     Ok (fold (merge_builtin builtin) ARG_FILTERED_SYSCALLS (profile_rules profile)))"

definition apply_profile_from_file ::
  "('c, 'r) seccomp_backend \<Rightarrow> target_arch option \<Rightarrow> install_answer \<Rightarrow> (string \<Rightarrow> string) \<Rightarrow> (string \<Rightarrow> seccomp_profile option) \<Rightarrow>
   string option \<Rightarrow> string option \<Rightarrow> bool \<Rightarrow> (seccomp_manager, bool) action" where
  "apply_profile_from_file backend arch install sha256_hex parse file expected_sha256 audit_mode m =
     (if sm_applied m then (m, Ok True)
      else
        (case and_then (ok_or file (SeccompError ''Failed to read seccomp profile {:?}: {}'')) (\<lambda>content.
              and_then (case expected_sha256 of
                  None \<Rightarrow> Ok ()
                | Some expected \<Rightarrow>
                    reject_if (sha256_hex content \<noteq> expected) (SeccompError ''Seccomp profile hash mismatch: expected {}, got {}'')) (\<lambda>_.
              and_then (ok_or (parse content) (SeccompError ''Failed to parse seccomp profile: {}'')) (\<lambda>profile.
              and_then (load_profile backend profile) (compile_rules backend arch)))) of
           Inl e \<Rightarrow> (m, Err e)
         | Inr prog \<Rightarrow>
             (case apply_bpf_program install prog audit_mode m of
                (m', Inr _) \<Rightarrow> (m'\<lparr>sm_applied := True\<rparr>, Ok True)
              | (m', Inl e) \<Rightarrow> (m', Err e))))"

section \<open>Generation from a trace\<close>

record trace_record =
  tr_syscall :: int
  tr_name :: "string option"
  tr_count :: u64

definition show_int :: "int \<Rightarrow> string" where
  "show_int i = (if i < 0 then ''-'' @ show_nat (nat (- i)) else show_nat (nat i))"

definition traced_name :: "trace_record \<Rightarrow> string" where
  "traced_name r =
     (case tr_name r of
        Some n \<Rightarrow> n
      | None \<Rightarrow>
          (case syscall_number_to_name (tr_syscall r) of
             Some n \<Rightarrow> n
           | None \<Rightarrow> ''__NR_'' @ show_int (tr_syscall r)))"

text \<open>A line that is blank is skipped; the names are collected in a set and sorted.\<close>

definition generate_from_trace ::
  "(string \<Rightarrow> trace_record option) \<Rightarrow> string list option \<Rightarrow> seccomp_profile result" where
  "generate_from_trace parse trace_lines =
     and_then (ok_or trace_lines (ConfigError ''Failed to open trace file {:?}: {}'')) (\<lambda>ls.
     and_then (try_map (\<lambda>l. ok_or (parse l) (ConfigError ''Failed to parse trace record: {}: line={}''))
         (filter (\<lambda>l. trim l \<noteq> []) ls)) (\<lambda>records.
     Ok \<lparr>sp_default_action = ''SCMP_ACT_KILL_PROCESS'', sp_architectures = [''SCMP_ARCH_X86_64''],
         sp_syscalls = [\<lparr>sg_names = sort (remdups (map traced_name records)),
                         sg_action = ''SCMP_ACT_ALLOW'', sg_args = []\<rparr>]\<rparr>))"


section \<open>The installed filter\<close>

definition backend_sound :: "('c, 'r) seccomp_backend \<Rightarrow> ('r \<Rightarrow> (nat \<Rightarrow> u32 option) \<Rightarrow> bool) \<Rightarrow> (nat \<Rightarrow> u32 option) \<Rightarrow> bool" where
  "backend_sound backend sat data \<longleftrightarrow>
     seccompiler_sound (sb_api backend) sat \<and> rule_translation (sb_rule_bpf backend) sat data"

lemma apply_bpf_program_installs:
  assumes "apply_bpf_program install prog log m = (m', r)"
  shows "(if r = Ok () then sm_installed m' = sm_installed m @ [prog] else m' = m) \<and> sm_applied m' = sm_applied m"
  using assms by (auto simp: apply_bpf_program_def install_program_def split: sum.splits if_splits)

lemma compiled_verdict:
  assumes "backend_sound backend sat data" "minimal_filter (sb_api backend) net extras = Ok rules"
    and "compile_rules backend (Some X86_64) (if gpu then bt_insert SYS_ioctl [] rules else rules) = Ok prog"
    and "data 4 = Some (arch_audit_value X86_64)" "data 0 = Some nr"
  shows "bpf_eval 10000 data prog 0 bpf_initial = Some (filter_verdict (sb_errno backend) net extras gpu data nr)"
proof -
  note sound = assms(1)[unfolded backend_sound_def]
  note pol = minimal_filter_policy[OF conjunct1[OF sound] assms(2), of gpu "sb_errno backend" data nr]
  let ?rules = "if gpu then bt_insert SYS_ioctl [] rules else rules"
  have inv: "bt_inv ?rules" using pol by (simp add: bt_inv_insert)
  have "n < 2 ^ 32" if "(n, chain) \<in> set (bt_insert SYS_ioctl [] rules)" for n chain
  proof -
    from that have "n \<in> set (map fst (bt_insert SYS_ioctl [] rules))" by force
    then have "n = SYS_ioctl \<or> n \<in> fst ` set rules" unfolding bt_keys_insert by simp
    with pol show ?thesis by auto
  qed
  then have small: "\<forall>(n, chain) \<in> set ?rules. n < 2 ^ 32" using pol by auto
  have "compile_bitmap_bpf_with_errno_syscalls (sb_rule_bpf backend) (sb_errno backend) ?rules
      errno_denied_syscalls SECCOMP_RET_KILL_PROCESS SECCOMP_RET_ALLOW X86_64 = Ok prog"
    using assms(3) by (simp add: compile_rules_def)
  from compiled_value[OF this inv small conjunct2[OF sound] assms(4,5)] pol show ?thesis by simp
qed

text \<open>
  C2: a filter that was asked for is in force or the start fails. Without best effort the manager
  answers with an error or with \<^verbatim>\<open>true\<close>, and after \<^verbatim>\<open>true\<close> from a new manager one program is installed: run by the
  kernel on any system call of the machine's architecture it gives the verdict of the specification.
\<close>

theorem installed_filter_decides:
  assumes "apply_filter_with_options backend (Some X86_64) install net False log extras gpu seccomp_manager_new = (m', r)"
    and "backend_sound backend sat data" "data 4 = Some (arch_audit_value X86_64)" "data 0 = Some nr"
  shows "(\<exists>e. r = Err e \<and> sm_installed m' = [] \<and> \<not> sm_applied m')
    \<or> r = Ok True \<and> sm_applied m'
      \<and> (\<exists>prog. sm_installed m' = [prog]
           \<and> bpf_eval 10000 data prog 0 bpf_initial = Some (filter_verdict (sb_errno backend) net extras gpu data nr))"
proof (cases "minimal_filter (sb_api backend) net extras")
  case (Inl e)
  with assms(1) show ?thesis
    by (auto simp: apply_filter_with_options_def seccomp_manager_new_def or_without_def)
next
  case (Inr rules)
  let ?rules = "if gpu then bt_insert SYS_ioctl [] rules else rules"
  show ?thesis
  proof (cases "compile_rules backend (Some X86_64) ?rules")
    case (Inl e)
    with assms(1) Inr show ?thesis
      by (auto simp: apply_filter_with_options_def seccomp_manager_new_def or_without_def)
  next
    case prog: (Inr prog)
    obtain m1 res where app: "apply_bpf_program install prog log seccomp_manager_new = (m1, res)" by fastforce
    note inst = apply_bpf_program_installs[OF app]
    note verdict = compiled_verdict[OF assms(2) Inr prog assms(3,4)]
    show ?thesis using assms(1) Inr prog app inst verdict
      by (cases res) (auto simp: apply_filter_with_options_def seccomp_manager_new_def or_without_def)
  qed
qed

section \<open>A backend\<close>

text \<open>Conditions and rules as they are given; the translation decides the rule for one system call.\<close>

definition plain_api :: "(condition, condition list) seccompiler" where
  "plain_api = \<lparr>sc_condition = (\<lambda>i len operator v. Ok (i, len, operator, v)), sc_rule = (\<lambda>cs. Ok cs)\<rparr>"

definition plain_sat :: "condition list \<Rightarrow> (nat \<Rightarrow> u32 option) \<Rightarrow> bool" where
  "plain_sat cs data \<longleftrightarrow> (\<forall>c \<in> set cs. condition_holds data c)"

definition plain_backend :: "(nat \<Rightarrow> u32 option) \<Rightarrow> (condition, condition list) seccomp_backend" where
  "plain_backend data = \<lparr>sb_api = plain_api, sb_rule_bpf = (\<lambda>r. if plain_sat r data then [] else [jump_always 1]),
     sb_errno = (\<lambda>e. 0x50000 OR e)\<rparr>"

lemma plain_build: "build_rule plain_api cs = Ok cs"
proof -
  have "try_map (\<lambda>(i, len, operator, v).
      map_err (\<lambda>_. SeccompError ''Failed to create {} condition: {}'') (sc_condition plain_api i len operator v)) cs = Ok cs"
    by (induction cs) (auto simp: plain_api_def)
  then show ?thesis by (simp add: build_rule_def) (simp add: plain_api_def)
qed

lemma plain_sound: "backend_sound (plain_backend data) plain_sat data"
proof -
  have "seccompiler_sound plain_api plain_sat"
    by (simp add: seccompiler_sound_def plain_build rule_means_def plain_sat_def)
  moreover have "rule_translation (\<lambda>r. if plain_sat r data then [] else [jump_always 1]) plain_sat data"
    unfolding rule_translation_def by (auto intro: exI[of _ "s" for s])
  ultimately show ?thesis by (simp add: backend_sound_def plain_backend_def)
qed

lemma length_chains:
  assumes "\<And>r. length (rb r) \<le> 1" "distinct (map fst af)"
    and "\<And>n chain. (n, chain) \<in> set af \<Longrightarrow> n \<in> set ks \<and> length chain \<le> bound n \<and> chain \<noteq> []"
  shows "length (concat (map (\<lambda>(n, chain). build_syscall_chain rb n chain a b) af)) \<le> (\<Sum>n\<in>set ks. 3 + 2 * bound n)"
proof -
  have one: "length (build_syscall_chain rb n chain a b) \<le> 3 + 2 * bound n" if "(n, chain) \<in> set af" for n chain
  proof -
    have "sum_list (map (\<lambda>r. length (rb r) + 1) chain) \<le> sum_list (map (\<lambda>_. 2) chain)"
      using assms(1) by (intro sum_list_mono) simp
    then have "sum_list (map (\<lambda>r. length (rb r) + 1) chain) \<le> 2 * length chain" by (simp add: sum_list_triv)
    then show ?thesis using assms(3)[OF that]
      by (simp add: build_syscall_chain_def Let_def length_concat comp_def)
  qed
  have "length (concat (map (\<lambda>(n, chain). build_syscall_chain rb n chain a b) af))
      \<le> sum_list (map (\<lambda>e. 3 + 2 * bound (fst e)) af)"
    unfolding length_concat map_map using one by (intro sum_list_mono) auto
  also have "\<dots> = (\<Sum>n\<in>set (map fst af). 3 + 2 * bound n)"
    using sum_list_distinct_conv_sum_set[OF assms(2), of "\<lambda>n. 3 + 2 * bound n"] by (simp add: comp_def)
  also have "\<dots> \<le> (\<Sum>n\<in>set ks. 3 + 2 * bound n)" using assms(3) by (intro sum_mono2) force+
  finally show ?thesis .
qed

lemma plain_program:
  assumes "minimal_filter plain_api net extras = Ok rules"
  shows "\<exists>prog. compile_rules (plain_backend data) (Some X86_64) rules = Ok prog"
proof -
  have sound: "seccompiler_sound plain_api plain_sat" using plain_sound by (simp add: backend_sound_def plain_backend_def)
  from minimal_filter_rules[OF sound, of net extras] assms have inv: "bt_inv rules"
    and get: "\<And>nr. case map_of (argument_filters net) nr of
         Some rss \<Rightarrow> \<exists>chain. bt_get rules nr = Some chain \<and> list_all2 (rule_means plain_sat) chain rss
       | None \<Rightarrow> bt_get rules nr =
           (if nr \<in> set base_allowed_syscalls \<or> nr \<in> set (network_mode_syscalls net)
              \<or> (\<exists>name \<in> set extras. opts_in name nr) then Some [] else None)" by auto
  let ?af = "filter (\<lambda>(nr, chain). 0 \<le> nr \<and> chain \<noteq> []) rules"
  let ?rb = "\<lambda>r. if plain_sat r data then [] else [jump_always 1]"
  let ?bound = "\<lambda>n. length (the (map_of (argument_filters net) n))"
  let ?args = "concat (map (\<lambda>(n, chain). build_syscall_chain ?rb n chain SECCOMP_RET_KILL_PROCESS SECCOMP_RET_ALLOW) ?af)"
  have dist: "distinct (map fst ?af)" using bt.distinct_keys[OF inv] by (simp add: bt_keys_def distinct_map_filter)
  have entry: "n \<in> set (map fst (argument_filters net)) \<and> length chain \<le> ?bound n \<and> chain \<noteq> []"
    if "(n, chain) \<in> set ?af" for n chain
  proof -
    from that have c: "bt_get rules n = Some chain" "chain \<noteq> []" using bt_entry_in[OF _ inv] by auto
    with get[of n] obtain rss where rss: "map_of (argument_filters net) n = Some rss" "list_all2 (rule_means plain_sat) chain rss"
      by (auto split: option.splits if_splits)
    have "n \<in> set (map fst (argument_filters net))" using map_of_SomeD[OF rss(1)] by force
    with c(2) rss(1) list_all2_lengthD[OF rss(2)] show ?thesis by simp
  qed
  have rb: "length (?rb r) \<le> 1" for r by simp
  note length_chains[OF rb dist entry, where a = SECCOMP_RET_KILL_PROCESS and b = SECCOMP_RET_ALLOW]
  also have "(\<Sum>n\<in>set (map fst (argument_filters net)). 3 + 2 * ?bound n) \<le> 200"
    by (cases net) (simp_all add: argument_filters_def allowed_socket_domains_def ioctl_allowed_def prctl_allowed_def)
  finally have args: "length ?args \<le> 200" .
  obtain bm where bm: "foldl classify (replicate NUM_BITMAP_WORDS 0, []) rules = (bm, ?af)" "length bm = NUM_BITMAP_WORDS"
    using classify_bitmap[of "replicate NUM_BITMAP_WORDS 0" "[]" rules] by auto
  have "length (active_words_of bm) \<le> 15"
    unfolding active_words_of_def using bm(2)
    by (intro order_trans[OF length_filter_le]) (simp add: NUM_BITMAP_WORDS_def)
  then have "length (dispatch_section (active_words_of bm)) \<le> 46"
    by (simp add: dispatch_section_entries length_entries)
  moreover have "length (errno_section (errno_actions_of e errno_denied_syscalls)) = 3" for e
    by (simp add: errno_section_def errno_actions_of_def errno_denied_syscalls_def map_filter_simps)
  moreover have "length (build_arg_section ?rb ?af SECCOMP_RET_KILL_PROCESS SECCOMP_RET_ALLOW) \<le> 201"
    using args by (simp add: build_arg_section_def)
  ultimately show ?thesis
    by (simp add: compile_rules_def compile_bitmap_bpf_with_errno_syscalls_def bm(1) Let_def plain_backend_def
        setup_section_def test_section_def BPF_MAX_LEN_def)
qed


theorem installed_filter_decides_witness:
  "\<exists>m' prog. apply_filter_with_options (plain_backend (call_data (arch_audit_value X86_64) 272 0)) (Some X86_64) (\<lambda>_ _. Ok ())
       False False False [] False seccomp_manager_new = (m', Ok True)
     \<and> sm_installed m' = [prog]
     \<and> bpf_eval 10000 (call_data (arch_audit_value X86_64) 272 0) prog 0 bpf_initial = Some SECCOMP_RET_KILL_PROCESS"
proof -
  let ?d = "call_data (arch_audit_value X86_64) 272 0"
  have data: "?d 4 = Some (arch_audit_value X86_64)" "?d 0 = Some 272" by (simp_all add: call_data_def)
  have sound: "seccompiler_sound plain_api plain_sat" using plain_sound by (simp add: backend_sound_def plain_backend_def)
  then obtain rules where "minimal_filter plain_api False [] = Ok rules" using minimal_filter_rules by blast
  moreover from plain_program[OF this] obtain prog where "compile_rules (plain_backend ?d) (Some X86_64) rules = Ok prog" by blast
  ultimately have app: "apply_filter_with_options (plain_backend ?d) (Some X86_64) (\<lambda>_ _. Ok ()) False False False [] False
      seccomp_manager_new = (\<lparr>sm_applied = True, sm_installed = [prog]\<rparr>, Ok True)"
    by (simp add: apply_filter_with_options_def seccomp_manager_new_def plain_backend_def apply_bpf_program_def
        install_program_def Let_def)
  have "filter_verdict e False [] False ?d 272 = SECCOMP_RET_KILL_PROCESS" for e
    unfolding filter_verdict_def allowed_arguments_def allowed_by_name_def argument_filters_def base_allowed_syscalls_def
      network_mode_syscalls_def by simp
  with installed_filter_decides[OF app plain_sound data] app show ?thesis by auto
qed

section \<open>Custom profiles\<close>

text \<open>The numbers that a profile allows, before the built-in filters are merged in.\<close>

definition profile_allows :: "seccomp_profile \<Rightarrow> int \<Rightarrow> bool" where
  "profile_allows profile nr \<longleftrightarrow>
     (\<exists>group \<in> set (sp_syscalls profile). sg_action group = ''SCMP_ACT_ALLOW''
        \<and> (\<exists>name \<in> set (sg_names group). name \<noteq> ''clone3'' \<and> syscall_name_to_number name = Some nr))"

lemma fold_profile_names:
  "bt_inv m \<Longrightarrow> bt_inv (fold allow_profile_name ns m)
     \<and> bt_get (fold allow_profile_name ns m) nr =
        (if \<exists>name \<in> set ns. name \<noteq> ''clone3'' \<and> syscall_name_to_number name = Some nr then Some [] else bt_get m nr)"
proof (induction ns arbitrary: m)
  case (Cons n ns)
  have "bt_inv (allow_profile_name n m)" "bt_get (allow_profile_name n m) nr =
      (if n \<noteq> ''clone3'' \<and> syscall_name_to_number n = Some nr then Some [] else bt_get m nr)"
    using Cons.prems by (auto simp: allow_profile_name_def bt_inv_insert bt_get_insert split: option.splits)
  with Cons.IH[of "allow_profile_name n m"] show ?case by auto
qed simp

lemma fold_groups:
  "bt_inv m \<Longrightarrow> bt_inv (fold (\<lambda>group rules. if sg_action group = ''SCMP_ACT_ALLOW''
         then fold allow_profile_name (sg_names group) rules else rules) gs m)
     \<and> bt_get (fold (\<lambda>group rules. if sg_action group = ''SCMP_ACT_ALLOW''
         then fold allow_profile_name (sg_names group) rules else rules) gs m) nr =
        (if \<exists>group \<in> set gs. sg_action group = ''SCMP_ACT_ALLOW''
           \<and> (\<exists>name \<in> set (sg_names group). name \<noteq> ''clone3'' \<and> syscall_name_to_number name = Some nr)
         then Some [] else bt_get m nr)"
proof (induction gs arbitrary: m)
  case (Cons g gs)
  let ?m = "if sg_action g = ''SCMP_ACT_ALLOW'' then fold allow_profile_name (sg_names g) m else m"
  have "bt_inv ?m" using fold_profile_names[OF Cons.prems] Cons.prems by simp
  from Cons.IH[OF this] fold_profile_names[OF Cons.prems, of "sg_names g" nr] show ?case by auto
qed simp

lemma profile_rules_get:
  "bt_inv (profile_rules profile :: 'r rules)
   \<and> bt_get (profile_rules profile :: 'r rules) nr = (if profile_allows profile nr then Some [] else None)"
  using fold_groups[where m = "[] :: 'r rules" and gs = "sp_syscalls profile" and nr = nr]
  unfolding profile_rules_def profile_allows_def by (simp add: bt.lookup_empty bt.invar_empty)

lemma fold_merge:
  "bt_inv m \<Longrightarrow> bt_inv (fold (merge_builtin builtin) ns m)
     \<and> bt_get (fold (merge_builtin builtin) ns m) nr =
        (case bt_get m nr of
           None \<Rightarrow> None
         | Some c \<Rightarrow> if Some nr \<in> syscall_name_to_number ` set ns
             then (case bt_get builtin nr of None \<Rightarrow> Some c | Some chain \<Rightarrow> if chain = [] then Some c else Some chain)
             else Some c)"
proof (induction ns arbitrary: m)
  case (Cons n ns)
  have "bt_inv (merge_builtin builtin n m)" "bt_get (merge_builtin builtin n m) nr =
      (case bt_get m nr of
         None \<Rightarrow> None
       | Some c \<Rightarrow> if syscall_name_to_number n = Some nr
           then (case bt_get builtin nr of None \<Rightarrow> Some c | Some chain \<Rightarrow> if chain = [] then Some c else Some chain)
           else Some c)"
    using Cons.prems by (auto simp: merge_builtin_def bt_contains_def bt_inv_insert bt_get_insert split: option.splits)
  with Cons.IH[of "merge_builtin builtin n m"] show ?case by (auto split: option.splits)
qed (simp split: option.splits)

lemma arg_filtered_numbers:
  "syscall_name_to_number ` set ARG_FILTERED_SYSCALLS =
     Some ` {SYS_clone, SYS_execveat, SYS_ioctl, SYS_mprotect, SYS_preadv2, SYS_prctl, SYS_pwritev2, SYS_socket}"
  unfolding ARG_FILTERED_SYSCALLS_def syscall_name_to_number_def syscall_arms_def
  by (simp only: list.set image_insert image_empty match_eval)


definition profile_verdict :: "(u32 \<Rightarrow> u32) \<Rightarrow> seccomp_profile \<Rightarrow> (nat \<Rightarrow> u32 option) \<Rightarrow> u32 \<Rightarrow> u32" where
  "profile_verdict errno_value profile data nr =
     (if uint nr = SYS_clone3 then errno_value 38
      else if profile_allows profile (uint nr)
        \<and> (uint nr \<in> {SYS_clone, SYS_execveat, SYS_ioctl, SYS_mprotect, SYS_preadv2, SYS_prctl, SYS_pwritev2, SYS_socket}
            \<longrightarrow> allowed_arguments True data (uint nr))
      then SECCOMP_RET_ALLOW else SECCOMP_RET_KILL_PROCESS)"

abbreviation merged_numbers :: "int set" where
  "merged_numbers \<equiv> {SYS_clone, SYS_execveat, SYS_ioctl, SYS_mprotect, SYS_preadv2, SYS_prctl, SYS_pwritev2, SYS_socket}"

lemma merged_filter:
  assumes "nr \<in> merged_numbers"
  obtains rss where "map_of (argument_filters net) nr = Some rss"
proof -
  from assms have "nr \<in> set (map fst (argument_filters net))" by (auto simp: argument_filters_def)
  then show thesis using that by (metis map_of_eq_None_iff not_None_eq set_map)
qed

lemma load_profile_rules:
  fixes backend :: "('c, 'r) seccomp_backend"
  assumes "seccompiler_sound (sb_api backend) sat"
  shows "\<exists>builtin rules. load_profile backend profile = Ok rules \<and> bt_inv rules
    \<and> (\<forall>nr. bt_get rules nr = (if profile_allows profile nr
         then Some (if nr \<in> merged_numbers then the (bt_get builtin nr) else []) else None))
    \<and> (\<forall>nr rss. map_of (argument_filters True) nr = Some rss \<longrightarrow>
         (\<exists>chain. bt_get builtin nr = Some chain \<and> list_all2 (rule_means sat) chain rss))"
proof -
  from minimal_filter_rules[OF assms, of True "[]"] obtain builtin where
    b: "minimal_filter (sb_api backend) True [] = Ok builtin"
    and cases: "\<And>nr. case map_of (argument_filters True) nr of
         Some rss \<Rightarrow> \<exists>chain. bt_get builtin nr = Some chain \<and> list_all2 (rule_means sat) chain rss
       | None \<Rightarrow> bt_get builtin nr = (if nr \<in> set base_allowed_syscalls \<or> nr \<in> set (network_mode_syscalls True)
           \<or> (\<exists>name \<in> set []. opts_in name nr) then Some [] else None)" by blast
  have means: "\<exists>chain. bt_get builtin nr = Some chain \<and> list_all2 (rule_means sat) chain rss"
    if "map_of (argument_filters True) nr = Some rss" for nr rss using cases[of nr] that by simp
  have ne: "\<exists>chain. bt_get builtin nr = Some chain \<and> chain \<noteq> []" if nr: "nr \<in> merged_numbers" for nr
  proof -
    from nr obtain rss where rss: "map_of (argument_filters True) nr = Some rss" by (rule merged_filter)
    from means[OF rss] argument_filters_nonempty[OF rss] show ?thesis by auto
  qed
  let ?rules = "fold (merge_builtin builtin) ARG_FILTERED_SYSCALLS (profile_rules profile)"
  have mem: "Some nr \<in> syscall_name_to_number ` set ARG_FILTERED_SYSCALLS \<longleftrightarrow> nr \<in> merged_numbers" for nr
    unfolding arg_filtered_numbers by blast
  note pr = profile_rules_get[of profile, where ?'r = 'r]
  note merged = fold_merge[OF conjunct1[OF pr], of builtin ARG_FILTERED_SYSCALLS, unfolded mem]
  have "bt_get ?rules nr = (if profile_allows profile nr
      then Some (if nr \<in> merged_numbers then the (bt_get builtin nr) else []) else None)" for nr
  proof (cases "profile_allows profile nr \<and> nr \<in> merged_numbers")
    case True
    with ne[of nr] merged[of nr] conjunct2[OF pr, of nr] show ?thesis by (auto simp del: insert_iff)
  next
    case False
    with merged[of nr] conjunct2[OF pr, of nr] show ?thesis by (auto simp del: insert_iff)
  qed
  moreover have "load_profile backend profile = Ok ?rules" using b by (simp add: load_profile_def)
  moreover have "bt_inv ?rules" using merged by blast
  ultimately show ?thesis using means by blast
qed



definition one_group :: "string list \<Rightarrow> seccomp_profile" where
  "one_group names = \<lparr>sp_default_action = ''SCMP_ACT_KILL_PROCESS'', sp_architectures = [''SCMP_ARCH_X86_64''],
     sp_syscalls = [\<lparr>sg_names = names, sg_action = ''SCMP_ACT_ALLOW'', sg_args = []\<rparr>]\<rparr>"

lemma one_group_allows:
  "profile_allows (one_group names) nr \<longleftrightarrow> (\<exists>name \<in> set names. name \<noteq> ''clone3'' \<and> syscall_name_to_number name = Some nr)"
  by (simp add: profile_allows_def one_group_def)

lemma demo_names:
  "syscall_name_to_number ''clone'' = Some SYS_clone" "syscall_name_to_number ''prlimit64'' = Some SYS_prlimit64"
  unfolding syscall_name_to_number_def syscall_arms_def by (simp_all only: match_eval)


text \<open>
  \<^verbatim>\<open>prlimit64\<close> is filtered by argument in the built-in policy but is missing from the list of such calls, so its
  filter is not merged into a custom profile: a profile that names it allows it with every argument, also to
  raise a limit, which the built-in policy kills.
\<close>

theorem profile_prlimit_unfiltered:
  "profile_verdict errno_value (one_group [''prlimit64'']) data (word_of_int SYS_prlimit64) = SECCOMP_RET_ALLOW
   \<and> ''prlimit64'' \<notin> set ARG_FILTERED_SYSCALLS
   \<and> (argument data 2 Qword \<noteq> 0 \<longleftrightarrow> filter_verdict errno_value net [] gpu data (word_of_int SYS_prlimit64) = SECCOMP_RET_KILL_PROCESS)"
proof -
  have "profile_verdict errno_value (one_group [''prlimit64'']) data (word_of_int SYS_prlimit64) = SECCOMP_RET_ALLOW"
    by (simp add: profile_verdict_def one_group_allows demo_names)
  moreover have "''prlimit64'' \<notin> set ARG_FILTERED_SYSCALLS" by (simp add: ARG_FILTERED_SYSCALLS_def)
  moreover have "map_of (argument_filters net) SYS_prlimit64 = Some [[(2, Qword, Eq, 0)]]" by (simp add: argument_filters_def)
  ultimately show ?thesis
    by (auto simp: filter_verdict_def allowed_arguments_def allowed_by_name_def SECCOMP_RET_ALLOW_def
        SECCOMP_RET_KILL_PROCESS_def)
qed


section \<open>Profiles from a trace\<close>

lemma number_to_name_in:
  assumes "syscall_number_to_name nr = Some name"
  shows "syscall_name_to_number name = Some nr"
proof -
  from assms obtain n where "List.find (\<lambda>(_, n). n = nr) syscall_table = Some (name, n)"
    by (auto simp: syscall_number_to_name_def)
  then have "(name, nr) \<in> set syscall_table" by (auto simp: find_Some_iff dest: nth_mem)
  with table_arms show ?thesis by (auto simp: list_all_iff entry_matches_def syscall_name_to_number_def)
qed

lemma clone3_name: "syscall_number_to_name SYS_clone3 = Some ''clone3''" "syscall_name_to_number ''clone3'' = Some SYS_clone3"
proof -
  show "syscall_number_to_name SYS_clone3 = Some ''clone3''"
    unfolding syscall_number_to_name_def syscall_table_def
    by (simp only: find.simps prod.case rel_simps if_True if_False option.map fst_conv)
  show "syscall_name_to_number ''clone3'' = Some SYS_clone3"
    unfolding syscall_name_to_number_def syscall_arms_def by (simp only: match_eval)
qed

lemma set_of_parsed: "list_all2 (\<lambda>l r. f l = Some r) ls rs \<Longrightarrow> set rs = {r. \<exists>l \<in> set ls. f l = Some r}"
  by (induction rule: list_all2_induct) auto

lemma generate_Ok:
  assumes "generate_from_trace parse (Some ls) = Ok profile"
  shows "\<exists>records. list_all2 (\<lambda>l r. parse l = Some r) (filter (\<lambda>l. trim l \<noteq> []) ls) records
    \<and> (\<forall>nr. profile_allows profile nr \<longleftrightarrow>
         (\<exists>r \<in> set records. traced_name r \<noteq> ''clone3'' \<and> syscall_name_to_number (traced_name r) = Some nr))"
  using assms by (auto simp: generate_from_trace_def and_then_Inr_iff try_map_Inr_iff ok_or_Inr_iff profile_allows_def)

text \<open>
  the profile generated from a trace allows exactly the traced system calls, other than \<^verbatim>\<open>clone3\<close>, when the
  table of names knows all of them: the number of every record is read back from the name it was given.
\<close>

theorem generated_profile_exact:
  assumes "generate_from_trace parse (Some ls) = Ok profile"
    and "\<And>l r. l \<in> set ls \<Longrightarrow> parse l = Some r \<Longrightarrow>
      tr_name r \<in> {None, syscall_number_to_name (tr_syscall r)} \<and> syscall_number_to_name (tr_syscall r) \<noteq> None"
  shows "profile_allows profile nr \<longleftrightarrow> nr \<noteq> SYS_clone3 \<and> (\<exists>l \<in> set ls. trim l \<noteq> [] \<and> (\<exists>r. parse l = Some r \<and> tr_syscall r = nr))"
proof -
  from generate_Ok[OF assms(1)] obtain records where
    recs: "list_all2 (\<lambda>l r. parse l = Some r) (filter (\<lambda>l. trim l \<noteq> []) ls) records"
    and allows: "\<And>nr. profile_allows profile nr \<longleftrightarrow>
         (\<exists>r \<in> set records. traced_name r \<noteq> ''clone3'' \<and> syscall_name_to_number (traced_name r) = Some nr)" by blast
  have mem: "r \<in> set records \<longleftrightarrow> (\<exists>l \<in> set ls. trim l \<noteq> [] \<and> parse l = Some r)" for r
    using set_of_parsed[OF recs] by auto
  have named: "syscall_name_to_number (traced_name r) = Some (tr_syscall r) \<and> (traced_name r = ''clone3'' \<longleftrightarrow> tr_syscall r = SYS_clone3)"
    if "r \<in> set records" for r
  proof -
    from that mem assms(2) obtain n where n: "tr_name r \<in> {None, Some n}" "syscall_number_to_name (tr_syscall r) = Some n"
      by (metis not_None_eq)
    then have t: "traced_name r = n" by (auto simp: traced_name_def)
    with number_to_name_in[OF n(2)] n(2) clone3_name show ?thesis by auto
  qed
  show ?thesis using allows mem named by (auto simp: Bex_def)
qed


lemma demo_trim: "trim ''0'' \<noteq> []" "trim ''92'' \<noteq> []"
  by (simp_all add: trim_def is_whitespace_def)

lemma demo_generate:
  "generate_from_trace (\<lambda>_. Some \<lparr>tr_syscall = nr, tr_name = None, tr_count = 1\<rparr>) (Some [''0''])
     = Ok (one_group [traced_name \<lparr>tr_syscall = nr, tr_name = None, tr_count = 1\<rparr>])"
  by (simp add: generate_from_trace_def demo_trim one_group_def)

theorem generated_profile_exact_witness:
  "profile_allows (one_group [traced_name \<lparr>tr_syscall = 0, tr_name = None, tr_count = 1\<rparr>]) 0"
proof -
  have "syscall_number_to_name 0 \<noteq> None"
    unfolding syscall_number_to_name_def syscall_table_def
    by (simp only: find.simps prod.case if_True option.map fst_conv option.distinct simp_thms)
  then show ?thesis by (subst generated_profile_exact[OF demo_generate[of 0]]) (auto simp: demo_trim)
qed

text \<open>
  the generator's table is smaller than the match of names and than the built-in filter. A trace of \<^verbatim>\<open>chown\<close> without a
  name gives the profile entry \<^verbatim>\<open>__NR_92\<close>, which loading skips as unknown: the profile generated from the
  trace kills the call that was traced, and the built-in filter allows it.
\<close>

theorem traced_chown_killed:
  "\<exists>profile. generate_from_trace (\<lambda>_. Some \<lparr>tr_syscall = SYS_chown, tr_name = None, tr_count = 1\<rparr>) (Some [''0'']) = Ok profile
     \<and> profile_verdict errno_value profile data (word_of_int SYS_chown) = SECCOMP_RET_KILL_PROCESS
     \<and> filter_verdict errno_value net [] gpu data (word_of_int SYS_chown) = SECCOMP_RET_ALLOW"
proof -
  let ?r = "\<lparr>tr_syscall = SYS_chown, tr_name = None, tr_count = 1\<rparr>"
  have "syscall_number_to_name SYS_chown = None"
    unfolding syscall_number_to_name_def syscall_table_def
    by (simp only: find.simps prod.case rel_simps if_True if_False option.map)
  then have "traced_name ?r = ''__NR_92''"
    by (simp add: traced_name_def show_int_def show_nat.simps digit_char_def char_of_def bit_Suc_0_iff)
  moreover have "syscall_name_to_number ''__NR_92'' = None"
    unfolding syscall_name_to_number_def syscall_arms_def by (simp only: match_eval)
  ultimately have "profile_verdict errno_value (one_group [traced_name ?r]) data (word_of_int SYS_chown) = SECCOMP_RET_KILL_PROCESS"
    by (simp add: profile_verdict_def one_group_allows)
  moreover have "filter_verdict errno_value net [] gpu data (word_of_int SYS_chown) = SECCOMP_RET_ALLOW"
    by (simp add: filter_verdict_def allowed_by_name_def base_allowed_syscalls_def argument_filters_def)
  ultimately show ?thesis using demo_generate[of SYS_chown] by blast
qed

end
