(* ===== verification/Ip_Alloc.thy ===== *)
theory Ip_Alloc
  imports Net_Config "HOL-Library.AList"
begin

text \<open>
  Allocation of container addresses for the bridge network (\<^verbatim>\<open>src/src/network/bridge.rs\<close>):
  choosing a free address, recording it in the allocation directory, and giving it back.

  The allocation directory is the association list of its readable files with their contents (what
  cannot be read is skipped by the code); the random bytes, the addresses in use on the host
  and the failures of the host are arguments. The whole reservation runs under an exclusive lock, so it is one
  step.
\<close>

section \<open>Model\<close>

type_synonym alloc_files = "(string \<times> string) list"

definition collect_reserved_ips_in_dir :: "alloc_files \<Rightarrow> string set" where
  "collect_reserved_ips_in_dir files =
     set (filter (\<lambda>ip. ip \<noteq> []) (map (\<lambda>(name, content). trim content)
       (filter (\<lambda>(name, content). ends_with ''.ip'' name) files)))"

text \<open>\<open>addr_in_use\<close> is the answer of the kernel for an address.\<close>

definition is_ip_in_use :: "(ipv4addr \<Rightarrow> bool result) \<Rightarrow> string \<Rightarrow> bool result" where
  "is_ip_in_use addr_in_use ip =
     and_then (ok_or (parse_ipv4 ip) (NetworkError ''invalid IP {}: {}'')) addr_in_use"

fun try_candidates ::
  "(ipv4addr \<Rightarrow> bool result) \<Rightarrow> string set \<Rightarrow> string \<Rightarrow> u8 list \<Rightarrow> string result" where
  "try_candidates addr_in_use reserved base3 [] = Err (NetworkError ''Failed to allocate free IP in subnet {}'')"
| "try_candidates addr_in_use reserved base3 (byte # bytes) =
     (if 253 \<le> byte then try_candidates addr_in_use reserved base3 bytes
      else
        (let candidate = base3 @ ''.'' @ show_nat (unat byte + 2) in
         if candidate \<in> reserved then try_candidates addr_in_use reserved base3 bytes
         else and_then (is_ip_in_use addr_in_use candidate) (\<lambda>in_use.
           if in_use then try_candidates addr_in_use reserved base3 bytes else Ok candidate)))"

definition allocate_ip_with_reserved ::
  "(ipv4addr \<Rightarrow> bool result) \<Rightarrow> u8 list result \<Rightarrow> string \<Rightarrow> string set \<Rightarrow> string result" where
  "allocate_ip_with_reserved addr_in_use urandom sub reserved =
     (let base = hd (split_on CHR ''/'' sub); parts = split_on CHR ''.'' base in
      if length parts \<noteq> 4 then Ok ''10.0.42.2''
      else and_then urandom (try_candidates addr_in_use reserved (join ''.'' (take 3 parts))))"

datatype alloc_step = EnsureAllocDir | OpenAllocLock | AllocLock | WriteAlloc

definition record_allocated_ip_in_dir ::
  "(alloc_step \<Rightarrow> bool) \<Rightarrow> string \<Rightarrow> string \<Rightarrow> string \<Rightarrow> alloc_files \<Rightarrow> alloc_files \<times> unit result" where
  "record_allocated_ip_in_dir fails partial container_id ip files =
     (if fails WriteAlloc
      then (AList.update (container_id @ ''.ip'') partial files, Err (NetworkError ''Failed to record IP allocation: {}''))
      else (AList.update (container_id @ ''.ip'') ip files, Ok ()))"

definition reserve_ip_in_dir ::
  "(alloc_step \<Rightarrow> bool) \<Rightarrow> string \<Rightarrow> (ipv4addr \<Rightarrow> bool result) \<Rightarrow> u8 list result \<Rightarrow>
   string \<Rightarrow> string \<Rightarrow> string option \<Rightarrow> alloc_files \<Rightarrow> alloc_files \<times> string result" where
  "reserve_ip_in_dir fails partial addr_in_use urandom container_id sub requested_ip files =
     (let reserved = collect_reserved_ips_in_dir files in
      case and_then (reject_if (fails EnsureAllocDir) (NetworkError ''Failed to create IP alloc dir: {}'')) (\<lambda>_.
           and_then (reject_if (fails OpenAllocLock) (NetworkError ''Failed to open IP alloc lock: {}'')) (\<lambda>_.
           and_then (reject_if (fails AllocLock) (NetworkError ''Failed to acquire IP alloc lock: {}'')) (\<lambda>_.
           (case requested_ip of
              Some ip \<Rightarrow>
                and_then (if ip \<in> reserved then Ok True else is_ip_in_use addr_in_use ip) (\<lambda>used.
                if used then Err (NetworkError ''Requested container IP {} is already in use'') else Ok ip)
            | None \<Rightarrow> allocate_ip_with_reserved addr_in_use urandom sub reserved)))) of
        Inl e \<Rightarrow> (files, Err e)
      | Inr ip \<Rightarrow>
          (case record_allocated_ip_in_dir fails partial container_id ip files of
             (files', r) \<Rightarrow> (files', and_then r (\<lambda>_. Ok ip))))"

definition release_allocated_ip_in_dir :: "string \<Rightarrow> alloc_files \<Rightarrow> alloc_files" where
  "release_allocated_ip_in_dir container_id files = AList.delete (container_id @ ''.ip'') files"

definition gateway_from_subnet :: "string \<Rightarrow> string" where
  "gateway_from_subnet sub =
     (let base = hd (split_on CHR ''/'' sub); parts = split_on CHR ''.'' base in
      if length parts = 4 then join ''.'' (take 3 parts) @ ''.1'' else ''10.0.42.1'')"

definition subnet_prefix :: "string \<Rightarrow> u8" where
  "subnet_prefix sub =
     (case split_once CHR ''/'' sub of
        None \<Rightarrow> 24
      | Some (_, p) \<Rightarrow> (case parse_word p of None \<Rightarrow> 24 | Some w \<Rightarrow> if w \<le> 32 then w else 24))"

section \<open>The text of an address is canonical\<close>

lemma digits_val_ge: "digits_val ds \<le> digits_val (ds @ [c])"
  by (simp add: digits_val_snoc)

lemma show_nat_digits_val:
  "ds \<noteq> [] \<Longrightarrow> list_all is_ascii_digit ds \<Longrightarrow> (hd ds = CHR ''0'' \<longrightarrow> length ds = 1) \<Longrightarrow>
     show_nat (digits_val ds) = ds"
proof (induction ds rule: rev_induct)
  case (snoc c ds)
  have c: "is_ascii_digit c" "digit_val c < 10" "digit_char (digit_val c) = c"
    using snoc.prems by (auto simp: is_ascii_digit_def digit_val_def digit_char_def)
  show ?case
  proof (cases "ds = []")
    case True
    with c show ?thesis by (simp add: digits_val_def show_nat.simps)
  next
    case False
    then have ih: "show_nat (digits_val ds) = ds" using snoc by (auto simp: Suc_le_eq)
    have "hd ds \<noteq> CHR ''0''" using snoc.prems False by auto
    moreover have "show_nat 0 = ''0''" by (simp add: show_nat.simps[of 0] digit_char_def char_of_def bit_Suc_0_iff)
    ultimately have "digits_val ds \<noteq> 0" using ih by (metis list.sel(1))
    with c ih show ?thesis
      by (subst show_nat.simps) (simp add: digits_val_snoc)
  qed
qed simp

lemma octet_of_octets:
  assumes "a < 256" "b < 256" "c < 256" "d < 256"
  shows "map (octet (ipv4_of_octets a b c d)) [0, 1, 2, 3] = [a, b, c, d]"
proof -
  let ?n = "((a * 256 + b) * 256 + c) * 256 + d"
  have "unat (of_nat m :: u32) = m" if "m < 2 ^ 32" for m
    using that by (simp add: unat_of_nat take_bit_nat_eq_self)
  moreover have "?n < 2 ^ 32" using assms by simp
  ultimately have n: "unat (ipv4_of_octets a b c d) = ?n" unfolding ipv4_of_octets_def by blast
  have oct: "octet (ipv4_of_octets a b c d) i = ?n div 2 ^ (24 - 8 * i) mod 256" for i
    by (simp only: octet_def unat_drop_bit_eq n) (simp add: drop_bit_eq_div)
  have step: "(m * 256 + x) div 256 = m" "(m * 256 + x) mod 256 = x" if "x < 256" for m x :: nat
    using that by simp_all
  have "k div 2 ^ 24 = k div 256 div 256 div 256" "k div 2 ^ 16 = k div 256 div 256" "k div 2 ^ 8 = k div 256"
    for k :: nat by (simp_all add: div_mult2_eq[symmetric])
  then have q: "?n div 2 ^ 24 = a" "?n div 2 ^ 16 = a * 256 + b" "?n div 2 ^ 8 = (a * 256 + b) * 256 + c"
    by (simp_all only: step assms)
  have o: "octet (ipv4_of_octets a b c d) 0 = ?n div 2 ^ 24 mod 256"
    "octet (ipv4_of_octets a b c d) 1 = ?n div 2 ^ 16 mod 256"
    "octet (ipv4_of_octets a b c d) 2 = ?n div 2 ^ 8 mod 256"
    "octet (ipv4_of_octets a b c d) 3 = ?n mod 256"
    using oct[of 0] oct[of 1] oct[of 2] oct[of 3] by simp_all
  then show ?thesis
    by (simp only: list.map o q step(2)[OF assms(2)] step(2)[OF assms(3)] step(2)[OF assms(4)] mod_less[OF assms(1)])
qed

lemma parse_ipv4_canonical:
  assumes "parse_ipv4 s = Some ip"
  shows "s = show_ipv4 ip"
proof -
  from assms obtain a b c d where m: "map parse_octet (split_on CHR ''.'' s) = [Some a, Some b, Some c, Some d]"
    and ip: "ip = ipv4_of_octets a b c d"
    by (auto simp: parse_ipv4_def split: list.splits option.splits)
  from m obtain x y z w where sp: "split_on CHR ''.'' s = [x, y, z, w]" "parse_octet x = Some a"
    "parse_octet y = Some b" "parse_octet z = Some c" "parse_octet w = Some d" by auto
  have oct: "n < 256 \<and> show_nat n = t" if "parse_octet t = Some n" for t n
    using that show_nat_digits_val[of t] by (auto simp: parse_octet_def split: if_splits)
  have "map (\<lambda>i. show_nat (octet ip i)) [0, 1, 2, 3] = map show_nat (map (octet ip) [0, 1, 2, 3])" by simp
  also have "\<dots> = [x, y, z, w]"
    unfolding ip octet_of_octets[OF oct[OF sp(2), THEN conjunct1] oct[OF sp(3), THEN conjunct1]
        oct[OF sp(4), THEN conjunct1] oct[OF sp(5), THEN conjunct1]]
    using oct sp by simp
  finally show ?thesis unfolding show_ipv4_def using join_split_on[of "CHR ''.''" s] sp(1) by metis
qed

lemma dropWhile_none: "\<forall>x\<in>set xs. \<not> P x \<Longrightarrow> dropWhile P xs = xs"
  by (cases xs) auto

lemma show_ipv4_trim [simp]: "trim (show_ipv4 ip) = show_ipv4 ip"
proof -
  have "\<forall>c\<in>set (show_ipv4 ip). \<not> is_whitespace c"
    using show_ipv4_chars digit_not_sep by (fastforce simp: is_whitespace_def)
  then show ?thesis by (simp add: trim_def dropWhile_none)
qed

section \<open>Properties\<close>

lemma is_ip_in_use_Ok: "is_ip_in_use f ip = Ok b \<Longrightarrow> \<exists>a. ip = show_ipv4 a \<and> f a = Ok b"
  using parse_ipv4_canonical by (auto simp: is_ip_in_use_def result_simps)

text \<open>A chosen candidate is one of the 253 addresses of the base, free in both senses.\<close>

lemma try_candidates_Ok:
  "try_candidates f reserved base3 bytes = Ok ip \<Longrightarrow>
     (\<exists>k. 2 \<le> k \<and> k \<le> 254 \<and> ip = base3 @ ''.'' @ show_nat k) \<and> ip \<notin> reserved \<and> is_ip_in_use f ip = Ok False"
proof (induction bytes)
  case (Cons byte bytes)
  let ?c = "base3 @ ''.'' @ show_nat (unat byte + 2)"
  show ?case
  proof (cases "\<not> 253 \<le> byte \<and> ?c \<notin> reserved \<and> is_ip_in_use f ?c = Ok False")
    case True
    then have "unat byte < 253" by (simp add: word_le_nat_alt)
    with True Cons.prems show ?thesis by (auto intro!: exI[of _ "unat byte + 2"])
  next
    case False
    with Cons.prems have "try_candidates f reserved base3 bytes = Ok ip"
      by (auto simp: result_simps Let_def split: if_splits)
    from Cons.IH[OF this] show ?thesis .
  qed
qed simp

text \<open>
  The files of the directory as the program keeps them: no name twice, and every address file holds
  the text of an address that no other address file holds.
\<close>

definition alloc_inv :: "alloc_files \<Rightarrow> bool" where
  "alloc_inv files \<longleftrightarrow> distinct (map fst files)
     \<and> (\<forall>name content. (name, content) \<in> set files \<and> ends_with ''.ip'' name \<longrightarrow> (\<exists>a. content = show_ipv4 a))
     \<and> (\<forall>n m content. (n, content) \<in> set files \<and> (m, content) \<in> set files
          \<and> ends_with ''.ip'' n \<and> ends_with ''.ip'' m \<longrightarrow> n = m)"

lemma reserved_iff:
  assumes "alloc_inv files"
  shows "ip \<in> collect_reserved_ips_in_dir files \<longleftrightarrow> (\<exists>name. (name, ip) \<in> set files \<and> ends_with ''.ip'' name)"
proof -
  have "trim content = content \<and> content \<noteq> []" if "(name, content) \<in> set files" "ends_with ''.ip'' name" for name content
  proof -
    from assms that obtain a where "content = show_ipv4 a" by (auto simp: alloc_inv_def)
    moreover have "show_ipv4 a \<noteq> []" by (simp add: show_ipv4_def)
    ultimately show ?thesis by simp
  qed
  then show ?thesis unfolding collect_reserved_ips_in_dir_def by (auto simp: image_iff split_beta) fastforce+
qed

lemma set_update_distinct:
  "distinct (map fst al) \<Longrightarrow> set (AList.update k v al) = insert (k, v) {p \<in> set al. fst p \<noteq> k}"
  by (induction al) (auto simp: image_iff)

lemma alloc_inv_update:
  assumes "alloc_inv files" "show_ipv4 a \<notin> collect_reserved_ips_in_dir files"
  shows "alloc_inv (AList.update (i @ ''.ip'') (show_ipv4 a) files)"
proof -
  have d: "distinct (map fst files)" using assms(1) by (simp add: alloc_inv_def)
  have "distinct (map fst (AList.update (i @ ''.ip'') (show_ipv4 a) files))"
    using d by (simp add: distinct_update)
  moreover have "\<forall>name. (name, show_ipv4 a) \<in> set files \<longrightarrow> \<not> ends_with ''.ip'' name"
    using assms reserved_iff[OF assms(1)] by blast
  ultimately show ?thesis using assms(1) unfolding alloc_inv_def set_update_distinct[OF d]
    by (auto split: if_splits) blast+
qed

text \<open>What a reservation that succeeds has chosen.\<close>

lemma reserve_Ok:
  assumes "reserve_ip_in_dir fails partial f urandom i sub requested files = (files', Ok ip)"
    and "requested = None \<longrightarrow> length (split_on CHR ''.'' (hd (split_on CHR ''/'' sub))) = 4"
  shows "files' = AList.update (i @ ''.ip'') ip files \<and> ip \<notin> collect_reserved_ips_in_dir files
    \<and> is_ip_in_use f ip = Ok False
    \<and> (requested = None \<longrightarrow> (\<exists>k. 2 \<le> k \<and> k \<le> 254 \<and>
         ip = join ''.'' (take 3 (split_on CHR ''.'' (hd (split_on CHR ''/'' sub)))) @ ''.'' @ show_nat k))
    \<and> (\<forall>r. requested = Some r \<longrightarrow> ip = r)"
  using assms
  by (auto simp: reserve_ip_in_dir_def record_allocated_ip_in_dir_def allocate_ip_with_reserved_def Let_def
      result_simps and_then_Inl_iff split: sum.splits if_splits option.splits dest: try_candidates_Ok)


lemmas alloc_eval = reserve_ip_in_dir_def record_allocated_ip_in_dir_def allocate_ip_with_reserved_def
  collect_reserved_ips_in_dir_def is_ip_in_use_def parse_ipv4_def parse_octet_def string_eval show_nat.simps
  char_of_def bit_Suc_0_iff reject_if_def ends_with_def

lemma reserve_demo:
  "reserve_ip_in_dir (\<lambda>_. False) [] (\<lambda>_. Ok False) (Ok [255, 0]) ''c1'' ''10.0.42.128/25'' None []
     = ([(''c1.ip'', ''10.0.42.2'')], Ok ''10.0.42.2'')"
  by (simp add: alloc_eval)


text \<open>
  allocation and the bridge's gateway ignore the prefix length. For a subnet smaller than 256
  addresses, which validation accepts, the container gets an address outside the subnet, and the
  gateway set on the bridge is not the one that the configuration computes for the subnet.
\<close>

theorem allocation_ignores_prefix:
  "bridge_validate (default_bridge_config\<lparr>subnet := ''10.0.42.128/25''\<rparr>) = Ok ()
   \<and> snd (reserve_ip_in_dir (\<lambda>_. False) [] (\<lambda>_. Ok False) (Ok [255, 0]) ''c1'' ''10.0.42.128/25'' None [])
       = Ok (show_ipv4 (ipv4_of_octets 10 0 42 2))
   \<and> contains_ipv4 (default_bridge_config\<lparr>subnet := ''10.0.42.128/25''\<rparr>) (ipv4_of_octets 10 0 42 2) = Ok False
   \<and> gateway_ipv4 (default_bridge_config\<lparr>subnet := ''10.0.42.128/25''\<rparr>) = Ok (ipv4_of_octets 10 0 42 129)
   \<and> gateway_from_subnet ''10.0.42.128/25'' = show_ipv4 (ipv4_of_octets 10 0 42 1)"
proof -
  let ?c = "default_bridge_config\<lparr>subnet := ''10.0.42.128/25''\<rparr>"
  have s: "show_ipv4 (ipv4_of_octets 10 0 42 k) = ''10.0.42.'' @ show_nat k" if "k < 256" for k
    unfolding show_ipv4_def using octet_of_octets[of 10 0 42 k] that
    by (simp add: show_nat.simps digit_char_def char_of_def bit_Suc_0_iff)
  have p: "parse_ipv4_cidr ''10.0.42.128/25'' = Ok (ipv4_of_octets 10 0 42 128, 25)"
    by (simp add: parse_ipv4_cidr_def validate_ipv4_addr_def validate_octet_def parse_ipv4_def parse_octet_def string_eval)
  have "bridge_validate ?c = Ok ()"
    by (simp add: bridge_validate_def default_bridge_config_def validate_ipv4_cidr_def p valid_bridge_name_char_def string_eval)
  moreover have "contains_ipv4 ?c (ipv4_of_octets 10 0 42 2) = Ok False"
    by (simp add: contains_ipv4_def p ipv4_in_cidr_def ipv4_mask_def ipv4_of_octets_def Let_def mask_eq_exp_minus_1)
  moreover have "gateway_ipv4 ?c = Ok (ipv4_of_octets 10 0 42 129)"
    by (simp add: gateway_ipv4_def p ipv4_mask_def ipv4_of_octets_def checked_add_def Let_def mask_eq_exp_minus_1)
  moreover have "gateway_from_subnet ''10.0.42.128/25'' = show_ipv4 (ipv4_of_octets 10 0 42 1)"
    by (simp add: s gateway_from_subnet_def string_eval show_nat.simps char_of_def bit_Suc_0_iff)
  ultimately show ?thesis
    by (simp add: reserve_demo s show_nat.simps digit_char_def char_of_def bit_Suc_0_iff)
qed

end
