(* ===== verification/Ip_Forward.thy ===== *)
theory Ip_Forward
  imports Nucleus_Prelude
begin

text \<open>
  The reference count that shares the kernel's IP forwarding switch between the bridge networks of a
  host (\<^verbatim>\<open>src/src/network/bridge.rs\<close>, \<^verbatim>\<open>acquire_ip_forward_ref_in_dir\<close> and
  \<^verbatim>\<open>release_ip_forward_ref_in_dir\<close>). Both run under an exclusive lock, so each is one step.

  The state file is missing, holds something that does not parse, or holds a saved state; which
  operation on the host fails is an argument, and so is what a failed write leaves in the file.
\<close>

section \<open>Model\<close>

record ip_forward_ref_state =
  refcount :: u64
  original_value :: string

datatype ref_file = Missing | Garbled | Saved ip_forward_ref_state

record forward_world =
  fw_sysctl :: string
  fw_file :: ref_file

datatype fwd_step = AllocDir | OpenLock | Lock | ReadState | ReadSysctl | WriteSysctl | StoreState | RemoveState

definition read_ip_forward_value :: "(fwd_step \<Rightarrow> bool) \<Rightarrow> forward_world \<Rightarrow> string result" where
  "read_ip_forward_value fails w =
     (if fails ReadSysctl then Err (NetworkError ''Failed to read {}: {}'') else Ok (trim (fw_sysctl w)))"

definition write_ip_forward_value :: "(fwd_step \<Rightarrow> bool) \<Rightarrow> string \<Rightarrow> forward_world \<Rightarrow> forward_world \<times> unit result" where
  "write_ip_forward_value fails v w =
     (if fails WriteSysctl then (w, Err (NetworkError ''Failed to write {} to {}: {}''))
      else (w\<lparr>fw_sysctl := v\<rparr>, Ok ()))"

definition load_ip_forward_state :: "(fwd_step \<Rightarrow> bool) \<Rightarrow> forward_world \<Rightarrow> ip_forward_ref_state option result" where
  "load_ip_forward_state fails w =
     (if fails ReadState then Err (NetworkError ''Failed to read ip_forward refcount state {:?}: {}'')
      else
        (case fw_file w of
           Missing \<Rightarrow> Ok None
         | Garbled \<Rightarrow> Err (NetworkError ''Failed to parse ip_forward refcount state {:?}: {}'')
         | Saved state \<Rightarrow> Ok (Some state)))"

definition store_ip_forward_state ::
  "(fwd_step \<Rightarrow> bool) \<Rightarrow> (ref_file \<Rightarrow> ref_file) \<Rightarrow> ip_forward_ref_state \<Rightarrow> forward_world \<Rightarrow> forward_world \<times> unit result" where
  "store_ip_forward_state fails torn state w =
     (if fails StoreState
      then (w\<lparr>fw_file := torn (fw_file w)\<rparr>, Err (NetworkError ''Failed to persist ip_forward refcount state {:?}: {}''))
      else (w\<lparr>fw_file := Saved state\<rparr>, Ok ()))"

definition remove_ip_forward_state :: "(fwd_step \<Rightarrow> bool) \<Rightarrow> forward_world \<Rightarrow> forward_world \<times> unit result" where
  "remove_ip_forward_state fails w =
     (if fw_file w \<noteq> Missing \<and> fails RemoveState
      then (w, Err (NetworkError ''Failed to remove ip_forward refcount state {:?}: {}''))
      else (w\<lparr>fw_file := Missing\<rparr>, Ok ()))"

text \<open>The directory, the lock file and the lock that both operations need first.\<close>

definition lock_ip_forward :: "(fwd_step \<Rightarrow> bool) \<Rightarrow> unit result" where
  "lock_ip_forward fails =
     and_then (reject_if (fails OpenLock) (NetworkError ''Failed to open ip_forward lock {:?}: {}'')) (\<lambda>_.
     reject_if (fails Lock) (NetworkError ''Failed to acquire ip_forward lock: {}''))"

definition acquire_ip_forward_ref_in_dir ::
  "(fwd_step \<Rightarrow> bool) \<Rightarrow> (ref_file \<Rightarrow> ref_file) \<Rightarrow> forward_world \<Rightarrow> forward_world \<times> unit result" where
  "acquire_ip_forward_ref_in_dir fails torn w =
     (case and_then (reject_if (fails AllocDir) (NetworkError ''Failed to create IP alloc dir: {}'')) (\<lambda>_.
           and_then (lock_ip_forward fails) (\<lambda>_. load_ip_forward_state fails w)) of
        Inl e \<Rightarrow> (w, Err e)
      | Inr loaded \<Rightarrow>
          (case (case loaded of
                   Some state \<Rightarrow> (w, Ok state)
                 | None \<Rightarrow>
                     (case read_ip_forward_value fails w of
                        Inl e \<Rightarrow> (w, Err e)
                      | Inr original \<Rightarrow>
                          (case store_ip_forward_state fails torn \<lparr>refcount = 0, original_value = original\<rparr> w of
                             (w', Inl e) \<Rightarrow> (w', Err e)
                           | (w', Inr _) \<Rightarrow> (w', Ok \<lparr>refcount = 0, original_value = original\<rparr>)))) of
             (w1, Inl e) \<Rightarrow> (w1, Err e)
           | (w1, Inr state) \<Rightarrow>
               (case (if refcount state = 0 then write_ip_forward_value fails ''1'' w1 else (w1, Ok ())) of
                  (w2, Inl e) \<Rightarrow> (w2, Err e)
                | (w2, Inr _) \<Rightarrow>
                    (case checked_add (refcount state) 1 of
                       None \<Rightarrow> (w2, Err (NetworkError ''ip_forward refcount overflow''))
                     | Some n \<Rightarrow> store_ip_forward_state fails torn (state\<lparr>refcount := n\<rparr>) w2))))"

definition release_ip_forward_ref_in_dir ::
  "bool \<Rightarrow> (fwd_step \<Rightarrow> bool) \<Rightarrow> (ref_file \<Rightarrow> ref_file) \<Rightarrow> forward_world \<Rightarrow> forward_world \<times> unit result" where
  "release_ip_forward_ref_in_dir dir_exists fails torn w =
     (if \<not> dir_exists then (w, Ok ())
      else
        (case and_then (lock_ip_forward fails) (\<lambda>_. load_ip_forward_state fails w) of
           Inl e \<Rightarrow> (w, Err e)
         | Inr None \<Rightarrow> (w, Ok ())
         | Inr (Some state) \<Rightarrow>
             (if refcount state = 0 then remove_ip_forward_state fails w
              else
                (let n = refcount state - 1 in
                 if n = 0 then
                   (case write_ip_forward_value fails (original_value state) w of
                      (w1, Inl e) \<Rightarrow> (w1, Err e)
                    | (w1, Inr _) \<Rightarrow> remove_ip_forward_state fails w1)
                 else store_ip_forward_state fails torn (state\<lparr>refcount := n\<rparr>) w))))"

section \<open>Holders\<close>

text \<open>
  The history of a host whose switch had the value \<open>v\<close> before the first network: how many networks
  hold a reference. A failed acquisition holds none, a failed release still counts. The writes of the
  state file are all or nothing, and removing it does not fail.
\<close>

inductive forward_history :: "string \<Rightarrow> nat \<Rightarrow> forward_world \<Rightarrow> bool" where
  initial: "forward_history v 0 \<lparr>fw_sysctl = v, fw_file = Missing\<rparr>"
| acquired: "forward_history v n w \<Longrightarrow> acquire_ip_forward_ref_in_dir fails id w = (w', Ok ()) \<Longrightarrow>
    forward_history v (Suc n) w'"
| not_acquired: "forward_history v n w \<Longrightarrow> acquire_ip_forward_ref_in_dir fails id w = (w', Err e) \<Longrightarrow>
    forward_history v n w'"
| released: "forward_history v (Suc n) w \<Longrightarrow> \<not> fails RemoveState \<Longrightarrow>
    release_ip_forward_ref_in_dir True fails id w = (w', Ok ()) \<Longrightarrow> forward_history v n w'"
| not_released: "forward_history v (Suc n) w \<Longrightarrow> \<not> fails RemoveState \<Longrightarrow>
    release_ip_forward_ref_in_dir True fails id w = (w', Err e) \<Longrightarrow> forward_history v (Suc n) w'"

text \<open>What the file and the switch are for a number of holders.\<close>

definition forward_inv :: "string \<Rightarrow> nat \<Rightarrow> forward_world \<Rightarrow> bool" where
  "forward_inv v n w \<longleftrightarrow>
     (if n = 0 then (fw_file w = Missing \<and> trim (fw_sysctl w) = trim v)
        \<or> fw_file w = Saved \<lparr>refcount = 0, original_value = trim v\<rparr>
      else fw_sysctl w = ''1'' \<and> (\<exists>c. fw_file w = Saved \<lparr>refcount = c, original_value = trim v\<rparr> \<and> unat c = n))"

lemma acquire_inv:
  assumes "forward_inv v n w" "acquire_ip_forward_ref_in_dir fails id w = (w', r)"
  shows "forward_inv v (if r = Ok () then Suc n else n) w'"
  using assms
    by (auto simp: acquire_ip_forward_ref_in_dir_def forward_inv_def lock_ip_forward_def load_ip_forward_state_def
        read_ip_forward_value_def store_ip_forward_state_def write_ip_forward_value_def and_then_def reject_if_def
        checked_add_def unat_word_ariths
        split: if_splits sum.splits option.splits ref_file.splits prod.splits)

lemma unat_Suc_pred:
  assumes "unat (c :: 'a::len word) = Suc n"
  shows "unat (c - 1) = n" and "c - 1 = 0 \<longleftrightarrow> n = 0" and "c \<noteq> 0"
proof -
  show "c \<noteq> 0" using assms by auto
  then show "unat (c - 1) = n" using assms by (simp add: unat_minus_one)
  then show "c - 1 = 0 \<longleftrightarrow> n = 0" by (metis unat_eq_zero)
qed

lemma release_inv:
  assumes "forward_inv v (Suc n) w" "\<not> fails RemoveState" "release_ip_forward_ref_in_dir True fails id w = (w', r)"
  shows "forward_inv v (if r = Ok () then n else Suc n) w'"
proof -
  from assms(1) obtain c where c: "fw_sysctl w = ''1''" "fw_file w = Saved \<lparr>refcount = c, original_value = trim v\<rparr>"
    "unat c = Suc n" by (auto simp: forward_inv_def)
  note u = unat_Suc_pred[OF c(3)]
  show ?thesis using assms(2,3) c u
    by (auto simp: release_ip_forward_ref_in_dir_def forward_inv_def lock_ip_forward_def load_ip_forward_state_def
        store_ip_forward_state_def write_ip_forward_value_def remove_ip_forward_state_def and_then_def reject_if_def
        Let_def split: if_splits)
qed

lemma forward_history_inv: "forward_history v n w \<Longrightarrow> forward_inv v n w"
proof (induction rule: forward_history.induct)
  case (initial v)
  then show ?case by (simp add: forward_inv_def)
next
  case (acquired v n w fails w')
  from acquire_inv[OF acquired.IH acquired.hyps(2)] show ?case by simp
next
  case (not_acquired v n w fails w' e)
  from acquire_inv[OF not_acquired.IH not_acquired.hyps(2)] show ?case by simp
next
  case (released v n w fails w')
  from release_inv[OF released.IH released.hyps(2,3)] show ?case by simp
next
  case (not_released v n w fails w' e)
  from release_inv[OF not_released.IH not_released.hyps(2,3)] show ?case by simp
qed

text \<open>Without a failure the operations succeed, so the last holder can always give the switch back.\<close>

lemma release_succeeds:
  assumes "forward_inv v (Suc n) w"
  shows "snd (release_ip_forward_ref_in_dir True (\<lambda>_. False) id w) = Ok ()"
  using assms
  by (auto simp: release_ip_forward_ref_in_dir_def forward_inv_def lock_ip_forward_def load_ip_forward_state_def
      store_ip_forward_state_def write_ip_forward_value_def remove_ip_forward_state_def and_then_def reject_if_def
      Let_def)

section \<open>Properties\<close>

text \<open>
  C12: as long as a network holds a reference, forwarding is on and the state file counts the holders
  and remembers the value from before the first of them, also across failed acquisitions and
  releases; the release of the last holder puts that value back and takes the file away.
\<close>

theorem forward_refcount:
  assumes "forward_history v n w"
  shows "(n > 0 \<longrightarrow> fw_sysctl w = ''1''
           \<and> (\<exists>c. fw_file w = Saved \<lparr>refcount = c, original_value = trim v\<rparr> \<and> unat c = n))
    \<and> (n = 1 \<longrightarrow> release_ip_forward_ref_in_dir True (\<lambda>_. False) id w
         = (\<lparr>fw_sysctl = trim v, fw_file = Missing\<rparr>, Ok ()))"
proof -
  have inv: "forward_inv v n w" by (rule forward_history_inv[OF assms])
  then have "n > 0 \<longrightarrow> fw_sysctl w = ''1''
      \<and> (\<exists>c. fw_file w = Saved \<lparr>refcount = c, original_value = trim v\<rparr> \<and> unat c = n)"
    by (auto simp: forward_inv_def)
  moreover have "release_ip_forward_ref_in_dir True (\<lambda>_. False) id w
      = (\<lparr>fw_sysctl = trim v, fw_file = Missing\<rparr>, Ok ())" if "n = 1"
  proof -
    from inv that obtain c where c: "fw_file w = Saved \<lparr>refcount = c, original_value = trim v\<rparr>" "unat c = Suc 0"
      by (auto simp: forward_inv_def)
    with unat_Suc_pred[OF c(2)] show ?thesis
      by (simp add: release_ip_forward_ref_in_dir_def lock_ip_forward_def load_ip_forward_state_def
          write_ip_forward_value_def remove_ip_forward_state_def and_then_def reject_if_def)
  qed
  ultimately show ?thesis by blast
qed

theorem forward_refcount_witness:
  "release_ip_forward_ref_in_dir True (\<lambda>_. False) id
     \<lparr>fw_sysctl = ''1'', fw_file = Saved \<lparr>refcount = 1, original_value = ''0''\<rparr>\<rparr>
   = (\<lparr>fw_sysctl = ''0'', fw_file = Missing\<rparr>, Ok ())"
proof -
  have "acquire_ip_forward_ref_in_dir (\<lambda>_. False) id \<lparr>fw_sysctl = ''0'', fw_file = Missing\<rparr>
      = (\<lparr>fw_sysctl = ''1'', fw_file = Saved \<lparr>refcount = 1, original_value = ''0''\<rparr>\<rparr>, Ok ())"
    by (simp add: acquire_ip_forward_ref_in_dir_def lock_ip_forward_def load_ip_forward_state_def
        read_ip_forward_value_def store_ip_forward_state_def write_ip_forward_value_def checked_add_def reject_if_def
        trim_def is_whitespace_def)
  from forward_history.acquired[OF forward_history.initial[of "''0''"] this]
  have "forward_history ''0'' 1 \<lparr>fw_sysctl = ''1'', fw_file = Saved \<lparr>refcount = 1, original_value = ''0''\<rparr>\<rparr>" by simp
  from forward_refcount[OF this] show ?thesis by (simp add: trim_def is_whitespace_def)
qed

end
