(* ===== verification/Bridge_Network.thy ===== *)
theory Bridge_Network
  imports Host_Actions Ip_Alloc Ip_Forward Lifecycle "HOL-Library.Multiset"
begin

text \<open>
  Setting up, rolling back and cleaning up the bridge network of a container
  (\<^verbatim>\<open>src/src/network/bridge.rs\<close>).

  The state of a run is the log of what was done to the host's network, the allocation directory, the
  forwarding switch and the rollback guard of the setup in progress. Netlink requests and
  iptables commands are events: whether the next one succeeds is an answer of the environment to the
  whole log so far, and only what succeeded is logged.
\<close>

section \<open>Model\<close>

datatype net_event =
    CreateBridge string
  | AddAddr string ipv4addr u8
  | LinkUp string
  | CreateVeth string string
  | SetMaster string string
  | SetNetns string u32
  | NetnsAddr u32 string ipv4addr u8
  | NetnsUp u32 string
  | NetnsRoute u32 ipv4addr
  | Iptables "string list"
  | DelLink string

record setup_rollback =
  rb_veth_host :: string
  rb_subnet :: string
  rb_veth_created :: bool
  rb_nat_added :: bool
  rb_port_forwards :: "(string \<times> port_forward) list"
  rb_ip_forward :: bool
  rb_reserved_ip :: "string option"
  rb_armed :: bool

record bridge_run =
  run_log :: "net_event list"
  run_files :: alloc_files
  run_forward :: forward_world
  run_rollback :: setup_rollback

record bridge_env =
  be_answer :: "net_event list \<Rightarrow> net_event \<Rightarrow> unit result"
  be_link_exists :: "string \<Rightarrow> bool"
  be_ticks :: "nat \<Rightarrow> u64"
  be_alloc_fails :: "alloc_step \<Rightarrow> bool"
  be_alloc_partial :: string
  be_addr_in_use :: "ipv4addr \<Rightarrow> bool result"
  be_urandom :: "u8 list result"
  be_acquire_fails :: "fwd_step \<Rightarrow> bool"
  be_release_fails :: "fwd_step \<Rightarrow> bool"
  be_torn :: "ref_file \<Rightarrow> ref_file"

record bridge_network =
  bn_config :: bridge_config
  bn_container_ip :: string
  bn_veth_host :: string
  bn_container_id :: string
  bn_ip_forward :: bool
  bn_state :: network_state

type_synonym 'a net_action = "(bridge_run, 'a) action"

definition emit :: "bridge_env \<Rightarrow> net_event \<Rightarrow> unit net_action" where
  "emit env ev r =
     (case be_answer env (run_log r) ev of
        Inl e \<Rightarrow> (r, Err e)
      | Inr _ \<Rightarrow> (r\<lparr>run_log := run_log r @ [ev]\<rparr>, Ok ()))"

text \<open>Lower-case hexadecimal, as \<^verbatim>\<open>{:x}\<close> writes it.\<close>

fun show_hex :: "nat \<Rightarrow> string" where
  "show_hex n = (if n < 16 then [hex_digit n] else show_hex (n div 16) @ [hex_digit (n mod 16)])"

declare show_hex.simps [simp del]

definition veth_host_name :: "u32 \<Rightarrow> string" where
  "veth_host_name pid = take 15 (''veth-'' @ show_hex (unat pid))"

definition veth_container_name :: "u32 \<Rightarrow> string" where
  "veth_container_name pid = take 15 (''vethc-'' @ show_hex (unat pid))"

definition setup_rollback_new :: "string \<Rightarrow> string \<Rightarrow> string option \<Rightarrow> setup_rollback" where
  "setup_rollback_new veth_host sub reserved_ip =
     \<lparr>rb_veth_host = veth_host, rb_subnet = sub, rb_veth_created = False, rb_nat_added = False,
      rb_port_forwards = [], rb_ip_forward = False, rb_reserved_ip = reserved_ip, rb_armed = True\<rparr>"

definition masquerade :: "string \<Rightarrow> string \<Rightarrow> string list" where
  "masquerade operation sub =
     [''-t'', ''nat'', operation, ''POSTROUTING'', ''-s'', sub, ''-j'', ''MASQUERADE'']"

definition port_forward_rule_args :: "string \<Rightarrow> string \<Rightarrow> string \<Rightarrow> port_forward \<Rightarrow> string list" where
  "port_forward_rule_args operation chain ip pf =
     [''-t'', ''nat'', operation, chain, ''-p'', protocol_as_str (pf_protocol pf)]
     @ (if chain = ''OUTPUT'' then [''-m'', ''addrtype'', ''--dst-type'', ''LOCAL''] else [])
     @ (case host_ip pf of None \<Rightarrow> [] | Some hip \<Rightarrow> [''-d'', show_ipv4 hip])
     @ [''--dport'', show_word (host_port pf), ''-j'', ''DNAT'', ''--to-destination'',
        ip @ '':'' @ show_word (container_port pf)]"

definition gateway_addr :: "string \<Rightarrow> ipv4addr result" where
  "gateway_addr sub = ok_or (parse_ipv4 (gateway_from_subnet sub)) (NetworkError ''invalid gateway IP {}: {}'')"

definition ensure_bridge_for :: "bridge_env \<Rightarrow> string \<Rightarrow> string \<Rightarrow> unit net_action" where
  "ensure_bridge_for env name sub =
     (if be_link_exists env name then give (Ok ())
      else seq (emit env (CreateBridge name)) (\<lambda>_.
           seq (give (gateway_addr sub)) (\<lambda>gw.
           seq (emit env (AddAddr name gw (subnet_prefix sub))) (\<lambda>_.
           emit env (LinkUp name)))))"

definition setup_port_forward_for :: "bridge_env \<Rightarrow> string \<Rightarrow> port_forward \<Rightarrow> unit net_action" where
  "setup_port_forward_for env ip pf =
     each (\<lambda>chain. emit env (Iptables (port_forward_rule_args ''-A'' chain ip pf))) [''PREROUTING'', ''OUTPUT'']"

definition cleanup_port_forward :: "bridge_env \<Rightarrow> string \<Rightarrow> port_forward \<Rightarrow> unit net_action" where
  "cleanup_port_forward env ip pf =
     each (\<lambda>chain. emit env (Iptables (port_forward_rule_args ''-D'' chain ip pf))) [''OUTPUT'', ''PREROUTING'']"

definition acquire_ip_forward_ref :: "bridge_env \<Rightarrow> unit net_action" where
  "acquire_ip_forward_ref env r =
     (case acquire_ip_forward_ref_in_dir (be_acquire_fails env) (be_torn env) (run_forward r) of
        (w, res) \<Rightarrow> (r\<lparr>run_forward := w\<rparr>, res))"

text \<open>The allocation directory exists: the reservation of the address has made it.\<close>

definition release_ip_forward_ref :: "bridge_env \<Rightarrow> unit net_action" where
  "release_ip_forward_ref env r =
     (case release_ip_forward_ref_in_dir True (be_release_fails env) (be_torn env) (run_forward r) of
        (w, res) \<Rightarrow> (r\<lparr>run_forward := w\<rparr>, res))"

definition release_allocated_ip :: "string \<Rightarrow> unit net_action" where
  "release_allocated_ip container_id =
     modify (\<lambda>r. r\<lparr>run_files := release_allocated_ip_in_dir container_id (run_files r)\<rparr>)"

definition set_rollback :: "(setup_rollback \<Rightarrow> setup_rollback) \<Rightarrow> unit net_action" where
  "set_rollback f = modify (\<lambda>r. r\<lparr>run_rollback := f (run_rollback r)\<rparr>)"

text \<open>Dropping the guard of a setup that did not finish. Every error is only logged.\<close>

definition rollback_drop :: "bridge_env \<Rightarrow> unit net_action" where
  "rollback_drop env r =
     (let rb = run_rollback r in
      if \<not> rb_armed rb then (r, Ok ())
      else
        seq (each (\<lambda>(ip, pf). each (\<lambda>chain.
               attempt (emit env (Iptables (port_forward_rule_args ''-D'' chain ip pf)))) [''OUTPUT'', ''PREROUTING''])
             (rev (rb_port_forwards rb))) (\<lambda>_.
        seq (only_if (rb_nat_added rb) (attempt (emit env (Iptables (masquerade ''-D'' (rb_subnet rb)))))) (\<lambda>_.
        seq (only_if (rb_veth_created rb) (attempt (emit env (DelLink (rb_veth_host rb))))) (\<lambda>_.
        seq (only_if (rb_ip_forward rb) (attempt (release_ip_forward_ref env))) (\<lambda>_.
        case rb_reserved_ip rb of
          None \<Rightarrow> give (Ok ())
        | Some container_id \<Rightarrow> release_allocated_ip container_id)))) r)"

definition setup_body :: "bridge_env \<Rightarrow> u32 \<Rightarrow> bridge_config \<Rightarrow> string \<Rightarrow> unit net_action" where
  "setup_body env pid config ip =
     (let veth_host = veth_host_name pid; veth_container = veth_container_name pid;
          prefix_len = subnet_prefix (subnet config) in
      seq (ensure_bridge_for env (bridge_name config) (subnet config)) (\<lambda>_.
      seq (emit env (CreateVeth veth_host veth_container)) (\<lambda>_.
      seq (set_rollback (\<lambda>rb. rb\<lparr>rb_veth_created := True\<rparr>)) (\<lambda>_.
      seq (emit env (SetMaster veth_host (bridge_name config))) (\<lambda>_.
      seq (emit env (LinkUp veth_host)) (\<lambda>_.
      seq (emit env (SetNetns veth_container pid)) (\<lambda>_.
      seq (give (reject_if (be_ticks env 0 = 0)
            (NetworkError ''Cannot read start_ticks for PID {}: process may have exited''))) (\<lambda>_.
      seq (give (ok_or (parse_ipv4 ip) (NetworkError ''invalid container IP {}: {}''))) (\<lambda>addr.
      seq (emit env (NetnsAddr pid veth_container addr prefix_len)) (\<lambda>_.
      seq (emit env (NetnsUp pid veth_container)) (\<lambda>_.
      seq (emit env (NetnsUp pid ''lo'')) (\<lambda>_.
      seq (give (reject_if (be_ticks env 1 \<noteq> be_ticks env 0)
            (NetworkError ''PID {} was recycled during network setup (start_ticks changed: {} -> {})''))) (\<lambda>_.
      seq (give (gateway_addr (subnet config))) (\<lambda>gw.
      seq (emit env (NetnsRoute pid gw)) (\<lambda>_.
      seq (emit env (Iptables (masquerade ''-A'' (subnet config)))) (\<lambda>_.
      seq (set_rollback (\<lambda>rb. rb\<lparr>rb_nat_added := True\<rparr>)) (\<lambda>_.
      seq (acquire_ip_forward_ref env) (\<lambda>_.
      seq (set_rollback (\<lambda>rb. rb\<lparr>rb_ip_forward := True\<rparr>)) (\<lambda>_.
      each (\<lambda>pf. seq (setup_port_forward_for env ip pf) (\<lambda>_.
          set_rollback (\<lambda>rb. rb\<lparr>rb_port_forwards := rb_port_forwards rb @ [(ip, pf)]\<rparr>)))
        (port_forwards config))))))))))))))))))))"

definition setup_for :: "bridge_env \<Rightarrow> u32 \<Rightarrow> bridge_config \<Rightarrow> string \<Rightarrow> bridge_network net_action" where
  "setup_for env pid config container_id r =
     (case and_then (bridge_validate config) (\<lambda>_.
           transition network_can_transition_to network_debug Unconfigured Configuring) of
        Inl e \<Rightarrow> (r, Err e)
      | Inr net_state \<Rightarrow>
          (case reserve_ip_in_dir (be_alloc_fails env) (be_alloc_partial env) (be_addr_in_use env) (be_urandom env)
                container_id (subnet config) (container_ip config) (run_files r) of
             (files, Inl e) \<Rightarrow> (r\<lparr>run_files := files\<rparr>, Err e)
           | (files, Inr ip) \<Rightarrow>
               (let rb = setup_rollback_new (veth_host_name pid) (subnet config) (Some container_id) in
                case seq (setup_body env pid config ip)
                      (\<lambda>_. give (transition network_can_transition_to network_debug net_state Active))
                      (r\<lparr>run_files := files, run_rollback := rb\<rparr>) of
                  (r1, Inl e) \<Rightarrow> (fst (rollback_drop env r1), Err e)
                | (r1, Inr net_state') \<Rightarrow>
                    (r1\<lparr>run_rollback := (run_rollback r1)\<lparr>rb_armed := False\<rparr>\<rparr>,
                     Ok \<lparr>bn_config = config, bn_container_ip = ip, bn_veth_host = veth_host_name pid,
                         bn_container_id = container_id, bn_ip_forward = rb_ip_forward (run_rollback r1),
                         bn_state = net_state'\<rparr>))))"

text \<open>
  Cleaning up consumes the network, and the drop that follows it finds the network cleaned. The
  errors of the steps are only logged, and a port forward whose first rule cannot be removed keeps its second.
\<close>

definition teardown :: "bridge_env \<Rightarrow> bridge_network \<Rightarrow> unit net_action" where
  "teardown env self =
     seq (release_allocated_ip (bn_container_id self)) (\<lambda>_.
     seq (each (\<lambda>pf. attempt (cleanup_port_forward env (bn_container_ip self) pf)) (port_forwards (bn_config self))) (\<lambda>_.
     seq (attempt (emit env (Iptables (masquerade ''-D'' (subnet (bn_config self)))))) (\<lambda>_.
     seq (attempt (emit env (DelLink (bn_veth_host self)))) (\<lambda>_.
     only_if (bn_ip_forward self) (attempt (release_ip_forward_ref env))))))"

definition cleanup_best_effort :: "bridge_env \<Rightarrow> bridge_network \<Rightarrow> unit net_action" where
  "cleanup_best_effort env self =
     (if bn_state self = NetCleaned then give (Ok ()) else teardown env self)"

text \<open>When the transition of \<^verbatim>\<open>cleanup\<close> is refused, the network is dropped all the same.\<close>

definition cleanup :: "bridge_env \<Rightarrow> bridge_network \<Rightarrow> unit net_action" where
  "cleanup env self =
     (case transition network_can_transition_to network_debug (bn_state self) NetCleaned of
        Inl e \<Rightarrow> seq (cleanup_best_effort env self) (\<lambda>_. give (Err e))
      | Inr state \<Rightarrow> seq (teardown env (self\<lparr>bn_state := state\<rparr>)) (\<lambda>_.
          cleanup_best_effort env (self\<lparr>bn_state := state\<rparr>)))"

section \<open>What the log did to the host\<close>

text \<open>
  The rules of the nat table as a multiset: \<^verbatim>\<open>-A\<close> adds a rule and \<^verbatim>\<open>-D\<close> takes one equal rule away.
  The pairs of virtual interfaces by the name of their host end.
\<close>

fun nat_step :: "string list multiset \<Rightarrow> net_event \<Rightarrow> string list multiset" where
  "nat_step M (Iptables (t # table # operation # rule)) =
     (if operation = ''-A'' then add_mset rule M else if operation = ''-D'' then M - {#rule#} else M)"
| "nat_step M _ = M"

definition nat_table :: "string list multiset \<Rightarrow> net_event list \<Rightarrow> string list multiset" where
  "nat_table M log = foldl nat_step M log"

fun veth_step :: "string set \<Rightarrow> net_event \<Rightarrow> string set" where
  "veth_step S (CreateVeth h c) = insert h S"
| "veth_step S (DelLink l) = S - {l}"
| "veth_step S _ = S"

definition veths :: "net_event list \<Rightarrow> string set" where
  "veths log = foldl veth_step {} log"

lemma nat_table_append [simp]: "nat_table M (xs @ ys) = nat_table (nat_table M xs) ys"
  "nat_table M [] = M" "nat_table M (ev # xs) = nat_table (nat_step M ev) xs"
  by (simp_all add: nat_table_def)

lemma veths_append [simp]: "veths (xs @ ys) = foldl veth_step (veths xs) ys"
  by (simp add: veths_def)

definition nat_rule :: "string list \<Rightarrow> string list" where
  "nat_rule args = drop 3 args"

abbreviation pf_rule :: "string \<Rightarrow> string \<Rightarrow> port_forward \<Rightarrow> string list" where
  "pf_rule chain ip pf \<equiv> nat_rule (port_forward_rule_args ''-A'' chain ip pf)"

definition pf_rules :: "(string \<times> port_forward) list \<Rightarrow> string list multiset" where
  "pf_rules pfs = sum_list (map (\<lambda>(ip, pf). {#pf_rule ''PREROUTING'' ip pf, pf_rule ''OUTPUT'' ip pf#}) pfs)"

lemma nat_step_args [simp]:
  "nat_step M (Iptables (port_forward_rule_args ''-A'' chain ip pf)) = add_mset (pf_rule chain ip pf) M"
  "nat_step M (Iptables (port_forward_rule_args ''-D'' chain ip pf)) = M - {#pf_rule chain ip pf#}"
  "nat_step M (Iptables (masquerade ''-A'' sub)) = add_mset (nat_rule (masquerade ''-A'' sub)) M"
  "nat_step M (Iptables (masquerade ''-D'' sub)) = M - {#nat_rule (masquerade ''-A'' sub)#}"
  by (simp_all add: port_forward_rule_args_def masquerade_def nat_rule_def)

lemma pf_rules_simps [simp]:
  "pf_rules [] = {#}"
  "pf_rules (xs @ ys) = pf_rules xs + pf_rules ys"
  "pf_rules ((ip, pf) # xs) = {#pf_rule ''PREROUTING'' ip pf, pf_rule ''OUTPUT'' ip pf#} + pf_rules xs"
  by (simp_all add: pf_rules_def)

lemma pf_rules_rev: "pf_rules (rev xs) = pf_rules xs"
proof (induction xs)
  case (Cons x xs)
  then show ?case by (cases x) (simp add: union_commute)
qed simp

section \<open>The guard knows what was done\<close>

text \<open>
  The state in which every statement of the setup leaves the run: what the host has beyond the
  state before the setup is what the guard will take back. The flags are those of the guard.
\<close>

record setup_frame =
  fr_nat :: "string list multiset"
  fr_log :: "net_event list"
  fr_value :: string
  fr_holders :: nat
  fr_files :: alloc_files
  fr_id :: string
  fr_veth :: string
  fr_subnet :: string

definition beyond :: "setup_frame \<Rightarrow> (string \<times> port_forward) list \<Rightarrow> bool \<Rightarrow> bool \<Rightarrow> bool \<Rightarrow> bridge_run \<Rightarrow> bool" where
  "beyond fr pfs v n f r \<longleftrightarrow>
     nat_table (fr_nat fr) (run_log r) = nat_table (fr_nat fr) (fr_log fr)
       + (if n then {#nat_rule (masquerade ''-A'' (fr_subnet fr))#} else {#}) + pf_rules pfs
     \<and> veths (run_log r) = veths (fr_log fr) \<union> (if v then {fr_veth fr} else {})
     \<and> forward_inv (fr_value fr) (if f then Suc (fr_holders fr) else fr_holders fr) (run_forward r)
     \<and> run_files r = fr_files fr"

definition guarded :: "setup_frame \<Rightarrow> (string \<times> port_forward) list \<Rightarrow> bool \<Rightarrow> bool \<Rightarrow> bool \<Rightarrow> bridge_run \<Rightarrow> bool" where
  "guarded fr pfs v n f r \<longleftrightarrow>
     (let rb = run_rollback r in
      rb_armed rb \<and> rb_reserved_ip rb = Some (fr_id fr) \<and> rb_veth_host rb = fr_veth fr \<and> rb_subnet rb = fr_subnet fr
      \<and> rb_veth_created rb = v \<and> rb_nat_added rb = n \<and> rb_ip_forward rb = f \<and> rb_port_forwards rb = pfs
      \<and> beyond fr pfs v n f r)"

definition some_guarded :: "setup_frame \<Rightarrow> bridge_run \<Rightarrow> bool" where
  "some_guarded fr r \<longleftrightarrow> (\<exists>pfs v n f. guarded fr pfs v n f r)"

lemma some_guardedI: "guarded fr pfs v n f r \<Longrightarrow> some_guarded fr r"
  by (auto simp: some_guarded_def)

lemma holds_emit:
  "(\<And>r. P r \<Longrightarrow> Q (r\<lparr>run_log := run_log r @ [ev]\<rparr>)) \<Longrightarrow> (\<And>r. P r \<Longrightarrow> E r) \<Longrightarrow> holds P (emit env ev) (\<lambda>_. Q) E"
  by (auto simp: holds_def emit_def split: sum.splits prod.splits)

lemma emit_guarded:
  assumes "\<And>M. nat_step M ev = M" "\<And>S. veth_step S ev = S"
  shows "holds (guarded fr pfs v n f) (emit env ev) (\<lambda>_. guarded fr pfs v n f) (some_guarded fr)"
  by (rule holds_emit) (simp add: guarded_def beyond_def Let_def assms, erule some_guardedI)

lemma give_guarded: "holds (guarded fr pfs v n f) (give x) (\<lambda>_. guarded fr pfs v n f) (some_guarded fr)"
  by (rule holds_give) (auto intro: some_guardedI)

lemma ensure_bridge_guarded:
  "holds (guarded fr pfs v n f) (ensure_bridge_for env b sub) (\<lambda>_. guarded fr pfs v n f) (some_guarded fr)"
  unfolding ensure_bridge_for_def
  by (intro holds_if holds_seq[where R = "\<lambda>_. guarded fr pfs v n f"] give_guarded emit_guarded) simp_all

lemma veth_guarded:
  "holds (guarded fr pfs False n f)
     (seq (emit env (CreateVeth (fr_veth fr) c)) (\<lambda>_. set_rollback (\<lambda>rb. rb\<lparr>rb_veth_created := True\<rparr>)))
     (\<lambda>_. guarded fr pfs True n f) (some_guarded fr)"
  unfolding holds_def seq_def emit_def set_rollback_def modify_def
  by (auto intro: some_guardedI split: sum.splits) (auto simp: guarded_def beyond_def Let_def)

lemma masquerade_guarded:
  "holds (guarded fr pfs v False f)
     (seq (emit env (Iptables (masquerade ''-A'' (fr_subnet fr)))) (\<lambda>_. set_rollback (\<lambda>rb. rb\<lparr>rb_nat_added := True\<rparr>)))
     (\<lambda>_. guarded fr pfs v True f) (some_guarded fr)"
  unfolding holds_def seq_def emit_def set_rollback_def modify_def
  by (auto intro: some_guardedI split: sum.splits) (auto simp: guarded_def beyond_def Let_def)

lemma forward_guarded:
  assumes "be_torn env = id"
  shows "holds (guarded fr pfs v n False)
     (seq (acquire_ip_forward_ref env) (\<lambda>_. set_rollback (\<lambda>rb. rb\<lparr>rb_ip_forward := True\<rparr>)))
     (\<lambda>_. guarded fr pfs v n True) (some_guarded fr)"
  unfolding holds_def
proof (intro allI impI)
  fix r assume r: "guarded fr pfs v n False r"
  obtain w' res where acq: "acquire_ip_forward_ref_in_dir (be_acquire_fails env) id (run_forward r) = (w', res)"
    by fastforce
  have inv: "forward_inv (fr_value fr) (if res = Ok () then Suc (fr_holders fr) else fr_holders fr) w'"
    using acquire_inv[OF _ acq] r by (simp add: guarded_def beyond_def Let_def)
  have eq: "acquire_ip_forward_ref env r = (r\<lparr>run_forward := w'\<rparr>, res)"
    using acq assms by (simp add: acquire_ip_forward_ref_def)
  show "case seq (acquire_ip_forward_ref env) (\<lambda>_. set_rollback (\<lambda>rb. rb\<lparr>rb_ip_forward := True\<rparr>)) r of
      (s', Inl e) \<Rightarrow> some_guarded fr s' | (s', Inr x) \<Rightarrow> guarded fr pfs v n True s'"
  proof (cases res)
    case (Inl e)
    with r inv have "guarded fr pfs v n False (r\<lparr>run_forward := w'\<rparr>)" by (simp add: guarded_def beyond_def Let_def)
    with Inl eq show ?thesis by (simp add: seq_def some_guardedI)
  next
    case (Inr u)
    with r inv eq show ?thesis by (simp add: seq_def set_rollback_def modify_def guarded_def beyond_def Let_def)
  qed
qed

text \<open>The first rule of a port forward is not known to the guard until the second one is in place.\<close>

definition output_rules_work :: "bridge_env \<Rightarrow> string \<Rightarrow> bridge_config \<Rightarrow> bool" where
  "output_rules_work env ip config \<longleftrightarrow> (\<forall>log. \<forall>pf \<in> set (port_forwards config).
     be_answer env log (Iptables (port_forward_rule_args ''-A'' ''OUTPUT'' ip pf)) = Ok ())"

lemma port_forward_guarded:
  assumes "\<And>log. be_answer env log (Iptables (port_forward_rule_args ''-A'' ''OUTPUT'' ip pf)) = Ok ()"
  shows "holds (guarded fr pfs v n f)
     (seq (setup_port_forward_for env ip pf)
       (\<lambda>_. set_rollback (\<lambda>rb. rb\<lparr>rb_port_forwards := rb_port_forwards rb @ [(ip, pf)]\<rparr>)))
     (\<lambda>_. guarded fr (pfs @ [(ip, pf)]) v n f) (some_guarded fr)"
  unfolding holds_def seq_def emit_def set_rollback_def modify_def setup_port_forward_for_def
  using assms by (auto simp: give_def seq_def intro: some_guardedI split: sum.splits) (auto simp: guarded_def beyond_def Let_def)

lemma setup_body_guarded:
  assumes "be_torn env = id" "output_rules_work env ip config"
    and fr: "fr_veth fr = veth_host_name pid" "fr_subnet fr = subnet config"
  shows "holds (guarded fr [] False False False) (setup_body env pid config ip)
    (\<lambda>_. guarded fr (map (Pair ip) (port_forwards config)) True True True) (some_guarded fr)"
proof -
  have pf: "holds (guarded fr [] True True True)
      (each (\<lambda>pf. seq (setup_port_forward_for env ip pf) (\<lambda>_.
         set_rollback (\<lambda>rb. rb\<lparr>rb_port_forwards := rb_port_forwards rb @ [(ip, pf)]\<rparr>))) (port_forwards config))
      (\<lambda>_. guarded fr (map (Pair ip) (port_forwards config)) True True True) (some_guarded fr)"
    using assms(2)
    by (intro holds_each_index[where I = "\<lambda>before. guarded fr (map (Pair ip) before) True True True", simplified]
        port_forward_guarded) (simp_all add: output_rules_work_def)
  show ?thesis
    unfolding setup_body_def Let_def fr[symmetric]
    apply (rule holds_seq, rule ensure_bridge_guarded)
    apply (rule holds_seq2, rule veth_guarded)
    apply (rule holds_seq, rule emit_guarded, simp, simp)+
    apply (rule holds_seq, rule give_guarded)+
    apply (rule holds_seq, rule emit_guarded, simp, simp)+
    apply (rule holds_seq, rule give_guarded)+
    apply (rule holds_seq, rule emit_guarded, simp, simp)
    apply (rule holds_seq2, rule masquerade_guarded)
    apply (rule holds_seq2, rule forward_guarded, rule assms)
    apply (rule pf)
    done
qed

section \<open>Taking back\<close>

fun undoes :: "net_event \<Rightarrow> bool" where
  "undoes (DelLink _) = True"
| "undoes (Iptables (_ # _ # operation # _)) = (operation = ''-D'')"
| "undoes _ = False"

definition undo_works :: "bridge_env \<Rightarrow> bool" where
  "undo_works env \<longleftrightarrow> be_torn env = id \<and> (\<forall>s. \<not> be_release_fails env s)
     \<and> (\<forall>log ev. undoes ev \<longrightarrow> be_answer env log ev = Ok ())"

lemma undo_emit: "undo_works env \<Longrightarrow> undoes ev \<Longrightarrow> emit env ev r = (r\<lparr>run_log := run_log r @ [ev]\<rparr>, Ok ())"
  by (simp add: undo_works_def emit_def)

lemma undoes_args [simp]:
  "undoes (Iptables (port_forward_rule_args ''-D'' chain ip pf))" "undoes (Iptables (masquerade ''-D'' sub))"
  by (simp_all add: port_forward_rule_args_def masquerade_def)

lemma undo_release:
  assumes "undo_works env" "forward_inv v (Suc n) (run_forward r)"
  shows "\<exists>w. release_ip_forward_ref env r = (r\<lparr>run_forward := w\<rparr>, Ok ()) \<and> forward_inv v n w"
proof -
  obtain w res where rel: "release_ip_forward_ref_in_dir True (be_release_fails env) id (run_forward r) = (w, res)"
    by fastforce
  have "res = Ok ()" using rel assms
    by (auto simp: undo_works_def forward_inv_def release_ip_forward_ref_in_dir_def lock_ip_forward_def Let_def
        load_ip_forward_state_def store_ip_forward_state_def write_ip_forward_value_def remove_ip_forward_state_def
        reject_if_def split: if_splits sum.splits option.splits)
  with release_inv[OF assms(2) _ rel] assms(1) rel show ?thesis
    by (auto simp: release_ip_forward_ref_def undo_works_def)
qed

text \<open>The rules of the port forwards, the masquerading, the pair and the reference, each taken back.\<close>

lemma undo_port_forward:
  assumes "undo_works env"
  shows "holds (beyond fr ((ip, pf) # pfs) v n f)
     (each (\<lambda>chain. attempt (emit env (Iptables (port_forward_rule_args ''-D'' chain ip pf)))) [''OUTPUT'', ''PREROUTING''])
     (\<lambda>_. beyond fr pfs v n f) E"
  by (simp add: holds_def action_eval undo_emit[OF assms] beyond_def)

lemma undo_port_forwards:
  assumes "undo_works env"
  shows "holds (beyond fr pfs v n f)
     (each (\<lambda>(ip, pf). each (\<lambda>chain. attempt (emit env (Iptables (port_forward_rule_args ''-D'' chain ip pf))))
        [''OUTPUT'', ''PREROUTING'']) pfs)
     (\<lambda>_. beyond fr [] v n f) E"
proof (induction pfs)
  case Nil
  then show ?case by (auto intro: holds_give)
next
  case (Cons x pfs)
  obtain ip pf where x: "x = (ip, pf)" by fastforce
  from holds_seq[OF undo_port_forward[OF assms] Cons.IH] show ?case by (simp add: x del: each.simps(2)) (simp only: each.simps(2) x prod.case)
qed

lemma undo_masquerade:
  assumes "undo_works env"
  shows "holds (beyond fr [] v n f) (only_if n (attempt (emit env (Iptables (masquerade ''-D'' (fr_subnet fr))))))
     (\<lambda>_. beyond fr [] v False f) E"
  by (simp add: holds_def action_eval undo_emit[OF assms] beyond_def)

lemma undo_veth:
  assumes "undo_works env" "fr_veth fr \<notin> veths (fr_log fr)"
  shows "holds (beyond fr [] v False f) (only_if v (attempt (emit env (DelLink (fr_veth fr)))))
     (\<lambda>_. beyond fr [] False False f) E"
  using assms(2) by (simp add: holds_def action_eval undo_emit[OF assms(1)] beyond_def)

lemma undo_forward:
  assumes "undo_works env"
  shows "holds (beyond fr [] False False f) (only_if f (attempt (release_ip_forward_ref env)))
     (\<lambda>_. beyond fr [] False False False) E"
proof (cases f)
  case True
  then show ?thesis unfolding holds_def
    using undo_release[OF assms, of "fr_value fr" "fr_holders fr"]
    by (fastforce simp: action_eval beyond_def)
next
  case False
  then show ?thesis by (simp add: holds_def action_eval)
qed

lemma rollback_drop_restores:
  assumes "undo_works env" "fr_veth fr \<notin> veths (fr_log fr)" "some_guarded fr r"
  shows "\<exists>r'. beyond fr [] False False False r'
    \<and> fst (rollback_drop env r) = r'\<lparr>run_files := release_allocated_ip_in_dir (fr_id fr) (run_files r')\<rparr>"
proof -
  from assms(3) obtain pfs v n f where g: "guarded fr pfs v n f r" by (auto simp: some_guarded_def)
  let ?undo = "seq (each (\<lambda>(ip, pf). each (\<lambda>chain.
       attempt (emit env (Iptables (port_forward_rule_args ''-D'' chain ip pf)))) [''OUTPUT'', ''PREROUTING'']) (rev pfs)) (\<lambda>_.
     seq (only_if n (attempt (emit env (Iptables (masquerade ''-D'' (fr_subnet fr)))))) (\<lambda>_.
     seq (only_if v (attempt (emit env (DelLink (fr_veth fr))))) (\<lambda>_.
     only_if f (attempt (release_ip_forward_ref env)))))"
  have H: "holds (beyond fr (rev pfs) v n f) ?undo (\<lambda>_. beyond fr [] False False False) (\<lambda>_. False)"
    by (intro holds_seq[OF undo_port_forwards] holds_seq[OF undo_masquerade] holds_seq[OF undo_veth] undo_forward assms)
  have B: "beyond fr (rev pfs) v n f r" using g by (simp add: guarded_def beyond_def Let_def pf_rules_rev)
  from holds_sure[OF H B] obtain r' x where u: "?undo r = (r', Inr x)" and b: "beyond fr [] False False False r'"
    by blast
  have "fst (rollback_drop env r) = fst (seq ?undo (\<lambda>_. release_allocated_ip (fr_id fr)) r)"
    using g by (simp add: rollback_drop_def guarded_def Let_def seq_assoc)
  with u b show ?thesis by (auto simp: seq_def release_allocated_ip_def modify_def)
qed

lemma reserve_others:
  "name \<noteq> i @ ''.ip'' \<Longrightarrow>
   map_of (fst (reserve_ip_in_dir fails partial f urandom i sub requested files)) name = map_of files name"
  by (simp add: reserve_ip_in_dir_def record_allocated_ip_in_dir_def update_conv' Let_def split: sum.splits prod.splits)


lemma release_others:
  "map_of (release_allocated_ip_in_dir i files) name = (if name = i @ ''.ip'' then None else map_of files name)"
  by (simp add: release_allocated_ip_in_dir_def delete_conv')

text \<open>The state in which the body of a setup starts.\<close>

definition setup_frame_of :: "string list multiset \<Rightarrow> string \<Rightarrow> nat \<Rightarrow> u32 \<Rightarrow> bridge_config \<Rightarrow> string \<Rightarrow> alloc_files \<Rightarrow>
  bridge_run \<Rightarrow> setup_frame" where
  "setup_frame_of M v n pid config i files r =
     \<lparr>fr_nat = M, fr_log = run_log r, fr_value = v, fr_holders = n, fr_files = files, fr_id = i,
      fr_veth = veth_host_name pid, fr_subnet = subnet config\<rparr>"

lemma setup_started:
  assumes "forward_inv v n (run_forward r)"
  shows "guarded (setup_frame_of M v n pid config i files r) [] False False False
    (r\<lparr>run_files := files, run_rollback := setup_rollback_new (veth_host_name pid) (subnet config) (Some i)\<rparr>)"
  using assms by (simp add: guarded_def beyond_def setup_frame_of_def setup_rollback_new_def Let_def)

text \<open>The setup ended with an error: before the reservation, in it, or in the body with the guard armed.\<close>

lemma setup_Err:
  assumes "setup_for env pid config i r = (r', Err e)" "be_torn env = id" "\<And>ip. output_rules_work env ip config"
    and "forward_inv v n (run_forward r)"
  obtains (before) files where "r' = r\<lparr>run_files := files\<rparr>"
      "\<And>name. name \<noteq> i @ ''.ip'' \<Longrightarrow> map_of files name = map_of (run_files r) name"
  | (within) files r1 where "some_guarded (setup_frame_of M v n pid config i files r) r1" "r' = fst (rollback_drop env r1)"
      "\<And>name. name \<noteq> i @ ''.ip'' \<Longrightarrow> map_of files name = map_of (run_files r) name"
proof -
  obtain files res where resv: "reserve_ip_in_dir (be_alloc_fails env) (be_alloc_partial env) (be_addr_in_use env)
      (be_urandom env) i (subnet config) (container_ip config) (run_files r) = (files, res)" by fastforce
  have others: "map_of files name = map_of (run_files r) name" if "name \<noteq> i @ ''.ip''" for name
    using reserve_others[OF that] resv by (metis fst_conv)
  let ?fr = "setup_frame_of M v n pid config i files r"
  let ?r = "r\<lparr>run_files := files, run_rollback := setup_rollback_new (veth_host_name pid) (subnet config) (Some i)\<rparr>"
  show ?thesis
  proof (cases "and_then (bridge_validate config)
      (\<lambda>_. transition network_can_transition_to network_debug Unconfigured Configuring)")
    case (Inl e')
    with assms(1) have "r' = r" by (simp add: setup_for_def)
    then show ?thesis by (intro before[of "run_files r"]) simp_all
  next
    case (Inr st)
    show ?thesis
    proof (cases res)
      case (Inl e')
      with assms(1) Inr resv have "r' = r\<lparr>run_files := files\<rparr>" by (simp add: setup_for_def)
      then show ?thesis using others by (rule before)
    next
      case ip: (Inr ip)
      let ?m = "seq (setup_body env pid config ip)
        (\<lambda>_. give (transition network_can_transition_to network_debug st Active))"
      obtain r1 res1 where body: "?m ?r = (r1, res1)" by fastforce
      have H: "holds (guarded ?fr [] False False False) ?m (\<lambda>_ _. True) (some_guarded ?fr)"
        by (rule holds_seq[OF setup_body_guarded[OF assms(2,3)]])
          (auto simp: setup_frame_of_def intro: holds_give some_guardedI)
      from assms(1) Inr resv ip body obtain e' where "res1 = Inl e'" "r' = fst (rollback_drop env r1)"
        by (cases res1) (simp_all add: setup_for_def Let_def)
      with holdsD[OF H setup_started[OF assms(4)] body] others show ?thesis by (intro within[of files r1]) simp_all
    qed
  qed
qed



section \<open>Setup and cleanup\<close>

lemma undo_cleanup_port_forwards:
  assumes "undo_works env"
  shows "holds (beyond fr (map (Pair ip) pfs) v n f) (each (\<lambda>pf. attempt (cleanup_port_forward env ip pf)) pfs)
    (\<lambda>_. beyond fr [] v n f) E"
proof (induction pfs)
  case Nil
  then show ?case by (auto intro: holds_give)
next
  case (Cons pf pfs)
  have "holds (beyond fr ((ip, pf) # map (Pair ip) pfs) v n f) (attempt (cleanup_port_forward env ip pf))
      (\<lambda>_. beyond fr (map (Pair ip) pfs) v n f) E"
    by (simp add: holds_def cleanup_port_forward_def action_eval undo_emit[OF assms] beyond_def)
  from holds_seq[OF this Cons.IH] show ?case by simp
qed

lemma setup_Ok:
  assumes "setup_for env pid config i r = (r', Ok net)" "be_torn env = id" "\<And>ip. output_rules_work env ip config"
    and "forward_inv v n (run_forward r)"
  obtains files where "guarded (setup_frame_of M v n pid config i files r)
        (map (Pair (bn_container_ip net)) (port_forwards config)) True True True (r'\<lparr>run_rollback := (run_rollback r')\<lparr>rb_armed := True\<rparr>\<rparr>)"
    "net = \<lparr>bn_config = config, bn_container_ip = bn_container_ip net, bn_veth_host = veth_host_name pid,
       bn_container_id = i, bn_ip_forward = True, bn_state = Active\<rparr>"
    "\<And>name. name \<noteq> i @ ''.ip'' \<Longrightarrow> map_of files name = map_of (run_files r) name"
proof -
  obtain files res where resv: "reserve_ip_in_dir (be_alloc_fails env) (be_alloc_partial env) (be_addr_in_use env)
      (be_urandom env) i (subnet config) (container_ip config) (run_files r) = (files, res)" by fastforce
  let ?fr = "setup_frame_of M v n pid config i files r"
  let ?r = "r\<lparr>run_files := files, run_rollback := setup_rollback_new (veth_host_name pid) (subnet config) (Some i)\<rparr>"
  from assms(1) obtain st where st: "and_then (bridge_validate config)
      (\<lambda>_. transition network_can_transition_to network_debug Unconfigured Configuring) = Inr st"
    by (auto simp: setup_for_def split: sum.splits)
  from assms(1) st resv obtain ip where ip: "res = Inr ip" by (cases res) (simp_all add: setup_for_def)
  let ?m = "seq (setup_body env pid config ip)
    (\<lambda>_. give (transition network_can_transition_to network_debug st Active))"
  obtain r1 res1 where body: "?m ?r = (r1, res1)" by fastforce
  have H: "holds (guarded ?fr [] False False False) ?m (\<lambda>s r. guarded ?fr (map (Pair ip) (port_forwards config)) True True True r
      \<and> s = Active) (some_guarded ?fr)"
    by (rule holds_seq[OF setup_body_guarded[OF assms(2,3)]])
      (auto simp: setup_frame_of_def transition_def intro!: holds_give intro: some_guardedI split: if_splits)
  from assms(1) st resv ip body obtain st' where res1: "res1 = Inr st'"
    "r' = r1\<lparr>run_rollback := (run_rollback r1)\<lparr>rb_armed := False\<rparr>\<rparr>"
    "net = \<lparr>bn_config = config, bn_container_ip = ip, bn_veth_host = veth_host_name pid,
       bn_container_id = i, bn_ip_forward = rb_ip_forward (run_rollback r1), bn_state = st'\<rparr>"
    by (cases res1) (simp_all add: setup_for_def Let_def)
  with holdsD[OF H setup_started[OF assms(4)] body]
  have g: "guarded ?fr (map (Pair ip) (port_forwards config)) True True True r1" "st' = Active" by simp_all
  show ?thesis
  proof (rule that)
    show "guarded ?fr (map (Pair (bn_container_ip net)) (port_forwards config)) True True True
        (r'\<lparr>run_rollback := (run_rollback r')\<lparr>rb_armed := True\<rparr>\<rparr>)"
      using g(1) by (simp add: res1 guarded_def beyond_def Let_def)
    show "net = \<lparr>bn_config = config, bn_container_ip = bn_container_ip net, bn_veth_host = veth_host_name pid,
       bn_container_id = i, bn_ip_forward = True, bn_state = Active\<rparr>"
      using g by (simp add: res1 guarded_def Let_def)
    show "map_of files name = map_of (run_files r) name" if "name \<noteq> i @ ''.ip''" for name
      using reserve_others[OF that] resv by (metis fst_conv)
  qed
qed


lemma teardown_restores:
  assumes "undo_works env" "fr_veth fr \<notin> veths (fr_log fr)"
    and "beyond fr (map (Pair (bn_container_ip net)) (port_forwards (bn_config net))) True True True r"
    and "bn_veth_host net = fr_veth fr" "subnet (bn_config net) = fr_subnet fr" "bn_ip_forward net"
  shows "\<exists>r'. teardown env net r = (r', Ok ())
    \<and> beyond (fr\<lparr>fr_files := release_allocated_ip_in_dir (bn_container_id net) (fr_files fr)\<rparr>) [] False False False r'"
proof -
  let ?fr = "fr\<lparr>fr_files := release_allocated_ip_in_dir (bn_container_id net) (fr_files fr)\<rparr>"
  let ?pfs = "map (Pair (bn_container_ip net)) (port_forwards (bn_config net))"
  have rel: "holds (beyond fr ?pfs True True True) (release_allocated_ip (bn_container_id net))
      (\<lambda>_. beyond ?fr ?pfs True True True) (\<lambda>_. False)"
    unfolding release_allocated_ip_def by (rule holds_modify) (simp add: beyond_def)
  have fw: "fr_veth ?fr \<notin> veths (fr_log ?fr)" using assms(2) by simp
  note mq = undo_masquerade[OF assms(1), of ?fr True True True, unfolded only_if_def, simplified]
  note vt = undo_veth[OF assms(1) fw, of True True, unfolded only_if_def, simplified]
  have fd: "holds (beyond ?fr [] False False True) (only_if (bn_ip_forward net) (attempt (release_ip_forward_ref env)))
      (\<lambda>_. beyond ?fr [] False False False) (\<lambda>_. False)"
    using undo_forward[OF assms(1), of ?fr True] assms(6) by simp
  have "holds (beyond fr ?pfs True True True) (teardown env net) (\<lambda>_. beyond ?fr [] False False False) (\<lambda>_. False)"
    unfolding teardown_def assms(4,5)
    by (rule holds_seq[OF rel], rule holds_seq[OF undo_cleanup_port_forwards[OF assms(1)]],
        rule holds_seq[OF mq], rule holds_seq[OF vt], rule fd)
  from holds_sure[OF this assms(3)] show ?thesis by simp
qed

text \<open>
  C8: cleaning up undoes the setup. When the commands that undo succeed, the cleanup of a network that was
  set up succeeds, the nat table, the interface pairs and the holders of the forwarding switch are as they were
  before the setup, the container's address is free again and no other container's has changed.
\<close>

theorem cleanup_undoes_setup:
  assumes "setup_for env pid config container_id r = (r1, Ok net)"
    and "be_torn env = id" "\<And>ip. output_rules_work env ip config"
    and "veth_host_name pid \<notin> veths (run_log r)" "forward_inv v n (run_forward r)"
    and "undo_works env'" "cleanup env' net r1 = (r2, res)"
  shows "res = Ok () \<and> nat_table M (run_log r2) = nat_table M (run_log r) \<and> veths (run_log r2) = veths (run_log r)
    \<and> forward_inv v n (run_forward r2)
    \<and> (\<forall>name. map_of (run_files r2) name =
         (if name = container_id @ ''.ip'' then None else map_of (run_files r) name))"
proof -
  from assms(1-3,5) obtain files where
    g: "guarded (setup_frame_of M v n pid config container_id files r)
        (map (Pair (bn_container_ip net)) (port_forwards config)) True True True
        (r1\<lparr>run_rollback := (run_rollback r1)\<lparr>rb_armed := True\<rparr>\<rparr>)"
    and net: "net = \<lparr>bn_config = config, bn_container_ip = bn_container_ip net, bn_veth_host = veth_host_name pid,
       bn_container_id = container_id, bn_ip_forward = True, bn_state = Active\<rparr>"
    and others: "\<And>name. name \<noteq> container_id @ ''.ip'' \<Longrightarrow> map_of files name = map_of (run_files r) name"
    by (rule setup_Ok[where M = M]) blast
  let ?fr = "setup_frame_of M v n pid config container_id files r"
  let ?net = "net\<lparr>bn_state := NetCleaned\<rparr>"
  have sel: "bn_config net = config" "bn_veth_host net = veth_host_name pid" "bn_container_id net = container_id"
    "bn_ip_forward net" "bn_state net = Active" by (subst net, simp)+
  have "beyond ?fr (map (Pair (bn_container_ip ?net)) (port_forwards (bn_config ?net))) True True True r1"
    using g by (simp add: guarded_def beyond_def Let_def sel)
  from teardown_restores[OF assms(6) _ this] obtain r' where r': "teardown env' ?net r1 = (r', Ok ())"
    "beyond (?fr\<lparr>fr_files := release_allocated_ip_in_dir container_id (fr_files ?fr)\<rparr>) [] False False False r'"
    using assms(4) by (auto simp: setup_frame_of_def sel)
  have "cleanup env' net r1 = (r', Ok ())"
    using r'(1) by (simp add: cleanup_def cleanup_best_effort_def transition_def sel seq_def give_def)
  with assms(7) r'(2) others show ?thesis by (auto simp: beyond_def setup_frame_of_def release_others)
qed


section \<open>Witnesses\<close>

definition demo_env :: "(net_event \<Rightarrow> bool) \<Rightarrow> bridge_env" where
  "demo_env refused =
     \<lparr>be_answer = (\<lambda>_ ev. if refused ev then Err (NetworkError ''refused'') else Ok ()), be_link_exists = (\<lambda>_. False),
      be_ticks = (\<lambda>_. 7), be_alloc_fails = (\<lambda>_. False), be_alloc_partial = [], be_addr_in_use = (\<lambda>_. Ok False),
      be_urandom = Ok [], be_acquire_fails = (\<lambda>_. False), be_release_fails = (\<lambda>_. False), be_torn = id\<rparr>"

definition demo_config :: bridge_config where
  "demo_config = default_bridge_config\<lparr>container_ip := Some ''10.0.42.9'',
     port_forwards := [\<lparr>host_ip = None, host_port = 80, container_port = 8080, pf_protocol = Tcp\<rparr>]\<rparr>"

definition demo_run :: bridge_run where
  "demo_run = \<lparr>run_log = [], run_files = [], run_forward = \<lparr>fw_sysctl = ''0'', fw_file = Missing\<rparr>,
     run_rollback = setup_rollback_new [] [] None\<rparr>"

lemma demo_config_sel:
  "subnet demo_config = ''10.0.42.0/24''" "bridge_name demo_config = ''nucleus0''" "container_ip demo_config = Some ''10.0.42.9''"
  "port_forwards demo_config = [\<lparr>host_ip = None, host_port = 80, container_port = 8080, pf_protocol = Tcp\<rparr>]"
  by (simp_all add: demo_config_def default_bridge_config_def)

lemma demo_parse:
  "parse_ipv4 ''10.0.42.9'' = Some (ipv4_of_octets 10 0 42 9)" "parse_ipv4 ''10.0.42.1'' = Some (ipv4_of_octets 10 0 42 1)"
  "parse_ipv4_cidr ''10.0.42.0/24'' = Ok (ipv4_of_octets 10 0 42 0, 24)"
  "gateway_from_subnet ''10.0.42.0/24'' = ''10.0.42.1''"
  by (simp_all add: parse_ipv4_def parse_octet_def parse_ipv4_cidr_def validate_ipv4_addr_def validate_octet_def
      gateway_from_subnet_def string_eval)

lemma demo_bridge_valid: "bridge_validate demo_config = Ok ()"
  by (simp add: demo_config_def bridge_validate_def default_bridge_config_def validate_ipv4_cidr_def validate_ipv4_addr_def
      validate_octet_def valid_bridge_name_char_def demo_parse string_eval)

lemma demo_reserve:
  "reserve_ip_in_dir (\<lambda>_. False) [] (\<lambda>_. Ok False) u i s (Some ''10.0.42.9'') [] = ([(i @ ''.ip'', ''10.0.42.9'')], Ok ''10.0.42.9'')"
  by (simp add: reserve_ip_in_dir_def record_allocated_ip_in_dir_def collect_reserved_ips_in_dir_def is_ip_in_use_def
      demo_parse reject_if_def)

lemma demo_acquire:
  "acquire_ip_forward_ref_in_dir (\<lambda>_. False) id \<lparr>fw_sysctl = ''0'', fw_file = Missing\<rparr>
     = (\<lparr>fw_sysctl = ''1'', fw_file = Saved \<lparr>refcount = 1, original_value = ''0''\<rparr>\<rparr>, Ok ())"
  by (simp add: acquire_ip_forward_ref_in_dir_def lock_ip_forward_def load_ip_forward_state_def
      read_ip_forward_value_def store_ip_forward_state_def write_ip_forward_value_def checked_add_def reject_if_def
      trim_def is_whitespace_def)

lemmas demo_eval = setup_for_def setup_body_def demo_bridge_valid demo_reserve demo_acquire demo_parse demo_config_sel action_eval
  emit_def acquire_ip_forward_ref_def set_rollback_def setup_rollback_new_def ensure_bridge_for_def gateway_addr_def
  setup_port_forward_for_def transition_def reject_if_def Let_def

lemma demo_run_sel: "run_log demo_run = []" "run_files demo_run = []"
  "run_forward demo_run = \<lparr>fw_sysctl = ''0'', fw_file = Missing\<rparr>"
  by (simp_all add: demo_run_def)

lemma demo_setup_fails:
  "\<exists>r' e. setup_for (demo_env (\<lambda>ev. case ev of NetnsRoute _ _ \<Rightarrow> True | _ \<Rightarrow> False)) 4660 demo_config ''c1'' demo_run = (r', Err e)"
  by (simp add: demo_eval demo_run_sel demo_env_def)


lemma demo_env_works:
  "(\<And>ev. undoes ev \<Longrightarrow> \<not> refused ev) \<Longrightarrow> undo_works (demo_env refused)"
  "(\<And>args. \<not> refused (Iptables args)) \<Longrightarrow> output_rules_work (demo_env refused) ip config"
  "be_torn (demo_env refused) = id"
  by (simp_all add: undo_works_def output_rules_work_def demo_env_def)

lemma demo_run_inv: "forward_inv ''0'' 0 (run_forward demo_run)" "x \<notin> veths (run_log demo_run)"
  by (simp_all add: demo_run_def forward_inv_def veths_def)


lemma demo_setup_succeeds:
  "\<exists>r' net. setup_for (demo_env (\<lambda>_. False)) 4660 demo_config ''c1'' demo_run = (r', Ok net)"
  by (simp add: demo_eval demo_run_sel demo_env_def)

theorem cleanup_undoes_setup_witness:
  "\<exists>r1 net r2. setup_for (demo_env (\<lambda>_. False)) 4660 demo_config ''c1'' demo_run = (r1, Ok net)
     \<and> cleanup (demo_env (\<lambda>_. False)) net r1 = (r2, Ok ()) \<and> nat_table {#} (run_log r2) = {#}"
proof -
  let ?env = "demo_env (\<lambda>_. False)"
  obtain r1 net where r1: "setup_for ?env 4660 demo_config ''c1'' demo_run = (r1, Ok net)"
    using demo_setup_succeeds by blast
  obtain r2 res where r2: "cleanup ?env net r1 = (r2, res)" by fastforce
  have "output_rules_work ?env ip demo_config" "undo_works ?env" for ip by (simp_all add: demo_env_works)
  from cleanup_undoes_setup[OF r1 demo_env_works(3) this(1) demo_run_inv(2) demo_run_inv(1) this(2) r2, of "{#}"]
  show ?thesis using r1 r2 by (auto simp: demo_run_sel)
qed

fun adds_output_rule :: "net_event \<Rightarrow> bool" where
  "adds_output_rule (Iptables (_ # _ # operation # chain # _)) = (operation = ''-A'' \<and> chain = ''OUTPUT'')"
| "adds_output_rule _ = False"

lemma adds_output_rule_args:
  "adds_output_rule (Iptables (masquerade operation sub)) = False"
  "adds_output_rule (Iptables (port_forward_rule_args operation chain ip pf)) = (operation = ''-A'' \<and> chain = ''OUTPUT'')"
  by (simp_all add: masquerade_def port_forward_rule_args_def)

text \<open>
  a port forward installs its PREROUTING rule before its OUTPUT rule, and the guard learns of the forward
  after both. When the OUTPUT rule is refused, the setup fails and the rollback leaves the PREROUTING
  rule in the nat table.
\<close>

theorem half_port_forward_survives_rollback:
  "\<exists>r' e. setup_for (demo_env adds_output_rule) 4660 demo_config ''c1'' demo_run = (r', Err e)
     \<and> nat_table {#} (run_log r')
       = {#pf_rule ''PREROUTING'' ''10.0.42.9'' \<lparr>host_ip = None, host_port = 80, container_port = 8080, pf_protocol = Tcp\<rparr>#}"
  by (simp add: demo_eval demo_run_sel adds_output_rule_args rollback_drop_def demo_env_def release_allocated_ip_def
      release_ip_forward_ref_def split: prod.splits)

end
