(* ===== verification/Workspace_Policy.thy ===== *)
theory Workspace_Policy
  imports Mount_Policy
begin

text \<open>
  Which host directory may be a workspace (\<^verbatim>\<open>src/src/filesystem/workspace.rs\<close>, the policy part). The
  deny list is that of bind mounts without the home directories.
\<close>

definition denied_workspace_sources_exact :: "string list" where
  "denied_workspace_sources_exact = [''/'']"

definition denied_workspace_source_prefixes :: "string list" where
  "denied_workspace_source_prefixes =
     [''/boot'', ''/dev'', ''/etc'', ''/proc'', ''/root'', ''/run'', ''/sys'', ''/var/log'', ''/var/run'']"

definition normalize_workspace_source_for_policy :: "path \<Rightarrow> path result" where
  "normalize_workspace_source_for_policy source =
     (if \<not> is_absolute source then Err (ConfigError ''Workspace source must be absolute: {:?}'')
      else Ok (foldl policy_step [RootDir] source))"

definition reject_denied_workspace_source :: "path \<Rightarrow> unit result" where
  "reject_denied_workspace_source source =
     and_then (for_each (\<lambda>denied. reject_if (source = path_new denied)
         (ConfigError ''Workspace source {} is a sensitive host path and cannot be mounted''))
       denied_workspace_sources_exact) (\<lambda>_.
     for_each (\<lambda>denied. reject_if (source = path_new denied \<or> starts_with source (path_new denied))
         (ConfigError ''Workspace source {} is under sensitive host path {} and cannot be mounted''))
       denied_workspace_source_prefixes)"

definition validate_workspace_host_path :: "(path \<Rightarrow> path option) \<Rightarrow> (path \<Rightarrow> bool) \<Rightarrow> path \<Rightarrow> path result" where
  "validate_workspace_host_path canonicalize is_dir source =
     and_then (normalize_workspace_source_for_policy source) (\<lambda>normalized.
     and_then (reject_denied_workspace_source normalized) (\<lambda>_.
     and_then (ok_or (canonicalize source) (ConfigError ''Failed to resolve workspace source {:?}: {}'')) (\<lambda>canonical.
     and_then (reject_denied_workspace_source canonical) (\<lambda>_.
     if \<not> is_dir canonical then Err (ConfigError ''Workspace source must be a directory: {}'') else Ok canonical))))"

lemma reject_denied_workspace_Ok:
  "reject_denied_workspace_source p = Ok () \<longleftrightarrow>
     p \<noteq> [RootDir] \<and> (\<forall>d\<in>set denied_workspace_source_prefixes. \<not> prefix (path_new d) p)"
proof -
  have "path_new ''/'' = [RootDir]" by (simp add: path_new_def split_on_def)
  then show ?thesis
    by (auto simp: reject_denied_workspace_source_def result_simps denied_workspace_sources_exact_def starts_with_def)
qed

lemma validate_workspace_Ok:
  "validate_workspace_host_path canonicalize is_dir s = Ok c \<longleftrightarrow>
     is_absolute s \<and> reject_denied_workspace_source (foldl policy_step [RootDir] s) = Ok ()
     \<and> canonicalize s = Some c \<and> reject_denied_workspace_source c = Ok () \<and> is_dir c"
  by (auto simp: validate_workspace_host_path_def normalize_workspace_source_for_policy_def result_simps split: if_splits)

end
