(* ===== verification/User_Map.thy ===== *)
theory User_Map
  imports Host_Actions
begin

text \<open>
  User namespaces: subordinate ranges, identity mappings and the files they are written to
  (\<^verbatim>\<open>src/src/isolation/usermap.rs\<close>).

  What the process asks of the host is the record \<open>user_host\<close>. Writing the maps is a sequence of
  events whose success the environment decides.
\<close>

section \<open>Subordinate ranges\<close>

record subid_range =
  sr_start :: u32
  sr_count :: u32

definition subid_range_end :: "subid_range \<Rightarrow> u32" where
  "subid_range_end self = saturating_add (sr_start self) (sr_count self)"

definition contains_host :: "subid_range \<Rightarrow> u32 \<Rightarrow> bool" where
  "contains_host self host_id \<longleftrightarrow> host_id \<ge> sr_start self \<and> host_id < subid_range_end self"

definition subid_line :: "string \<Rightarrow> string \<Rightarrow> subid_range option" where
  "subid_line by line =
     (case split_on CHR '':'' line of
        name # start # count # _ \<Rightarrow>
          if name = by \<and> name \<noteq> [] then
            (case (parse_word start, parse_word count) of
               (Some s, Some c) \<Rightarrow> if c > 0 then Some \<lparr>sr_start = s, sr_count = c\<rparr> else None
             | _ \<Rightarrow> None)
          else None
      | _ \<Rightarrow> None)"

definition subid_range_for :: "string option \<Rightarrow> string \<Rightarrow> u32 \<Rightarrow> subid_range option" where
  "subid_range_for contents username uid =
     (case contents of
        None \<Rightarrow> None
      | Some text \<Rightarrow> first_some (\<lambda>by. first_some (subid_line by) (lines text)) [username, show_word uid])"

section \<open>The current user namespace\<close>

fun uid_map_line :: "string list \<Rightarrow> (u32 \<times> u32 \<times> u32) option" where
  "uid_map_line (c # h # n # _) =
     (case (parse_word c, parse_word h, parse_word n) of
        (Some c, Some h, Some n) \<Rightarrow> Some (c, h, n)
      | _ \<Rightarrow> None)"
| "uid_map_line _ = None"

definition uid_map_entries :: "string \<Rightarrow> (u32 \<times> u32 \<times> u32) list" where
  "uid_map_entries contents = List.map_filter (\<lambda>l. uid_map_line (split_whitespace l)) (lines contents)"

definition current_userns_container_ranges :: "string option \<Rightarrow> (u32 \<times> u32) list option" where
  "current_userns_container_ranges uid_map =
     (case uid_map of
        None \<Rightarrow> None
      | Some contents \<Rightarrow>
          (let entries = uid_map_entries contents;
               ranges = map (\<lambda>(c, h, n). (c, n)) entries;
               identity_root = (\<exists>(c, h, n) \<in> set entries. c = 0 \<and> h = 0) in
           if identity_root \<and> length ranges = 1 then None
           else if ranges = [] then None else Some ranges))"

definition in_nontrivial_userns :: "string option \<Rightarrow> bool" where
  "in_nontrivial_userns uid_map \<longleftrightarrow> current_userns_container_ranges uid_map \<noteq> None"

definition uid_is_mapped_in_current_userns :: "string option \<Rightarrow> u32 \<Rightarrow> bool" where
  "uid_is_mapped_in_current_userns uid_map uid =
     (case current_userns_container_ranges uid_map of
        None \<Rightarrow> False
      | Some ranges \<Rightarrow> list_ex (\<lambda>(start, count). uid \<ge> start \<and> uid < saturating_add start count) ranges)"

section \<open>Mappings\<close>

record id_mapping =
  im_container_id :: u32
  im_host_id :: u32
  im_count :: u32

definition id_mapping_new :: "u32 \<Rightarrow> u32 \<Rightarrow> u32 \<Rightarrow> id_mapping" where
  "id_mapping_new container_id host_id count =
     \<lparr>im_container_id = container_id, im_host_id = host_id, im_count = count\<rparr>"

definition parse_map_triplet :: "string \<Rightarrow> id_mapping option" where
  "parse_map_triplet s =
     (case split_on CHR '':'' s of
        [c, h, n] \<Rightarrow>
          (case (parse_word (trim c), parse_word (trim h), parse_word (trim n)) of
             (Some c, Some h, Some n) \<Rightarrow> Some (id_mapping_new c h n)
           | _ \<Rightarrow> None)
      | _ \<Rightarrow> None)"

definition id_mapping_validate :: "bool \<Rightarrow> id_mapping \<Rightarrow> unit result" where
  "id_mapping_validate allow_host_root self =
     (if im_count self = 0 then Err (ConfigError ''ID mapping count must be non-zero'')
      else if im_count self > 65536 then Err (ConfigError ''ID mapping count {} exceeds maximum 65536'')
      else if checked_add (im_container_id self) (im_count self) = None
      then Err (ConfigError ''ID mapping overflow: container_id {} + count {} exceeds u32'')
      else if checked_add (im_host_id self) (im_count self) = None
      then Err (ConfigError ''ID mapping overflow: host_id {} + count {} exceeds u32'')
      else if \<not> allow_host_root \<and> im_host_id self = 0 \<and> im_count self > 0
      then Err (ConfigError ''ID mapping includes host UID/GID 0; use root-remapped mode if intentional'')
      else Ok ())"

definition id_mapping_rootless :: "u32 \<Rightarrow> id_mapping" where
  "id_mapping_rootless uid = id_mapping_new 0 uid 1"

definition id_mapping_format :: "id_mapping \<Rightarrow> string" where
  "id_mapping_format self =
     show_word (im_container_id self) @ '' '' @ show_word (im_host_id self) @ '' '' @ show_word (im_count self) @ [CHR 0x0A]"

section \<open>Configurations\<close>

record user_namespace_config =
  uid_mappings :: "id_mapping list"
  gid_mappings :: "id_mapping list"

record user_host =
  uh_uid :: u32
  uh_gid :: u32
  uh_euid_root :: bool
  uh_username :: "string option"
  uh_subuid :: "string option"
  uh_subgid :: "string option"

definition rootless :: "user_host \<Rightarrow> user_namespace_config" where
  "rootless h = \<lparr>uid_mappings = [id_mapping_new 0 (uh_uid h) 1], gid_mappings = [id_mapping_new 0 (uh_gid h) 1]\<rparr>"

definition current_subid_ranges :: "user_host \<Rightarrow> (string \<times> subid_range \<times> subid_range) result" where
  "current_subid_ranges h =
     (let uname = (case uh_username h of Some n \<Rightarrow> n | None \<Rightarrow> ''uid:'' @ show_word (uh_uid h)) in
      and_then (ok_or (subid_range_for (uh_subuid h) uname (uh_uid h))
         (ConfigError ''rootless subuid mode requires an entry for {} in /etc/subuid'')) (\<lambda>urange.
      and_then (ok_or (subid_range_for (uh_subgid h) uname (uh_uid h))
         (ConfigError ''rootless subuid mode requires an entry for {} in /etc/subgid'')) (\<lambda>grange.
      Ok (uname, urange, grange))))"

definition keep_id :: "user_host \<Rightarrow> user_namespace_config result" where
  "keep_id h =
     and_then (current_subid_ranges h) (\<lambda>(uname, urange, grange).
     Ok \<lparr>uid_mappings = [id_mapping_new 0 (sr_start urange) 1, id_mapping_new (uh_uid h) (uh_uid h) 1],
         gid_mappings = [id_mapping_new 0 (sr_start grange) 1, id_mapping_new (uh_gid h) (uh_gid h) 1]\<rparr>)"

text \<open>The line that is logged adds the start and the capped count of the range: where this overflows, a checked build panics.\<close>

definition subuid_auto :: "user_host \<Rightarrow> user_namespace_config result option" where
  "subuid_auto h =
     (case current_subid_ranges h of
        Inl e \<Rightarrow> Some (Err e)
      | Inr (uname, urange, grange) \<Rightarrow>
          (let ucount = min (sr_count urange) 65536; gcount = min (sr_count grange) 65536 in
           if checked_add (sr_start urange) ucount = None then None
           else Some (Ok \<lparr>uid_mappings = [id_mapping_new 0 (uh_uid h) 1, id_mapping_new 1 (sr_start urange) ucount],
                          gid_mappings = [id_mapping_new 0 (uh_gid h) 1, id_mapping_new 1 (sr_start grange) gcount]\<rparr>)))"

definition custom :: "user_host \<Rightarrow> id_mapping list \<Rightarrow> id_mapping list \<Rightarrow> user_namespace_config result" where
  "custom h uids gids =
     and_then (for_each (id_mapping_validate (uh_euid_root h)) uids) (\<lambda>_.
     and_then (for_each (id_mapping_validate (uh_euid_root h)) gids) (\<lambda>_.
     Ok \<lparr>uid_mappings = uids, gid_mappings = gids\<rparr>))"

definition parse_map_specs :: "string list \<Rightarrow> id_mapping list result" where
  "parse_map_specs = try_map (\<lambda>s. ok_or (parse_map_triplet s) (ConfigError ''Invalid {} mapping {}: expected container:host:size''))"

definition from_map_specs :: "user_host \<Rightarrow> string list \<Rightarrow> string list \<Rightarrow> user_namespace_config result" where
  "from_map_specs h uid_specs gid_specs =
     and_then (parse_map_specs uid_specs) (\<lambda>uids.
     and_then (parse_map_specs gid_specs) (\<lambda>gids.
     if uids = [] \<or> gids = [] then Err (ConfigError ''--uidmap/--gidmap require at least one mapping each'')
     else custom h uids gids))"

definition for_unprivileged_rootless :: "user_host \<Rightarrow> u32 option \<Rightarrow> user_namespace_config" where
  "for_unprivileged_rootless h workload_uid =
     (case workload_uid of
        None \<Rightarrow> rootless h
      | Some uid \<Rightarrow>
          if uid \<noteq> 0 then (case keep_id h of Inr c \<Rightarrow> c | Inl _ \<Rightarrow> rootless h) else rootless h)"

definition root_remapped :: user_namespace_config where
  "root_remapped = \<lparr>uid_mappings = [id_mapping_new 0 100000 65536], gid_mappings = [id_mapping_new 0 100000 65536]\<rparr>"

definition needs_setuid_helper :: "user_host \<Rightarrow> user_namespace_config \<Rightarrow> bool" where
  "needs_setuid_helper h self \<longleftrightarrow>
     \<not> (uid_mappings self = [id_mapping_new 0 (uh_uid h) 1] \<and> gid_mappings self = [id_mapping_new 0 (uh_gid h) 1])"

section \<open>Writing the maps\<close>

datatype map_event =
    WriteProc u32 string string
  | RunHelper string "string list"

type_synonym map_action = "(map_event list, unit) action"

definition perform :: "(map_event list \<Rightarrow> map_event \<Rightarrow> unit result) \<Rightarrow> map_event \<Rightarrow> map_action" where
  "perform answer ev log =
     (case answer log ev of Inl e \<Rightarrow> (log, Err e) | Inr _ \<Rightarrow> (log @ [ev], Ok ()))"

definition can_self_map_current_process :: "user_host \<Rightarrow> user_namespace_config \<Rightarrow> bool" where
  "can_self_map_current_process h config \<longleftrightarrow>
     length (uid_mappings config) = 1 \<and> length (gid_mappings config) = 1
     \<and> uid_mappings config ! 0 = id_mapping_new 0 (uh_uid h) 1 \<and> gid_mappings config ! 0 = id_mapping_new 0 (uh_gid h) 1"

definition should_deny_setgroups :: "user_namespace_config \<Rightarrow> bool" where
  "should_deny_setgroups config \<longleftrightarrow> length (gid_mappings config) = 1 \<and> im_count (gid_mappings config ! 0) = 1"

definition write_setgroups_deny :: "(map_event list \<Rightarrow> map_event \<Rightarrow> unit result) \<Rightarrow> u32 \<Rightarrow> map_action" where
  "write_setgroups_deny answer pid = perform answer (WriteProc pid ''setgroups'' (''deny'' @ [CHR 0x0A]))"

definition write_uid_map :: "(map_event list \<Rightarrow> map_event \<Rightarrow> unit result) \<Rightarrow> user_namespace_config \<Rightarrow> u32 \<Rightarrow> map_action" where
  "write_uid_map answer config pid =
     perform answer (WriteProc pid ''uid_map'' (concat (map id_mapping_format (uid_mappings config))))"

definition write_gid_map :: "(map_event list \<Rightarrow> map_event \<Rightarrow> unit result) \<Rightarrow> user_namespace_config \<Rightarrow> u32 \<Rightarrow> map_action" where
  "write_gid_map answer config pid =
     perform answer (WriteProc pid ''gid_map'' (concat (map id_mapping_format (gid_mappings config))))"

definition map_args :: "id_mapping list \<Rightarrow> string list" where
  "map_args ms = concat (map (\<lambda>m. [show_word (im_container_id m), show_word (im_host_id m), show_word (im_count m)]) ms)"

text \<open>Finding and running a helper is one event: both fail with an error of their own.\<close>

definition write_mappings_via_setuid_helper ::
  "(map_event list \<Rightarrow> map_event \<Rightarrow> unit result) \<Rightarrow> user_namespace_config \<Rightarrow> u32 \<Rightarrow> map_action" where
  "write_mappings_via_setuid_helper answer config pid =
     seq (perform answer (RunHelper ''newgidmap'' (show_word pid # map_args (gid_mappings config)))) (\<lambda>_.
     perform answer (RunHelper ''newuidmap'' (show_word pid # map_args (uid_mappings config))))"

definition write_mappings_for_pid ::
  "(map_event list \<Rightarrow> map_event \<Rightarrow> unit result) \<Rightarrow> user_host \<Rightarrow> user_namespace_config \<Rightarrow> u32 \<Rightarrow> map_action" where
  "write_mappings_for_pid answer h config pid =
     (if \<not> uh_euid_root h \<and> needs_setuid_helper h config then write_mappings_via_setuid_helper answer config pid
      else
        seq (only_if (should_deny_setgroups config) (write_setgroups_deny answer pid)) (\<lambda>_.
        seq (write_uid_map answer config pid) (\<lambda>_.
        write_gid_map answer config pid)))"

definition setup_mappings ::
  "(map_event list \<Rightarrow> map_event \<Rightarrow> unit result) \<Rightarrow> user_host \<Rightarrow> user_namespace_config \<Rightarrow> u32 \<Rightarrow> map_action" where
  "setup_mappings answer h config own_pid =
     (if \<not> can_self_map_current_process h config
      then give (Err (NamespaceError ''This user namespace mapping must be written from a process outside the new user namespace''))
      else write_mappings_for_pid answer h config own_pid)"


section \<open>Reading back what was written\<close>

lemma uid_map_entries_format:
  "uid_map_entries (concat (map id_mapping_format ms))
     = map (\<lambda>m. (im_container_id m, im_host_id m, im_count m)) ms"
proof (induction ms)
  case Nil
  then show ?case by (simp add: uid_map_entries_def lines_def split_on_def map_filter_def)
next
  case (Cons m ms)
  let ?l = "join '' '' [show_word (im_container_id m), show_word (im_host_id m), show_word (im_count m)]"
  have fmt: "id_mapping_format m = ?l @ [CHR 0x0A]" by (simp add: id_mapping_format_def)
  have ws: "split_whitespace ?l = [show_word (im_container_id m), show_word (im_host_id m), show_word (im_count m)]"
    by (rule split_whitespace_join) (use show_word_word in auto)
  have "is_ascii_digit c \<or> c = CHR '' ''" if "c \<in> set ?l" for c using that show_word_chars by auto
  then have "CHR 0x0A \<notin> set ?l" "CHR 0x0D \<notin> set ?l" by (fastforce simp: is_ascii_digit_def)+
  from lines_Cons[OF this] have "lines (concat (map id_mapping_format (m # ms))) = ?l # lines (concat (map id_mapping_format ms))"
    by (simp add: fmt)
  with Cons ws show ?case by (simp add: uid_map_entries_def map_filter_simps del: join.simps)
qed

text \<open>
  what is written to the uid map is read back exactly. In a namespace with the map of a
  configuration, other than a single mapping of host root, an identity counts as mapped exactly when
  one of the configured ranges holds it.
\<close>

theorem written_map_reads_back:
  assumes "ms \<noteq> []" "\<not> (\<exists>n. ms = [id_mapping_new 0 0 n])"
  shows "uid_is_mapped_in_current_userns (Some (concat (map id_mapping_format ms))) uid
    \<longleftrightarrow> (\<exists>m \<in> set ms. im_container_id m \<le> uid \<and> uid < saturating_add (im_container_id m) (im_count m))"
proof -
  let ?es = "map (\<lambda>m. (im_container_id m, im_host_id m, im_count m)) ms"
  have "\<not> ((\<exists>(c, h, n) \<in> set ?es. c = 0 \<and> h = 0) \<and> length ms = 1)"
  proof
    assume "(\<exists>(c, h, n) \<in> set ?es. c = 0 \<and> h = 0) \<and> length ms = 1"
    then obtain m where "ms = [m]" "im_container_id m = 0" "im_host_id m = 0"
      by (auto simp: length_Suc_conv)
    then have "ms = [id_mapping_new 0 0 (im_count m)]" by (cases m) (simp add: id_mapping_new_def)
    with assms(2) show False by blast
  qed
  with assms(1) show ?thesis
    by (auto simp: uid_is_mapped_in_current_userns_def current_userns_container_ranges_def Let_def
        uid_map_entries_format list_ex_iff)
qed

theorem written_map_reads_back_witness:
  "uid_is_mapped_in_current_userns (Some (concat (map id_mapping_format [id_mapping_new 0 100000 65536]))) 999
   \<and> \<not> uid_is_mapped_in_current_userns (Some (concat (map id_mapping_format [id_mapping_new 0 100000 65536]))) 70000"
proof -
  let ?ms = "[id_mapping_new 0 100000 65536]"
  have "\<not> (\<exists>n. ?ms = [id_mapping_new 0 0 n])" by (simp add: id_mapping_new_def)
  from written_map_reads_back[OF _ this, of 999] written_map_reads_back[OF _ this, of 70000]
  show ?thesis by (simp add: id_mapping_new_def saturating_add_def)
qed

section \<open>Validated mappings\<close>

text \<open>The identity on the host that a mapping gives to an identity in the container.\<close>

definition host_of :: "id_mapping \<Rightarrow> nat \<Rightarrow> nat option" where
  "host_of m c =
     (if unat (im_container_id m) \<le> c \<and> c < unat (im_container_id m) + unat (im_count m)
      then Some (unat (im_host_id m) + (c - unat (im_container_id m))) else None)"

lemma checked_add_None: "checked_add a b = None \<longleftrightarrow> unat a + unat (b :: 'a::len word) \<ge> 2 ^ LENGTH('a)"
  by (simp add: checked_add_def not_less)

lemma id_mapping_validate_Ok:
  "id_mapping_validate root m = Ok () \<longleftrightarrow>
     im_count m \<noteq> 0 \<and> im_count m \<le> 65536
     \<and> unat (im_container_id m) + unat (im_count m) < 2 ^ 32 \<and> unat (im_host_id m) + unat (im_count m) < 2 ^ 32
     \<and> (root \<or> im_host_id m \<noteq> 0)"
  by (auto simp: id_mapping_validate_def checked_add_None not_le word_gt_0)

lemma custom_Ok:
  "custom h us gs = Ok c \<longleftrightarrow> c = \<lparr>uid_mappings = us, gid_mappings = gs\<rparr>
     \<and> (\<forall>m \<in> set us \<union> set gs. id_mapping_validate (uh_euid_root h) m = Ok ())"
  by (auto simp: custom_def result_simps)

lemma map_specs_safe:
  assumes "from_map_specs h uid_specs gid_specs = Ok config"
  shows "uid_mappings config \<noteq> [] \<and> gid_mappings config \<noteq> []
    \<and> (\<forall>m \<in> set (uid_mappings config) \<union> set (gid_mappings config).
         1 \<le> unat (im_count m) \<and> unat (im_count m) \<le> 65536
         \<and> (\<forall>c x. host_of m c = Some x \<longrightarrow> c < 2 ^ 32 \<and> x < 2 ^ 32 \<and> (uh_euid_root h \<or> x \<noteq> 0)))"
proof -
  from assms obtain us gs where c: "us \<noteq> []" "gs \<noteq> []" "custom h us gs = Ok config"
    by (auto simp: from_map_specs_def result_simps split: if_splits)
  then have conf: "config = \<lparr>uid_mappings = us, gid_mappings = gs\<rparr>"
    and val: "\<And>m. m \<in> set us \<union> set gs \<Longrightarrow> id_mapping_validate (uh_euid_root h) m = Ok ()"
    by (auto simp: custom_Ok)
  have "1 \<le> unat (im_count m) \<and> unat (im_count m) \<le> 65536
      \<and> (\<forall>c x. host_of m c = Some x \<longrightarrow> c < 2 ^ 32 \<and> x < 2 ^ 32 \<and> (uh_euid_root h \<or> x \<noteq> 0))"
    if "m \<in> set us \<union> set gs" for m
  proof -
    note v = val[OF that, unfolded id_mapping_validate_Ok]
    have "c < 2 ^ 32 \<and> x < 2 ^ 32 \<and> (uh_euid_root h \<or> x \<noteq> 0)" if "host_of m c = Some x" for c x
    proof -
      from that have "unat (im_host_id m) \<le> x" "x < unat (im_host_id m) + unat (im_count m)"
        "c < unat (im_container_id m) + unat (im_count m)" by (auto simp: host_of_def split: if_splits)
      with v show ?thesis using unat_eq_0[of "im_host_id m"] by linarith
    qed
    with v show ?thesis by (auto simp: word_le_nat_alt Suc_le_eq unat_gt_0)
  qed
  with c conf show ?thesis by simp
qed

text \<open>
  mappings given on the command line are safe once accepted. There is at least one for users and one
  for groups, each maps between one and 65536 identities to as many on the host without leaving 32 bits, and
  unless the caller is root no identity of the container is root on the host.
\<close>

theorem accepted_maps_safe:
  assumes "from_map_specs h uid_specs gid_specs = Ok config"
  shows "uid_mappings config \<noteq> [] \<and> gid_mappings config \<noteq> []
    \<and> (\<forall>m \<in> set (uid_mappings config) \<union> set (gid_mappings config).
         1 \<le> unat (im_count m) \<and> unat (im_count m) \<le> 65536
         \<and> (\<forall>c x. host_of m c = Some x \<longrightarrow> c < 2 ^ 32 \<and> x < 2 ^ 32 \<and> (uh_euid_root h \<or> x \<noteq> 0)))"
  by (rule map_specs_safe[OF assms])


lemma demo_triplet: "parse_map_triplet ''0:100000:65536'' = Some (id_mapping_new 0 100000 65536)"
  by (simp add: parse_map_triplet_def trim_def string_eval)

definition demo_host :: user_host where
  "demo_host = \<lparr>uh_uid = 1000, uh_gid = 100, uh_euid_root = False, uh_username = Some ''dev'',
     uh_subuid = Some ''dev:100000:65536'', uh_subgid = Some ''dev:200000:65536''\<rparr>"

theorem accepted_maps_safe_witness:
  "\<exists>config. from_map_specs demo_host [''0:100000:65536''] [''0:100000:65536''] = Ok config
     \<and> (\<forall>m \<in> set (uid_mappings config). host_of m 0 \<noteq> Some 0)"
proof -
  have "from_map_specs demo_host [''0:100000:65536''] [''0:100000:65536'']
      = Ok \<lparr>uid_mappings = [id_mapping_new 0 100000 65536], gid_mappings = [id_mapping_new 0 100000 65536]\<rparr>"
    by (simp add: from_map_specs_def parse_map_specs_def demo_triplet custom_def id_mapping_validate_def demo_host_def
        id_mapping_new_def checked_add_def)
  from accepted_maps_safe[OF this] this show ?thesis by (fastforce simp: demo_host_def)
qed

section \<open>Who writes the maps, and in which order\<close>

lemma perform_Ok: "perform answer ev log = (log', Ok ()) \<longleftrightarrow> answer log ev = Ok () \<and> log' = log @ [ev]"
  by (auto simp: perform_def split: sum.splits)

lemma unit_result: "(r :: unit result) = Ok () \<or> (\<exists>e. r = Err e)"
  by (cases r) auto

text \<open>
  an unprivileged process writes a map itself only for the trivial mapping, and then only after it
  denied \<^verbatim>\<open>setgroups\<close>; every other mapping goes to the helpers. When the writing succeeds, the whole
  configuration was written, groups as well as users.
\<close>

theorem maps_written_in_order:
  assumes "write_mappings_for_pid answer h config pid [] = (log, Ok ())" "\<not> uh_euid_root h"
  shows "if config = rootless h
    then log = [WriteProc pid ''setgroups'' (''deny'' @ [CHR 0x0A]),
                WriteProc pid ''uid_map'' (concat (map id_mapping_format (uid_mappings config))),
                WriteProc pid ''gid_map'' (concat (map id_mapping_format (gid_mappings config)))]
    else log = [RunHelper ''newgidmap'' (show_word pid # map_args (gid_mappings config)),
                RunHelper ''newuidmap'' (show_word pid # map_args (uid_mappings config))]"
proof -
  have needs: "needs_setuid_helper h config \<longleftrightarrow> config \<noteq> rootless h"
    by (cases config) (simp add: needs_setuid_helper_def rootless_def)
  have deny: "should_deny_setgroups (rootless h)" by (simp add: should_deny_setgroups_def rootless_def id_mapping_new_def)
  show ?thesis
    using assms needs deny
    by (auto simp: write_mappings_for_pid_def write_mappings_via_setuid_helper_def write_setgroups_deny_def
        write_uid_map_def write_gid_map_def seq_def only_if_def perform_def split: if_splits sum.splits prod.splits)
qed

theorem maps_written_in_order_witness:
  "\<exists>log. write_mappings_for_pid (\<lambda>_ _. Ok ()) demo_host (rootless demo_host) 7 [] = (log, Ok ())
     \<and> hd log = WriteProc 7 ''setgroups'' (''deny'' @ [CHR 0x0A])"
proof -
  obtain log r where log: "write_mappings_for_pid (\<lambda>_ _. Ok ()) demo_host (rootless demo_host) 7 [] = (log, r)"
    by fastforce
  then have "r = Ok ()"
    by (auto simp: write_mappings_for_pid_def write_mappings_via_setuid_helper_def write_setgroups_deny_def
        write_uid_map_def write_gid_map_def seq_def only_if_def perform_def give_def split: if_splits)
  with log maps_written_in_order[of "\<lambda>_ _. Ok ()" demo_host "rootless demo_host" 7 log] show ?thesis
    by (auto simp: demo_host_def)
qed

section \<open>Lookup of a delegated range\<close>

lemma first_some_Some: "first_some f xs = Some y \<longleftrightarrow> (\<exists>ys x zs. xs = ys @ x # zs \<and> f x = Some y \<and> (\<forall>u \<in> set ys. f u = None))"
proof (induction xs)
  case (Cons a xs)
  show ?case
  proof (cases "f a")
    case None
    with Cons show ?thesis
      by (auto simp: Cons_eq_append_conv) (metis append_Cons set_ConsD)+
  next
    case (Some b)
    then show ?thesis by (fastforce simp: Cons_eq_append_conv)
  qed
qed simp

lemma first_some_None: "first_some f xs = None \<longleftrightarrow> (\<forall>x \<in> set xs. f x = None)"
  by (induction xs) (auto split: option.splits)

text \<open>
  a delegated range is looked up by login name before numeric id. The range found is non-empty and
  stands in a line under one of the two names; it stands under the numeric id only when no line under the login
  name gives a range.
\<close>

theorem subid_lookup_order:
  assumes "subid_range_for (Some text) username uid = Some r"
  shows "sr_count r > 0
    \<and> ((\<exists>l \<in> set (lines text). subid_line username l = Some r)
       \<or> (\<forall>l \<in> set (lines text). subid_line username l = None)
         \<and> (\<exists>l \<in> set (lines text). subid_line (show_word uid) l = Some r))"
proof -
  have pos: "sr_count r > 0" if "subid_line by l = Some r" for l "by"
    using that by (auto simp: subid_line_def split: list.splits if_splits option.splits)
  show ?thesis using assms pos
    by (auto simp: subid_range_for_def first_some_Some first_some_None split: option.splits)
qed

theorem subid_lookup_order_witness:
  "subid_range_for (uh_subuid demo_host) ''dev'' 1000 = Some \<lparr>sr_start = 100000, sr_count = 65536\<rparr>
   \<and> 0 < sr_count \<lparr>sr_start = 100000, sr_count = 65536\<rparr>"
proof -
  have "subid_range_for (Some ''dev:100000:65536'') ''dev'' 1000 = Some \<lparr>sr_start = 100000, sr_count = 65536\<rparr>"
    by (simp add: subid_range_for_def lines_def subid_line_def string_eval)
  from subid_lookup_order[OF this] this show ?thesis by (simp add: demo_host_def)
qed

end
