(* ===== verification/Namespaces.thy ===== *)
theory Namespaces
  imports User_Map Lifecycle
begin

text \<open>
  Creation of the namespaces of a container (\<^verbatim>\<open>src/src/isolation/namespaces.rs\<close>): the configuration, its clone
  flags, and the manager with its state machine. System calls are events whose success the
  environment decides; the events of writing identity maps are those of \<^verbatim>\<open>User_Map\<close>.
\<close>

unbundle bit_operations_syntax

record namespace_config =
  ns_pid :: bool
  ns_mnt :: bool
  ns_net :: bool
  ns_uts :: bool
  ns_ipc :: bool
  ns_cgroup :: bool
  ns_user :: bool
  ns_time :: bool

definition namespace_config_all :: namespace_config where
  "namespace_config_all = \<lparr>ns_pid = True, ns_mnt = True, ns_net = True, ns_uts = True, ns_ipc = True, ns_cgroup = True,
     ns_user = False, ns_time = False\<rparr>"

definition namespace_config_minimal :: namespace_config where
  "namespace_config_minimal = \<lparr>ns_pid = True, ns_mnt = True, ns_net = True, ns_uts = True, ns_ipc = True,
     ns_cgroup = True, ns_user = False, ns_time = False\<rparr>"

definition with_cgroup_namespace :: "bool \<Rightarrow> namespace_config \<Rightarrow> namespace_config" where
  "with_cgroup_namespace enabled self = self\<lparr>ns_cgroup := enabled\<rparr>"

definition with_time_namespace :: "bool \<Rightarrow> namespace_config \<Rightarrow> namespace_config" where
  "with_time_namespace enabled self = self\<lparr>ns_time := enabled\<rparr>"

text \<open>The flags of the kernel, by the bit that each one is.\<close>

definition namespace_bits :: "namespace_config \<Rightarrow> (bool \<times> nat) list" where
  "namespace_bits self =
     [(ns_pid self, 29), (ns_mnt self, 17), (ns_net self, 30), (ns_uts self, 26), (ns_ipc self, 27),
      (ns_cgroup self, 25), (ns_user self, 28), (ns_time self, 7)]"

definition to_clone_flags :: "namespace_config \<Rightarrow> u32" where
  "to_clone_flags self = fold (\<lambda>(on, b) flags. if on then flags OR push_bit b 1 else flags) (namespace_bits self) 0"

datatype ns_event =
    Unshare u32
  | MountPrivateRoot
  | MapEvent map_event
  | SetHostname string

type_synonym ns_answer = "ns_event list \<Rightarrow> ns_event \<Rightarrow> unit result"

record namespace_manager =
  nm_config :: namespace_config
  nm_state :: namespace_state
  nm_user_mapper :: "user_namespace_config option"
  nm_log :: "ns_event list"

definition namespace_manager_new :: "namespace_config \<Rightarrow> namespace_manager" where
  "namespace_manager_new config =
     \<lparr>nm_config = config, nm_state = Uninitialized, nm_user_mapper = None, nm_log = []\<rparr>"

definition with_user_mapping :: "user_namespace_config \<Rightarrow> namespace_manager \<Rightarrow> namespace_manager" where
  "with_user_mapping user_config self = self\<lparr>nm_user_mapper := Some user_config\<rparr>"

definition ns_perform :: "ns_answer \<Rightarrow> ns_event \<Rightarrow> (namespace_manager, unit) action" where
  "ns_perform answer ev self =
     (case answer (nm_log self) ev of
        Inl e \<Rightarrow> (self, Err e)
      | Inr _ \<Rightarrow> (self\<lparr>nm_log := nm_log self @ [ev]\<rparr>, Ok ()))"

definition ns_setup_mappings :: "ns_answer \<Rightarrow> user_host \<Rightarrow> u32 \<Rightarrow> user_namespace_config \<Rightarrow> (namespace_manager, unit) action" where
  "ns_setup_mappings answer h own_pid config self =
     (case setup_mappings (\<lambda>log ev. answer (nm_log self @ map MapEvent log) (MapEvent ev)) h config own_pid [] of
        (log, r) \<Rightarrow> (self\<lparr>nm_log := nm_log self @ map MapEvent log\<rparr>, r))"

definition set_state :: "namespace_state \<Rightarrow> (namespace_manager, unit) action" where
  "set_state next self =
     (case transition namespace_can_transition_to namespace_debug (nm_state self) next of
        Inl e \<Rightarrow> (self, Err e)
      | Inr s \<Rightarrow> (self\<lparr>nm_state := s\<rparr>, Ok ()))"

definition unshare_namespaces :: "ns_answer \<Rightarrow> user_host \<Rightarrow> u32 \<Rightarrow> (namespace_manager, unit) action" where
  "unshare_namespaces answer h own_pid self =
     (if nm_state self \<noteq> Uninitialized then (self, Ok ())
      else
        seq (ns_perform answer (Unshare (to_clone_flags (nm_config self)))) (\<lambda>_.
        seq (only_if (ns_mnt (nm_config self)) (ns_perform answer MountPrivateRoot)) (\<lambda>_.
        seq (if ns_user (nm_config self) then
               (case nm_user_mapper self of
                  Some mapper \<Rightarrow> ns_setup_mappings answer h own_pid mapper
                | None \<Rightarrow> give (Ok ()))
             else give (Ok ())) (\<lambda>_.
        set_state Unshared))) self)"

definition is_unshared :: "namespace_manager \<Rightarrow> bool" where
  "is_unshared self \<longleftrightarrow> nm_state self \<noteq> Uninitialized"

definition ns_enter :: "(namespace_manager, unit) action" where
  "ns_enter = set_state Entered"

definition set_hostname :: "ns_answer \<Rightarrow> string \<Rightarrow> (namespace_manager, unit) action" where
  "set_hostname answer hostname self =
     (if \<not> ns_uts (nm_config self) then (self, Ok ()) else ns_perform answer (SetHostname hostname) self)"

section \<open>Flags\<close>

text \<open>
  the flags given to the kernel ask for exactly the configured namespaces: a bit is set exactly when it
  is the flag of a namespace that the configuration enables.
\<close>

theorem clone_flags_exact:
  "bit (to_clone_flags config) n \<longleftrightarrow>
     n = 29 \<and> ns_pid config \<or> n = 17 \<and> ns_mnt config \<or> n = 30 \<and> ns_net config \<or> n = 26 \<and> ns_uts config
     \<or> n = 27 \<and> ns_ipc config \<or> n = 25 \<and> ns_cgroup config \<or> n = 28 \<and> ns_user config \<or> n = 7 \<and> ns_time config"
proof -
  have one: "bit (push_bit b (1 :: u32)) n \<longleftrightarrow> n = b" if "b < 32" for b
    using that by (auto simp: bit_simps)
  have step: "bit (if on then w OR push_bit b 1 else w) n \<longleftrightarrow> bit w n \<or> on \<and> n = b" if "b < 32" for on b and w :: u32
    using one[OF that] by (auto simp: bit_or_iff)
  show ?thesis
    by (auto simp: to_clone_flags_def namespace_bits_def step simp del: push_bit_of_1)
qed

section \<open>Creation\<close>

lemma setup_mappings_Ok:
  assumes "setup_mappings answer h config pid [] = (log, Ok ())"
  shows "config = rootless h
    \<and> log = [WriteProc pid ''setgroups'' (''deny'' @ [CHR 0x0A]),
             WriteProc pid ''uid_map'' (id_mapping_format (id_mapping_new 0 (uh_uid h) 1)),
             WriteProc pid ''gid_map'' (id_mapping_format (id_mapping_new 0 (uh_gid h) 1))]"
proof -
  have self: "can_self_map_current_process h config \<longleftrightarrow> config = rootless h"
    by (cases config) (auto simp: can_self_map_current_process_def rootless_def length_Suc_conv)
  with assms have c: "config = rootless h" by (auto simp: setup_mappings_def give_def split: if_splits)
  have "\<not> needs_setuid_helper h (rootless h)" "should_deny_setgroups (rootless h)"
    by (simp_all add: needs_setuid_helper_def should_deny_setgroups_def rootless_def id_mapping_new_def)
  with assms c self show ?thesis
    by (auto simp: setup_mappings_def write_mappings_for_pid_def write_setgroups_deny_def write_uid_map_def
        write_gid_map_def seq_def only_if_def perform_def rootless_def split: sum.splits prod.splits)
qed

text \<open>
  the manager calls its namespaces created only when everything was done. Starting from a new
  manager, success means that the flags of the configuration were unshared, then the mount tree made
  private when there is a mount namespace, then, with a user namespace and a mapping, \<^verbatim>\<open>setgroups\<close> denied and
  the caller mapped to root, in this order and nothing else. After an error the manager is still uninitialized.
\<close>

theorem unshare_complete:
  assumes "nm_state m = Uninitialized" "nm_log m = []" "unshare_namespaces answer h pid m = (m', r)"
  shows "case r of
      Inl e \<Rightarrow> \<not> is_unshared m'
    | Inr _ \<Rightarrow> nm_state m' = Unshared \<and> nm_config m' = nm_config m
        \<and> nm_log m' = Unshare (to_clone_flags (nm_config m))
            # (if ns_mnt (nm_config m) then [MountPrivateRoot] else [])
            @ (if ns_user (nm_config m) \<and> nm_user_mapper m \<noteq> None
               then [MapEvent (WriteProc pid ''setgroups'' (''deny'' @ [CHR 0x0A])),
                     MapEvent (WriteProc pid ''uid_map'' (id_mapping_format (id_mapping_new 0 (uh_uid h) 1))),
                     MapEvent (WriteProc pid ''gid_map'' (id_mapping_format (id_mapping_new 0 (uh_gid h) 1)))]
               else [])"
proof -
  have "nm_state m = Uninitialized \<Longrightarrow> transition namespace_can_transition_to namespace_debug (nm_state m) Unshared = Ok Unshared"
    by (simp add: transition_def)
  moreover have maps: "log = [WriteProc pid ''setgroups'' (''deny'' @ [CHR 0x0A]),
      WriteProc pid ''uid_map'' (id_mapping_format (id_mapping_new 0 (uh_uid h) 1)),
      WriteProc pid ''gid_map'' (id_mapping_format (id_mapping_new 0 (uh_gid h) 1))]"
    if "setup_mappings a h config pid [] = (log, u)" "Ok () = u" for a config log u
    using setup_mappings_Ok[of a h config pid log] that by auto
  ultimately show ?thesis
    using assms unfolding unshare_namespaces_def
    by (auto simp: seq_def ns_perform_def only_if_def give_def set_state_def is_unshared_def ns_setup_mappings_def
        split: if_splits sum.splits prod.splits option.splits dest: maps)
qed

theorem unshare_complete_witness:
  "\<exists>m'. unshare_namespaces (\<lambda>_ _. Ok ()) demo_host 7 (namespace_manager_new namespace_config_all) = (m', Ok ())
     \<and> nm_log m' = [Unshare 0x6E020000, MountPrivateRoot]"
proof -
  let ?m = "namespace_manager_new namespace_config_all"
  obtain m' r where m': "unshare_namespaces (\<lambda>_ _. Ok ()) demo_host 7 ?m = (m', r)" by fastforce
  then have r: "r = Ok ()"
    by (auto simp: unshare_namespaces_def namespace_manager_new_def namespace_config_all_def seq_def ns_perform_def
        only_if_def give_def set_state_def transition_def)
  have flags: "to_clone_flags namespace_config_all = 0x6E020000"
    by (simp add: to_clone_flags_def namespace_bits_def namespace_config_all_def)
  from unshare_complete[OF _ _ m'] r m' show ?thesis
    by (simp add: namespace_manager_new_def flags) (simp add: namespace_config_all_def)
qed

end
