(* ===== verification/Container_Config.thy ===== *)
theory Container_Config
  imports Workspace_Policy Namespaces Seccomp_Profile Resource_Limits Egress Container_State
begin

text \<open>
  The configuration of a container and its validation (\<^verbatim>\<open>src/src/container/config.rs\<close>): the
  struct, its builders, and the checks of production, of strict agents and of the runtime.

  Files of the host that a check asks for are the record \<open>config_host\<close>. The two bytes sources of a new
  configuration are arguments.
\<close>

section \<open>Data\<close>

datatype trust_level = Trusted | Untrusted

datatype service_mode = Agent | StrictAgent | Production

fun service_mode_label :: "service_mode \<Rightarrow> string" where
  "service_mode_label Agent = ''Agent mode''"
| "service_mode_label StrictAgent = ''Strict agent mode''"
| "service_mode_label Production = ''Production mode''"

definition enforces_strict_isolation :: "service_mode \<Rightarrow> bool" where
  "enforces_strict_isolation self \<longleftrightarrow> self = StrictAgent \<or> self = Production"

definition requires_user_namespace_mapping :: "service_mode \<Rightarrow> bool" where
  "requires_user_namespace_mapping self = enforces_strict_isolation self"

definition requires_cgroup_enforcement :: "service_mode \<Rightarrow> bool" where
  "requires_cgroup_enforcement self = enforces_strict_isolation self"

definition requires_explicit_bridge_dns :: "service_mode \<Rightarrow> bool" where
  "requires_explicit_bridge_dns self = enforces_strict_isolation self"

datatype runtime_selection = RuntimeGVisor | RuntimeNative

datatype kernel_lockdown_mode = Integrity | Confidentiality

fun lockdown_as_str :: "kernel_lockdown_mode \<Rightarrow> string" where
  "lockdown_as_str Integrity = ''integrity''"
| "lockdown_as_str Confidentiality = ''confidentiality''"

fun lockdown_accepts :: "kernel_lockdown_mode \<Rightarrow> kernel_lockdown_mode \<Rightarrow> bool" where
  "lockdown_accepts Integrity active = (active = Integrity \<or> active = Confidentiality)"
| "lockdown_accepts Confidentiality active = (active = Confidentiality)"

record health_check =
  hc_command :: "string list"
  hc_interval :: nat
  hc_retries :: u32
  hc_start_period :: nat
  hc_timeout :: nat

definition default_health_check :: health_check where
  "default_health_check = \<lparr>hc_command = [], hc_interval = 30, hc_retries = 3, hc_start_period = 5, hc_timeout = 5\<rparr>"

record secret_mount =
  sec_source :: path
  sec_dest :: path
  sec_mode :: u32

record provider_config_mount =
  pc_source :: path
  pc_dest :: path
  pc_read_only :: bool

record process_identity =
  pi_uid :: u32
  pi_gid :: u32
  pi_additional_gids :: "u32 list"

definition root_identity :: process_identity where
  "root_identity = \<lparr>pi_uid = 0, pi_gid = 0, pi_additional_gids = []\<rparr>"

definition is_root_identity :: "process_identity \<Rightarrow> bool" where
  "is_root_identity self \<longleftrightarrow> pi_uid self = 0 \<and> pi_gid self = 0 \<and> pi_additional_gids self = []"

record console_size =
  cz_width :: u16
  cz_height :: u16

definition default_console_size :: console_size where
  "default_console_size = \<lparr>cz_width = 80, cz_height = 24\<rparr>"

text \<open>The size that the terminal reports, when it answers, and the two variables of the environment.\<close>

definition console_from_fd :: "(u16 \<times> u16) option \<Rightarrow> console_size option" where
  "console_from_fd winsize =
     (case winsize of
        Some (col, row) \<Rightarrow> if col > 0 \<and> row > 0 then Some \<lparr>cz_width = col, cz_height = row\<rparr> else None
      | None \<Rightarrow> None)"

definition console_from_env :: "string option \<Rightarrow> string option \<Rightarrow> console_size option" where
  "console_from_env columns lines_var =
     Option.bind (Option.bind columns parse_word) (\<lambda>width.
     Option.bind (Option.bind lines_var parse_word) (\<lambda>height.
     if width > 0 \<and> height > 0 then Some \<lparr>cz_width = width, cz_height = height\<rparr> else None))"

definition console_detect :: "(u16 \<times> u16) option \<Rightarrow> string option \<Rightarrow> string option \<Rightarrow> console_size" where
  "console_detect winsize columns lines_var =
     (case console_from_fd winsize of
        Some s \<Rightarrow> s
      | None \<Rightarrow> (case console_from_env columns lines_var of Some s \<Rightarrow> s | None \<Rightarrow> default_console_size))"

datatype volume_source = BindVolume path | TmpfsVolume "string option"

record volume_mount =
  vm_source :: volume_source
  vm_dest :: path
  vm_read_only :: bool

record rootfs_overlay_config =
  ro_upperdir :: path
  ro_workdir :: path

datatype workspace_mode = BindRw | BindRo | CopyInOut

record workspace_config =
  ws_host_path :: "path option"
  ws_container_path :: path
  ws_mode :: workspace_mode
  ws_allow_execute :: bool
  ws_staging_path :: "path option"

definition default_workspace_config :: workspace_config where
  "default_workspace_config =
     \<lparr>ws_host_path = None, ws_container_path = path_new ''/workspace'', ws_mode = BindRw, ws_allow_execute = False,
      ws_staging_path = None\<rparr>"

definition with_host_path :: "path \<Rightarrow> workspace_config \<Rightarrow> workspace_config" where
  "with_host_path v self = self\<lparr>ws_host_path := Some v\<rparr>"

definition with_workspace_mode :: "workspace_mode \<Rightarrow> workspace_config \<Rightarrow> workspace_config" where
  "with_workspace_mode v self = self\<lparr>ws_mode := v\<rparr>"

definition with_allow_execute :: "bool \<Rightarrow> workspace_config \<Rightarrow> workspace_config" where
  "with_allow_execute v self = self\<lparr>ws_allow_execute := v\<rparr>"

definition with_staging_path :: "path \<Rightarrow> workspace_config \<Rightarrow> workspace_config" where
  "with_staging_path v self = self\<lparr>ws_staging_path := Some v\<rparr>"

definition workspace_is_read_only :: "workspace_config \<Rightarrow> bool" where
  "workspace_is_read_only self \<longleftrightarrow> ws_mode self = BindRo"

definition workspace_is_writable :: "workspace_config \<Rightarrow> bool" where
  "workspace_is_writable self \<longleftrightarrow> \<not> workspace_is_read_only self"

definition effective_host_path :: "workspace_config \<Rightarrow> path option" where
  "effective_host_path self = (if ws_mode self = CopyInOut then ws_staging_path self else ws_host_path self)"

datatype readiness_probe = ProbeExec "string list" | ProbeTcpPort u16 | ProbeSdNotify

datatype gpu_vendor = GpuAuto | GpuNvidia | GpuAmd | GpuIntel | GpuAll

definition includes_nvidia :: "gpu_vendor \<Rightarrow> bool" where
  "includes_nvidia self \<longleftrightarrow> self = GpuAuto \<or> self = GpuNvidia \<or> self = GpuAll"

definition includes_amd :: "gpu_vendor \<Rightarrow> bool" where
  "includes_amd self \<longleftrightarrow> self = GpuAuto \<or> self = GpuAmd \<or> self = GpuAll"

definition includes_intel :: "gpu_vendor \<Rightarrow> bool" where
  "includes_intel self \<longleftrightarrow> self = GpuAuto \<or> self = GpuIntel \<or> self = GpuAll"

record gpu_passthrough_config =
  gpu_vendor_of :: gpu_vendor
  gpu_devices :: "path list"
  gpu_driver_capabilities :: string
  gpu_visible_devices :: string
  gpu_bind_driver_libraries :: bool

definition default_gpu_passthrough_config :: gpu_passthrough_config where
  "default_gpu_passthrough_config =
     \<lparr>gpu_vendor_of = GpuAuto, gpu_devices = [], gpu_driver_capabilities = ''compute,utility'',
      gpu_visible_devices = ''all'', gpu_bind_driver_libraries = True\<rparr>"

definition gpu_environment :: "gpu_passthrough_config \<Rightarrow> (string \<times> string) list" where
  "gpu_environment gpu =
     [(''NVIDIA_VISIBLE_DEVICES'', gpu_visible_devices gpu), (''NVIDIA_DRIVER_CAPABILITIES'', gpu_driver_capabilities gpu)]
     @ (if includes_nvidia (gpu_vendor_of gpu)
        then [(''__EGL_VENDOR_LIBRARY_FILENAMES'', ''/usr/share/glvnd/egl_vendor.d/10_nvidia.json'')] else [])"

datatype seccomp_mode = Enforce | Trace

datatype context_mode = ContextCopy | ContextBindMount

datatype gvisor_platform = Systrap | Kvm | Ptrace

record oci_hook =
  hook_path :: string
  hook_args :: "string list"
  hook_env :: "string list"
  hook_timeout :: "u32 option"

record oci_hooks =
  create_runtime :: "oci_hook list"
  create_container :: "oci_hook list"
  start_container :: "oci_hook list"
  poststart :: "oci_hook list"
  poststop :: "oci_hook list"

section \<open>The configuration\<close>

record container_config =
  cc_id :: string
  cc_name :: string
  cc_command :: "string list"
  cc_context_dir :: "path option"
  cc_limits :: resource_limits
  cc_namespaces :: namespace_config
  cc_user_ns_config :: "user_namespace_config option"
  cc_hostname :: "string option"
  cc_use_gvisor :: bool
  cc_trust_level :: trust_level
  cc_network :: network_mode
  cc_context_mode :: context_mode
  cc_allow_degraded_security :: bool
  cc_allow_chroot_fallback :: bool
  cc_allow_host_network :: bool
  cc_proc_readonly :: bool
  cc_service_mode :: service_mode
  cc_rootfs_path :: "path option"
  cc_rootfs_mode :: rootfs_mode
  cc_rootfs_overlay :: "rootfs_overlay_config option"
  cc_egress_policy :: "egress_policy option"
  cc_credential_broker :: "credential_broker_config option"
  cc_credential_broker_token :: string
  cc_health_check :: "health_check option"
  cc_readiness_probe :: "readiness_probe option"
  cc_secrets :: "secret_mount list"
  cc_volumes :: "volume_mount list"
  cc_workspace :: workspace_config
  cc_home :: path
  cc_provider_configs :: "provider_config_mount list"
  cc_workdir :: path
  cc_environment :: "(string \<times> string) list"
  cc_derived_environment :: "(string \<times> string) list"
  cc_process_identity :: process_identity
  cc_config_hash :: "u64 option"
  cc_sd_notify :: bool
  cc_required_kernel_lockdown :: "kernel_lockdown_mode option"
  cc_verify_context_integrity :: bool
  cc_verify_rootfs_attestation :: bool
  cc_seccomp_log_denied :: bool
  cc_gvisor_platform :: gvisor_platform
  cc_seccomp_profile :: "path option"
  cc_seccomp_profile_sha256 :: "string option"
  cc_seccomp_mode :: seccomp_mode
  cc_seccomp_trace_log :: "path option"
  cc_seccomp_allow_syscalls :: "string list"
  cc_caps_policy :: "path option"
  cc_caps_policy_sha256 :: "string option"
  cc_landlock_policy :: "path option"
  cc_landlock_policy_sha256 :: "string option"
  cc_hooks :: "oci_hooks option"
  cc_pid_file :: "path option"
  cc_console_socket :: "path option"
  cc_terminal :: bool
  cc_console_size :: console_size
  cc_bundle_dir :: "path option"
  cc_state_root :: "path option"
  cc_gpu :: "gpu_passthrough_config option"

definition hex_encode :: "u8 list \<Rightarrow> string" where
  "hex_encode bytes = concat (map (\<lambda>b. [hex_digit (unat b div 16), hex_digit (unat b mod 16)]) bytes)"

text \<open>The sixteen bytes that the random device gives, or the error of opening or reading it.\<close>

definition generate_container_id :: "u8 list result \<Rightarrow> string result" where
  "generate_container_id urandom = and_then urandom (\<lambda>buf. Ok (hex_encode buf))"

definition default_config :: "string \<Rightarrow> string \<Rightarrow> string \<Rightarrow> string list \<Rightarrow> container_config" where
  "default_config i token n command =
     \<lparr>cc_id = i, cc_name = n, cc_command = command, cc_context_dir = None, cc_limits = default_limits,
      cc_namespaces = namespace_config_all, cc_user_ns_config = None, cc_hostname = Some n, cc_use_gvisor =
      True, cc_trust_level = Untrusted, cc_network = NoNetwork, cc_context_mode = ContextCopy,
      cc_allow_degraded_security = False, cc_allow_chroot_fallback = False, cc_allow_host_network = False,
      cc_proc_readonly = True, cc_service_mode = Agent, cc_rootfs_path = None, cc_rootfs_mode = Bind,
      cc_rootfs_overlay = None, cc_egress_policy = None, cc_credential_broker = None,
      cc_credential_broker_token = token, cc_health_check = None, cc_readiness_probe = None, cc_secrets = [],
      cc_volumes = [], cc_workspace = default_workspace_config, cc_home = path_new ''/home/agent'',
      cc_provider_configs = [], cc_workdir = path_new ''/workspace'', cc_environment = [],
      cc_derived_environment = [], cc_process_identity = root_identity, cc_config_hash = None, cc_sd_notify =
      False, cc_required_kernel_lockdown = None, cc_verify_context_integrity = False,
      cc_verify_rootfs_attestation = False, cc_seccomp_log_denied = False, cc_gvisor_platform = Systrap,
      cc_seccomp_profile = None, cc_seccomp_profile_sha256 = None, cc_seccomp_mode = Enforce,
      cc_seccomp_trace_log = None, cc_seccomp_allow_syscalls = [], cc_caps_policy = None,
      cc_caps_policy_sha256 = None, cc_landlock_policy = None, cc_landlock_policy_sha256 = None, cc_hooks =
      None, cc_pid_file = None, cc_console_socket = None, cc_terminal = False, cc_console_size =
      default_console_size, cc_bundle_dir = None, cc_state_root = None, cc_gpu = None\<rparr>"

definition try_new_with_id ::
  "u8 list result \<Rightarrow> u8 list result \<Rightarrow> string option \<Rightarrow> string option \<Rightarrow> string list \<Rightarrow> container_config result" where
  "try_new_with_id urandom urandom' preset_id name command =
     and_then (case preset_id of
         Some i \<Rightarrow>
           if length i \<noteq> 32 \<or> \<not> list_all is_ascii_hexdigit i
           then Err (ConfigError ''Invalid preset container ID {}: must be 32 hex characters'') else Ok i
       | None \<Rightarrow> generate_container_id urandom) (\<lambda>i.
     and_then (generate_container_id urandom') (\<lambda>token.
     Ok (default_config i token (case name of Some n \<Rightarrow> n | None \<Rightarrow> i) command)))"

definition try_new :: "u8 list result \<Rightarrow> u8 list result \<Rightarrow> string option \<Rightarrow> string list \<Rightarrow> container_config result" where
  "try_new urandom urandom' name command = try_new_with_id urandom urandom' None name command"


section \<open>Builders\<close>

definition is_credential_broker_identity_env :: "string \<Rightarrow> bool" where
  "is_credential_broker_identity_env key \<longleftrightarrow> key = ''NUCLEUS_CONTAINER_ID'' \<or> key = ''NUCLEUS_CREDENTIAL_BROKER_TOKEN''"

definition with_rootless :: "user_host \<Rightarrow> container_config \<Rightarrow> container_config" where
  "with_rootless h self =
     self\<lparr>cc_namespaces := (cc_namespaces self)\<lparr>ns_user := True\<rparr>, cc_user_ns_config := Some (rootless h)\<rparr>"

definition with_user_namespace :: "user_namespace_config \<Rightarrow> container_config \<Rightarrow> container_config" where
  "with_user_namespace config self =
     self\<lparr>cc_namespaces := (cc_namespaces self)\<lparr>ns_user := True\<rparr>, cc_user_ns_config := Some config\<rparr>"

definition with_context :: "path \<Rightarrow> container_config \<Rightarrow> container_config" where
  "with_context v self = self\<lparr>cc_context_dir := Some v\<rparr>"

definition with_limits :: "resource_limits \<Rightarrow> container_config \<Rightarrow> container_config" where
  "with_limits v self = self\<lparr>cc_limits := v\<rparr>"

definition with_namespaces :: "namespace_config \<Rightarrow> container_config \<Rightarrow> container_config" where
  "with_namespaces v self = self\<lparr>cc_namespaces := v\<rparr>"

definition with_hostname :: "string option \<Rightarrow> container_config \<Rightarrow> container_config" where
  "with_hostname v self = self\<lparr>cc_hostname := v\<rparr>"

definition with_gvisor :: "bool \<Rightarrow> container_config \<Rightarrow> container_config" where
  "with_gvisor v self = self\<lparr>cc_use_gvisor := v\<rparr>"

definition with_trust_level :: "trust_level \<Rightarrow> container_config \<Rightarrow> container_config" where
  "with_trust_level v self = self\<lparr>cc_trust_level := v\<rparr>"

definition with_oci_bundle :: "container_config \<Rightarrow> container_config" where
  "with_oci_bundle self = self\<lparr>cc_use_gvisor := True\<rparr>"

definition with_network :: "network_mode \<Rightarrow> container_config \<Rightarrow> container_config" where
  "with_network v self = self\<lparr>cc_network := v\<rparr>"

definition with_context_mode :: "context_mode \<Rightarrow> container_config \<Rightarrow> container_config" where
  "with_context_mode v self = self\<lparr>cc_context_mode := v\<rparr>"

definition with_allow_degraded_security :: "bool \<Rightarrow> container_config \<Rightarrow> container_config" where
  "with_allow_degraded_security v self = self\<lparr>cc_allow_degraded_security := v\<rparr>"

definition with_allow_chroot_fallback :: "bool \<Rightarrow> container_config \<Rightarrow> container_config" where
  "with_allow_chroot_fallback v self = self\<lparr>cc_allow_chroot_fallback := v\<rparr>"

definition with_allow_host_network :: "bool \<Rightarrow> container_config \<Rightarrow> container_config" where
  "with_allow_host_network v self = self\<lparr>cc_allow_host_network := v\<rparr>"

definition with_proc_readonly :: "bool \<Rightarrow> container_config \<Rightarrow> container_config" where
  "with_proc_readonly v self = self\<lparr>cc_proc_readonly := v\<rparr>"

definition with_service_mode :: "service_mode \<Rightarrow> container_config \<Rightarrow> container_config" where
  "with_service_mode v self = self\<lparr>cc_service_mode := v\<rparr>"

definition with_rootfs_path :: "path \<Rightarrow> container_config \<Rightarrow> container_config" where
  "with_rootfs_path v self = self\<lparr>cc_rootfs_path := Some v\<rparr>"

definition with_rootfs_mode :: "rootfs_mode \<Rightarrow> container_config \<Rightarrow> container_config" where
  "with_rootfs_mode v self = self\<lparr>cc_rootfs_mode := v\<rparr>"

definition with_rootfs_overlay :: "path \<Rightarrow> path \<Rightarrow> container_config \<Rightarrow> container_config" where
  "with_rootfs_overlay upperdir workdir self = self\<lparr>cc_rootfs_overlay := Some \<lparr>ro_upperdir = upperdir, ro_workdir = workdir\<rparr>\<rparr>"

definition with_egress_policy :: "egress_policy \<Rightarrow> container_config \<Rightarrow> container_config" where
  "with_egress_policy v self = self\<lparr>cc_egress_policy := Some v\<rparr>"

definition upsert_derived_env :: "string \<Rightarrow> string \<Rightarrow> container_config \<Rightarrow> container_config" where
  "upsert_derived_env key value self =
     self\<lparr>cc_derived_environment := filter (\<lambda>e. fst e \<noteq> key) (cc_derived_environment self) @ [(key, value)]\<rparr>"

definition with_credential_broker_identity_env :: "container_config \<Rightarrow> container_config" where
  "with_credential_broker_identity_env self =
     (if cc_credential_broker self \<noteq> None then
        upsert_derived_env ''NUCLEUS_CREDENTIAL_BROKER_TOKEN'' (cc_credential_broker_token self)
          (upsert_derived_env ''NUCLEUS_CONTAINER_ID'' (cc_id self)
            (self\<lparr>cc_environment := filter (\<lambda>e. \<not> is_credential_broker_identity_env (fst e)) (cc_environment self)\<rparr>))
      else self)"

definition with_credential_broker :: "credential_broker_config \<Rightarrow> container_config \<Rightarrow> container_config" where
  "with_credential_broker broker self = with_credential_broker_identity_env (self\<lparr>cc_credential_broker := Some broker\<rparr>)"

definition with_health_check :: "health_check \<Rightarrow> container_config \<Rightarrow> container_config" where
  "with_health_check v self = self\<lparr>cc_health_check := Some v\<rparr>"

definition with_readiness_probe :: "readiness_probe \<Rightarrow> container_config \<Rightarrow> container_config" where
  "with_readiness_probe v self = self\<lparr>cc_readiness_probe := Some v\<rparr>"

definition with_secret :: "secret_mount \<Rightarrow> container_config \<Rightarrow> container_config" where
  "with_secret v self = self\<lparr>cc_secrets := cc_secrets self @ [v]\<rparr>"

definition with_volume :: "volume_mount \<Rightarrow> container_config \<Rightarrow> container_config" where
  "with_volume v self = self\<lparr>cc_volumes := cc_volumes self @ [v]\<rparr>"

definition with_workspace :: "workspace_config \<Rightarrow> container_config \<Rightarrow> container_config" where
  "with_workspace v self = self\<lparr>cc_workspace := v\<rparr>"

definition with_home :: "path \<Rightarrow> container_config \<Rightarrow> container_config" where
  "with_home v self = self\<lparr>cc_home := v\<rparr>"

definition with_provider_config :: "provider_config_mount \<Rightarrow> container_config \<Rightarrow> container_config" where
  "with_provider_config v self = self\<lparr>cc_provider_configs := cc_provider_configs self @ [v]\<rparr>"

definition with_workdir :: "path \<Rightarrow> container_config \<Rightarrow> container_config" where
  "with_workdir v self = self\<lparr>cc_workdir := v\<rparr>"

definition credential_broker_owns_env :: "container_config \<Rightarrow> string \<Rightarrow> bool" where
  "credential_broker_owns_env self key \<longleftrightarrow> cc_credential_broker self \<noteq> None \<and> is_credential_broker_identity_env key"

definition with_env :: "string \<Rightarrow> string \<Rightarrow> container_config \<Rightarrow> container_config" where
  "with_env key value self =
     (if credential_broker_owns_env self key then self
      else self\<lparr>cc_environment := cc_environment self @ [(key, value)]\<rparr>)"

definition with_derived_env :: "string \<Rightarrow> string \<Rightarrow> container_config \<Rightarrow> container_config" where
  "with_derived_env key value self = self\<lparr>cc_derived_environment := cc_derived_environment self @ [(key, value)]\<rparr>"

definition with_process_identity :: "process_identity \<Rightarrow> container_config \<Rightarrow> container_config" where
  "with_process_identity v self = self\<lparr>cc_process_identity := v\<rparr>"

definition with_config_hash :: "u64 \<Rightarrow> container_config \<Rightarrow> container_config" where
  "with_config_hash v self = self\<lparr>cc_config_hash := Some v\<rparr>"

definition with_sd_notify :: "bool \<Rightarrow> container_config \<Rightarrow> container_config" where
  "with_sd_notify v self = self\<lparr>cc_sd_notify := v\<rparr>"

definition with_required_kernel_lockdown :: "kernel_lockdown_mode \<Rightarrow> container_config \<Rightarrow> container_config" where
  "with_required_kernel_lockdown v self = self\<lparr>cc_required_kernel_lockdown := Some v\<rparr>"

definition with_verify_context_integrity :: "bool \<Rightarrow> container_config \<Rightarrow> container_config" where
  "with_verify_context_integrity v self = self\<lparr>cc_verify_context_integrity := v\<rparr>"

definition with_verify_rootfs_attestation :: "bool \<Rightarrow> container_config \<Rightarrow> container_config" where
  "with_verify_rootfs_attestation v self = self\<lparr>cc_verify_rootfs_attestation := v\<rparr>"

definition with_seccomp_log_denied :: "bool \<Rightarrow> container_config \<Rightarrow> container_config" where
  "with_seccomp_log_denied v self = self\<lparr>cc_seccomp_log_denied := v\<rparr>"

definition with_gvisor_platform :: "gvisor_platform \<Rightarrow> container_config \<Rightarrow> container_config" where
  "with_gvisor_platform v self = self\<lparr>cc_gvisor_platform := v\<rparr>"

definition with_seccomp_profile :: "path \<Rightarrow> container_config \<Rightarrow> container_config" where
  "with_seccomp_profile v self = self\<lparr>cc_seccomp_profile := Some v\<rparr>"

definition with_seccomp_profile_sha256 :: "string \<Rightarrow> container_config \<Rightarrow> container_config" where
  "with_seccomp_profile_sha256 v self = self\<lparr>cc_seccomp_profile_sha256 := Some v\<rparr>"

definition with_seccomp_mode :: "seccomp_mode \<Rightarrow> container_config \<Rightarrow> container_config" where
  "with_seccomp_mode v self = self\<lparr>cc_seccomp_mode := v\<rparr>"

definition with_seccomp_trace_log :: "path \<Rightarrow> container_config \<Rightarrow> container_config" where
  "with_seccomp_trace_log v self = self\<lparr>cc_seccomp_trace_log := Some v\<rparr>"

definition with_seccomp_allow_syscalls :: "string list \<Rightarrow> container_config \<Rightarrow> container_config" where
  "with_seccomp_allow_syscalls v self = self\<lparr>cc_seccomp_allow_syscalls := v\<rparr>"

definition with_caps_policy :: "path \<Rightarrow> container_config \<Rightarrow> container_config" where
  "with_caps_policy v self = self\<lparr>cc_caps_policy := Some v\<rparr>"

definition with_caps_policy_sha256 :: "string \<Rightarrow> container_config \<Rightarrow> container_config" where
  "with_caps_policy_sha256 v self = self\<lparr>cc_caps_policy_sha256 := Some v\<rparr>"

definition with_landlock_policy :: "path \<Rightarrow> container_config \<Rightarrow> container_config" where
  "with_landlock_policy v self = self\<lparr>cc_landlock_policy := Some v\<rparr>"

definition with_landlock_policy_sha256 :: "string \<Rightarrow> container_config \<Rightarrow> container_config" where
  "with_landlock_policy_sha256 v self = self\<lparr>cc_landlock_policy_sha256 := Some v\<rparr>"

definition with_pid_file :: "path \<Rightarrow> container_config \<Rightarrow> container_config" where
  "with_pid_file v self = self\<lparr>cc_pid_file := Some v\<rparr>"

definition with_console_socket :: "path \<Rightarrow> container_config \<Rightarrow> container_config" where
  "with_console_socket p self = self\<lparr>cc_console_socket := Some p, cc_terminal := True\<rparr>"

definition with_terminal :: "console_size \<Rightarrow> container_config \<Rightarrow> container_config" where
  "with_terminal dims self = self\<lparr>cc_terminal := True, cc_console_size := dims\<rparr>"

definition with_bundle_dir :: "path \<Rightarrow> container_config \<Rightarrow> container_config" where
  "with_bundle_dir v self = self\<lparr>cc_bundle_dir := Some v\<rparr>"

definition with_state_root :: "path \<Rightarrow> container_config \<Rightarrow> container_config" where
  "with_state_root v self = self\<lparr>cc_state_root := Some v\<rparr>"

definition with_gpu :: "gpu_passthrough_config \<Rightarrow> container_config \<Rightarrow> container_config" where
  "with_gpu v self = self\<lparr>cc_gpu := Some v\<rparr>"

end
