(* ===== verification/Config_Validation.thy ===== *)
theory Config_Validation
  imports Container_Config Topology_Config
begin

text \<open>
  The validation of a container configuration (\<^verbatim>\<open>src/src/container/config.rs\<close>): the credential broker,
  the isolation that strict agents and production need, the support of the chosen runtime and host
  names (container names are in \<^verbatim>\<open>Topology_Config\<close>). The properties say what a configuration that passed has, and compose the broker check
  with the enforcement of the egress policy.
\<close>

section \<open>Checks\<close>

text \<open>What a check asks of the file system of the host.\<close>

record config_host =
  ch_canonicalize :: "path \<Rightarrow> path option"
  ch_is_dir :: "path \<Rightarrow> bool"
  ch_exists :: "path \<Rightarrow> bool"
  ch_metadata :: "path \<Rightarrow> (bool \<times> bool) option"

definition validate_credential_broker :: "container_config \<Rightarrow> unit result" where
  "validate_credential_broker self =
     (case cc_credential_broker self of
        None \<Rightarrow> Ok ()
      | Some broker \<Rightarrow>
          (case cc_network self of
             Bridge bridge_config \<Rightarrow>
               and_then (reject_if (nat_backend bridge_config = Userspace)
                   (ConfigError ''Credential broker egress requires the kernel NAT backend'')) (\<lambda>_.
               and_then (map_err ConfigError (validate_for_bridge broker bridge_config)) (\<lambda>_.
               (case cc_egress_policy self of
                  None \<Rightarrow> Err (ConfigError ''Credential broker egress requires a broker-only egress policy'')
                | Some policy \<Rightarrow> reject_if (\<not> is_credential_broker_only policy broker)
                    (ConfigError ''Credential broker egress must allow only the broker IP/port and must deny DNS''))))
           | _ \<Rightarrow> Err (ConfigError ''Credential broker egress requires --network bridge'')))"

definition validate_fail_closed_isolation :: "container_config \<Rightarrow> unit result" where
  "validate_fail_closed_isolation self =
     (let mode = service_mode_label (cc_service_mode self) in
      and_then (reject_if (cc_allow_degraded_security self)
        (ConfigError (mode @ '' forbids --allow-degraded-security''))) (\<lambda>_.
      and_then (reject_if (cc_allow_chroot_fallback self)
        (ConfigError (mode @ '' forbids --allow-chroot-fallback''))) (\<lambda>_.
      and_then (reject_if (cc_network self = Host)
        (ConfigError (mode @ '' forbids native host network mode''))) (\<lambda>_.
      and_then
        (if cc_network self = GVisorHost then
           and_then (reject_if (\<not> cc_use_gvisor self)
             (ConfigError (mode @ '' requires --runtime gvisor for --network gvisor-host''))) (\<lambda>_.
           and_then (reject_if (\<not> cc_allow_host_network self)
             (ConfigError (mode @ '' requires --allow-host-network for --network gvisor-host''))) (\<lambda>_.
           reject_if (cc_egress_policy self \<noteq> None)
             (ConfigError (mode @ '' cannot enforce egress policy with --network gvisor-host''))))
         else reject_if (cc_allow_host_network self)
           (ConfigError (mode @ '' permits --allow-host-network only with --network gvisor-host''))) (\<lambda>_.
      and_then (reject_if (cc_seccomp_mode self = Trace)
        (ConfigError (mode @ '' forbids --seccomp-mode trace''))) (\<lambda>_.
      if cc_seccomp_allow_syscalls self \<noteq> [] then
        validate_extra_syscalls_for_production (cc_network self \<noteq> NoNetwork) (cc_seccomp_allow_syscalls self)
      else Ok ()))))))"

definition validate_strict_agent_mode :: "container_config \<Rightarrow> unit result" where
  "validate_strict_agent_mode self =
     (if cc_service_mode self \<noteq> StrictAgent then Ok ()
      else and_then (validate_fail_closed_isolation self) (\<lambda>_.
        reject_if (\<not> has_cgroup_control (cc_limits self))
          (ConfigError ''Strict agent mode requires at least one cgroup control'')))"

definition validate_production_mode :: "config_host \<Rightarrow> container_config \<Rightarrow> unit result" where
  "validate_production_mode h self =
     (if cc_service_mode self \<noteq> Production then Ok ()
      else and_then (validate_fail_closed_isolation self) (\<lambda>_.
        and_then (reject_if (cc_gpu self \<noteq> None)
          (ConfigError ''Production mode forbids --gpu host device passthrough'')) (\<lambda>_.
        and_then (reject_if (ws_allow_execute (cc_workspace self) \<and> workspace_is_writable (cc_workspace self))
          (ConfigError ''Production mode forbids writable executable workspaces'')) (\<lambda>_.
        case cc_rootfs_path self of
          None \<Rightarrow> Err (ConfigError ''Production mode requires explicit --rootfs path (no host bind mounts)'')
        | Some rootfs_path \<Rightarrow>
            and_then (reject_if (cc_rootfs_mode self = Overlay)
              (ConfigError ''Production mode does not yet support --rootfs-mode overlay'')) (\<lambda>_.
            and_then (reject_if (cc_caps_policy self \<noteq> None \<and> cc_caps_policy_sha256 self = None)
              (ConfigError ''Production mode requires --caps-policy-sha256 when using --caps-policy'')) (\<lambda>_.
            and_then (reject_if (cc_landlock_policy self \<noteq> None \<and> cc_landlock_policy_sha256 self = None)
              (ConfigError ''Production mode requires --landlock-policy-sha256 when using --landlock-policy'')) (\<lambda>_.
            and_then (reject_if (cc_seccomp_profile self \<noteq> None \<and> cc_seccomp_profile_sha256 self = None)
              (ConfigError ''Production mode requires --seccomp-profile-sha256 when using --seccomp-profile'')) (\<lambda>_.
            and_then (reject_if (memory_bytes (cc_limits self) = None)
              (ConfigError ''Production mode requires explicit --memory limit'')) (\<lambda>_.
            and_then (reject_if (cpu_quota_us (cc_limits self) = None)
              (ConfigError ''Production mode requires explicit --cpus limit'')) (\<lambda>_.
            and_then (reject_if (\<not> cc_verify_rootfs_attestation self)
              (ConfigError ''Production mode requires --verify-rootfs-attestation'')) (\<lambda>_.
            and_then (validate_production_rootfs_path (ch_canonicalize h) (ch_is_dir h) rootfs_path)
              (\<lambda>_. Ok ()))))))))))))"

definition id_is_mapped :: "u32 \<Rightarrow> id_mapping list \<Rightarrow> bool" where
  "id_is_mapped i mappings \<longleftrightarrow>
     list_ex (\<lambda>m. i \<ge> im_container_id m \<and> i < saturating_add (im_container_id m) (im_count m)) mappings"

definition validate_process_identity :: "container_config \<Rightarrow> unit result" where
  "validate_process_identity self =
     (case cc_user_ns_config self of
        None \<Rightarrow> Ok ()
      | Some user_ns_config \<Rightarrow>
          and_then (reject_if (pi_additional_gids (cc_process_identity self) \<noteq> [])
            (ConfigError ''Supplementary groups are currently unsupported with user namespaces'')) (\<lambda>_.
          and_then (reject_if (\<not> id_is_mapped (pi_uid (cc_process_identity self)) (uid_mappings user_ns_config))
            (ConfigError ''Process uid {} is not mapped in the configured user namespace'')) (\<lambda>_.
          reject_if (\<not> id_is_mapped (pi_gid (cc_process_identity self)) (gid_mappings user_ns_config))
            (ConfigError ''Process gid {} is not mapped in the configured user namespace''))))"

definition validate_config_volume :: "config_host \<Rightarrow> path \<Rightarrow> path \<Rightarrow> volume_mount \<Rightarrow> unit result" where
  "validate_config_volume h workspace_path home_path volume =
     and_then (normalize_volume_destination (vm_dest volume)) (\<lambda>volume_dest.
     and_then (reject_if (volume_dest = workspace_path)
       (ConfigError ''Volume destination /workspace conflicts with --workspace'')) (\<lambda>_.
     and_then (reject_if (volume_dest = home_path)
       (ConfigError ''Volume destination conflicts with --home'')) (\<lambda>_.
     case vm_source volume of
       BindVolume source \<Rightarrow>
         and_then (reject_if (\<not> is_absolute source) (ConfigError ''Volume source must be absolute: {:?}'')) (\<lambda>_.
         and_then (reject_if (\<not> ch_exists h source) (ConfigError ''Volume source does not exist: {:?}'')) (\<lambda>_.
         validate_bind_mount_source (ch_canonicalize h) source))
     | TmpfsVolume _ \<Rightarrow> Ok ())))"

definition validate_filesystem_layout :: "config_host \<Rightarrow> container_config \<Rightarrow> unit result" where
  "validate_filesystem_layout h self =
     and_then (normalize_container_destination (cc_workdir self)) (\<lambda>_.
     and_then (normalize_container_destination (ws_container_path (cc_workspace self))) (\<lambda>workspace_path.
     and_then (reject_if (workspace_path \<noteq> path_new ''/workspace'')
       (ConfigError ''Workspace destination is fixed at /workspace'')) (\<lambda>_.
     and_then (normalize_container_destination (cc_home self)) (\<lambda>home_path.
     and_then (reject_if (home_path = workspace_path \<or> starts_with home_path workspace_path
         \<or> starts_with workspace_path home_path) (ConfigError ''--home must not overlap /workspace'')) (\<lambda>_.
     and_then (case ws_host_path (cc_workspace self) of
         Some host_path \<Rightarrow> and_then (validate_workspace_host_path (ch_canonicalize h) (ch_is_dir h) host_path) (\<lambda>_. Ok ())
       | None \<Rightarrow> Ok ()) (\<lambda>_.
     and_then (reject_if (ws_mode (cc_workspace self) = CopyInOut \<and> ws_host_path (cc_workspace self) = None)
       (ConfigError ''--workspace-mode copy-in-out requires --workspace'')) (\<lambda>_.
     and_then (for_each (\<lambda>secret. and_then (normalize_container_destination (sec_dest secret)) (\<lambda>_. Ok ()))
       (cc_secrets self)) (\<lambda>_.
     and_then (for_each (\<lambda>provider_config.
         and_then (validate_provider_config_source (ch_canonicalize h) (ch_metadata h) (pc_source provider_config)) (\<lambda>_.
         and_then (normalize_provider_config_destination home_path (pc_dest provider_config)) (\<lambda>_. Ok ())))
       (cc_provider_configs self)) (\<lambda>_.
     for_each (validate_config_volume h workspace_path home_path) (cc_volumes self))))))))))"

definition validate_gvisor_support :: "container_config \<Rightarrow> unit result" where
  "validate_gvisor_support self =
     and_then (reject_if (cc_seccomp_mode self = Trace)
       (ConfigError ''gVisor runtime does not support --seccomp-mode trace; use --runtime native'')) (\<lambda>_.
     and_then (reject_if (cc_seccomp_log_denied self)
       (ConfigError ''gVisor runtime does not support seccomp deny logging; use --runtime native'')) (\<lambda>_.
     and_then (reject_if (cc_seccomp_allow_syscalls self \<noteq> [])
       (ConfigError ''gVisor runtime does not support --seccomp-allow'')) (\<lambda>_.
     and_then (reject_if (cc_caps_policy self \<noteq> None)
       (ConfigError ''gVisor runtime does not support capability policy files; use --runtime native'')) (\<lambda>_.
     and_then (reject_if (cc_landlock_policy self \<noteq> None)
       (ConfigError ''gVisor runtime does not support Landlock policy files; use --runtime native'')) (\<lambda>_.
     and_then (reject_if (cc_health_check self \<noteq> None)
       (ConfigError ''gVisor runtime does not support exec health checks'')) (\<lambda>_.
     and_then (case cc_readiness_probe self of
         Some (ProbeExec _) \<Rightarrow> Err (ConfigError ''gVisor runtime does not support exec/TCP readiness probes'')
       | Some (ProbeTcpPort _) \<Rightarrow> Err (ConfigError ''gVisor runtime does not support exec/TCP readiness probes'')
       | _ \<Rightarrow> Ok ()) (\<lambda>_.
     reject_if (cc_verify_context_integrity self \<and> cc_context_dir self \<noteq> None \<and> cc_context_mode self = ContextBindMount)
       (ConfigError ''gVisor runtime cannot verify bind-mounted context integrity''))))))))"

definition validate_runtime_support :: "config_host \<Rightarrow> container_config \<Rightarrow> unit result" where
  "validate_runtime_support h self =
     and_then (validate_runtime_sanity (cc_limits self)) (\<lambda>_.
     and_then (validate_process_identity self) (\<lambda>_.
     and_then (reject_if (cc_seccomp_mode self = Trace \<and> cc_seccomp_trace_log self = None)
       (ConfigError ''Seccomp trace mode requires --seccomp-log / seccomp_trace_log'')) (\<lambda>_.
     and_then (validate_filesystem_layout h self) (\<lambda>_.
     and_then (validate_credential_broker self) (\<lambda>_.
     and_then
       (if cc_rootfs_mode self = Overlay then
          and_then (reject_if (cc_rootfs_path self = None)
            (ConfigError ''--rootfs-mode overlay requires --rootfs or --agent-toolchain-rootfs'')) (\<lambda>_.
          reject_if (cc_use_gvisor self)
            (ConfigError ''--rootfs-mode overlay is currently supported only with --runtime native''))
        else Ok ()) (\<lambda>_.
     if \<not> cc_use_gvisor self then Ok () else validate_gvisor_support self))))))"

definition apply_runtime_selection :: "runtime_selection \<Rightarrow> bool \<Rightarrow> container_config \<Rightarrow> container_config result" where
  "apply_runtime_selection runtime oci self =
     (case runtime of
        RuntimeNative \<Rightarrow>
          if oci then Err (ConfigError ''--bundle requires gVisor runtime; use --runtime gvisor'')
          else Ok (with_gvisor False self)
      | RuntimeGVisor \<Rightarrow> Ok (with_oci_bundle (with_gvisor True self)))"

definition validate_hostname_label :: "string \<Rightarrow> unit result" where
  "validate_hostname_label label =
     (if label = [] \<or> length label > 63 then Err (ConfigError ''Invalid hostname label: {}'')
      else if hd label = CHR ''-'' \<or> last label = CHR ''-''
      then Err (ConfigError ''Invalid hostname label {}: cannot start or end with -'')
      else if \<not> list_all (\<lambda>c. is_ascii_alphanumeric c \<or> c = CHR ''-'') label
      then Err (ConfigError ''Invalid hostname label {}: allowed characters are a-zA-Z0-9 and -'')
      else Ok ())"

definition validate_hostname :: "string \<Rightarrow> unit result" where
  "validate_hostname hostname =
     (if hostname = [] \<or> length hostname > 253
      then Err (ConfigError ''Invalid hostname: must be 1-253 characters'')
      else for_each validate_hostname_label (split_on CHR ''.'' hostname))"


section \<open>What passes\<close>

lemma fail_closed_Ok:
  "validate_fail_closed_isolation c = Ok () \<longleftrightarrow>
     \<not> cc_allow_degraded_security c \<and> \<not> cc_allow_chroot_fallback c \<and> cc_network c \<noteq> Host
     \<and> (if cc_network c = GVisorHost then cc_use_gvisor c \<and> cc_allow_host_network c \<and> cc_egress_policy c = None
        else \<not> cc_allow_host_network c)
     \<and> cc_seccomp_mode c = Enforce
     \<and> validate_extra_syscalls_for_production (cc_network c \<noteq> NoNetwork) (cc_seccomp_allow_syscalls c) = Ok ()"
proof -
  have "cc_seccomp_mode c \<noteq> Trace \<longleftrightarrow> cc_seccomp_mode c = Enforce" by (cases "cc_seccomp_mode c") auto
  then show ?thesis
    by (auto simp: validate_fail_closed_isolation_def Let_def result_simps
        validate_extra_syscalls_for_production_def split: if_splits)
qed

lemma production_Ok:
  assumes "cc_service_mode c = Production" "validate_production_mode h c = Ok ()"
  shows "validate_fail_closed_isolation c = Ok ()" "cc_gpu c = None"
    "\<not> (ws_allow_execute (cc_workspace c) \<and> workspace_is_writable (cc_workspace c))"
    "cc_rootfs_mode c = Bind" "cc_verify_rootfs_attestation c"
    "\<exists>p canonical. cc_rootfs_path c = Some p \<and> validate_production_rootfs_path (ch_canonicalize h) (ch_is_dir h) p = Ok canonical"
    "memory_bytes (cc_limits c) \<noteq> None" "cpu_quota_us (cc_limits c) \<noteq> None"
    "cc_caps_policy c \<noteq> None \<longrightarrow> cc_caps_policy_sha256 c \<noteq> None"
    "cc_landlock_policy c \<noteq> None \<longrightarrow> cc_landlock_policy_sha256 c \<noteq> None"
    "cc_seccomp_profile c \<noteq> None \<longrightarrow> cc_seccomp_profile_sha256 c \<noteq> None"
proof -
  have "cc_rootfs_mode c \<noteq> Overlay \<longleftrightarrow> cc_rootfs_mode c = Bind" by (cases "cc_rootfs_mode c") auto
  with assms show "validate_fail_closed_isolation c = Ok ()" "cc_gpu c = None"
    "\<not> (ws_allow_execute (cc_workspace c) \<and> workspace_is_writable (cc_workspace c))"
    "cc_rootfs_mode c = Bind" "cc_verify_rootfs_attestation c"
    "\<exists>p canonical. cc_rootfs_path c = Some p \<and> validate_production_rootfs_path (ch_canonicalize h) (ch_is_dir h) p = Ok canonical"
    "memory_bytes (cc_limits c) \<noteq> None" "cpu_quota_us (cc_limits c) \<noteq> None"
    "cc_caps_policy c \<noteq> None \<longrightarrow> cc_caps_policy_sha256 c \<noteq> None"
    "cc_landlock_policy c \<noteq> None \<longrightarrow> cc_landlock_policy_sha256 c \<noteq> None"
    "cc_seccomp_profile c \<noteq> None \<longrightarrow> cc_seccomp_profile_sha256 c \<noteq> None"
    by (auto simp: validate_production_mode_def result_simps split: option.splits)
qed

lemma runtime_support_Ok:
  assumes "validate_runtime_support h c = Ok ()"
  shows "validate_process_identity c = Ok ()" "validate_filesystem_layout h c = Ok ()"
    "validate_credential_broker c = Ok ()" "cc_use_gvisor c \<longrightarrow> validate_gvisor_support c = Ok ()"
  using assms by (auto simp: validate_runtime_support_def result_simps split: if_splits)

lemma production_rootfs_Ok:
  assumes "validate_production_rootfs_path canonicalize is_dir p = Ok canonical"
  shows "is_absolute p" "ParentDir \<notin> set p" "canonicalize p = Some canonical"
    "prefix (path_new ''/nix/store'') canonical" "is_dir canonical"
  using assms by (auto simp: validate_production_rootfs_path_def validate_rootfs_path_under_store_def result_simps
      starts_with_def split: if_splits)

lemma credential_broker_Ok:
  assumes "validate_credential_broker c = Ok ()" "cc_credential_broker c = Some b"
  obtains bridge policy where "cc_network c = Bridge bridge" "nat_backend bridge \<noteq> Userspace"
    "validate_for_bridge b bridge = Ok ()" "cc_egress_policy c = Some policy" "is_credential_broker_only policy b"
  using assms by (auto simp: validate_credential_broker_def result_simps split: network_mode.splits option.splits)

lemma filesystem_layout_Ok:
  assumes "validate_filesystem_layout h c = Ok ()"
  obtains home where "normalize_container_destination (cc_home c) = Ok home"
    "normalize_container_destination (ws_container_path (cc_workspace c)) = Ok (path_new ''/workspace'')"
    "\<not> prefix (path_new ''/workspace'') home" "\<not> prefix home (path_new ''/workspace'')"
    "\<And>v. v \<in> set (cc_volumes c) \<Longrightarrow> validate_config_volume h (path_new ''/workspace'') home v = Ok ()"
    "\<And>w. ws_host_path (cc_workspace c) = Some w \<Longrightarrow>
       \<exists>canonical. validate_workspace_host_path (ch_canonicalize h) (ch_is_dir h) w = Ok canonical"
  using assms by (auto simp: validate_filesystem_layout_def result_simps starts_with_def split: option.splits)

lemma id_is_mapped_host:
  assumes "id_is_mapped i ms"
  shows "\<exists>m \<in> set ms. \<exists>x. host_of m (unat i) = Some x"
proof -
  from assms obtain m where m: "m \<in> set ms" "i \<ge> im_container_id m"
    "i < saturating_add (im_container_id m) (im_count m)" by (auto simp: id_is_mapped_def list_ex_iff)
  have "unat (saturating_add (im_container_id m) (im_count m)) \<le> unat (im_container_id m) + unat (im_count m)"
    using unat_bound_word[of "- 1 :: u32"] by (auto simp: saturating_add_def unat_word_ariths not_less)
  with m show ?thesis by (intro bexI[of _ m]) (auto simp: host_of_def word_le_nat_alt word_less_nat_alt)
qed


section \<open>Production\<close>


definition demo_store :: config_host where
  "demo_store = \<lparr>ch_canonicalize = Some, ch_is_dir = (\<lambda>_. True), ch_exists = (\<lambda>_. True), ch_metadata = (\<lambda>_. None)\<rparr>"

definition demo_production :: container_config where
  "demo_production = with_service_mode Production (with_rootfs_path (path_new ''/nix/store/abc'')
     (with_verify_rootfs_attestation True (with_limits (default_limits\<lparr>memory_bytes := Some 1048576, cpu_quota_us := Some 50000\<rparr>)
        (default_config ''0'' ''0'' ''web'' [''/bin/web'']))))"

lemma demo_production_valid: "validate_production_mode demo_store demo_production = Ok ()"
  by (simp add: validate_production_mode_def validate_fail_closed_isolation_def demo_production_def demo_store_def
      with_service_mode_def with_rootfs_path_def with_verify_rootfs_attestation_def with_limits_def default_config_def
      default_workspace_config_def reject_if_def Let_def validate_production_rootfs_path_def
      validate_rootfs_path_under_store_def path_eval)


section \<open>The credential broker\<close>


lemma default_gateway: "gateway_ipv4 default_bridge_config = Ok (ipv4_of_octets 10 0 42 1)"
proof -
  from gateway_contained[OF parse_default_subnet]
  obtain gw where "gateway_ipv4 default_bridge_config = Ok gw" "unat gw = 0x0A002A01"
    by (auto simp: ipv4_of_octets_def)
  then show ?thesis by (simp add: word_unat_eq_iff ipv4_of_octets_def)
qed

definition demo_broker :: credential_broker_config where
  "demo_broker = broker_new (ipv4_of_octets 10 0 42 1) 8080"

definition demo_brokered :: container_config where
  "demo_brokered = with_credential_broker demo_broker (with_egress_policy (credential_broker_only demo_broker)
     (with_network (Bridge default_bridge_config) (default_config ''0'' ''0'' ''web'' [''/bin/web''])))"

lemma demo_brokered_fields:
  "cc_credential_broker demo_brokered = Some demo_broker"
  "cc_egress_policy demo_brokered = Some (credential_broker_only demo_broker)"
  "cc_network demo_brokered = Bridge default_bridge_config"
  by (simp_all add: demo_brokered_def with_credential_broker_def with_credential_broker_identity_env_def
      upsert_derived_env_def with_egress_policy_def with_network_def default_config_def)

lemma demo_broker_bridge: "validate_for_bridge demo_broker default_bridge_config = Ok ()"
  by (simp add: validate_for_bridge_def broker_validate_def demo_broker_def broker_new_def default_gateway octet_def
      ipv4_of_octets_def)

lemma default_layout:
  "normalize_container_destination (path_new ''/workspace'') = Ok (path_new ''/workspace'')"
  "normalize_container_destination (path_new ''/home/agent'') = Ok (path_new ''/home/agent'')"
  by (simp_all add: normalize_container_destination_def normalize_step_def path_push_def path_eval)

lemma demo_brokered_valid: "validate_runtime_support demo_store demo_brokered = Ok ()"
proof -
  have "validate_credential_broker demo_brokered = Ok ()"
    by (simp add: validate_credential_broker_def demo_brokered_fields demo_broker_bridge reject_if_def)
      (simp add: default_bridge_config_def)
  moreover have "validate_filesystem_layout demo_store demo_brokered = Ok ()"
    by (simp add: validate_filesystem_layout_def demo_brokered_def with_credential_broker_def
        with_credential_broker_identity_env_def upsert_derived_env_def with_egress_policy_def with_network_def
        default_config_def default_workspace_config_def default_layout reject_if_def)
      (simp add: path_eval)
  moreover have "validate_process_identity demo_brokered = Ok ()" "validate_gvisor_support demo_brokered = Ok ()"
    "validate_runtime_sanity (cc_limits demo_brokered) = Ok ()" "cc_seccomp_mode demo_brokered = Enforce"
    "cc_rootfs_mode demo_brokered = Bind"
    by (simp_all add: validate_process_identity_def validate_gvisor_support_def validate_runtime_sanity_def
        demo_brokered_def with_credential_broker_def with_credential_broker_identity_env_def upsert_derived_env_def
        with_egress_policy_def with_network_def default_config_def default_limits_def unlimited_def reject_if_def RLIM_INFINITY_def)
  ultimately show ?thesis by (simp add: validate_runtime_support_def reject_if_def)
qed


section \<open>Identities\<close>

text \<open>
  C19: with a user namespace whose mappings came from the command line of a user who is not root, a configuration
  that passes runs its process under a user and a group that are mapped, and neither is root on the host.
\<close>

theorem process_never_host_root:
  assumes "validate_runtime_support h c = Ok ()" "cc_user_ns_config c = Some config"
    and "from_map_specs uh uid_specs gid_specs = Ok config" "\<not> uh_euid_root uh"
  shows "(\<exists>m \<in> set (uid_mappings config). \<exists>x. host_of m (unat (pi_uid (cc_process_identity c))) = Some x \<and> x \<noteq> 0)
    \<and> (\<exists>m \<in> set (gid_mappings config). \<exists>x. host_of m (unat (pi_gid (cc_process_identity c))) = Some x \<and> x \<noteq> 0)
    \<and> pi_additional_gids (cc_process_identity c) = []"
proof -
  from runtime_support_Ok(1)[OF assms(1)] assms(2)
  have "id_is_mapped (pi_uid (cc_process_identity c)) (uid_mappings config)"
    "id_is_mapped (pi_gid (cc_process_identity c)) (gid_mappings config)"
    "pi_additional_gids (cc_process_identity c) = []"
    by (auto simp: validate_process_identity_def result_simps)
  with map_specs_safe[OF assms(3)] assms(4) show ?thesis
    using id_is_mapped_host by (meson UnCI)
qed

lemma demo_map_specs: "from_map_specs demo_host [''0:100000:65536''] [''0:100000:65536'']
    = Ok \<lparr>uid_mappings = [id_mapping_new 0 100000 65536], gid_mappings = [id_mapping_new 0 100000 65536]\<rparr>"
  by (simp add: from_map_specs_def parse_map_specs_def demo_triplet custom_def id_mapping_validate_def demo_host_def
      id_mapping_new_def checked_add_def)

definition demo_mapped :: container_config where
  "demo_mapped = with_user_namespace
     \<lparr>uid_mappings = [id_mapping_new 0 100000 65536], gid_mappings = [id_mapping_new 0 100000 65536]\<rparr> demo_brokered"

lemma demo_mapped_valid: "validate_runtime_support demo_store demo_mapped = Ok ()"
proof -
  have "validate_process_identity demo_mapped = Ok ()"
    by (simp add: validate_process_identity_def demo_mapped_def with_user_namespace_def demo_brokered_def
        with_credential_broker_def with_credential_broker_identity_env_def upsert_derived_env_def with_egress_policy_def
        with_network_def default_config_def root_identity_def id_is_mapped_def id_mapping_new_def saturating_add_def
        reject_if_def)
  moreover have "validate_credential_broker demo_mapped = validate_credential_broker demo_brokered"
    "validate_filesystem_layout demo_store demo_mapped = validate_filesystem_layout demo_store demo_brokered"
    "validate_gvisor_support demo_mapped = validate_gvisor_support demo_brokered"
    by (simp_all add: demo_mapped_def with_user_namespace_def validate_credential_broker_def
        validate_filesystem_layout_def validate_gvisor_support_def cong: option.case_cong network_mode.case_cong)
  ultimately show ?thesis using demo_brokered_valid
    by (auto simp: validate_runtime_support_def demo_mapped_def with_user_namespace_def result_simps split: if_splits)
qed

theorem process_never_host_root_witness:
  "\<exists>x. host_of (id_mapping_new 0 100000 65536) (unat (pi_uid (cc_process_identity demo_mapped))) = Some x \<and> x \<noteq> 0"
  using process_never_host_root[OF demo_mapped_valid _ demo_map_specs]
  by (simp add: demo_mapped_def with_user_namespace_def demo_host_def)

section \<open>Mounts of the configuration\<close>

text \<open>
  C18: in a configuration that passes, every volume is mounted at a path of names below the container's root that is
  not reserved and is neither the workspace nor the home directory, the home directory and the workspace do not
  contain each other, and what a bind volume shows of the host, also after its links are resolved, is neither the
  root directory nor in a sensitive subtree.
\<close>

theorem accepted_volumes_confined:
  assumes "validate_runtime_support h c = Ok ()" "v \<in> set (cc_volumes c)" "vm_dest v = path_new d"
  shows "\<exists>dest home. normalize_container_destination (path_new d) = Ok dest
    \<and> normalize_container_destination (cc_home c) = Ok home
    \<and> is_plain dest \<and> dest \<noteq> path_new ''/workspace'' \<and> dest \<noteq> home
    \<and> \<not> prefix (path_new ''/workspace'') home \<and> \<not> prefix home (path_new ''/workspace'')
    \<and> (\<forall>r\<in>set reserved_volume_destination_prefixes. \<not> prefix (path_new r) dest)
    \<and> (\<forall>s. vm_source v = BindVolume s \<longrightarrow> (\<exists>canonical. ch_canonicalize h s = Some canonical
         \<and> canonical \<noteq> [RootDir] \<and> (\<forall>x\<in>set denied_bind_mount_source_prefixes. \<not> prefix (path_new x) canonical)))"
proof -
  obtain home where home: "normalize_container_destination (cc_home c) = Ok home"
      "\<not> prefix (path_new ''/workspace'') home" "\<not> prefix home (path_new ''/workspace'')"
    and v: "validate_config_volume h (path_new ''/workspace'') home v = Ok ()"
    by (rule filesystem_layout_Ok[OF runtime_support_Ok(2)[OF assms(1)]]) (use assms(2) in metis)
  from v assms(3) obtain dest where dest: "normalize_container_destination (path_new d) = Ok dest"
    "reject_reserved_volume_destination dest = Ok ()" "dest \<noteq> path_new ''/workspace''" "dest \<noteq> home"
    and src: "\<And>s. vm_source v = BindVolume s \<Longrightarrow> validate_bind_mount_source (ch_canonicalize h) s = Ok ()"
    by (auto simp: validate_config_volume_def normalize_volume_destination_def result_simps split: volume_source.splits)
  from src have "\<forall>s. vm_source v = BindVolume s \<longrightarrow> (\<exists>canonical. ch_canonicalize h s = Some canonical
      \<and> canonical \<noteq> [RootDir] \<and> (\<forall>x\<in>set denied_bind_mount_source_prefixes. \<not> prefix (path_new x) canonical))"
    by (fastforce simp: validate_bind_mount_source_def result_simps reject_denied_Ok)
  moreover have "\<forall>r\<in>set reserved_volume_destination_prefixes. \<not> prefix (path_new r) dest"
    using dest(2) by (auto simp: reject_reserved_volume_destination_def result_simps starts_with_def)
  ultimately show ?thesis using dest home normalize_plain[OF dest(1)] by blast
qed

definition demo_volume :: volume_mount where
  "demo_volume = \<lparr>vm_source = BindVolume (path_new ''/srv/data''), vm_dest = path_new ''/data'', vm_read_only = True\<rparr>"

lemma demo_volume_valid: "validate_config_volume demo_store (path_new ''/workspace'') (path_new ''/home/agent'') demo_volume = Ok ()"
  by (simp add: validate_config_volume_def demo_volume_def normalize_volume_destination_def normalize_container_destination_def
      normalize_step_def path_push_def reject_reserved_volume_destination_def reserved_volume_destination_prefixes_def
      reject_if_def demo_store_def validate_bind_mount_source_def validate_bind_mount_source_policy_def
      normalize_bind_mount_source_for_policy_def policy_step_def reject_denied_bind_mount_source_def
      denied_bind_mount_sources_exact_def denied_bind_mount_source_prefixes_def path_eval)

lemma with_volume_valid:
  assumes "validate_runtime_support h c = Ok ()" "normalize_container_destination (cc_home c) = Ok home"
    and "validate_config_volume h (path_new ''/workspace'') home v = Ok ()"
  shows "validate_runtime_support h (with_volume v c) = Ok ()"
proof -
  have "validate_filesystem_layout h (with_volume v c) = Ok ()"
    using runtime_support_Ok(2)[OF assms(1)] assms(2,3)
    by (auto simp: validate_filesystem_layout_def with_volume_def result_simps)
  moreover have "validate_credential_broker (with_volume v c) = validate_credential_broker c"
    "validate_process_identity (with_volume v c) = validate_process_identity c"
    "validate_gvisor_support (with_volume v c) = validate_gvisor_support c"
    by (simp_all add: with_volume_def validate_credential_broker_def validate_process_identity_def
        validate_gvisor_support_def cong: option.case_cong network_mode.case_cong)
  ultimately show ?thesis using assms(1)
    by (auto simp: validate_runtime_support_def with_volume_def result_simps split: if_splits)
qed

theorem accepted_volumes_confined_witness:
  "validate_runtime_support demo_store (with_volume demo_volume demo_brokered) = Ok ()
     \<and> (\<exists>dest. normalize_container_destination (path_new ''/data'') = Ok dest \<and> is_plain dest)"
proof -
  have "cc_home demo_brokered = path_new ''/home/agent''"
    by (simp add: demo_brokered_def with_credential_broker_def with_credential_broker_identity_env_def
        upsert_derived_env_def with_egress_policy_def with_network_def default_config_def)
  with with_volume_valid[OF demo_brokered_valid _ demo_volume_valid]
  have valid: "validate_runtime_support demo_store (with_volume demo_volume demo_brokered) = Ok ()"
    by (simp add: default_layout)
  then show ?thesis using accepted_volumes_confined[OF valid, of demo_volume "''/data''"]
    by (auto simp: with_volume_def demo_volume_def)
qed

section \<open>Names\<close>

text \<open>The reference for host names: labels of RFC 1123 joined by dots.\<close>

definition rfc1123_label :: "string \<Rightarrow> bool" where
  "rfc1123_label l \<longleftrightarrow> 1 \<le> length l \<and> length l \<le> 63 \<and> (\<forall>c \<in> set l. is_ascii_alphanumeric c \<or> c = CHR ''-'')
     \<and> is_ascii_alphanumeric (hd l) \<and> is_ascii_alphanumeric (last l)"

lemma dash_not_alphanumeric: "\<not> is_ascii_alphanumeric CHR ''-''" "\<not> is_ascii_alphanumeric CHR ''.''"
  by (simp_all add: string_eval)

lemma hostname_label_Ok: "validate_hostname_label l = Ok () \<longleftrightarrow> rfc1123_label l"
proof (cases "l = []")
  case False
  then have "hd l \<in> set l" "last l \<in> set l" by auto
  with False show ?thesis
    by (auto simp: validate_hostname_label_def rfc1123_label_def list_all_iff dash_not_alphanumeric Suc_le_eq)
qed (simp add: validate_hostname_label_def rfc1123_label_def)

lemma for_each_hostname: "for_each validate_hostname_label ls = Ok () \<longleftrightarrow> (\<forall>l \<in> set ls. rfc1123_label l)"
  by (simp add: result_simps hostname_label_Ok)

text \<open>
  a host name is accepted exactly when it has at most 253 characters and is a sequence of labels joined by
  dots, each of one to 63 letters, digits and dashes that starts and ends with a letter or a digit.
\<close>

theorem hostname_accepted_iff_rfc1123:
  "validate_hostname s = Ok () \<longleftrightarrow>
     length s \<le> 253 \<and> (\<exists>labels. labels \<noteq> [] \<and> s = join ''.'' labels \<and> list_all rfc1123_label labels)"
proof (cases "s = []")
  case True
  have "join ''.'' ls \<noteq> []" if "ls \<noteq> []" "list_all rfc1123_label ls" for ls
    using that by (cases "(''.'' :: string, ls)" rule: join.cases) (auto simp: rfc1123_label_def)
  then show ?thesis using True by (fastforce simp: validate_hostname_def)
next
  case False
  have "(\<forall>l \<in> set (split_on CHR ''.'' s). rfc1123_label l)
      \<longleftrightarrow> (\<exists>labels. labels \<noteq> [] \<and> s = join ''.'' labels \<and> list_all rfc1123_label labels)"
  proof
    assume "\<forall>l \<in> set (split_on CHR ''.'' s). rfc1123_label l"
    then show "\<exists>labels. labels \<noteq> [] \<and> s = join ''.'' labels \<and> list_all rfc1123_label labels"
      by (intro exI[of _ "split_on CHR ''.'' s"]) (simp add: join_split_on list_all_iff, simp add: split_on_def)
  next
    assume "\<exists>labels. labels \<noteq> [] \<and> s = join ''.'' labels \<and> list_all rfc1123_label labels"
    then obtain ls where ls: "ls \<noteq> []" "s = join ''.'' ls" "list_all rfc1123_label ls" by blast
    from ls(3) have "\<forall>w \<in> set ls. CHR ''.'' \<notin> set w"
      using dash_not_alphanumeric by (fastforce simp: list_all_iff rfc1123_label_def)
    with split_on_join[OF ls(1) this] ls show "\<forall>l \<in> set (split_on CHR ''.'' s). rfc1123_label l"
      by (simp add: list_all_iff)
  qed
  with False show ?thesis by (auto simp: validate_hostname_def for_each_hostname)
qed

text \<open>Generated identifiers.\<close>

lemma hex_digit_char: "d < 16 \<Longrightarrow> is_ascii_hexdigit (hex_digit d) \<and> is_ascii_alphanumeric (hex_digit d)"
  by (auto simp: hex_digit_def digit_char_def is_ascii_hexdigit_def is_ascii_alphanumeric_def is_ascii_digit_def)

lemma hex_encode_chars:
  "c \<in> set (hex_encode bs) \<Longrightarrow> is_ascii_hexdigit c \<and> is_ascii_alphanumeric c"
  using unat_bound_word[where 'a = 8] by (auto simp: hex_encode_def hex_digit_char less_mult_imp_div_less)

lemma length_hex_encode: "length (hex_encode bs) = 2 * length bs"
  by (induction bs) (auto simp: hex_encode_def)

lemma generated_id:
  assumes "generate_container_id urandom = Ok i" "\<And>bs. urandom = Ok bs \<Longrightarrow> length bs = 16"
  shows "length i = 32" "\<forall>c \<in> set i. is_ascii_hexdigit c \<and> is_ascii_alphanumeric c"
  using assms hex_encode_chars by (auto simp: generate_container_id_def result_simps length_hex_encode)

lemma alphanumeric_name:
  assumes "length i = 32" "\<forall>c \<in> set i. is_ascii_alphanumeric c"
  shows "validate_container_name i = Ok ()" "validate_hostname i = Ok ()"
proof -
  show "validate_container_name i = Ok ()"
    using assms by (auto simp: validate_container_name_def valid_name_char_def list_all_iff)
  have "i \<noteq> []" using assms(1) by auto
  then have "rfc1123_label i" using assms by (simp add: rfc1123_label_def)
  moreover have "split_on CHR ''.'' i = [i]"
    using assms(2) dash_not_alphanumeric(2) unfolding split_on_def by (intro split_by_no_sep) metis
  ultimately show "validate_hostname i = Ok ()"
    using \<open>i \<noteq> []\<close> assms(1) by (simp add: validate_hostname_def result_simps hostname_label_Ok)
qed

text \<open>
  a configuration made without a name has for its identifier, its name, its host name and its broker token a
  string of 32 hexadecimal digits; the identifier is accepted as a preset identifier, as a container name and as
  a host name.
\<close>

theorem new_config_well_formed:
  assumes "try_new urandom urandom' None command = Ok c"
    and "\<And>bs. urandom = Ok bs \<Longrightarrow> length bs = 16" "\<And>bs. urandom' = Ok bs \<Longrightarrow> length bs = 16"
  shows "length (cc_id c) = 32 \<and> list_all is_ascii_hexdigit (cc_id c)
    \<and> length (cc_credential_broker_token c) = 32 \<and> list_all is_ascii_hexdigit (cc_credential_broker_token c)
    \<and> cc_name c = cc_id c \<and> cc_hostname c = Some (cc_id c)
    \<and> validate_container_name (cc_id c) = Ok () \<and> validate_hostname (cc_id c) = Ok ()
    \<and> is_ok (try_new_with_id urandom urandom' (Some (cc_id c)) None command)"
proof -
  from assms(1) obtain i token where c: "generate_container_id urandom = Ok i" "generate_container_id urandom' = Ok token"
    "c = default_config i token i command" by (auto simp: try_new_def try_new_with_id_def result_simps)
  note i = generated_id[OF c(1) assms(2)] and token = generated_id[OF c(2) assms(3)]
  have "validate_container_name i = Ok ()" "validate_hostname i = Ok ()" using i by (simp_all add: alphanumeric_name)
  with i token show ?thesis
    by (simp add: c(3) default_config_def list_all_iff try_new_with_id_def c(2))
qed

theorem new_config_well_formed_witness:
  "\<exists>c. try_new (Ok (replicate 16 171)) (Ok (replicate 16 0)) None [''/bin/sh''] = Ok c \<and> validate_hostname (cc_id c) = Ok ()"
proof -
  obtain c where c: "try_new (Ok (replicate 16 171)) (Ok (replicate 16 0)) None [''/bin/sh''] = Ok c"
    by (simp add: try_new_def try_new_with_id_def generate_container_id_def)
  from new_config_well_formed[OF c] c show ?thesis by simp
qed

section \<open>The environment\<close>

text \<open>
  The configurations that the builders make.
\<close>

inductive configured :: "container_config \<Rightarrow> bool" where
  cfg_new: "configured (default_config i token n command)"
| cfg_rootless: "configured c \<Longrightarrow> configured (with_rootless x c)"
| cfg_user_namespace: "configured c \<Longrightarrow> configured (with_user_namespace x c)"
| cfg_context: "configured c \<Longrightarrow> configured (with_context x c)"
| cfg_limits: "configured c \<Longrightarrow> configured (with_limits x c)"
| cfg_namespaces: "configured c \<Longrightarrow> configured (with_namespaces x c)"
| cfg_hostname: "configured c \<Longrightarrow> configured (with_hostname x c)"
| cfg_gvisor: "configured c \<Longrightarrow> configured (with_gvisor x c)"
| cfg_trust_level: "configured c \<Longrightarrow> configured (with_trust_level x c)"
| cfg_oci_bundle: "configured c \<Longrightarrow> configured (with_oci_bundle c)"
| cfg_network: "configured c \<Longrightarrow> configured (with_network x c)"
| cfg_context_mode: "configured c \<Longrightarrow> configured (with_context_mode x c)"
| cfg_allow_degraded_security: "configured c \<Longrightarrow> configured (with_allow_degraded_security x c)"
| cfg_allow_chroot_fallback: "configured c \<Longrightarrow> configured (with_allow_chroot_fallback x c)"
| cfg_allow_host_network: "configured c \<Longrightarrow> configured (with_allow_host_network x c)"
| cfg_proc_readonly: "configured c \<Longrightarrow> configured (with_proc_readonly x c)"
| cfg_service_mode: "configured c \<Longrightarrow> configured (with_service_mode x c)"
| cfg_rootfs_path: "configured c \<Longrightarrow> configured (with_rootfs_path x c)"
| cfg_rootfs_mode: "configured c \<Longrightarrow> configured (with_rootfs_mode x c)"
| cfg_rootfs_overlay: "configured c \<Longrightarrow> configured (with_rootfs_overlay x y c)"
| cfg_egress_policy: "configured c \<Longrightarrow> configured (with_egress_policy x c)"
| cfg_credential_broker: "configured c \<Longrightarrow> configured (with_credential_broker x c)"
| cfg_health_check: "configured c \<Longrightarrow> configured (with_health_check x c)"
| cfg_readiness_probe: "configured c \<Longrightarrow> configured (with_readiness_probe x c)"
| cfg_secret: "configured c \<Longrightarrow> configured (with_secret x c)"
| cfg_volume: "configured c \<Longrightarrow> configured (with_volume x c)"
| cfg_workspace: "configured c \<Longrightarrow> configured (with_workspace x c)"
| cfg_home: "configured c \<Longrightarrow> configured (with_home x c)"
| cfg_provider_config: "configured c \<Longrightarrow> configured (with_provider_config x c)"
| cfg_workdir: "configured c \<Longrightarrow> configured (with_workdir x c)"
| cfg_env: "configured c \<Longrightarrow> configured (with_env x y c)"
| cfg_derived_env: "configured c \<Longrightarrow> configured (with_derived_env x y c)"
| cfg_process_identity: "configured c \<Longrightarrow> configured (with_process_identity x c)"
| cfg_config_hash: "configured c \<Longrightarrow> configured (with_config_hash x c)"
| cfg_sd_notify: "configured c \<Longrightarrow> configured (with_sd_notify x c)"
| cfg_required_kernel_lockdown: "configured c \<Longrightarrow> configured (with_required_kernel_lockdown x c)"
| cfg_verify_context_integrity: "configured c \<Longrightarrow> configured (with_verify_context_integrity x c)"
| cfg_verify_rootfs_attestation: "configured c \<Longrightarrow> configured (with_verify_rootfs_attestation x c)"
| cfg_seccomp_log_denied: "configured c \<Longrightarrow> configured (with_seccomp_log_denied x c)"
| cfg_gvisor_platform: "configured c \<Longrightarrow> configured (with_gvisor_platform x c)"
| cfg_seccomp_profile: "configured c \<Longrightarrow> configured (with_seccomp_profile x c)"
| cfg_seccomp_profile_sha256: "configured c \<Longrightarrow> configured (with_seccomp_profile_sha256 x c)"
| cfg_seccomp_mode: "configured c \<Longrightarrow> configured (with_seccomp_mode x c)"
| cfg_seccomp_trace_log: "configured c \<Longrightarrow> configured (with_seccomp_trace_log x c)"
| cfg_seccomp_allow_syscalls: "configured c \<Longrightarrow> configured (with_seccomp_allow_syscalls x c)"
| cfg_caps_policy: "configured c \<Longrightarrow> configured (with_caps_policy x c)"
| cfg_caps_policy_sha256: "configured c \<Longrightarrow> configured (with_caps_policy_sha256 x c)"
| cfg_landlock_policy: "configured c \<Longrightarrow> configured (with_landlock_policy x c)"
| cfg_landlock_policy_sha256: "configured c \<Longrightarrow> configured (with_landlock_policy_sha256 x c)"
| cfg_pid_file: "configured c \<Longrightarrow> configured (with_pid_file x c)"
| cfg_console_socket: "configured c \<Longrightarrow> configured (with_console_socket x c)"
| cfg_terminal: "configured c \<Longrightarrow> configured (with_terminal x c)"
| cfg_bundle_dir: "configured c \<Longrightarrow> configured (with_bundle_dir x c)"
| cfg_state_root: "configured c \<Longrightarrow> configured (with_state_root x c)"
| cfg_gpu: "configured c \<Longrightarrow> configured (with_gpu x c)"

lemmas builders =
  with_rootless_def with_user_namespace_def with_context_def with_limits_def with_namespaces_def
  with_hostname_def with_gvisor_def with_trust_level_def with_oci_bundle_def with_network_def
  with_context_mode_def with_allow_degraded_security_def with_allow_chroot_fallback_def
  with_allow_host_network_def with_proc_readonly_def with_service_mode_def with_rootfs_path_def
  with_rootfs_mode_def with_rootfs_overlay_def with_egress_policy_def with_credential_broker_def
  with_health_check_def with_readiness_probe_def with_secret_def with_volume_def with_workspace_def
  with_home_def with_provider_config_def with_workdir_def with_env_def with_derived_env_def
  with_process_identity_def with_config_hash_def with_sd_notify_def with_required_kernel_lockdown_def
  with_verify_context_integrity_def with_verify_rootfs_attestation_def with_seccomp_log_denied_def
  with_gvisor_platform_def with_seccomp_profile_def with_seccomp_profile_sha256_def with_seccomp_mode_def
  with_seccomp_trace_log_def with_seccomp_allow_syscalls_def with_caps_policy_def with_caps_policy_sha256_def
  with_landlock_policy_def with_landlock_policy_sha256_def with_pid_file_def with_console_socket_def
  with_terminal_def with_bundle_dir_def with_state_root_def with_gpu_def

text \<open>The pairs that \<open>with_env\<close> gave and the broker's own.\<close>

definition broker_env_inv :: "container_config \<Rightarrow> bool" where
  "broker_env_inv c \<longleftrightarrow> (cc_credential_broker c \<noteq> None \<longrightarrow>
     (\<forall>(k, v) \<in> set (cc_environment c). \<not> is_credential_broker_identity_env k))"

lemma env_unchanged:
  "cc_environment c' = cc_environment c \<Longrightarrow> cc_credential_broker c' = cc_credential_broker c \<Longrightarrow>
     broker_env_inv c \<Longrightarrow> broker_env_inv c'"
  by (simp add: broker_env_inv_def)

lemma with_credential_broker_inv: "broker_env_inv (with_credential_broker b c)"
  by (auto simp: broker_env_inv_def with_credential_broker_def with_credential_broker_identity_env_def
      upsert_derived_env_def)

lemma with_env_inv: "broker_env_inv c \<Longrightarrow> broker_env_inv (with_env k v c)"
  by (auto simp: broker_env_inv_def with_env_def credential_broker_owns_env_def)

text \<open>
  C31: no order of builder calls lets the user's environment impersonate a container to the broker. In every
  configuration that the builders make, once a broker is configured, the variables that carry the container's
  identity and token are not among the user's.
\<close>

theorem broker_identity_not_forgeable:
  assumes "configured c" "cc_credential_broker c \<noteq> None" "(k, v) \<in> set (cc_environment c)"
  shows "k \<noteq> ''NUCLEUS_CONTAINER_ID'' \<and> k \<noteq> ''NUCLEUS_CREDENTIAL_BROKER_TOKEN''"
proof -
  from assms(1) have "broker_env_inv c"
  proof (induction rule: configured.induct)
    case (cfg_credential_broker c x)
    show ?case by (rule with_credential_broker_inv)
  next
    case (cfg_env c x y)
    then show ?case by (simp add: with_env_inv)
  next
    case (cfg_new i token n command)
    show ?case by (simp add: broker_env_inv_def default_config_def)
  qed (erule env_unchanged[rotated 2], simp add: builders, simp add: builders)+
  with assms(2,3) show ?thesis by (auto simp: broker_env_inv_def is_credential_broker_identity_env_def)
qed

theorem broker_identity_not_forgeable_witness:
  "''NUCLEUS_CREDENTIAL_BROKER_TOKEN'' \<notin> fst ` set (cc_environment
     (with_env ''NUCLEUS_CREDENTIAL_BROKER_TOKEN'' ''0'' (with_credential_broker demo_broker
        (with_env ''NUCLEUS_CREDENTIAL_BROKER_TOKEN'' ''1'' (default_config ''0'' ''0'' ''web'' [])))))"
proof -
  let ?c = "with_env ''NUCLEUS_CREDENTIAL_BROKER_TOKEN'' ''0'' (with_credential_broker demo_broker
    (with_env ''NUCLEUS_CREDENTIAL_BROKER_TOKEN'' ''1'' (default_config ''0'' ''0'' ''web'' [])))"
  have "configured ?c" by (intro configured.intros(1) cfg_env cfg_credential_broker)
  moreover have "cc_credential_broker ?c \<noteq> None"
    by (simp add: with_env_def with_credential_broker_def with_credential_broker_identity_env_def
        upsert_derived_env_def default_config_def)
  ultimately show ?thesis using broker_identity_not_forgeable[of ?c "''NUCLEUS_CREDENTIAL_BROKER_TOKEN''"] by auto
qed

end
