(* ===== verification/Capabilities.thy ===== *)
theory Capabilities
  imports Host_Actions
begin

text \<open>
  Capabilities: policy files (\<^verbatim>\<open>src/src/security/policy.rs\<close>), the capability policy
  (\<^verbatim>\<open>src/src/security/caps_policy.rs\<close>) and the manager that changes the sets of the process
  (\<^verbatim>\<open>src/src/security/capabilities.rs\<close>).

  The package \<^verbatim>\<open>caps\<close> and the kernel are the record \<open>caps_api\<close>: what a call answers and how it changes
  the five sets. \<open>caps_sound\<close> states what is documented of it: a call that succeeds does to its set what
  its name says, and no call adds to a set that it does not name. SHA-256 and the TOML and JSON parsers are
  arguments.
\<close>

section \<open>Policy files\<close>

definition read_and_verify ::
  "(string \<Rightarrow> string) \<Rightarrow> string option \<Rightarrow> string option \<Rightarrow> string result" where
  "read_and_verify sha256_hex file expected_sha256 =
     and_then (ok_or file (ConfigError ''Failed to read policy file {:?}: {}'')) (\<lambda>content.
     case expected_sha256 of
       None \<Rightarrow> Ok content
     | Some expected \<Rightarrow>
         if sha256_hex content \<noteq> expected
         then Err (ConfigError ''Policy file {:?} hash mismatch: expected {}, got {}'') else Ok content)"

definition load_toml_policy ::
  "(string \<Rightarrow> string) \<Rightarrow> (string \<Rightarrow> bool) \<Rightarrow> (string \<Rightarrow> 'p option) \<Rightarrow> string option \<Rightarrow> string option \<Rightarrow> 'p result" where
  "load_toml_policy sha256_hex is_utf8 from_toml file expected_sha256 =
     and_then (read_and_verify sha256_hex file expected_sha256) (\<lambda>content.
     if \<not> is_utf8 content then Err (ConfigError ''Policy file {:?} is not valid UTF-8: {}'')
     else ok_or (from_toml content) (ConfigError ''Failed to parse TOML policy {:?}: {}''))"

definition load_json_policy ::
  "(string \<Rightarrow> string) \<Rightarrow> (string \<Rightarrow> 'p option) \<Rightarrow> string option \<Rightarrow> string option \<Rightarrow> 'p result" where
  "load_json_policy sha256_hex from_json file expected_sha256 =
     and_then (read_and_verify sha256_hex file expected_sha256) (\<lambda>content.
     ok_or (from_json content) (ConfigError ''Failed to parse JSON policy {:?}: {}''))"

lemma read_and_verify_Ok:
  "read_and_verify sha file expected = Ok content \<longleftrightarrow>
     file = Some content \<and> (\<forall>e. expected = Some e \<longrightarrow> sha content = e)"
  by (auto simp: read_and_verify_def result_simps split: option.splits)

section \<open>The policy\<close>

datatype capability =
    CAP_CHOWN | CAP_DAC_OVERRIDE | CAP_DAC_READ_SEARCH | CAP_FOWNER | CAP_FSETID | CAP_KILL | CAP_SETGID
  | CAP_SETUID | CAP_SETPCAP | CAP_LINUX_IMMUTABLE | CAP_NET_BIND_SERVICE | CAP_NET_BROADCAST | CAP_NET_ADMIN
  | CAP_NET_RAW | CAP_IPC_LOCK | CAP_IPC_OWNER | CAP_SYS_MODULE | CAP_SYS_RAWIO | CAP_SYS_CHROOT | CAP_SYS_PTRACE
  | CAP_SYS_PACCT | CAP_SYS_ADMIN | CAP_SYS_BOOT | CAP_SYS_NICE | CAP_SYS_RESOURCE | CAP_SYS_TIME
  | CAP_SYS_TTY_CONFIG | CAP_MKNOD | CAP_LEASE | CAP_AUDIT_WRITE | CAP_AUDIT_CONTROL | CAP_SETFCAP
  | CAP_MAC_OVERRIDE | CAP_MAC_ADMIN | CAP_SYSLOG | CAP_WAKE_ALARM | CAP_BLOCK_SUSPEND | CAP_AUDIT_READ
  | CAP_PERFMON | CAP_BPF | CAP_CHECKPOINT_RESTORE

record capability_sets =
  cap_bounding :: "capability list"
  cap_permitted :: "capability list"
  cap_effective :: "capability list"
  cap_inheritable :: "capability list"
  cap_ambient :: "capability list"

record cap_set_policy =
  keep :: "string list"

record caps_policy =
  cp_bounding :: cap_set_policy
  cp_ambient :: cap_set_policy
  cp_effective :: cap_set_policy
  cp_inheritable :: cap_set_policy

definition dangerous_capabilities :: "capability list" where
  "dangerous_capabilities =
     [CAP_SYS_ADMIN, CAP_SYS_MODULE, CAP_SYS_RAWIO, CAP_SYS_PTRACE, CAP_DAC_OVERRIDE, CAP_DAC_READ_SEARCH,
      CAP_SYS_BOOT, CAP_MAC_ADMIN, CAP_MAC_OVERRIDE, CAP_SYS_PACCT, CAP_LINUX_IMMUTABLE, CAP_BPF, CAP_PERFMON,
      CAP_NET_RAW, CAP_SETUID, CAP_SETGID, CAP_FOWNER]"

definition capability_arms :: "(string \<times> capability) list" where
  "capability_arms =
     [(''CHOWN'', CAP_CHOWN), (''DAC_OVERRIDE'', CAP_DAC_OVERRIDE), (''DAC_READ_SEARCH'', CAP_DAC_READ_SEARCH),
      (''FOWNER'', CAP_FOWNER), (''FSETID'', CAP_FSETID), (''KILL'', CAP_KILL), (''SETGID'', CAP_SETGID),
      (''SETUID'', CAP_SETUID), (''SETPCAP'', CAP_SETPCAP), (''LINUX_IMMUTABLE'', CAP_LINUX_IMMUTABLE),
      (''NET_BIND_SERVICE'', CAP_NET_BIND_SERVICE), (''NET_BROADCAST'', CAP_NET_BROADCAST),
      (''NET_ADMIN'', CAP_NET_ADMIN), (''NET_RAW'', CAP_NET_RAW), (''IPC_LOCK'', CAP_IPC_LOCK),
      (''IPC_OWNER'', CAP_IPC_OWNER), (''SYS_MODULE'', CAP_SYS_MODULE), (''SYS_RAWIO'', CAP_SYS_RAWIO),
      (''SYS_CHROOT'', CAP_SYS_CHROOT), (''SYS_PTRACE'', CAP_SYS_PTRACE), (''SYS_PACCT'', CAP_SYS_PACCT),
      (''SYS_ADMIN'', CAP_SYS_ADMIN), (''SYS_BOOT'', CAP_SYS_BOOT), (''SYS_NICE'', CAP_SYS_NICE),
      (''SYS_RESOURCE'', CAP_SYS_RESOURCE), (''SYS_TIME'', CAP_SYS_TIME), (''SYS_TTY_CONFIG'', CAP_SYS_TTY_CONFIG),
      (''MKNOD'', CAP_MKNOD), (''LEASE'', CAP_LEASE), (''AUDIT_WRITE'', CAP_AUDIT_WRITE),
      (''AUDIT_CONTROL'', CAP_AUDIT_CONTROL), (''SETFCAP'', CAP_SETFCAP), (''MAC_OVERRIDE'', CAP_MAC_OVERRIDE),
      (''MAC_ADMIN'', CAP_MAC_ADMIN), (''SYSLOG'', CAP_SYSLOG), (''WAKE_ALARM'', CAP_WAKE_ALARM),
      (''BLOCK_SUSPEND'', CAP_BLOCK_SUSPEND), (''AUDIT_READ'', CAP_AUDIT_READ), (''PERFMON'', CAP_PERFMON),
      (''BPF'', CAP_BPF), (''CHECKPOINT_RESTORE'', CAP_CHECKPOINT_RESTORE)]"

definition parse_capability_name :: "string \<Rightarrow> capability result" where
  "parse_capability_name name =
     (let normalized = (case strip_prefix ''CAP_'' name of Some rest \<Rightarrow> rest | None \<Rightarrow> name) in
      ok_or (match_arm normalized capability_arms)
        (ConfigError ''Unknown capability: {}. Use Linux names like NET_BIND_SERVICE.''))"

definition extend_unique :: "capability list \<Rightarrow> capability list \<Rightarrow> capability list" where
  "extend_unique dst src = foldl (\<lambda>dst cap. if cap \<in> set dst then dst else dst @ [cap]) dst src"

definition resolve_cap_list :: "string list \<Rightarrow> capability list result" where
  "resolve_cap_list names =
     try_fold (\<lambda>caps name. and_then (parse_capability_name name) (\<lambda>cap.
       Ok (if cap \<in> set caps then caps else caps @ [cap]))) [] names"

definition resolve_sets :: "caps_policy \<Rightarrow> capability_sets result" where
  "resolve_sets self =
     and_then (resolve_cap_list (keep (cp_bounding self))) (\<lambda>bounding.
     and_then (resolve_cap_list (keep (cp_effective self))) (\<lambda>effective.
     and_then (resolve_cap_list (keep (cp_ambient self))) (\<lambda>ambient.
     and_then (resolve_cap_list (keep (cp_inheritable self))) (\<lambda>inheritable0.
     (let inheritable = extend_unique inheritable0 ambient;
          permitted = extend_unique (extend_unique (extend_unique [] effective) inheritable) ambient in
      Ok \<lparr>cap_bounding = bounding, cap_permitted = permitted, cap_effective = effective,
          cap_inheritable = inheritable, cap_ambient = ambient\<rparr>)))))"

definition all_kept :: "capability_sets \<Rightarrow> capability list" where
  "all_kept sets = cap_bounding sets @ cap_permitted sets @ cap_effective sets @ cap_inheritable sets @ cap_ambient sets"

definition caps_validate_production :: "caps_policy \<Rightarrow> unit result" where
  "caps_validate_production self =
     and_then (resolve_sets self) (\<lambda>sets.
     reject_if (filter (\<lambda>dangerous. dangerous \<in> set (all_kept sets)) dangerous_capabilities \<noteq> [])
       (ConfigError ''Capability policy retains dangerous capabilities in production mode: [{}].''))"

section \<open>The manager\<close>

datatype cap_set = Bounding | Permitted | Effective | Inheritable | Ambient

type_synonym caps = "cap_set \<Rightarrow> capability set"

datatype cap_phase = CapInitial | BoundingDropped | CapDropped

text \<open>The manager and the sets of the process it runs in.\<close>

record capability_manager =
  cm_phase :: cap_phase
  cm_caps :: caps

definition capability_manager_new :: "caps \<Rightarrow> capability_manager" where
  "capability_manager_new cs = \<lparr>cm_phase = CapInitial, cm_caps = cs\<rparr>"

text \<open>The package: a call gives the sets afterwards and whether it succeeded; reading may fail.\<close>

record caps_api =
  ca_all :: "capability list"
  ca_drop :: "cap_set \<Rightarrow> capability \<Rightarrow> caps \<Rightarrow> caps \<times> bool"
  ca_clear :: "cap_set \<Rightarrow> caps \<Rightarrow> caps \<times> bool"
  ca_set :: "cap_set \<Rightarrow> capability set \<Rightarrow> caps \<Rightarrow> caps \<times> bool"
  ca_read :: "cap_set \<Rightarrow> caps \<Rightarrow> capability set option"

type_synonym 'a cap_action = "(capability_manager, 'a) action"

definition caps_call :: "(caps \<Rightarrow> caps \<times> bool) \<Rightarrow> nucleus_error \<Rightarrow> unit cap_action" where
  "caps_call f e m = (case f (cm_caps m) of (cs, ok) \<Rightarrow> (m\<lparr>cm_caps := cs\<rparr>, if ok then Ok () else Err e))"

definition caps_read :: "caps_api \<Rightarrow> cap_set \<Rightarrow> nucleus_error \<Rightarrow> capability set cap_action" where
  "caps_read api s e m = (m, ok_or (ca_read api s (cm_caps m)) e)"

definition set_phase :: "cap_phase \<Rightarrow> unit cap_action" where
  "set_phase p = modify (\<lambda>m. m\<lparr>cm_phase := p\<rparr>)"

definition drop_bounding_except :: "caps_api \<Rightarrow> capability list \<Rightarrow> unit cap_action" where
  "drop_bounding_except api kept =
     each (\<lambda>cap. only_if (cap \<notin> set kept)
       (attempt (caps_call (ca_drop api Bounding cap) (CapabilityError ''Failed to drop bounding cap {:?}: {}''))))
     (ca_all api)"

definition drop_bounding_set :: "caps_api \<Rightarrow> unit cap_action" where
  "drop_bounding_set api m =
     (if cm_phase m \<noteq> CapInitial then (m, Ok ())
      else
        seq (each (\<lambda>cap. attempt (caps_call (ca_drop api Bounding cap)
               (CapabilityError ''Failed to drop bounding cap {:?}: {}''))) (ca_all api)) (\<lambda>_.
        seq (caps_read api Bounding (CapabilityError ''Failed to read bounding set after drop: {}'')) (\<lambda>bounding.
        seq (give (reject_if (bounding \<noteq> {})
               (CapabilityError ''Bounding set still contains capabilities after drop: [{}]''))) (\<lambda>_.
        seq (caps_call (ca_clear api Ambient) (CapabilityError ''Failed to clear ambient caps: {}'')) (\<lambda>_.
        seq (caps_call (ca_clear api Inheritable) (CapabilityError ''Failed to clear inheritable caps: {}'')) (\<lambda>_.
        set_phase BoundingDropped))))) m)"

definition finalize_drop :: "caps_api \<Rightarrow> unit cap_action" where
  "finalize_drop api m =
     (if cm_phase m = CapDropped then (m, Ok ())
      else
        seq (if cm_phase m = CapInitial then drop_bounding_set api else give (Ok ())) (\<lambda>_.
        seq (caps_call (ca_clear api Permitted) (CapabilityError ''Failed to clear permitted caps: {}'')) (\<lambda>_.
        seq (caps_call (ca_clear api Effective) (CapabilityError ''Failed to clear effective caps: {}'')) (\<lambda>_.
        set_phase CapDropped))) m)"

definition drop_all :: "caps_api \<Rightarrow> unit cap_action" where
  "drop_all api = seq (drop_bounding_set api) (\<lambda>_. finalize_drop api)"

definition drop_except :: "caps_api \<Rightarrow> capability list \<Rightarrow> unit cap_action" where
  "drop_except api kept m =
     (if cm_phase m = CapDropped then (m, Ok ())
      else
        seq (drop_bounding_except api kept) (\<lambda>_.
        seq (caps_call (ca_clear api Ambient) (CapabilityError ''Failed to clear ambient caps: {}'')) (\<lambda>_.
        seq (each (\<lambda>cap. only_if (cap \<notin> set kept)
               (seq (caps_call (ca_drop api Inheritable cap) (CapabilityError ''Failed to drop {cap:?}: {e}'')) (\<lambda>_.
                seq (caps_call (ca_drop api Permitted cap) (CapabilityError ''Failed to drop {cap:?}: {e}'')) (\<lambda>_.
                caps_call (ca_drop api Effective cap) (CapabilityError ''Failed to drop {cap:?}: {e}''))))) (ca_all api)) (\<lambda>_.
        set_phase CapDropped))) m)"

definition apply_sets :: "caps_api \<Rightarrow> capability_sets \<Rightarrow> unit cap_action" where
  "apply_sets api sets m =
     (if cm_phase m = CapDropped then (m, Ok ())
      else
        seq (drop_bounding_except api (cap_bounding sets)) (\<lambda>_.
        seq (caps_call (ca_set api Permitted (set (cap_permitted sets)))
               (CapabilityError ''Failed to set permitted caps: {}'')) (\<lambda>_.
        seq (caps_call (ca_set api Effective (set (cap_effective sets)))
               (CapabilityError ''Failed to set effective caps: {}'')) (\<lambda>_.
        seq (caps_call (ca_set api Inheritable (set (cap_inheritable sets)))
               (CapabilityError ''Failed to set inheritable caps: {}'')) (\<lambda>_.
        seq (caps_call (ca_set api Ambient (set (cap_ambient sets)))
               (CapabilityError ''Failed to set ambient caps: {}'')) (\<lambda>_.
        set_phase CapDropped))))) m)"

definition is_dropped :: "capability_manager \<Rightarrow> bool" where
  "is_dropped m \<longleftrightarrow> cm_phase m = CapDropped"

definition verify_no_namespace_caps :: "caps_api \<Rightarrow> bool \<Rightarrow> caps \<Rightarrow> unit result" where
  "verify_no_namespace_caps api production cs =
     and_then (ok_or (ca_read api Effective cs) (CapabilityError ''Failed to read effective caps: {}'')) (\<lambda>effective.
     (let leaked = filter (\<lambda>cap. cap \<in> effective) [CAP_SYS_ADMIN, CAP_NET_ADMIN, CAP_SYS_PTRACE] in
      reject_if (leaked \<noteq> [] \<and> production)
        (CapabilityError ''SEC-CLONE3: namespace-creating capabilities still present after drop: [{}].'')))"

definition caps_apply :: "caps_api \<Rightarrow> caps_policy \<Rightarrow> unit cap_action" where
  "caps_apply api self =
     seq (give (resolve_sets self)) (\<lambda>sets.
     if cap_bounding sets = [] \<and> cap_permitted sets = [] \<and> cap_effective sets = [] \<and> cap_inheritable sets = []
       \<and> cap_ambient sets = []
     then drop_all api else apply_sets api sets)"

section \<open>What the package promises\<close>

definition shrinks :: "caps \<Rightarrow> caps \<Rightarrow> bool" where
  "shrinks cs cs' \<longleftrightarrow> (\<forall>s. cs' s \<subseteq> cs s)"

definition caps_sound :: "caps_api \<Rightarrow> bool" where
  "caps_sound api \<longleftrightarrow>
     set (ca_all api) = UNIV
     \<and> (\<forall>s c cs. shrinks cs (fst (ca_drop api s c cs)) \<and> (snd (ca_drop api s c cs) \<longrightarrow> c \<notin> fst (ca_drop api s c cs) s))
     \<and> (\<forall>s cs. shrinks cs (fst (ca_clear api s cs)) \<and> (snd (ca_clear api s cs) \<longrightarrow> fst (ca_clear api s cs) s = {}))
     \<and> (\<forall>s X cs. (\<forall>t. t \<noteq> s \<longrightarrow> fst (ca_set api s X cs) t \<subseteq> cs t) \<and> (snd (ca_set api s X cs) \<longrightarrow> fst (ca_set api s X cs) s = X))
     \<and> (\<forall>s X cs. ca_read api s cs = Some X \<longrightarrow> X = cs s)"

lemma shrinks_refl [simp]: "shrinks cs cs"
  by (simp add: shrinks_def)

lemma shrinks_trans: "shrinks a b \<Longrightarrow> shrinks b c \<Longrightarrow> shrinks a c"
  unfolding shrinks_def by blast

lemma shrinks_empty: "shrinks cs cs' \<Longrightarrow> cs s = {} \<Longrightarrow> cs' s = {}"
  unfolding shrinks_def by (metis subset_empty)

lemma caps_call_Ok:
  "caps_call f e m = (m', Ok u) \<longleftrightarrow> (\<exists>cs. f (cm_caps m) = (cs, True) \<and> m' = m\<lparr>cm_caps := cs\<rparr>)"
  by (auto simp: caps_call_def split: prod.splits)

lemma caps_read_Ok: "caps_sound api \<Longrightarrow> caps_read api s e m = (m', Ok x) \<Longrightarrow> m' = m \<and> x = cm_caps m s"
  unfolding caps_sound_def caps_read_def by (metis Pair_inject ok_or_Inr_iff)

lemma give_Ok: "give r m = (m', Ok x) \<longleftrightarrow> m' = m \<and> r = Ok x"
  by (auto simp: give_def)

lemma set_phase_Ok: "set_phase p m = (m', Ok u) \<longleftrightarrow> m' = m\<lparr>cm_phase := p\<rparr>"
  by (auto simp: set_phase_def modify_def)

lemmas caps_Ok = seq_Ok_iff caps_call_Ok give_Ok set_phase_Ok reject_if_Inr_iff

lemma sound_drop: "caps_sound api \<Longrightarrow> ca_drop api s c cs = (cs', ok) \<Longrightarrow> shrinks cs cs' \<and> (ok \<longrightarrow> c \<notin> cs' s)"
  unfolding caps_sound_def by (metis fst_conv snd_conv)

lemma sound_clear: "caps_sound api \<Longrightarrow> ca_clear api s cs = (cs', True) \<Longrightarrow> shrinks cs cs' \<and> cs' s = {}"
  unfolding caps_sound_def by (metis fst_conv snd_conv)

lemma sound_set: "caps_sound api \<Longrightarrow> ca_set api s X cs = (cs', True) \<Longrightarrow> cs' s = X \<and> (\<forall>t. t \<noteq> s \<longrightarrow> cs' t \<subseteq> cs t)"
  unfolding caps_sound_def by (metis fst_conv snd_conv)

text \<open>The loop over the bounding set ends without an error whatever fails in it.\<close>

lemma drop_bounding_except_spec:
  assumes "caps_sound api"
  shows "\<exists>cs'. each (\<lambda>cap. only_if (cap \<notin> set kept) (attempt (caps_call (ca_drop api s cap) e))) caps m
      = (m\<lparr>cm_caps := cs'\<rparr>, Ok ()) \<and> shrinks (cm_caps m) cs'
      \<and> ((\<forall>c cs. snd (ca_drop api s c cs)) \<longrightarrow> (\<forall>c \<in> set caps. c \<in> cs' s \<longrightarrow> c \<in> set kept))"
proof (induction caps arbitrary: m)
  case Nil
  show ?case by (intro exI[of _ "cm_caps m"]) (simp add: give_def)
next
  case (Cons c caps)
  obtain cs1 ok where d: "ca_drop api s c (cm_caps m) = (cs1, ok)" by fastforce
  let ?m1 = "if c \<in> set kept then m else m\<lparr>cm_caps := cs1\<rparr>"
  from Cons[of ?m1] obtain cs' where cs':
    "each (\<lambda>cap. only_if (cap \<notin> set kept) (attempt (caps_call (ca_drop api s cap) e))) caps ?m1
       = (?m1\<lparr>cm_caps := cs'\<rparr>, Ok ())" "shrinks (cm_caps ?m1) cs'"
    "(\<forall>c cs. snd (ca_drop api s c cs)) \<longrightarrow> (\<forall>c \<in> set caps. c \<in> cs' s \<longrightarrow> c \<in> set kept)" by blast
  have "each (\<lambda>cap. only_if (cap \<notin> set kept) (attempt (caps_call (ca_drop api s cap) e))) (c # caps) m
      = (m\<lparr>cm_caps := cs'\<rparr>, Ok ())"
    using cs'(1) d by (auto simp: seq_def only_if_def give_def attempt_def caps_call_def split: if_splits)
  moreover have "shrinks (cm_caps m) cs'"
    using cs'(2) sound_drop[OF assms d] by (auto split: if_splits intro: shrinks_trans)
  moreover have "c \<in> set kept" if "c \<in> cs' s" "\<forall>c cs. snd (ca_drop api s c cs)"
  proof (rule ccontr)
    assume n: "c \<notin> set kept"
    then have "c \<notin> cs1 s" using sound_drop[OF assms d] that(2) d by (metis snd_conv)
    with cs'(2) n that(1) show False by (auto simp: shrinks_def)
  qed
  ultimately show ?case using cs'(3) by auto
qed

lemma drop_bounding_set_Ok:
  assumes "caps_sound api" "cm_phase m = CapInitial" "drop_bounding_set api m = (m', Ok ())"
  shows "cm_phase m' = BoundingDropped" "shrinks (cm_caps m) (cm_caps m')"
    "cm_caps m' Bounding = {}" "cm_caps m' Ambient = {}" "cm_caps m' Inheritable = {}"
proof -
  let ?e = "CapabilityError ''Failed to drop bounding cap {:?}: {}''"
  obtain cs1 where loop: "each (\<lambda>cap. attempt (caps_call (ca_drop api Bounding cap) ?e)) (ca_all api) m
      = (m\<lparr>cm_caps := cs1\<rparr>, Ok ())" "shrinks (cm_caps m) cs1"
    using drop_bounding_except_spec[OF assms(1), of "[]" Bounding ?e "ca_all api" m] by (auto simp: only_if_def)
  from assms(2,3) loop(1) obtain bounding m1 cs2 cs3 where
    r: "caps_read api Bounding (CapabilityError ''Failed to read bounding set after drop: {}'') (m\<lparr>cm_caps := cs1\<rparr>) = (m1, Ok bounding)"
      "bounding = {}"
    and c: "ca_clear api Ambient (cm_caps m1) = (cs2, True)" "ca_clear api Inheritable cs2 = (cs3, True)"
    and m': "m' = m1\<lparr>cm_caps := cs3, cm_phase := BoundingDropped\<rparr>"
    by (auto simp: drop_bounding_set_def caps_Ok)
  from caps_read_Ok[OF assms(1) r(1)] r(2) have cs1: "cm_caps m1 = cs1" "cs1 Bounding = {}" by auto
  note a = sound_clear[OF assms(1) c(1)] and i = sound_clear[OF assms(1) c(2)]
  show "cm_phase m' = BoundingDropped" "shrinks (cm_caps m) (cm_caps m')"
    using m' loop(2) a i cs1(1) by (auto intro: shrinks_trans)
  show "cm_caps m' Bounding = {}" "cm_caps m' Ambient = {}" "cm_caps m' Inheritable = {}"
    using m' a i cs1 shrinks_empty[of "cm_caps m1" cs2 Bounding] by (auto dest: shrinks_empty)
qed

lemma finalize_drop_Ok:
  assumes "caps_sound api" "cm_phase m = BoundingDropped" "finalize_drop api m = (m', Ok ())"
  shows "cm_phase m' = CapDropped" "shrinks (cm_caps m) (cm_caps m')"
    "cm_caps m' Permitted = {}" "cm_caps m' Effective = {}"
proof -
  from assms(2,3) obtain cs1 cs2 where c: "ca_clear api Permitted (cm_caps m) = (cs1, True)"
    "ca_clear api Effective cs1 = (cs2, True)" and m': "m' = m\<lparr>cm_caps := cs2, cm_phase := CapDropped\<rparr>"
    by (auto simp: finalize_drop_def caps_Ok)
  note p = sound_clear[OF assms(1) c(1)] and e = sound_clear[OF assms(1) c(2)]
  show "cm_phase m' = CapDropped" "shrinks (cm_caps m) (cm_caps m')" using m' p e by (auto intro: shrinks_trans)
  show "cm_caps m' Permitted = {}" "cm_caps m' Effective = {}" using m' p e by (auto dest: shrinks_empty)
qed

section \<open>Properties\<close>

text \<open>
  the two phases drop everything. When both succeed, with a switch of identity between them that adds to no
  set, all five sets are empty; the bounding set is empty before the switch, and the manager counts as dropped
  only then.
\<close>

theorem two_phase_drop_complete:
  assumes "caps_sound api" "cm_phase m = CapInitial"
    and "drop_bounding_set api m = (m1, Ok ())" "shrinks (cm_caps m1) cs"
    and "finalize_drop api (m1\<lparr>cm_caps := cs\<rparr>) = (m2, Ok ())"
  shows "cm_caps m1 Bounding = {} \<and> \<not> is_dropped m1 \<and> is_dropped m2 \<and> (\<forall>s. cm_caps m2 s = {})"
proof -
  note b = drop_bounding_set_Ok[OF assms(1-3)]
  have "cm_phase (m1\<lparr>cm_caps := cs\<rparr>) = BoundingDropped" using b(1) by simp
  note f = finalize_drop_Ok[OF assms(1) this assms(5)]
  have "shrinks (cm_caps m1) (cm_caps m2)" using assms(4) f(2) by (auto intro: shrinks_trans)
  then have "cm_caps m2 s = {}" for s using b(3-5) f(3,4) by (cases s) (auto dest: shrinks_empty)
  with b f show ?thesis by (simp add: is_dropped_def)
qed

text \<open>A package that does what is asked.\<close>

definition plain_caps :: caps_api where
  "plain_caps =
     \<lparr>ca_all = map snd capability_arms,
      ca_drop = (\<lambda>s c cs. (cs(s := cs s - {c}), True)), ca_clear = (\<lambda>s cs. (cs(s := {}), True)),
      ca_set = (\<lambda>s X cs. (cs(s := X), True)), ca_read = (\<lambda>s cs. Some (cs s))\<rparr>"

lemma all_capabilities: "set (map snd capability_arms) = UNIV"
proof -
  have "c \<in> set (map snd capability_arms)" for c by (cases c) (simp_all add: capability_arms_def)
  then show ?thesis by blast
qed

lemma plain_caps_sound: "caps_sound plain_caps"
  unfolding caps_sound_def plain_caps_def using all_capabilities by (auto simp: shrinks_def)

lemma plain_drop_bounding:
  "drop_bounding_set plain_caps (capability_manager_new (\<lambda>_. {CAP_SETUID}))
     = (\<lparr>cm_phase = BoundingDropped, cm_caps = (\<lambda>s. if s \<in> {Permitted, Effective} then {CAP_SETUID} else {})\<rparr>, Ok ())"
proof -
  let ?m = "capability_manager_new (\<lambda>_. {CAP_SETUID})"
  let ?e = "CapabilityError ''Failed to drop bounding cap {:?}: {}''"
  have diff: "A - {a} - B = A - insert a B" for a :: capability and A B by blast
  have loop: "each (\<lambda>cap. attempt (caps_call (ca_drop plain_caps s cap) e)) cs m
      = (m\<lparr>cm_caps := (cm_caps m)(s := cm_caps m s - set cs)\<rparr>, Ok ())" for s e cs m
    by (induction cs arbitrary: m)
      (simp_all add: give_def seq_def attempt_def caps_call_def plain_caps_def diff)
  have plain_sel: "ca_read plain_caps s cs = Some (cs s)" "ca_clear plain_caps s cs = (cs(s := {}), True)" for s cs
    by (simp_all add: plain_caps_def)
  have "set (ca_all plain_caps) = UNIV" using plain_caps_sound by (simp add: caps_sound_def)
  then show ?thesis
    by (auto simp: drop_bounding_set_def loop seq_def caps_read_def caps_call_def give_def reject_if_def set_phase_def
        modify_def capability_manager_new_def plain_sel fun_eq_iff intro: cap_set.exhaust)
qed

theorem two_phase_drop_complete_witness:
  "\<exists>m2. finalize_drop plain_caps \<lparr>cm_phase = BoundingDropped, cm_caps = (\<lambda>s. if s = Permitted then {CAP_SETUID} else {})\<rparr> = (m2, Ok ())
     \<and> (\<forall>s. cm_caps m2 s = {})"
proof -
  let ?m1 = "\<lparr>cm_phase = BoundingDropped, cm_caps = (\<lambda>s. if s \<in> {Permitted, Effective} then {CAP_SETUID} else {})\<rparr>"
  let ?cs = "\<lambda>s. if s = Permitted then {CAP_SETUID} else {}"
  obtain m2 where m2: "finalize_drop plain_caps (?m1\<lparr>cm_caps := ?cs\<rparr>) = (m2, Ok ())"
    by (simp add: finalize_drop_def seq_def give_def caps_call_def plain_caps_def set_phase_def modify_def)
  have "cm_phase (capability_manager_new (\<lambda>_. {CAP_SETUID})) = CapInitial" by (simp add: capability_manager_new_def)
  from two_phase_drop_complete[OF plain_caps_sound this plain_drop_bounding _ m2] m2
  show ?thesis by (auto simp: shrinks_def)
qed

section \<open>Policies in production\<close>

lemma apply_sets_Ok:
  assumes "caps_sound api" "cm_phase m \<noteq> CapDropped" "apply_sets api sets m = (m', Ok ())"
  shows "is_dropped m'" "cm_caps m' Permitted \<subseteq> set (cap_permitted sets)" "cm_caps m' Effective \<subseteq> set (cap_effective sets)"
    "cm_caps m' Inheritable \<subseteq> set (cap_inheritable sets)" "cm_caps m' Ambient = set (cap_ambient sets)"
    "(\<forall>c cs. snd (ca_drop api Bounding c cs)) \<longrightarrow> cm_caps m' Bounding \<subseteq> set (cap_bounding sets)"
proof -
  obtain cs0 where loop: "drop_bounding_except api (cap_bounding sets) m = (m\<lparr>cm_caps := cs0\<rparr>, Ok ())"
    "(\<forall>c cs. snd (ca_drop api Bounding c cs)) \<longrightarrow> (\<forall>c \<in> set (ca_all api). c \<in> cs0 Bounding \<longrightarrow> c \<in> set (cap_bounding sets))"
    using drop_bounding_except_spec[OF assms(1), of "cap_bounding sets" Bounding _ "ca_all api" m]
    unfolding drop_bounding_except_def by blast
  from assms(2,3) loop(1) obtain cs1 cs2 cs3 cs4 where
    c: "ca_set api Permitted (set (cap_permitted sets)) cs0 = (cs1, True)"
      "ca_set api Effective (set (cap_effective sets)) cs1 = (cs2, True)"
      "ca_set api Inheritable (set (cap_inheritable sets)) cs2 = (cs3, True)"
      "ca_set api Ambient (set (cap_ambient sets)) cs3 = (cs4, True)"
    and m': "m' = m\<lparr>cm_caps := cs4, cm_phase := CapDropped\<rparr>"
    by (auto simp: apply_sets_def caps_Ok)
  note s1 = sound_set[OF assms(1) c(1)] and s2 = sound_set[OF assms(1) c(2)]
    and s3 = sound_set[OF assms(1) c(3)] and s4 = sound_set[OF assms(1) c(4)]
  show "is_dropped m'" "cm_caps m' Ambient = set (cap_ambient sets)" using m' s4 by (simp_all add: is_dropped_def)
  show "cm_caps m' Permitted \<subseteq> set (cap_permitted sets)" using m' s1 s2 s3 s4
    by simp (metis cap_set.distinct subset_trans)
  show "cm_caps m' Effective \<subseteq> set (cap_effective sets)" using m' s2 s3 s4
    by simp (metis cap_set.distinct subset_trans)
  show "cm_caps m' Inheritable \<subseteq> set (cap_inheritable sets)" using m' s3 s4
    by simp (metis cap_set.distinct)
  have "set (ca_all api) = UNIV" using assms(1) by (simp add: caps_sound_def)
  moreover have "cs4 Bounding \<subseteq> cs0 Bounding" using s1 s2 s3 s4
    by (metis cap_set.distinct(1,3,5,7) subset_trans)
  ultimately show "(\<forall>c cs. snd (ca_drop api Bounding c cs)) \<longrightarrow> cm_caps m' Bounding \<subseteq> set (cap_bounding sets)"
    using loop(2) m' by auto
qed

lemma set_extend_unique: "set (extend_unique dst src) = set dst \<union> set src"
  unfolding extend_unique_def by (induction src arbitrary: dst) auto

lemma resolve_sets_kept:
  assumes "resolve_sets p = Ok sets"
  shows "set (cap_effective sets) \<subseteq> set (cap_permitted sets)" "set (cap_inheritable sets) \<subseteq> set (cap_permitted sets)"
    "set (cap_ambient sets) \<subseteq> set (cap_permitted sets) \<inter> set (cap_inheritable sets)"
  using assms by (auto simp: resolve_sets_def result_simps Let_def set_extend_unique)

lemma validated_policy_kept:
  assumes "caps_validate_production p = Ok ()" "resolve_sets p = Ok sets" "d \<in> set dangerous_capabilities"
  shows "d \<notin> set (all_kept sets)"
  using assms by (auto simp: caps_validate_production_def result_simps filter_empty_conv)

text \<open>
  C22: a capability policy that passes the production check, once applied by a fresh manager without an error, leaves
  no dangerous capability in the permitted, effective, inheritable or ambient set, and none in the bounding set when
  the policy keeps nothing or every drop from the bounding set succeeded. The ambient set stays within what the kernel
  allows, the permitted and inheritable sets.
\<close>

theorem production_policy_drops_dangerous:
  assumes "caps_sound api" "cm_phase m = CapInitial"
    and "caps_validate_production p = Ok ()" "caps_apply api p m = (m', Ok ())"
    and "d \<in> set dangerous_capabilities"
  shows "is_dropped m' \<and> d \<notin> cm_caps m' Permitted \<union> cm_caps m' Effective \<union> cm_caps m' Inheritable \<union> cm_caps m' Ambient
    \<and> ((\<forall>c cs. snd (ca_drop api Bounding c cs)) \<longrightarrow> d \<notin> cm_caps m' Bounding)"
proof -
  from assms(4) obtain sets where sets: "resolve_sets p = Ok sets"
    and run: "(if all_kept sets = [] then drop_all api else apply_sets api sets) m = (m', Ok ())"
    by (auto simp: caps_apply_def caps_Ok all_kept_def)
  note d = validated_policy_kept[OF assms(3) sets assms(5)]
  show ?thesis
  proof (cases "all_kept sets = []")
    case True
    with run obtain m1 where m1: "drop_bounding_set api m = (m1, Ok ())" "finalize_drop api m1 = (m', Ok ())"
      by (auto simp: drop_all_def caps_Ok)
    note b = drop_bounding_set_Ok[OF assms(1,2) m1(1)]
    note f = finalize_drop_Ok[OF assms(1) b(1) m1(2)]
    have "cm_caps m' s = {}" for s using b(3-5) f(2-4) by (cases s) (auto dest: shrinks_empty)
    with f(1) show ?thesis by (simp add: is_dropped_def)
  next
    case False
    with run have "apply_sets api sets m = (m', Ok ())" by simp
    from apply_sets_Ok[OF assms(1) _ this] assms(2) d show ?thesis
      unfolding all_kept_def set_append by (auto dest: subsetD)
  qed
qed

definition demo_caps_policy :: caps_policy where
  "demo_caps_policy = \<lparr>cp_bounding = \<lparr>keep = [''NET_BIND_SERVICE'']\<rparr>, cp_ambient = \<lparr>keep = []\<rparr>,
     cp_effective = \<lparr>keep = [''CAP_NET_BIND_SERVICE'']\<rparr>, cp_inheritable = \<lparr>keep = []\<rparr>\<rparr>"

lemma parse_bind_service:
  "parse_capability_name ''NET_BIND_SERVICE'' = Ok CAP_NET_BIND_SERVICE"
  "parse_capability_name ''CAP_NET_BIND_SERVICE'' = Ok CAP_NET_BIND_SERVICE"
proof -
  have "match_arm ''NET_BIND_SERVICE'' capability_arms = Some CAP_NET_BIND_SERVICE"
    unfolding capability_arms_def by (simp only: match_eval)
  then show "parse_capability_name ''NET_BIND_SERVICE'' = Ok CAP_NET_BIND_SERVICE"
    "parse_capability_name ''CAP_NET_BIND_SERVICE'' = Ok CAP_NET_BIND_SERVICE"
    by (simp_all add: parse_capability_name_def)
qed

lemma demo_caps_sets:
  "resolve_sets demo_caps_policy = Ok \<lparr>cap_bounding = [CAP_NET_BIND_SERVICE], cap_permitted = [CAP_NET_BIND_SERVICE],
     cap_effective = [CAP_NET_BIND_SERVICE], cap_inheritable = [], cap_ambient = []\<rparr>"
  by (simp add: resolve_sets_def demo_caps_policy_def resolve_cap_list_def parse_bind_service extend_unique_def)

lemma demo_caps_valid: "caps_validate_production demo_caps_policy = Ok ()"
proof -
  have "CAP_NET_BIND_SERVICE \<notin> set dangerous_capabilities"
    unfolding dangerous_capabilities_def by (simp only: list.set insert_iff empty_iff capability.distinct simp_thms)
  then have "filter (\<lambda>d. d \<in> {CAP_NET_BIND_SERVICE}) dangerous_capabilities = []" by (auto simp: filter_empty_conv)
  then show ?thesis
    by (simp add: caps_validate_production_def demo_caps_sets all_kept_def reject_if_def)
qed

lemma plain_apply: "\<exists>m'. caps_apply plain_caps demo_caps_policy (capability_manager_new cs) = (m', Ok ())"
proof -
  obtain cs' where loop: "drop_bounding_except plain_caps [CAP_NET_BIND_SERVICE] (capability_manager_new cs)
      = ((capability_manager_new cs)\<lparr>cm_caps := cs'\<rparr>, Ok ())"
    using drop_bounding_except_spec[OF plain_caps_sound] unfolding drop_bounding_except_def by blast
  have sel: "ca_set plain_caps s X cs = (cs(s := X), True)" for s X cs by (simp add: plain_caps_def)
  show ?thesis
    using loop by (simp add: caps_apply_def seq_def give_def demo_caps_sets apply_sets_def caps_call_def sel set_phase_def
        modify_def capability_manager_new_def)
qed

theorem production_policy_drops_dangerous_witness:
  "\<exists>m'. caps_apply plain_caps demo_caps_policy (capability_manager_new (\<lambda>_. UNIV)) = (m', Ok ())
     \<and> CAP_SYS_ADMIN \<notin> cm_caps m' Bounding \<union> cm_caps m' Permitted"
proof -
  obtain m' where m': "caps_apply plain_caps demo_caps_policy (capability_manager_new (\<lambda>_. UNIV)) = (m', Ok ())"
    using plain_apply by blast
  have "CAP_SYS_ADMIN \<in> set dangerous_capabilities" by (simp add: dangerous_capabilities_def)
  from production_policy_drops_dangerous[OF plain_caps_sound _ demo_caps_valid m' this] m' show ?thesis
    by (auto simp: capability_manager_new_def plain_caps_def)
qed

text \<open>
  C1: unlike \<open>drop_all\<close>, which reads the bounding set back, applying a policy that keeps something does not notice that
  the bounding set could not be reduced: with a package that refuses every drop, the policy above is applied without an
  error and \<^verbatim>\<open>CAP_SYS_ADMIN\<close> stays in the bounding set, while \<open>drop_all\<close> fails.
\<close>

definition refusing_caps :: caps_api where
  "refusing_caps = plain_caps\<lparr>ca_drop := (\<lambda>s c cs. (cs, False))\<rparr>"

lemma refusing_caps_sound: "caps_sound refusing_caps"
  using plain_caps_sound unfolding caps_sound_def refusing_caps_def by (simp add: shrinks_def)

lemma refusing_loop:
  "each (\<lambda>cap. only_if (P cap) (attempt (caps_call (ca_drop refusing_caps s cap) e))) cs m = (m, Ok ())"
  "each (\<lambda>cap. attempt (caps_call (ca_drop refusing_caps s cap) e)) cs m = (m, Ok ())"
  by (induction cs) (simp_all add: give_def seq_def only_if_def attempt_def caps_call_def refusing_caps_def)

theorem applied_policy_keeps_bounding:
  "(\<exists>m'. caps_apply refusing_caps demo_caps_policy (capability_manager_new (\<lambda>_. UNIV)) = (m', Ok ())
      \<and> CAP_SYS_ADMIN \<in> cm_caps m' Bounding)
   \<and> (\<exists>m' e. drop_all refusing_caps (capability_manager_new (\<lambda>_. UNIV)) = (m', Err e))"
proof -
  have sel: "ca_set refusing_caps s X cs = (cs(s := X), True)" "ca_read refusing_caps s cs = Some (cs s)" for s X cs
    by (simp_all add: refusing_caps_def plain_caps_def)
  have "drop_bounding_except refusing_caps kept m = (m, Ok ())" for kept m
    unfolding drop_bounding_except_def by (rule refusing_loop)
  then show ?thesis
    by (simp add: caps_apply_def seq_def give_def demo_caps_sets apply_sets_def caps_call_def sel set_phase_def modify_def
        capability_manager_new_def drop_all_def drop_bounding_set_def refusing_loop caps_read_def reject_if_def)
qed

end
