(* ===== verification/Landlock.thy ===== *)
theory Landlock
  imports Paths
begin

text \<open>
  Landlock: the manager with the container policy and the execute allowlist (\<^verbatim>\<open>src/src/security/landlock.rs\<close>)
  and policies from a file (\<^verbatim>\<open>src/src/security/landlock_policy.rs\<close>).

  The package \<^verbatim>\<open>landlock\<close> and the kernel are the record \<open>landlock_api\<close>: the access rights of an ABI, which
  paths can be opened, which calls fail and what \<^verbatim>\<open>restrict_self\<close> answers. A ruleset is the rights it handles and
  its rules in order. What it means is \<open>ruleset_allows\<close>: a right that is not handled is not restricted, a handled one
  is allowed at a path when a rule at or above the path grants it.
\<close>

section \<open>Rights, rules and the package\<close>

datatype access_fs =
    Execute | WriteFile | ReadFile | ReadDir | RemoveDir | RemoveFile | MakeChar | MakeDir | MakeReg | MakeSock
  | MakeFifo | MakeBlock | MakeSym | Refer | Truncate | IoctlDev

datatype abi = ABI_V1 | ABI_V2 | ABI_V3 | ABI_V4 | ABI_V5

datatype ruleset_status = FullyEnforced | PartiallyEnforced | NotEnforced

record ruleset =
  rs_handled :: "access_fs set"
  rs_rules :: "(path \<times> access_fs set) list"

record landlock_api =
  from_read :: "abi \<Rightarrow> access_fs set"
  from_write :: "abi \<Rightarrow> access_fs set"
  handle_access_ok :: "access_fs set \<Rightarrow> bool"
  create_ok :: "access_fs set \<Rightarrow> bool"
  path_opens :: "path \<Rightarrow> bool"
  add_rule_ok :: "path \<Rightarrow> access_fs set \<Rightarrow> bool"
  restrict_self :: "ruleset \<Rightarrow> ruleset_status option"

definition from_all :: "landlock_api \<Rightarrow> abi \<Rightarrow> access_fs set" where
  "from_all api v = from_read api v \<union> from_write api v"

definition TARGET_ABI :: abi where "TARGET_ABI = ABI_V5"
definition MINIMUM_PRODUCTION_ABI :: abi where "MINIMUM_PRODUCTION_ABI = ABI_V3"

definition ll_err :: nucleus_error where "ll_err = LandlockError ''{}''"

definition handle_and_create :: "landlock_api \<Rightarrow> access_fs set \<Rightarrow> ruleset result" where
  "handle_and_create api handled =
     and_then (reject_if (\<not> handle_access_ok api handled) ll_err) (\<lambda>_.
     and_then (reject_if (\<not> create_ok api handled) ll_err) (\<lambda>_.
     Ok \<lparr>rs_handled = handled, rs_rules = []\<rparr>))"

definition add_rule :: "landlock_api \<Rightarrow> path \<Rightarrow> access_fs set \<Rightarrow> ruleset \<Rightarrow> ruleset result" where
  "add_rule api p access rs =
     (if add_rule_ok api p access then Ok (rs\<lparr>rs_rules := rs_rules rs @ [(p, access)]\<rparr>) else Err ll_err)"

text \<open>The statement \<^verbatim>\<open>if let Ok(fd) = PathFd::new(path)\<close> with the rule in its body.\<close>

definition rule_if_opens :: "landlock_api \<Rightarrow> ruleset \<Rightarrow> string \<times> access_fs set \<Rightarrow> ruleset result" where
  "rule_if_opens api rs = (\<lambda>(p, access).
     if path_opens api (path_new p) then add_rule api (path_new p) access rs else Ok rs)"

definition restrict :: "landlock_api \<Rightarrow> ruleset \<Rightarrow> (ruleset \<times> ruleset_status) result" where
  "restrict api rs = and_then (ok_or (restrict_self api rs) ll_err) (\<lambda>status. Ok (rs, status))"

section \<open>The manager\<close>

datatype path_access_mode = ReadOnly | ReadExecute | ReadWrite | ReadWriteExecute

text \<open>The rulesets that the process was restricted by belong to the state.\<close>

record landlock_manager =
  lm_applied :: bool
  lm_extra_paths :: "(string \<times> path_access_mode) list"
  lm_workspace_access :: path_access_mode
  lm_domains :: "(ruleset \<times> ruleset_status) list"

definition landlock_manager_new :: landlock_manager where
  "landlock_manager_new = \<lparr>lm_applied = False, lm_extra_paths = [], lm_workspace_access = ReadWrite, lm_domains = []\<rparr>"

definition add_rw_path :: "string \<Rightarrow> landlock_manager \<Rightarrow> landlock_manager" where
  "add_rw_path p self = self\<lparr>lm_extra_paths := lm_extra_paths self @ [(p, ReadWrite)]\<rparr>"

definition add_ro_path :: "string \<Rightarrow> landlock_manager \<Rightarrow> landlock_manager" where
  "add_ro_path p self = self\<lparr>lm_extra_paths := lm_extra_paths self @ [(p, ReadOnly)]\<rparr>"

definition add_read_exec_path :: "string \<Rightarrow> landlock_manager \<Rightarrow> landlock_manager" where
  "add_read_exec_path p self = self\<lparr>lm_extra_paths := lm_extra_paths self @ [(p, ReadExecute)]\<rparr>"

definition add_rw_exec_path :: "string \<Rightarrow> landlock_manager \<Rightarrow> landlock_manager" where
  "add_rw_exec_path p self = self\<lparr>lm_extra_paths := lm_extra_paths self @ [(p, ReadWriteExecute)]\<rparr>"

definition set_workspace_access :: "bool \<Rightarrow> bool \<Rightarrow> landlock_manager \<Rightarrow> landlock_manager" where
  "set_workspace_access read_only allow_execute self =
     self\<lparr>lm_workspace_access :=
       (case (read_only, allow_execute) of
          (True, False) \<Rightarrow> ReadOnly
        | (True, True) \<Rightarrow> ReadExecute
        | (False, False) \<Rightarrow> ReadWrite
        | (False, True) \<Rightarrow> ReadWriteExecute)\<rparr>"

definition assert_minimum_abi :: "landlock_api \<Rightarrow> bool \<Rightarrow> unit result" where
  "assert_minimum_abi api production_mode =
     (if handle_access_ok api (from_all api MINIMUM_PRODUCTION_ABI) then Ok ()
      else if production_mode then Err ll_err else Ok ())"

definition access_tmp :: "landlock_api \<Rightarrow> access_fs set" where
  "access_tmp api = from_all api TARGET_ABI - {Execute}"

definition access_for_mode :: "landlock_api \<Rightarrow> path_access_mode \<Rightarrow> access_fs set" where
  "access_for_mode api mode =
     (case mode of
        ReadOnly \<Rightarrow> from_read api TARGET_ABI
      | ReadExecute \<Rightarrow> from_read api TARGET_ABI \<union> {Execute}
      | ReadWrite \<Rightarrow> access_tmp api
      | ReadWriteExecute \<Rightarrow> access_tmp api \<union> {Execute})"

definition container_rules :: "landlock_api \<Rightarrow> landlock_manager \<Rightarrow> (string \<times> access_fs set) list" where
  "container_rules api self =
     (let access_read = from_read api TARGET_ABI; access_read_exec = access_read \<union> {Execute} in
      [(''/'', {ReadDir})]
      @ map (\<lambda>p. (p, access_read_exec)) [''/bin'', ''/usr'', ''/sbin'']
      @ map (\<lambda>p. (p, access_read)) [''/lib'', ''/lib64'', ''/lib32'']
      @ map (\<lambda>p. (p, access_read)) [''/etc'', ''/dev'', ''/proc'']
      @ [(''/dev/shm'', access_tmp api), (''/tmp'', access_tmp api), (''/nix/store'', access_read_exec),
         (''/run/secrets'', access_read), (''/context'', access_read),
         (''/workspace'', access_for_mode api (lm_workspace_access self))]
      @ map (\<lambda>(p, mode). (p, access_for_mode api mode)) (lm_extra_paths self))"

definition build_and_restrict :: "landlock_api \<Rightarrow> landlock_manager \<Rightarrow> (ruleset \<times> ruleset_status) result" where
  "build_and_restrict api self =
     and_then (handle_and_create api (from_all api TARGET_ABI)) (\<lambda>rs0.
     and_then (try_fold (rule_if_opens api) rs0 (container_rules api self)) (restrict api))"

definition build_execute_allowlist_and_restrict ::
  "landlock_api \<Rightarrow> (path \<Rightarrow> path option) \<Rightarrow> path list \<Rightarrow> (ruleset \<times> ruleset_status) result" where
  "build_execute_allowlist_and_restrict api canonicalize allowed_roots =
     and_then (handle_and_create api {Execute}) (\<lambda>rs0.
     and_then (try_fold (\<lambda>(rs, added_rules) root.
         (let canonical = (case canonicalize root of Some c \<Rightarrow> c | None \<Rightarrow> root) in
          if path_opens api canonical
          then and_then (add_rule api canonical {Execute} rs) (\<lambda>rs'. Ok (rs', added_rules + (1 :: nat)))
          else Ok (rs, added_rules))) (rs0, 0) allowed_roots) (\<lambda>(rs, added_rules).
     if added_rules = 0 then Err (LandlockError ''Landlock execute allowlist has no valid executable roots'')
     else restrict api rs))"

text \<open>
  The treatment of the outcome, the same in both methods up to the texts. A restriction that was made stays,
  also when the method returns an error for it.
\<close>

definition settle ::
  "bool \<Rightarrow> (ruleset \<times> ruleset_status) result \<Rightarrow> landlock_manager \<Rightarrow> landlock_manager \<times> bool result" where
  "settle best_effort outcome self =
     (case outcome of
        Inr (rs, status) \<Rightarrow>
          (let self' = (if status = NotEnforced then self else self\<lparr>lm_domains := lm_domains self @ [(rs, status)]\<rparr>) in
           case status of
             FullyEnforced \<Rightarrow> (self'\<lparr>lm_applied := True\<rparr>, Ok True)
           | PartiallyEnforced \<Rightarrow>
               if best_effort then (self'\<lparr>lm_applied := True\<rparr>, Ok True)
               else (self', Err (LandlockError ''Landlock policy only partially enforced''))
           | NotEnforced \<Rightarrow>
               if best_effort then (self', Ok False) else (self', Err (LandlockError ''Landlock not enforced'')))
      | Inl e \<Rightarrow> if best_effort then (self, Ok False) else (self, Err e))"

definition apply_container_policy_with_mode ::
  "landlock_api \<Rightarrow> bool \<Rightarrow> landlock_manager \<Rightarrow> landlock_manager \<times> bool result" where
  "apply_container_policy_with_mode api best_effort self =
     (if lm_applied self then (self, Ok True) else settle best_effort (build_and_restrict api self) self)"

definition apply_container_policy :: "landlock_api \<Rightarrow> landlock_manager \<Rightarrow> landlock_manager \<times> bool result" where
  "apply_container_policy api = apply_container_policy_with_mode api False"

definition apply_execute_allowlist_policy ::
  "landlock_api \<Rightarrow> (path \<Rightarrow> path option) \<Rightarrow> path list \<Rightarrow> bool \<Rightarrow> landlock_manager \<Rightarrow> landlock_manager \<times> bool result" where
  "apply_execute_allowlist_policy api canonicalize allowed_roots best_effort self =
     (if lm_applied self then (self, Ok True)
      else settle best_effort (build_execute_allowlist_and_restrict api canonicalize allowed_roots) self)"

section \<open>Policies from a file\<close>

record landlock_rule =
  lr_path :: string
  lr_access :: "string list"

record landlock_policy =
  min_abi :: u8
  lp_rules :: "landlock_rule list"

definition default_min_abi :: u8 where "default_min_abi = 3"

definition access_arms :: "landlock_api \<Rightarrow> (string \<times> access_fs set) list" where
  "access_arms api =
     [(''read'', from_read api TARGET_ABI), (''write'', {WriteFile, Truncate}), (''execute'', {Execute}),
      (''create'', {MakeChar, MakeDir, MakeReg, MakeSock, MakeFifo, MakeSym, MakeBlock}),
      (''remove'', {RemoveDir, RemoveFile}), (''readdir'', {ReadDir}), (''all'', from_all api TARGET_ABI),
      (''all_except_execute'', from_all api TARGET_ABI - {Execute})]"

definition parse_access_flags :: "landlock_api \<Rightarrow> string list \<Rightarrow> access_fs set result" where
  "parse_access_flags api names =
     try_fold (\<lambda>flags name. and_then (ok_or (match_arm name (access_arms api))
         (ConfigError ''Unknown Landlock access flag: {}.'')) (\<lambda>flag. Ok (flags \<union> flag))) {} names"

definition abi_from_version :: "u8 \<Rightarrow> abi result" where
  "abi_from_version version =
     (if version = 1 then Ok ABI_V1 else if version = 2 then Ok ABI_V2 else if version = 3 then Ok ABI_V3
      else if version = 4 then Ok ABI_V4 else if version = 5 then Ok ABI_V5
      else Err (ConfigError ''Invalid Landlock ABI version: {}. Valid: 1-5''))"

definition landlock_validate_production :: "landlock_api \<Rightarrow> landlock_policy \<Rightarrow> unit result" where
  "landlock_validate_production api self =
     for_each (\<lambda>rule. and_then (parse_access_flags api (lr_access rule)) (\<lambda>flags.
       reject_if ((WriteFile \<in> flags \<or> MakeReg \<in> flags) \<and> Execute \<in> flags)
         (ConfigError ''Landlock policy grants both write and execute on {}.''))) (lp_rules self)"

definition policy_rule :: "landlock_api \<Rightarrow> bool \<Rightarrow> ruleset \<Rightarrow> landlock_rule \<Rightarrow> ruleset result" where
  "policy_rule api best_effort rs rule =
     and_then (parse_access_flags api (lr_access rule)) (\<lambda>flags.
     if path_opens api (path_new (lr_path rule)) then add_rule api (path_new (lr_path rule)) flags rs
     else if best_effort then Ok rs
     else Err (LandlockError ''Cannot open path {:?} for Landlock rule: {}''))"

text \<open>The result and what \<^verbatim>\<open>restrict_self\<close> left in force.\<close>

definition landlock_policy_apply ::
  "landlock_api \<Rightarrow> bool \<Rightarrow> landlock_policy \<Rightarrow> (ruleset \<times> ruleset_status) option \<times> bool result" where
  "landlock_policy_apply api best_effort self =
     (case abi_from_version (min_abi self) of
        Inl e \<Rightarrow> (None, Err e)
      | Inr min_abi_enum \<Rightarrow>
          if \<not> handle_access_ok api (from_all api min_abi_enum)
          then (None, if best_effort then Ok False else Err (LandlockError ''Kernel Landlock ABI below required V{}: {}''))
          else
            (case and_then (handle_and_create api (from_all api TARGET_ABI)) (\<lambda>rs0.
                    and_then (try_fold (policy_rule api best_effort) rs0 (lp_rules self)) (restrict api)) of
               Inl e \<Rightarrow> (None, Err e)
             | Inr (rs, status) \<Rightarrow>
                 (case status of
                    FullyEnforced \<Rightarrow> (Some (rs, status), Ok True)
                  | PartiallyEnforced \<Rightarrow>
                      (Some (rs, status), if best_effort then Ok True
                        else Err (LandlockError ''Landlock custom policy only partially enforced''))
                  | NotEnforced \<Rightarrow>
                      (None, if best_effort then Ok False
                        else Err (LandlockError ''Landlock custom policy not enforced (kernel unsupported)'')))))"

section \<open>What a ruleset allows\<close>

text \<open>The names of rules are taken for the files they open: links are not followed here.\<close>

definition ruleset_allows :: "ruleset \<Rightarrow> path \<Rightarrow> access_fs \<Rightarrow> bool" where
  "ruleset_allows rs p a \<longleftrightarrow> a \<notin> rs_handled rs \<or> (\<exists>(r, access) \<in> set (rs_rules rs). prefix r p \<and> a \<in> access)"

definition granted_by :: "landlock_api \<Rightarrow> (string \<times> access_fs set) list \<Rightarrow> path \<Rightarrow> access_fs \<Rightarrow> bool" where
  "granted_by api rules p a \<longleftrightarrow>
     (\<exists>(r, access) \<in> set rules. path_opens api (path_new r) \<and> prefix (path_new r) p \<and> a \<in> access)"

lemma granted_append: "granted_by api (xs @ ys) p a \<longleftrightarrow> granted_by api xs p a \<or> granted_by api ys p a"
  by (auto simp: granted_by_def)

lemma granted_modes:
  "granted_by api (map (\<lambda>(r, mode). (r, f mode)) xs) p a \<longleftrightarrow>
     (\<exists>(r, mode) \<in> set xs. path_opens api (path_new r) \<and> prefix (path_new r) p \<and> a \<in> f mode)"
  by (induction xs) (auto simp: granted_by_def)

lemma add_rule_Ok:
  "add_rule api p access rs = Ok rs' \<longleftrightarrow> add_rule_ok api p access \<and> rs' = rs\<lparr>rs_rules := rs_rules rs @ [(p, access)]\<rparr>"
  by (auto simp: add_rule_def)

lemma handle_and_create_Ok:
  "handle_and_create api H = Ok rs \<longleftrightarrow> handle_access_ok api H \<and> create_ok api H \<and> rs = \<lparr>rs_handled = H, rs_rules = []\<rparr>"
  by (auto simp: handle_and_create_def result_simps)

lemma restrict_Ok: "restrict api rs = Ok (rs', status) \<longleftrightarrow> restrict_self api rs = Some status \<and> rs' = rs"
  by (auto simp: restrict_def result_simps)

lemma rules_added:
  assumes "try_fold (rule_if_opens api) rs rules = Ok rs'"
  shows "rs' = rs\<lparr>rs_rules := rs_rules rs @ [(path_new r, access). (r, access) \<leftarrow> rules, path_opens api (path_new r)]\<rparr>"
  using assms
proof (induction rules arbitrary: rs)
  case (Cons e rules)
  obtain r access where e: "e = (r, access)" by fastforce
  from Cons.prems obtain rs1 where rs1: "rule_if_opens api rs e = Ok rs1" "try_fold (rule_if_opens api) rs1 rules = Ok rs'"
    by (auto simp: result_simps)
  from Cons.IH[OF rs1(2)] rs1(1) show ?case by (auto simp: e rule_if_opens_def add_rule_Ok split: if_splits)
qed simp

lemma built_allows:
  assumes "build_and_restrict api self = Ok (rs, status)"
  shows "ruleset_allows rs p a \<longleftrightarrow> a \<notin> from_all api TARGET_ABI \<or> granted_by api (container_rules api self) p a"
proof -
  from assms obtain rs0 where rs0: "handle_and_create api (from_all api TARGET_ABI) = Ok rs0"
    "try_fold (rule_if_opens api) rs0 (container_rules api self) = Ok rs"
    by (auto simp: build_and_restrict_def result_simps restrict_Ok)
  from rules_added[OF rs0(2)] rs0(1) show ?thesis
    by (auto simp: ruleset_allows_def granted_by_def handle_and_create_Ok)
qed

lemma settled_fully:
  assumes "settle False outcome self = (self', Ok b)"
  shows "\<exists>rs. outcome = Ok (rs, FullyEnforced) \<and> b \<and> self' = self\<lparr>lm_domains := lm_domains self @ [(rs, FullyEnforced)], lm_applied := True\<rparr>"
  using assms by (auto simp: settle_def Let_def split: sum.splits prod.splits ruleset_status.splits if_splits)

section \<open>The container policy\<close>

text \<open>What the package documents of its rights: the read rights and the write rights exclude each other.\<close>

definition rights_exclusive :: "landlock_api \<Rightarrow> bool" where
  "rights_exclusive api \<longleftrightarrow> from_read api TARGET_ABI \<inter> from_write api TARGET_ABI = {} \<and> ReadDir \<in> from_read api TARGET_ABI"

definition writable_mode :: "path_access_mode \<Rightarrow> bool" where
  "writable_mode mode \<longleftrightarrow> mode = ReadWrite \<or> mode = ReadWriteExecute"

definition writable_roots :: "landlock_manager \<Rightarrow> string set" where
  "writable_roots self = {''/dev/shm'', ''/tmp''} \<union> (if writable_mode (lm_workspace_access self) then {''/workspace''} else {})
     \<union> {p. \<exists>mode. (p, mode) \<in> set (lm_extra_paths self) \<and> writable_mode mode}"

lemma mode_write:
  assumes "rights_exclusive api" "a \<in> from_write api TARGET_ABI" "a \<noteq> Execute"
  shows "a \<in> access_for_mode api mode \<longleftrightarrow> writable_mode mode" "a \<in> access_tmp api"
    "a \<notin> from_read api TARGET_ABI" "a \<noteq> ReadDir"
  using assms by (auto simp: rights_exclusive_def access_for_mode_def access_tmp_def from_all_def writable_mode_def
      split: path_access_mode.splits)

text \<open>
  C39: in strict mode the container policy is applied only when the kernel enforces all of it, and the process can
  then write, create, remove or truncate exactly below the scratch directories, a writable workspace and the paths
  registered for writing, as far as these exist. Every other path is read-only.
\<close>

theorem container_policy_writable_roots:
  assumes "apply_container_policy api self = (self', Ok b)" "\<not> lm_applied self" "rights_exclusive api"
    and "a \<in> from_write api TARGET_ABI" "a \<noteq> Execute"
  shows "\<exists>rs. lm_domains self' = lm_domains self @ [(rs, FullyEnforced)] \<and> lm_applied self'
    \<and> (\<forall>p. ruleset_allows rs p a \<longleftrightarrow> (\<exists>root \<in> writable_roots self. path_opens api (path_new root) \<and> prefix (path_new root) p))"
proof -
  from assms(1,2) obtain rs where rs: "build_and_restrict api self = Ok (rs, FullyEnforced)"
    "self' = self\<lparr>lm_domains := lm_domains self @ [(rs, FullyEnforced)], lm_applied := True\<rparr>"
    by (auto simp: apply_container_policy_def apply_container_policy_with_mode_def dest: settled_fully)
  note w = mode_write[OF assms(3-5)]
  have "granted_by api (container_rules api self) p a
      \<longleftrightarrow> (\<exists>root \<in> writable_roots self. path_opens api (path_new root) \<and> prefix (path_new root) p)" for p
  proof -
    have "granted_by api (container_rules api self) p a \<longleftrightarrow>
        (\<exists>root \<in> {''/dev/shm'', ''/tmp''}. path_opens api (path_new root) \<and> prefix (path_new root) p)
        \<or> writable_mode (lm_workspace_access self) \<and> path_opens api (path_new ''/workspace'') \<and> prefix (path_new ''/workspace'') p
        \<or> (\<exists>(r, mode) \<in> set (lm_extra_paths self). path_opens api (path_new r) \<and> prefix (path_new r) p \<and> writable_mode mode)"
      unfolding container_rules_def Let_def granted_append granted_modes
      using w assms(5) by (simp add: granted_by_def disj_ac conj_ac)
    then show ?thesis unfolding writable_roots_def by auto
  qed
  moreover have "a \<in> from_all api TARGET_ABI" using assms(4) by (simp add: from_all_def)
  ultimately show ?thesis using rs built_allows[OF rs(1)] by auto
qed

text \<open>The rights of the package and a kernel on which everything works.\<close>

definition full_landlock :: landlock_api where
  "full_landlock =
     \<lparr>from_read = (\<lambda>_. {Execute, ReadFile, ReadDir}),
      from_write = (\<lambda>_. {WriteFile, RemoveDir, RemoveFile, MakeChar, MakeDir, MakeReg, MakeSock, MakeFifo, MakeBlock, MakeSym,
        Refer, Truncate, IoctlDev}),
      handle_access_ok = (\<lambda>_. True), create_ok = (\<lambda>_. True), path_opens = (\<lambda>_. True), add_rule_ok = (\<lambda>_ _. True),
      restrict_self = (\<lambda>_. Some FullyEnforced)\<rparr>"

lemma full_rules: "\<exists>rs'. try_fold (rule_if_opens full_landlock) rs rules = Ok rs'"
  by (induction rules arbitrary: rs) (auto simp: rule_if_opens_def add_rule_def full_landlock_def)

lemma full_applies:
  assumes "\<not> lm_applied self"
  shows "\<exists>rs. apply_container_policy full_landlock self
      = (self\<lparr>lm_domains := lm_domains self @ [(rs, FullyEnforced)], lm_applied := True\<rparr>, Ok True)
      \<and> build_and_restrict full_landlock self = Ok (rs, FullyEnforced)"
proof -
  let ?rs0 = "\<lparr>rs_handled = from_all full_landlock TARGET_ABI, rs_rules = []\<rparr>"
  obtain rs where "try_fold (rule_if_opens full_landlock) ?rs0 (container_rules full_landlock self) = Ok rs"
    using full_rules by blast
  moreover have "handle_and_create full_landlock H = Ok \<lparr>rs_handled = H, rs_rules = []\<rparr>" for H
    by (simp add: handle_and_create_Ok full_landlock_def)
  moreover have "restrict full_landlock rs = Ok (rs, FullyEnforced)" for rs by (simp add: restrict_Ok full_landlock_def)
  ultimately have b: "build_and_restrict full_landlock self = Ok (rs, FullyEnforced)" by (simp add: build_and_restrict_def)
  then show ?thesis using assms
    by (simp add: apply_container_policy_def apply_container_policy_with_mode_def settle_def)
qed

theorem container_policy_writable_roots_witness:
  "\<exists>rs. lm_domains (fst (apply_container_policy full_landlock landlock_manager_new)) = [(rs, FullyEnforced)]
     \<and> ruleset_allows rs (path_new ''/tmp/x'') WriteFile \<and> \<not> ruleset_allows rs (path_new ''/etc/passwd'') WriteFile"
proof -
  obtain rs self' where a: "apply_container_policy full_landlock landlock_manager_new = (self', Ok True)"
    using full_applies[of landlock_manager_new] by (auto simp: landlock_manager_new_def)
  have "rights_exclusive full_landlock" "WriteFile \<in> from_write full_landlock TARGET_ABI"
    by (simp_all add: rights_exclusive_def full_landlock_def)
  from container_policy_writable_roots[OF a _ this] obtain rs where
    rs: "lm_domains self' = [(rs, FullyEnforced)]"
      "\<And>p. ruleset_allows rs p WriteFile \<longleftrightarrow> (\<exists>root \<in> writable_roots landlock_manager_new.
         path_opens full_landlock (path_new root) \<and> prefix (path_new root) p)"
    by (auto simp: landlock_manager_new_def)
  have roots: "writable_roots landlock_manager_new = {''/dev/shm'', ''/tmp'', ''/workspace''}"
    by (auto simp: writable_roots_def landlock_manager_new_def writable_mode_def)
  have paths: "path_new ''/dev/shm'' = [RootDir, Normal ''dev'', Normal ''shm'']" "path_new ''/tmp'' = [RootDir, Normal ''tmp'']"
    "path_new ''/workspace'' = [RootDir, Normal ''workspace'']" "path_new ''/tmp/x'' = [RootDir, Normal ''tmp'', Normal ''x'']"
    "path_new ''/etc/passwd'' = [RootDir, Normal ''etc'', Normal ''passwd'']"
    by (simp_all add: path_new_def component_of_def split_on_def)
  have "path_opens full_landlock p" for p by (simp add: full_landlock_def)
  with rs a show ?thesis by (auto simp: roots paths)
qed

text \<open>
  a read-only workspace is executable. The package counts \<^verbatim>\<open>Execute\<close> among its read rights (\<open>from_read\<close>), so
  the mode \<open>ReadOnly\<close>, chosen for a workspace without \<^verbatim>\<open>--workspace-exec\<close> and for \<^verbatim>\<open>/etc\<close>, \<^verbatim>\<open>/context\<close> or
  \<^verbatim>\<open>/run/secrets\<close>, grants the same rights as \<open>ReadExecute\<close>.
\<close>

theorem read_only_grants_execute:
  assumes "apply_container_policy api (set_workspace_access True False self) = (self', Ok b)" "\<not> lm_applied self"
    and "Execute \<in> from_read api TARGET_ABI" "path_opens api (path_new ''/workspace'')"
    and "prefix (path_new ''/workspace'') p"
  shows "access_for_mode api ReadOnly = access_for_mode api ReadExecute
    \<and> (\<exists>rs. lm_domains self' = lm_domains self @ [(rs, FullyEnforced)] \<and> ruleset_allows rs p Execute)"
proof -
  let ?self = "set_workspace_access True False self"
  from assms(1,2) obtain rs where rs: "build_and_restrict api ?self = Ok (rs, FullyEnforced)"
    "self' = ?self\<lparr>lm_domains := lm_domains ?self @ [(rs, FullyEnforced)], lm_applied := True\<rparr>"
    by (auto simp: apply_container_policy_def apply_container_policy_with_mode_def set_workspace_access_def
        dest!: settled_fully)
  have ws: "lm_workspace_access ?self = ReadOnly" "lm_domains ?self = lm_domains self"
    by (simp_all add: set_workspace_access_def)
  have "granted_by api (container_rules api ?self) p Execute"
    unfolding container_rules_def Let_def granted_append ws
    using assms(3-5) by (simp add: granted_by_def access_for_mode_def)
  then show ?thesis using rs(2) ws assms(3) built_allows[OF rs(1), of p Execute]
    by (auto simp: access_for_mode_def)
qed

theorem read_only_grants_execute_witness:
  "\<exists>rs. lm_domains (fst (apply_container_policy full_landlock (set_workspace_access True False landlock_manager_new)))
       = [(rs, FullyEnforced)] \<and> ruleset_allows rs (path_new ''/workspace/tool'') Execute"
proof -
  have n: "\<not> lm_applied (set_workspace_access True False landlock_manager_new)" "\<not> lm_applied landlock_manager_new"
    by (simp_all add: set_workspace_access_def landlock_manager_new_def)
  from full_applies[OF n(1)] obtain self' where
    a: "apply_container_policy full_landlock (set_workspace_access True False landlock_manager_new) = (self', Ok True)" by blast
  have "prefix (path_new ''/workspace'') (path_new ''/workspace/tool'')"
    by (simp add: path_new_def component_of_def split_on_def)
  from read_only_grants_execute[OF a n(2) _ _ this] a show ?thesis by (simp add: full_landlock_def landlock_manager_new_def)
qed

section \<open>Policies from a file\<close>

lemma policy_rules_added:
  assumes "try_fold (policy_rule api False) rs rules = Ok rs'"
  shows "rs_handled rs' = rs_handled rs
    \<and> set (rs_rules rs') = set (rs_rules rs) \<union> {(path_new (lr_path r), flags) | r flags. r \<in> set rules \<and> parse_access_flags api (lr_access r) = Ok flags}
    \<and> (\<forall>r \<in> set rules. is_ok (parse_access_flags api (lr_access r)))"
  using assms
proof (induction rules arbitrary: rs)
  case (Cons r rules)
  from Cons.prems obtain rs1 where rs1: "policy_rule api False rs r = Ok rs1" "try_fold (policy_rule api False) rs1 rules = Ok rs'"
    by (auto simp: result_simps)
  from rs1(1) obtain flags where "parse_access_flags api (lr_access r) = Ok flags"
    "rs1 = rs\<lparr>rs_rules := rs_rules rs @ [(path_new (lr_path r), flags)]\<rparr>"
    by (auto simp: policy_rule_def result_simps add_rule_Ok split: if_splits)
  with Cons.IH[OF rs1(2)] show ?case by auto
qed simp

text \<open>
  a policy from a file, applied in strict mode, is enforced in full or refused: a right that the target ABI
  handles is then allowed at a path exactly when a rule for the path or a directory above it lists it.
\<close>

theorem custom_landlock_policy_exact:
  assumes "landlock_policy_apply api False policy = (domain, Ok b)"
  shows "b \<and> (\<exists>rs. domain = Some (rs, FullyEnforced)
    \<and> (\<forall>p a. a \<in> from_all api TARGET_ABI \<longrightarrow> ruleset_allows rs p a =
         (\<exists>r \<in> set (lp_rules policy). \<exists>flags. parse_access_flags api (lr_access r) = Ok flags \<and> a \<in> flags
            \<and> prefix (path_new (lr_path r)) p)))"
proof -
  from assms obtain rs rs0 where rs: "b" "domain = Some (rs, FullyEnforced)"
    "handle_and_create api (from_all api TARGET_ABI) = Ok rs0" "try_fold (policy_rule api False) rs0 (lp_rules policy) = Ok rs"
    by (auto simp: landlock_policy_apply_def result_simps restrict_Ok
        split: sum.splits prod.splits ruleset_status.splits if_splits)
  from policy_rules_added[OF rs(4)] rs(3) have
    "rs_handled rs = from_all api TARGET_ABI"
    "set (rs_rules rs) = {(path_new (lr_path r), flags) | r flags. r \<in> set (lp_rules policy) \<and> parse_access_flags api (lr_access r) = Ok flags}"
    by (auto simp: handle_and_create_Ok)
  with rs(1,2) show ?thesis by (fastforce simp: ruleset_allows_def)
qed

definition demo_landlock_policy :: landlock_policy where
  "demo_landlock_policy = \<lparr>min_abi = 3, lp_rules = [\<lparr>lr_path = ''/srv'', lr_access = [''write'', ''create'']\<rparr>,
     \<lparr>lr_path = ''/srv'', lr_access = [''execute'']\<rparr>]\<rparr>"

lemma demo_flags:
  "parse_access_flags api [''write'', ''create''] =
     Ok {WriteFile, Truncate, MakeChar, MakeDir, MakeReg, MakeSock, MakeFifo, MakeSym, MakeBlock}"
  "parse_access_flags api [''execute''] = Ok {Execute}"
  by (auto simp: parse_access_flags_def access_arms_def)

lemma demo_landlock_applies:
  "\<exists>rs. landlock_policy_apply full_landlock False demo_landlock_policy = (Some (rs, FullyEnforced), Ok True)"
proof -
  have c: "handle_and_create full_landlock H = Ok \<lparr>rs_handled = H, rs_rules = []\<rparr>" for H
    by (simp add: handle_and_create_Ok full_landlock_def)
  have r: "policy_rule full_landlock False rs r = Ok (rs\<lparr>rs_rules := rs_rules rs @ [(path_new (lr_path r), flags)]\<rparr>)"
    if "parse_access_flags full_landlock (lr_access r) = Ok flags" for rs r flags
    using that by (simp add: policy_rule_def add_rule_Ok full_landlock_def add_rule_def)
  have "restrict full_landlock rs = Ok (rs, FullyEnforced)" for rs by (simp add: restrict_Ok full_landlock_def)
  moreover have "handle_access_ok full_landlock H" for H by (simp add: full_landlock_def)
  ultimately show ?thesis
    by (simp add: landlock_policy_apply_def demo_landlock_policy_def abi_from_version_def c r demo_flags)
qed

theorem custom_landlock_policy_exact_witness:
  "\<exists>rs. landlock_policy_apply full_landlock False demo_landlock_policy = (Some (rs, FullyEnforced), Ok True)
     \<and> \<not> ruleset_allows rs (path_new ''/srv/x'') ReadFile"
proof -
  from demo_landlock_applies obtain rs where
    a: "landlock_policy_apply full_landlock False demo_landlock_policy = (Some (rs, FullyEnforced), Ok True)" by blast
  have "ReadFile \<in> from_all full_landlock TARGET_ABI" by (simp add: from_all_def full_landlock_def)
  with custom_landlock_policy_exact[OF a] a show ?thesis
    by (auto simp: demo_landlock_policy_def demo_flags)
qed

text \<open>
  the production check looks at one rule at a time. A policy that gives write in one rule and execute in another
  rule for the same path passes, and the enforced ruleset then allows to create a file there and to execute it,
  the attack that the check is documented to exclude.
\<close>

theorem split_rules_pass_production:
  "landlock_validate_production full_landlock demo_landlock_policy = Ok ()
   \<and> (\<exists>rs. landlock_policy_apply full_landlock False demo_landlock_policy = (Some (rs, FullyEnforced), Ok True)
      \<and> ruleset_allows rs (path_new ''/srv/x'') WriteFile \<and> ruleset_allows rs (path_new ''/srv/x'') MakeReg
      \<and> ruleset_allows rs (path_new ''/srv/x'') Execute)"
proof -
  have v: "landlock_validate_production full_landlock demo_landlock_policy = Ok ()"
    by (simp add: landlock_validate_production_def demo_landlock_policy_def demo_flags reject_if_def)
  from demo_landlock_applies obtain rs where
    a: "landlock_policy_apply full_landlock False demo_landlock_policy = (Some (rs, FullyEnforced), Ok True)" by blast
  then have fold: "try_fold (policy_rule full_landlock False) \<lparr>rs_handled = from_all full_landlock TARGET_ABI, rs_rules = []\<rparr>
      (lp_rules demo_landlock_policy) = Ok rs"
    by (auto simp: landlock_policy_apply_def result_simps restrict_Ok handle_and_create_Ok
        split: sum.splits prod.splits ruleset_status.splits if_splits)
  have "prefix (path_new ''/srv'') (path_new ''/srv/x'')" by (simp add: path_new_def component_of_def split_on_def)
  moreover have "(path_new ''/srv'', {WriteFile, Truncate, MakeChar, MakeDir, MakeReg, MakeSock, MakeFifo, MakeSym, MakeBlock})
      \<in> set (rs_rules rs)" "(path_new ''/srv'', {Execute}) \<in> set (rs_rules rs)"
  proof -
    have "(path_new (lr_path r), flags) \<in> set (rs_rules rs)"
      if "r \<in> set (lp_rules demo_landlock_policy)" "parse_access_flags full_landlock (lr_access r) = Ok flags" for r flags
      using policy_rules_added[OF fold] that by blast
    from this[of "\<lparr>lr_path = ''/srv'', lr_access = [''write'', ''create'']\<rparr>"] this[of "\<lparr>lr_path = ''/srv'', lr_access = [''execute'']\<rparr>"]
    show "(path_new ''/srv'', {WriteFile, Truncate, MakeChar, MakeDir, MakeReg, MakeSock, MakeFifo, MakeSym, MakeBlock})
      \<in> set (rs_rules rs)" "(path_new ''/srv'', {Execute}) \<in> set (rs_rules rs)"
      by (simp_all add: demo_landlock_policy_def demo_flags)
  qed
  ultimately have "ruleset_allows rs (path_new ''/srv/x'') x" if "x \<in> {WriteFile, MakeReg, Execute}" for x
    using that unfolding ruleset_allows_def by fastforce
  with v a show ?thesis by auto
qed

end
