(* ===== verification/Workspace_Copy.thy ===== *)
theory Workspace_Copy
  imports Workspace_Policy "HOL-Library.AList"
begin

text \<open>
  Copies of a workspace into a stage and back (\<^verbatim>\<open>src/src/filesystem/workspace.rs\<close>).

  A file tree is a node; what lies at a path of it is \<open>view\<close>, the specification. Every call that may fail is
  asked of \<open>wi_fault\<close>: \<open>None\<close> when it succeeds, otherwise what the failed call left at the path. The mode of a
  directory that the process creates is \<open>wi_dir_mode\<close>. Reading a directory gives its entries in some order, the
  order of the list.
\<close>

section \<open>File trees\<close>

datatype node = File string nat | Dir nat "(string \<times> node) list" | Link string | Special

datatype ws_op =
  ReadSource | ReadDest | StatSource | StatStaged | StatDest | StatExisting | RemoveExisting | CreateDirAll | CreateParent |
  CopyFile | SetPermissions | ReadLink | MakeLink

record ws_io =
  wi_fault :: "ws_op \<Rightarrow> string list \<Rightarrow> node option option"
  wi_dir_mode :: nat

definition MAX_WORKSPACE_DEPTH :: nat where "MAX_WORKSPACE_DEPTH = 256"

type_synonym written = "node option \<times> unit result"

text \<open>One call on a destination: its effect when it succeeds.\<close>

definition call :: "ws_io \<Rightarrow> ws_op \<Rightarrow> string list \<Rightarrow> string \<Rightarrow> node option \<Rightarrow> written" where
  "call io op p msg d = (case wi_fault io op p of None \<Rightarrow> (d, Ok ()) | Some left \<Rightarrow> (left, Err (FilesystemError msg)))"

definition on_ok :: "written \<Rightarrow> (node option \<Rightarrow> written) \<Rightarrow> written" where
  "on_ok w f = (case w of (d, Inl e) \<Rightarrow> (d, Err e) | (d, Inr _) \<Rightarrow> f d)"

fun is_dir_node :: "node option \<Rightarrow> bool" where
  "is_dir_node (Some (Dir m es)) = True"
| "is_dir_node _ = False"

definition remove_existing_path :: "ws_io \<Rightarrow> string list \<Rightarrow> node option \<Rightarrow> written" where
  "remove_existing_path io p d =
     on_ok (call io StatExisting p ''Failed to stat existing workspace path {:?}: {}'' d) (\<lambda>d.
       case d of
         None \<Rightarrow> (None, Ok ())
       | Some c \<Rightarrow>
           if is_dir_node (Some c) then call io RemoveExisting p ''Failed to remove existing workspace directory {:?}: {}'' None
           else call io RemoveExisting p ''Failed to remove existing workspace file {:?}: {}'' None)"

definition put_entry :: "string \<Rightarrow> node option \<Rightarrow> (string \<times> node) list \<Rightarrow> (string \<times> node) list" where
  "put_entry n d es = (case d of None \<Rightarrow> AList.delete n es | Some c \<Rightarrow> AList.update n c es)"

fun dir_entries :: "node option \<Rightarrow> (string \<times> node) list" where
  "dir_entries (Some (Dir m es)) = es"
| "dir_entries _ = []"

fun dir_mode :: "ws_io \<Rightarrow> node option \<Rightarrow> nat" where
  "dir_mode io (Some (Dir m es)) = m"
| "dir_mode io _ = wi_dir_mode io"

definition create_dir_all :: "ws_io \<Rightarrow> string list \<Rightarrow> string \<Rightarrow> node option \<Rightarrow> written" where
  "create_dir_all io p msg d = call io CreateDirAll p msg (Some (Dir (dir_mode io d) (dir_entries d)))"

definition read_workspace_entries :: "ws_io \<Rightarrow> string list \<Rightarrow> nat \<Rightarrow> (string \<times> node) list \<Rightarrow> (string \<times> node) list result" where
  "read_workspace_entries io p depth es =
     (if depth > MAX_WORKSPACE_DEPTH then Err (FilesystemError ''Maximum workspace directory depth ({}) exceeded at {:?}'')
      else if wi_fault io ReadSource p \<noteq> None then Err (FilesystemError ''Failed to read workspace dir {:?}: {}'')
      else Ok es)"

section \<open>Copying\<close>

text \<open>
  \<open>copy_entry io p depth src d\<close> copies the node \<open>src\<close> to the place \<open>p\<close>, where \<open>d\<close> lies, and gives what lies there
  afterwards. \<open>copy_children\<close> is the loop over the entries of a directory with the entries of the destination.
\<close>

function copy_entry :: "ws_io \<Rightarrow> string list \<Rightarrow> nat \<Rightarrow> node \<Rightarrow> node option \<Rightarrow> written"
  and copy_children ::
    "ws_io \<Rightarrow> string list \<Rightarrow> nat \<Rightarrow> (string \<times> node) list \<Rightarrow> (string \<times> node) list \<Rightarrow> (string \<times> node) list \<times> unit result"
where
  "copy_entry io p depth (Dir m es) d =
     on_ok (on_ok (call io StatDest p ''Failed to stat workspace destination {:?}: {}'' d) (\<lambda>d.
         if is_dir_node d \<or> d = None then (d, Ok ()) else remove_existing_path io p d)) (\<lambda>d.
     on_ok (create_dir_all io p ''Failed to create workspace directory {:?}: {}'' d) (\<lambda>d.
     case read_workspace_entries io p depth es of
       Inl e \<Rightarrow> (d, Err e)
     | Inr _ \<Rightarrow>
         (case copy_children io p depth es (dir_entries d) of
            (es', Inl e) \<Rightarrow> (Some (Dir (dir_mode io d) es'), Err e)
          | (es', Inr _) \<Rightarrow>
              call io SetPermissions p ''Failed to set permissions on workspace directory {:?}: {}'' (Some (Dir m es')))))"
| "copy_entry io p depth (File content m) d =
     on_ok (call io CreateParent p ''Failed to create workspace file parent {:?}: {}'' d) (\<lambda>d.
     on_ok (remove_existing_path io p d) (\<lambda>d.
     on_ok (call io CopyFile p ''Failed to copy workspace file {:?} to {:?}: {}'' (Some (File content m))) (\<lambda>d.
     call io SetPermissions p ''Failed to set permissions on workspace file {:?}: {}'' (Some (File content m)))))"
| "copy_entry io p depth (Link target) d =
     (if wi_fault io ReadLink p \<noteq> None then (d, Err (FilesystemError ''Failed to read workspace symlink {:?}: {}''))
      else on_ok (remove_existing_path io p d) (\<lambda>d.
        call io MakeLink p ''Failed to create workspace symlink {:?} -> {:?}: {}'' (Some (Link target))))"
| "copy_entry io p depth Special d = (d, Ok ())"
| "copy_children io p depth [] es' = (es', Ok ())"
| "copy_children io p depth ((n, c) # es) es' =
     (case copy_entry io (p @ [n]) (depth + 1) c (map_of es' n) of
        (d, Inl e) \<Rightarrow> (put_entry n d es', Err e)
      | (d, Inr _) \<Rightarrow> copy_children io p depth es (put_entry n d es'))"
  by pat_completeness auto
termination
  by (relation "measure (case_sum (\<lambda>(io, p, depth, c, d). size c) (\<lambda>(io, p, depth, es, es'). size_list (size_prod (\<lambda>_. 0) size) es))")
    auto

definition copy_tree_contents :: "ws_io \<Rightarrow> (string \<times> node) list \<Rightarrow> (string \<times> node) list \<Rightarrow> (string \<times> node) list \<times> unit result" where
  "copy_tree_contents io es es' =
     (case read_workspace_entries io [] 0 es of
        Inl e \<Rightarrow> (es', Err e)
      | Inr es \<Rightarrow> copy_children io [] 0 es es')"

text \<open>Staging: the stage is created when it is missing; a workspace is a directory.\<close>

definition copy_workspace_in ::
  "(path \<Rightarrow> path option) \<Rightarrow> (path \<Rightarrow> bool) \<Rightarrow> ws_io \<Rightarrow> path \<Rightarrow> (string \<times> node) list \<Rightarrow> node option \<Rightarrow> written" where
  "copy_workspace_in canonicalize is_dir io source source_entries staging =
     (case validate_workspace_host_path canonicalize is_dir source of
        Inl e \<Rightarrow> (staging, Err e)
      | Inr _ \<Rightarrow>
          on_ok (create_dir_all io [] ''Failed to create workspace staging directory {:?}: {}'' staging) (\<lambda>staging.
          case copy_tree_contents io source_entries (dir_entries staging) of
            (es', r) \<Rightarrow> (Some (Dir (dir_mode io staging) es'), r)))"

text \<open>
  The loop goes over the entries of the destination as they were when it was read. An entry counts as absent from the
  stage when its first \<open>symlink_metadata\<close> there fails, for whatever reason.
\<close>

definition stat_staged :: "ws_io \<Rightarrow> string list \<Rightarrow> node option \<Rightarrow> node option" where
  "stat_staged io p s = (if wi_fault io StatSource p = None then s else None)"

function remove_stale_entries ::
  "ws_io \<Rightarrow> string list \<Rightarrow> nat \<Rightarrow> (string \<times> node) list \<Rightarrow> (string \<times> node) list \<Rightarrow> (string \<times> node) list \<times> unit result"
  and remove_stale_loop ::
    "ws_io \<Rightarrow> string list \<Rightarrow> nat \<Rightarrow> (string \<times> node) list \<Rightarrow> (string \<times> node) list \<Rightarrow> (string \<times> node) list \<Rightarrow>
     (string \<times> node) list \<times> unit result"
where
  "remove_stale_entries io p depth src es =
     (if depth > MAX_WORKSPACE_DEPTH
      then (es, Err (FilesystemError ''Maximum workspace directory depth ({}) exceeded at {:?}''))
      else if wi_fault io ReadDest p \<noteq> None then (es, Err (FilesystemError ''Failed to read workspace destination {:?}: {}''))
      else remove_stale_loop io p depth src es es)"
| "remove_stale_loop io p depth src [] es' = (es', Ok ())"
| "remove_stale_loop io p depth src ((n, c) # es) es' =
     (case stat_staged io (p @ [n]) (map_of src n) of
        None \<Rightarrow>
          (case remove_existing_path io (p @ [n]) (map_of es' n) of
             (d, Inl e) \<Rightarrow> (put_entry n d es', Err e)
           | (d, Inr _) \<Rightarrow> remove_stale_loop io p depth src es (put_entry n d es'))
      | Some s \<Rightarrow>
          if wi_fault io StatStaged (p @ [n]) \<noteq> None then (es', Err (FilesystemError ''Failed to stat staged workspace path {:?}: {}''))
          else if wi_fault io StatDest (p @ [n]) \<noteq> None
          then (es', Err (FilesystemError ''Failed to stat destination workspace path {:?}: {}''))
          else if is_dir_node (Some s) \<and> is_dir_node (Some c) then
            (case remove_stale_entries io (p @ [n]) (depth + 1) (dir_entries (Some s)) (dir_entries (Some c)) of
               (es1, Inl e) \<Rightarrow> (put_entry n (Some (Dir (dir_mode io (Some c)) es1)) es', Err e)
             | (es1, Inr _) \<Rightarrow> remove_stale_loop io p depth src es (put_entry n (Some (Dir (dir_mode io (Some c)) es1)) es'))
          else remove_stale_loop io p depth src es es')"
  by pat_completeness auto
termination
proof (relation "measure (case_sum (\<lambda>(io, p, depth, src, es). 2 * size_list (size_prod (\<lambda>_. 0) size) es + 1)
    (\<lambda>(io, p, depth, src, es, es'). 2 * size_list (size_prod (\<lambda>_. 0) size) es))", goal_cases)
  case (4 io p depth src n c es es' s)
  have "size_list (size_prod (\<lambda>_. 0) size) (dir_entries (Some c)) \<le> size c" by (cases c) auto
  then show ?case by simp
qed auto

definition sync_workspace_out ::
  "(path \<Rightarrow> path option) \<Rightarrow> (path \<Rightarrow> bool) \<Rightarrow> ws_io \<Rightarrow> node option \<Rightarrow> path \<Rightarrow> (string \<times> node) list \<Rightarrow>
   (string \<times> node) list \<times> unit result" where
  "sync_workspace_out canonicalize is_dir io staging destination es =
     (case validate_workspace_host_path canonicalize is_dir destination of
        Inl e \<Rightarrow> (es, Err e)
      | Inr _ \<Rightarrow>
          if \<not> is_dir_node staging then (es, Err (FilesystemError ''Workspace staging path is not a directory: {}''))
          else
            (case remove_stale_entries io [] 0 (dir_entries staging) es of
               (es', Inl e) \<Rightarrow> (es', Err e)
             | (es', Inr _) \<Rightarrow> copy_tree_contents io (dir_entries staging) es'))"

section \<open>What lies at a path\<close>

datatype info = FileInfo string nat | DirInfo nat | LinkInfo string | SpecialInfo

fun view :: "node \<Rightarrow> string list \<Rightarrow> info option" where
  "view (File content m) [] = Some (FileInfo content m)"
| "view (Dir m es) [] = Some (DirInfo m)"
| "view (Link target) [] = Some (LinkInfo target)"
| "view Special [] = Some SpecialInfo"
| "view (Dir m es) (n # p) = (case map_of es n of None \<Rightarrow> None | Some c \<Rightarrow> view c p)"
| "view _ (n # p) = None"

definition entries_view :: "(string \<times> node) list \<Rightarrow> string list \<Rightarrow> info option" where
  "entries_view es p = (case p of [] \<Rightarrow> None | n # q \<Rightarrow> (case map_of es n of None \<Rightarrow> None | Some c \<Rightarrow> view c q))"

text \<open>Names are distinct in every directory, there is no special file, and directories nest at most \<open>k\<close> deep.\<close>

function tree_ok :: "nat \<Rightarrow> node \<Rightarrow> bool" where
  "tree_ok k (Dir m es) \<longleftrightarrow> k > 0 \<and> distinct (map fst es) \<and> (\<forall>(n, c) \<in> set es. tree_ok (k - 1) c)"
| "tree_ok k (File content m) = True"
| "tree_ok k (Link target) = True"
| "tree_ok k Special = False"
  by pat_completeness auto
termination by (relation "measure (\<lambda>(k, c). size c)") (auto dest: size_list_estimation'[of _ _ "size _" "size_prod (\<lambda>_. 0) size"] elim!: in_set_conv_decomp[THEN iffD1, elim_format])

function names_ok :: "node \<Rightarrow> bool" where
  "names_ok (Dir m es) \<longleftrightarrow> distinct (map fst es) \<and> (\<forall>(n, c) \<in> set es. names_ok c)"
| "names_ok (File content m) = True"
| "names_ok (Link target) = True"
| "names_ok Special = True"
  by pat_completeness auto
termination by (relation "measure size") (auto dest: size_list_estimation'[of _ _ "size _" "size_prod (\<lambda>_. 0) size"] elim!: in_set_conv_decomp[THEN iffD1, elim_format])

text \<open>Where both trees have a directory, the second has no name that the first has not.\<close>

inductive no_stale :: "node \<Rightarrow> node \<Rightarrow> bool" where
  both_dirs: "(\<And>n x. map_of es' n = Some x \<Longrightarrow> \<exists>c. map_of es n = Some c \<and> no_stale c x) \<Longrightarrow> no_stale (Dir m es) (Dir m' es')"
| other: "\<not> (is_dir_node (Some c) \<and> is_dir_node (Some x)) \<Longrightarrow> no_stale c x"

inductive_cases no_stale_dirsE: "no_stale (Dir m es) (Dir m' es')"

section \<open>Without faults\<close>

definition faultless :: "ws_io \<Rightarrow> bool" where
  "faultless io \<longleftrightarrow> (\<forall>op p. wi_fault io op p = None)"

lemma faultless_call: "faultless io \<Longrightarrow> call io op p msg d = (d, Ok ())"
  by (simp add: faultless_def call_def)

lemma faultless_stat: "faultless io \<Longrightarrow> stat_staged io p s = s" "faultless io \<Longrightarrow> wi_fault io op p = None"
  by (simp_all add: stat_staged_def faultless_def)

lemma on_ok_simps [simp]: "on_ok (d, Inl e) f = (d, Inl e)" "on_ok (d, Inr u) f = f d"
  by (simp_all add: on_ok_def)

lemma faultless_remove: "faultless io \<Longrightarrow> remove_existing_path io p d = (None, Ok ())"
  by (simp add: remove_existing_path_def faultless_call split: option.splits)

lemma map_of_put: "map_of (put_entry n d es) k = (if k = n then d else map_of es k)"
  by (auto simp: put_entry_def update_conv' delete_conv' split: option.splits)

lemma view_dir: "view (Dir m es) q = (case q of [] \<Rightarrow> Some (DirInfo m) | n # r \<Rightarrow> entries_view es q)"
  by (cases q) (auto simp: entries_view_def)

lemma copy_mirrors:
  "faultless io \<Longrightarrow> tree_ok k c \<Longrightarrow> depth + k \<le> Suc MAX_WORKSPACE_DEPTH \<Longrightarrow> (\<And>x. d = Some x \<Longrightarrow> no_stale c x) \<Longrightarrow>
     \<exists>d'. copy_entry io p depth c d = (Some d', Ok ()) \<and> view d' = view c"
  "faultless io \<Longrightarrow> distinct (map fst es) \<Longrightarrow> (\<And>n c. (n, c) \<in> set es \<Longrightarrow> tree_ok k c) \<Longrightarrow>
     depth + 1 + k \<le> Suc MAX_WORKSPACE_DEPTH \<Longrightarrow>
     (\<And>n c x. (n, c) \<in> set es \<Longrightarrow> map_of es' n = Some x \<Longrightarrow> no_stale c x) \<Longrightarrow>
     \<exists>es''. copy_children io p depth es es' = (es'', Ok ())
       \<and> (\<forall>n. case map_of es n of None \<Rightarrow> map_of es'' n = map_of es' n
                | Some c \<Rightarrow> \<exists>d. map_of es'' n = Some d \<and> view d = view c)"
proof (induction io p depth c d and io p depth es es' arbitrary: k and k rule: copy_entry_copy_children.induct)
  case (1 io p depth m es d)
  let ?d = "if is_dir_node d \<or> d = None then d else None"
  let ?e = "Dir (dir_mode io ?d) (dir_entries ?d)"
  have k: "k > 0" "distinct (map fst es)" "\<And>n c. (n, c) \<in> set es \<Longrightarrow> tree_ok (k - 1) c" using "1.prems"(2) by auto
  have read: "read_workspace_entries io p depth es = Ok es"
    using "1.prems"(1,3) k(1) by (simp add: read_workspace_entries_def faultless_def)
  have stale: "no_stale c x" if "(n, c) \<in> set es" "map_of (dir_entries ?d) n = Some x" for n c x
  proof -
    from that(2) obtain m' es0 where d: "d = Some (Dir m' es0)" "map_of es0 n = Some x"
      by (cases ?d rule: dir_entries.cases) (auto split: if_splits)
    from "1.prems"(4)[OF d(1)] obtain c' where "map_of es n = Some c'" "no_stale c' x"
      by (cases rule: no_stale.cases) (use d in auto)
    with that(1) k(2) show ?thesis by simp
  qed
  have sub: "\<exists>c. map_of es n = Some c" if "map_of (dir_entries ?d) n = Some x" for n x
  proof -
    from that obtain m' es0 where d: "d = Some (Dir m' es0)" "map_of es0 n = Some x"
      by (cases ?d rule: dir_entries.cases) (auto split: if_splits)
    from "1.prems"(4)[OF d(1)] d(2) show ?thesis by (cases rule: no_stale.cases) auto
  qed
  have "\<exists>es''. copy_children io p depth es (dir_entries (Some ?e)) = (es'', Ok ())
      \<and> (\<forall>n. case map_of es n of None \<Rightarrow> map_of es'' n = map_of (dir_entries (Some ?e)) n
             | Some c \<Rightarrow> \<exists>d. map_of es'' n = Some d \<and> view d = view c)"
    using "1.prems"(1,3) k stale by (intro "1.IH"[OF read, where k = "k - 1"]) auto
  then obtain es'' where es'': "copy_children io p depth es (dir_entries ?d) = (es'', Ok ())"
    "\<And>n. case map_of es n of None \<Rightarrow> map_of es'' n = map_of (dir_entries ?d) n
         | Some c \<Rightarrow> \<exists>d. map_of es'' n = Some d \<and> view d = view c" unfolding dir_entries.simps(1) by blast
  have "view (Dir m es'') = view (Dir m es)"
  proof (rule ext)
    fix q show "view (Dir m es'') q = view (Dir m es) q"
    proof (cases q)
      case (Cons n r)
      with es''(2)[of n] sub[of n] show ?thesis by (auto split: option.splits)
    qed simp
  qed
  with es''(1) "1.prems"(1) read show ?case
    by (auto simp: faultless_call faultless_remove create_dir_all_def)
next
  case (6 io p depth n c es es')
  have "\<exists>d'. copy_entry io (p @ [n]) (depth + 1) c (map_of es' n) = (Some d', Ok ()) \<and> view d' = view c"
  proof (rule "6.IH"(1)[OF "6.prems"(1), where k = k])
    show "tree_ok k c" using "6.prems"(3)[of n c] by simp
    show "no_stale c x" if "map_of es' n = Some x" for x using "6.prems"(5)[OF _ that, of c] by simp
  qed (use "6.prems"(4) in simp)
  then obtain d' where d': "copy_entry io (p @ [n]) (depth + 1) c (map_of es' n) = (Some d', Ok ())" "view d' = view c"
    by blast
  have "\<exists>es''. copy_children io p depth es (put_entry n (Some d') es') = (es'', Ok ())
      \<and> (\<forall>k. case map_of es k of None \<Rightarrow> map_of es'' k = map_of (put_entry n (Some d') es') k
             | Some c \<Rightarrow> \<exists>d. map_of es'' k = Some d \<and> view d = view c)"
  proof (rule "6.IH"(2)[OF d'(1)[symmetric] refl "6.prems"(1), where k = k])
    show "no_stale c' x" if "(n', c') \<in> set es" "map_of (put_entry n (Some d') es') n' = Some x" for n' c' x
    proof -
      have "n' \<noteq> n" using that(1) "6.prems"(2) by force
      with that "6.prems"(5)[of n' c' x] show ?thesis by (simp add: map_of_put)
    qed
  qed (use "6.prems"(2-4) in auto)
  then obtain es'' where es'': "copy_children io p depth es (put_entry n (Some d') es') = (es'', Ok ())"
    "\<And>k. case map_of es k of None \<Rightarrow> map_of es'' k = map_of (put_entry n (Some d') es') k
         | Some c \<Rightarrow> \<exists>d. map_of es'' k = Some d \<and> view d = view c" by blast
  have "map_of es n = None" using "6.prems"(2) by (auto simp: map_of_eq_None_iff)
  then have "case map_of ((n, c) # es) k of None \<Rightarrow> map_of es'' k = map_of es' k
      | Some c \<Rightarrow> \<exists>d. map_of es'' k = Some d \<and> view d = view c" for k
    using es''(2)[of k] d'(2) by (cases "k = n"; cases "map_of es k") (simp_all add: map_of_put)
  with d'(1) es''(1) show ?case by auto
qed (auto simp: faultless_call faultless_remove faultless_def)

lemma stale_removed:
  "faultless io \<Longrightarrow> (\<And>n c. map_of src n = Some c \<Longrightarrow> tree_ok k c) \<Longrightarrow> depth + Suc k \<le> Suc MAX_WORKSPACE_DEPTH \<Longrightarrow>
     names_ok (Dir m es) \<Longrightarrow>
     \<exists>es''. remove_stale_entries io p depth src es = (es'', Ok ())
       \<and> (\<forall>n x. map_of es'' n = Some x \<longrightarrow> (\<exists>c. map_of src n = Some c \<and> no_stale c x))"
  "faultless io \<Longrightarrow> (\<And>n c. map_of src n = Some c \<Longrightarrow> tree_ok k c) \<Longrightarrow> depth + Suc k \<le> Suc MAX_WORKSPACE_DEPTH \<Longrightarrow>
     names_ok (Dir m es) \<Longrightarrow> (\<And>n c. (n, c) \<in> set es \<Longrightarrow> map_of es' n = Some c) \<Longrightarrow>
     \<exists>es''. remove_stale_loop io p depth src es es' = (es'', Ok ())
       \<and> (\<forall>n. if n \<in> fst ` set es then (\<forall>x. map_of es'' n = Some x \<longrightarrow> (\<exists>c. map_of src n = Some c \<and> no_stale c x))
              else map_of es'' n = map_of es' n)"
proof (induction io p depth src es and io p depth src es es' arbitrary: k and k rule: remove_stale_entries_remove_stale_loop.induct)
  case (1 io p depth src es)
  from "1.prems" have "\<not> MAX_WORKSPACE_DEPTH < depth" "\<not> wi_fault io ReadDest p \<noteq> None" by (auto simp: faultless_def)
  from "1.IH"[OF this "1.prems"(1), where k = k] "1.prems" obtain es'' where es'':
    "remove_stale_loop io p depth src es es = (es'', Ok ())"
    "\<And>n. if n \<in> fst ` set es then (\<forall>x. map_of es'' n = Some x \<longrightarrow> (\<exists>c. map_of src n = Some c \<and> no_stale c x))
         else map_of es'' n = map_of es n" by auto
  have "\<exists>c. map_of src n = Some c \<and> no_stale c x" if "map_of es'' n = Some x" for n x
    using es''(2)[of n] that by (auto split: if_splits dest!: map_of_SomeD simp: image_iff)
  with es''(1) "1.prems"(1,3) show ?case by (auto simp: faultless_def)
next
  case (3 io p depth src n c es es')
  have es: "names_ok (Dir m es)" "n \<notin> fst ` set es" "names_ok c" using "3.prems"(4) by auto
  have here: "map_of es' n = Some c" using "3.prems"(5) by simp
  have step: "\<exists>es''. remove_stale_loop io p depth src es (put_entry n d es') = (es'', Ok ())
      \<and> (\<forall>k. if k \<in> fst ` set es then (\<forall>x. map_of es'' k = Some x \<longrightarrow> (\<exists>c. map_of src k = Some c \<and> no_stale c x))
             else map_of es'' k = map_of (put_entry n d es') k)
      \<Longrightarrow> (\<And>x. d = Some x \<Longrightarrow> \<exists>c. map_of src n = Some c \<and> no_stale c x)
      \<Longrightarrow> \<exists>es''. remove_stale_loop io p depth src es (put_entry n d es') = (es'', Ok ())
       \<and> (\<forall>k. if k \<in> fst ` set ((n, c) # es) then (\<forall>x. map_of es'' k = Some x \<longrightarrow> (\<exists>c. map_of src k = Some c \<and> no_stale c x))
              else map_of es'' k = map_of es' k)" for d
    using es(2) by (auto simp: map_of_put)
  have stat: "stat_staged io (p @ [n]) (map_of src n) = map_of src n" using "3.prems"(1) by (simp add: faultless_stat)
  have ok: "\<not> wi_fault io StatStaged (p @ [n]) \<noteq> None" "\<not> wi_fault io StatDest (p @ [n]) \<noteq> None"
    using "3.prems"(1) by (simp_all add: faultless_stat)
  show ?case
  proof (cases "map_of src n")
    case None
    have "remove_existing_path io (p @ [n]) (map_of es' n) = (None, Ok ())" using "3.prems"(1) by (simp add: faultless_remove)
    moreover from this have "\<exists>es''. remove_stale_loop io p depth src es (put_entry n None es') = (es'', Ok ())
      \<and> (\<forall>k. if k \<in> fst ` set es then (\<forall>x. map_of es'' k = Some x \<longrightarrow> (\<exists>c. map_of src k = Some c \<and> no_stale c x))
             else map_of es'' k = map_of (put_entry n None es') k)"
      using "3.prems" es by (intro "3.IH"(1)[OF trans[OF stat None], where k = k]) (force simp: map_of_put)+
    from step[OF this] show ?thesis using None stat calculation by simp
  next
    case (Some s)
    show ?thesis
    proof (cases "is_dir_node (Some s) \<and> is_dir_node (Some c)")
      case True
      then obtain ms ss mc cs where sc: "s = Dir ms ss" "c = Dir mc cs" by (cases s; cases c) auto
      from "3.prems"(2)[OF Some] sc(1) have k: "k > 0" "distinct (map fst ss)" "\<And>n c. (n, c) \<in> set ss \<Longrightarrow> tree_ok (k - 1) c"
        by auto
      have "\<exists>es1. remove_stale_entries io (p @ [n]) (depth + 1) ss cs = (es1, Ok ())
          \<and> (\<forall>n x. map_of es1 n = Some x \<longrightarrow> (\<exists>c. map_of ss n = Some c \<and> no_stale c x))"
        using "3.IH"(2)[OF trans[OF stat Some] ok True, where k = "k - 1"] "3.prems"(1,3) k es(3) sc by (auto dest: map_of_SomeD)
      then obtain es1 where es1: "remove_stale_entries io (p @ [n]) (depth + 1) ss cs = (es1, Ok ())"
        "\<And>n x. map_of es1 n = Some x \<Longrightarrow> \<exists>c. map_of ss n = Some c \<and> no_stale c x" by blast
      have "no_stale s (Dir mc es1)" unfolding sc(1) by (rule both_dirs) (rule es1(2))
      moreover have "\<exists>es''. remove_stale_loop io p depth src es (put_entry n (Some (Dir mc es1)) es') = (es'', Ok ())
          \<and> (\<forall>k. if k \<in> fst ` set es then (\<forall>x. map_of es'' k = Some x \<longrightarrow> (\<exists>c. map_of src k = Some c \<and> no_stale c x))
                 else map_of es'' k = map_of (put_entry n (Some (Dir mc es1)) es') k)"
      proof -
        have "(es1, Ok ()) = remove_stale_entries io (p @ [n]) (depth + 1) (dir_entries (Some s)) (dir_entries (Some c))"
          by (simp only: sc es1(1) dir_entries.simps)
        note ih = "3.IH"(3)[OF trans[OF stat Some] ok True this refl "3.prems"(1) _ "3.prems"(3) es(1)]
        have keep: "map_of (put_entry n (Some (Dir mc es1)) es') n' = Some c'" if "(n', c') \<in> set es" for n' c'
          using that "3.prems"(5)[of n' c'] es(2) by (force simp: map_of_put)
        show ?thesis by (rule ih[unfolded sc(2) dir_mode.simps(1)]) (use "3.prems"(2) keep in blast)+
      qed
      ultimately show ?thesis using step[of "Some (Dir mc es1)"] Some stat ok sc es1(1) by (auto simp del: remove_stale_entries.simps)
    next
      case False
      have "no_stale s c" by (rule other) (rule False)
      have "\<exists>es''. remove_stale_loop io p depth src es es' = (es'', Ok ())
          \<and> (\<forall>k. if k \<in> fst ` set es then (\<forall>x. map_of es'' k = Some x \<longrightarrow> (\<exists>c. map_of src k = Some c \<and> no_stale c x))
                 else map_of es'' k = map_of es' k)"
        by (rule "3.IH"(4)[OF trans[OF stat Some] ok False "3.prems"(1) _ "3.prems"(3) es(1)]) (use "3.prems"(2,5) in auto)
      then obtain es'' where es'': "remove_stale_loop io p depth src es es' = (es'', Ok ())"
        "\<And>k. if k \<in> fst ` set es then (\<forall>x. map_of es'' k = Some x \<longrightarrow> (\<exists>c. map_of src k = Some c \<and> no_stale c x))
             else map_of es'' k = map_of es' k" by blast
      have "map_of es'' n = Some c" using es''(2)[of n] es(2) here by simp
      then have "if k \<in> fst ` set ((n, c) # es) then (\<forall>x. map_of es'' k = Some x \<longrightarrow> (\<exists>c. map_of src k = Some c \<and> no_stale c x))
          else map_of es'' k = map_of es' k" for k
        using es''(2)[of k] \<open>no_stale s c\<close> Some by (cases "k = n") auto
      moreover have "remove_stale_loop io p depth src ((n, c) # es) es' = (es'', Ok ())"
        using es''(1) False ok stat Some by (auto simp del: remove_stale_entries.simps)
      ultimately show ?thesis by blast
    qed
  qed
qed auto

text \<open>A staged copy has as good a tree as its source, so it can be copied back.\<close>

lemma tree_ok_Dir:
  "tree_ok k (Dir m es) \<longleftrightarrow> k > 0 \<and> distinct (map fst es) \<and> (\<forall>n c. map_of es n = Some c \<longrightarrow> tree_ok (k - 1) c)"
  by (auto dest: map_of_SomeD)

lemma distinct_put: "distinct (map fst es) \<Longrightarrow> distinct (map fst (put_entry n d es))"
  by (auto simp: put_entry_def distinct_update distinct_delete split: option.splits)

lemma on_ok_eq_Ok: "on_ok w f = (d', Inr u) \<longleftrightarrow> (\<exists>d. w = (d, Inr ()) \<and> f d = (d', Inr u))"
  by (auto simp: on_ok_def split: prod.splits sum.splits)

lemma call_eq_Ok: "call io op p msg d = (d', Inr u) \<longleftrightarrow> wi_fault io op p = None \<and> d' = d"
  by (auto simp: call_def split: option.splits)

lemma copy_dir_Ok:
  assumes "copy_entry io p depth (Dir m es) d = (d', Ok u)"
  obtains d0 d1 es'' where "remove_existing_path io p d = (d0, Ok ()) \<or> ((is_dir_node d \<or> d = None) \<and> d0 = d)"
    "d1 = Some (Dir (dir_mode io d0) (dir_entries d0))" "read_workspace_entries io p depth es = Ok es"
    "copy_children io p depth es (dir_entries d1) = (es'', Ok ())" "d' = Some (Dir m es'')"
proof -
  from assms obtain d0 d1 where d: "remove_existing_path io p d = (d0, Ok ()) \<or> ((is_dir_node d \<or> d = None) \<and> d0 = d)"
    "d1 = Some (Dir (dir_mode io d0) (dir_entries d0))"
    "(case read_workspace_entries io p depth es of
       Inl e \<Rightarrow> (d1, Err e)
     | Inr _ \<Rightarrow>
         (case copy_children io p depth es (dir_entries d1) of
            (es', Inl e) \<Rightarrow> (Some (Dir (dir_mode io d1) es'), Err e)
          | (es', Inr _) \<Rightarrow>
              call io SetPermissions p ''Failed to set permissions on workspace directory {:?}: {}'' (Some (Dir m es')))) = (d', Ok u)"
    by (auto simp: on_ok_eq_Ok call_eq_Ok create_dir_all_def split: if_splits)
  from d(3) have read: "read_workspace_entries io p depth es = Ok es"
    by (auto simp: read_workspace_entries_def split: if_splits)
  with d(3) obtain es'' where "copy_children io p depth es (dir_entries d1) = (es'', Ok ())" "d' = Some (Dir m es'')"
    by (auto simp: call_eq_Ok split: prod.splits sum.splits)
  then show ?thesis by (rule that[OF d(1,2) read])
qed

lemma copy_cons_Ok:
  assumes "copy_children io p depth ((n, c) # es) es' = (es'', Ok u)"
  obtains d where "copy_entry io (p @ [n]) (depth + 1) c (map_of es' n) = (d, Ok ())"
    "copy_children io p depth es (put_entry n d es') = (es'', Ok u)"
  using assms by (auto split: prod.splits sum.splits)

lemma copy_tree_ok:
  "copy_entry io p depth c d = (d', Ok u) \<Longrightarrow> faultless io \<Longrightarrow> tree_ok k c \<Longrightarrow> (\<And>x. d = Some x \<Longrightarrow> tree_ok k x) \<Longrightarrow>
     \<exists>x. d' = Some x \<and> tree_ok k x"
  "copy_children io p depth es es' = (es'', Ok u) \<Longrightarrow> faultless io \<Longrightarrow> (\<And>n c. (n, c) \<in> set es \<Longrightarrow> tree_ok k c) \<Longrightarrow>
     distinct (map fst es') \<Longrightarrow> (\<And>n c. map_of es' n = Some c \<Longrightarrow> tree_ok k c) \<Longrightarrow>
     distinct (map fst es'') \<and> (\<forall>n c. map_of es'' n = Some c \<longrightarrow> tree_ok k c)"
proof (induction io p depth c d and io p depth es es' arbitrary: k d' u and k es'' u rule: copy_entry_copy_children.induct)
  case (1 io p depth m es d)
  from "1.prems"(1) obtain d0 d1 es'' where
    d0: "remove_existing_path io p d = (d0, Ok ()) \<or> ((is_dir_node d \<or> d = None) \<and> d0 = d)" and
    d1: "d1 = Some (Dir (dir_mode io d0) (dir_entries d0))" and read: "read_workspace_entries io p depth es = Ok es" and
    cc: "copy_children io p depth es (dir_entries d1) = (es'', Ok ())" and d': "d' = Some (Dir m es'')"
    by (rule copy_dir_Ok)
  have "d0 = None \<or> d0 = d" using d0 "1.prems"(2) by (auto simp: faultless_remove)
  then have "distinct (map fst (dir_entries d0)) \<and> (\<forall>n x. map_of (dir_entries d0) n = Some x \<longrightarrow> tree_ok (k - 1) x)"
    using "1.prems"(4) by (cases d0 rule: dir_entries.cases) (auto dest: map_of_SomeD)
  then have "distinct (map fst es'') \<and> (\<forall>n c. map_of es'' n = Some c \<longrightarrow> tree_ok (k - 1) c)"
    using "1.prems"(3) by (intro "1.IH"[OF read cc "1.prems"(2)]) (auto simp: d1)
  with d' "1.prems"(3) show ?case by (auto simp del: tree_ok.simps simp: tree_ok_Dir)
next
  case (6 io p depth n c es es')
  from "6.prems"(1) obtain d where d: "copy_entry io (p @ [n]) (depth + 1) c (map_of es' n) = (d, Ok ())"
    "copy_children io p depth es (put_entry n d es') = (es'', Ok u)" by (rule copy_cons_Ok)
  from "6.IH"(1)[OF d(1) "6.prems"(2), where k = k] "6.prems"(3)[of n c] "6.prems"(5) obtain x where "d = Some x" "tree_ok k x" by auto
  then have "\<And>n' c'. map_of (put_entry n d es') n' = Some c' \<Longrightarrow> tree_ok k c'"
    using "6.prems"(5) by (auto simp: map_of_put split: if_splits)
  then show ?case using "6.prems"(3,4)
    by (intro "6.IH"(2)[OF d(1)[symmetric] refl d(2) "6.prems"(2)]) (auto simp: distinct_put)
qed (auto simp: faultless_call faultless_remove faultless_def)

section \<open>Depth\<close>

lemma copied_depth:
  "copy_entry io p depth c d = (d', Ok u) \<Longrightarrow> view c q = Some (DirInfo m) \<Longrightarrow> depth + length q \<le> MAX_WORKSPACE_DEPTH"
  "copy_children io p depth es es' = (es'', Ok u) \<Longrightarrow> (n, x) \<in> set es \<Longrightarrow> view x q = Some (DirInfo m) \<Longrightarrow>
     Suc (depth + length q) \<le> MAX_WORKSPACE_DEPTH"
proof (induction io p depth c d and io p depth es es' arbitrary: q d' u and q es'' u n x rule: copy_entry_copy_children.induct)
  case (1 io p depth m' es d)
  from "1.prems"(1) obtain d1 es'' where read: "read_workspace_entries io p depth es = Ok es" and
    cc: "copy_children io p depth es (dir_entries d1) = (es'', Ok ())" by (rule copy_dir_Ok)
  have "depth \<le> MAX_WORKSPACE_DEPTH" using read by (auto simp: read_workspace_entries_def split: if_splits)
  show ?case
  proof (cases q)
    case (Cons n r)
    with "1.prems"(2) obtain x where "(n, x) \<in> set es" "view x r = Some (DirInfo m)"
      by (auto split: option.splits dest: map_of_SomeD)
    from "1.IH"[OF read cc this] Cons show ?thesis by simp
  qed (use \<open>depth \<le> MAX_WORKSPACE_DEPTH\<close> in simp)
next
  case (6 io p depth n0 c es es')
  from "6.prems"(1) obtain d where d: "copy_entry io (p @ [n0]) (depth + 1) c (map_of es' n0) = (d, Ok ())"
    "copy_children io p depth es (put_entry n0 d es') = (es'', Ok u)" by (rule copy_cons_Ok)
  from "6.prems"(2,3) "6.IH"(1)[OF d(1)] "6.IH"(2)[OF d(1)[symmetric] refl d(2)] show ?case by auto
next
  case (2 io p depth content m d) then show ?case by (cases q) auto
next
  case (3 io p depth t d) then show ?case by (cases q) auto
next
  case (4 io p depth d) then show ?case by (cases q) auto
qed auto

section \<open>The properties\<close>

definition entries_ok :: "(string \<times> node) list \<Rightarrow> bool" where
  "entries_ok es \<longleftrightarrow> distinct (map fst es) \<and> (\<forall>(n, c) \<in> set es. tree_ok MAX_WORKSPACE_DEPTH c)"

lemma read_root: "faultless io \<Longrightarrow> read_workspace_entries io [] 0 es = Ok es"
  by (simp add: read_workspace_entries_def faultless_def)

lemma copy_tree_mirrors:
  assumes "faultless io" "entries_ok es"
    and "\<And>n x. map_of es' n = Some x \<Longrightarrow> \<exists>c. map_of es n = Some c \<and> no_stale c x"
  shows "\<exists>es''. copy_tree_contents io es es' = (es'', Ok ()) \<and> entries_view es'' = entries_view es"
proof -
  have "\<exists>es''. copy_children io [] 0 es es' = (es'', Ok ())
      \<and> (\<forall>n. case map_of es n of None \<Rightarrow> map_of es'' n = map_of es' n
               | Some c \<Rightarrow> \<exists>d. map_of es'' n = Some d \<and> view d = view c)"
    using assms(1,2) by (intro copy_mirrors(2)[where k = MAX_WORKSPACE_DEPTH]) (auto simp: entries_ok_def dest: assms(3))
  then obtain es'' where es'': "copy_children io [] 0 es es' = (es'', Ok ())"
    "\<And>n. case map_of es n of None \<Rightarrow> map_of es'' n = map_of es' n
         | Some c \<Rightarrow> \<exists>d. map_of es'' n = Some d \<and> view d = view c" by blast
  have "entries_view es'' q = entries_view es q" for q
  proof (cases q)
    case (Cons n r)
    have "map_of es' n = None" if "map_of es n = None" using assms(3)[of n] that by (cases "map_of es' n") auto
    with es''(2)[of n] Cons show ?thesis by (auto simp: entries_view_def split: option.splits)
  qed (simp add: entries_view_def)
  with es''(1) assms(1) show ?thesis by (auto simp: copy_tree_contents_def read_root)
qed

lemma sync_mirrors:
  assumes "faultless io" "entries_ok stage" "names_ok (Dir m' es)"
    and "validate_workspace_host_path canonicalize is_dir destination = Ok q"
  shows "\<exists>es'. sync_workspace_out canonicalize is_dir io (Some (Dir m stage)) destination es = (es', Ok ())
           \<and> entries_view es' = entries_view stage"
proof -
  have "\<exists>es''. remove_stale_entries io [] 0 stage es = (es'', Ok ())
      \<and> (\<forall>n x. map_of es'' n = Some x \<longrightarrow> (\<exists>c. map_of stage n = Some c \<and> no_stale c x))"
    using assms(2) by (intro stale_removed(1)[OF assms(1) _ _ assms(3), where k = MAX_WORKSPACE_DEPTH])
      (auto simp: entries_ok_def dest!: map_of_SomeD)
  then obtain es'' where es'': "remove_stale_entries io [] 0 stage es = (es'', Ok ())"
    "\<And>n x. map_of es'' n = Some x \<Longrightarrow> \<exists>c. map_of stage n = Some c \<and> no_stale c x" by blast
  from copy_tree_mirrors[OF assms(1,2) es''(2)] es''(1) assms(4) show ?thesis
    by (auto simp: sync_workspace_out_def simp del: remove_stale_entries.simps)
qed

lemma stage_made:
  assumes "faultless io" "entries_ok es" "validate_workspace_host_path canonicalize is_dir source = Ok q"
  shows "\<exists>m stage. copy_workspace_in canonicalize is_dir io source es None = (Some (Dir m stage), Ok ())
           \<and> entries_ok stage \<and> entries_view stage = entries_view es"
proof -
  from copy_tree_mirrors[OF assms(1,2), of "[]"] obtain stage where
    s: "copy_tree_contents io es [] = (stage, Ok ())" "entries_view stage = entries_view es" by auto
  with assms(1) have "copy_children io [] 0 es [] = (stage, Ok ())" by (simp add: copy_tree_contents_def read_root)
  from copy_tree_ok(2)[OF this assms(1), where k = MAX_WORKSPACE_DEPTH] assms(2)
  have d: "distinct (map fst stage)" "\<And>n c. map_of stage n = Some c \<Longrightarrow> tree_ok MAX_WORKSPACE_DEPTH c"
    by (auto simp: entries_ok_def)
  then have "entries_ok stage" by (auto simp: entries_ok_def intro: d(2)[OF map_of_is_SomeI])
  with s assms(1,3) show ?thesis by (auto simp: copy_workspace_in_def create_dir_all_def faultless_call)
qed

text \<open>
  C36: mirroring the stage back. When no call fails and the stage nests at most 256 directories without special files,
  \<open>sync_workspace_out\<close> succeeds and afterwards every path of the host directory, whatever it held before, has exactly
  what the stage has there: the same files with content and mode, directories with their mode, links, and nothing else.
\<close>

theorem sync_out_mirrors_stage:
  assumes "faultless io" "entries_ok stage" "names_ok (Dir m' es)"
    and "validate_workspace_host_path canonicalize is_dir destination = Ok q"
  shows "\<exists>es'. sync_workspace_out canonicalize is_dir io (Some (Dir m stage)) destination es = (es', Ok ())
           \<and> (\<forall>p. entries_view es' p = entries_view stage p)"
  using sync_mirrors[OF assms, of m] by auto

definition demo_ws_io :: ws_io where "demo_ws_io = \<lparr>wi_fault = (\<lambda>op p. None), wi_dir_mode = 493\<rparr>"

lemma demo_faultless: "faultless demo_ws_io" by (simp add: faultless_def demo_ws_io_def)

lemma demo_workspace_valid: "validate_workspace_host_path Some (\<lambda>p. True) (path_new ''/srv/ws'') = Ok (path_new ''/srv/ws'')"
  by (simp add: validate_workspace_Ok reject_denied_workspace_Ok denied_workspace_source_prefixes_def path_new_def component_of_def
      split_on_def is_absolute_def policy_step_def path_push_def)

theorem sync_out_mirrors_stage_witness:
  "\<exists>es'. sync_workspace_out Some (\<lambda>p. True) demo_ws_io (Some (Dir 493 [(''a'', File ''x'' 420), (''d'', Dir 448 [(''l'', Link ''../a'')])]))
       (path_new ''/srv/ws'') [(''a'', Dir 493 [(''old'', File ''y'' 420)]), (''gone'', Special)] = (es', Ok ())
     \<and> (\<forall>p. entries_view es' p = entries_view [(''a'', File ''x'' 420), (''d'', Dir 448 [(''l'', Link ''../a'')])] p)"
  by (rule sync_out_mirrors_stage[OF demo_faultless _ _ demo_workspace_valid, where m' = 0])
    (simp_all add: entries_ok_def MAX_WORKSPACE_DEPTH_def)

text \<open>
  staging a workspace and mirroring it back changes nothing. When no call fails, the workspace nests at most 256
  directories and has no special file, \<open>copy_workspace_in\<close> and then \<open>sync_workspace_out\<close> succeed and every path of the
  host directory has what it had before.
\<close>

theorem copy_in_out_roundtrip:
  assumes "faultless io" "entries_ok es" "validate_workspace_host_path canonicalize is_dir source = Ok q"
  shows "\<exists>stage es'. copy_workspace_in canonicalize is_dir io source es None = (stage, Ok ())
           \<and> sync_workspace_out canonicalize is_dir io stage source es = (es', Ok ())
           \<and> (\<forall>p. entries_view es' p = entries_view es p)"
proof -
  have names: "tree_ok k c \<Longrightarrow> names_ok c" for k c by (induction k c rule: tree_ok.induct) auto
  have "names_ok (Dir 0 es)" using assms(2) by (auto simp: entries_ok_def intro: names)
  with stage_made[OF assms] sync_mirrors[OF assms(1) _ _ assms(3)] show ?thesis by metis
qed

theorem copy_in_out_roundtrip_witness:
  "\<exists>stage es'. copy_workspace_in Some (\<lambda>p. True) demo_ws_io (path_new ''/srv/ws'')
         [(''a'', File ''x'' 420), (''d'', Dir 448 [(''l'', Link ''../a'')])] None = (stage, Ok ())
     \<and> sync_workspace_out Some (\<lambda>p. True) demo_ws_io stage (path_new ''/srv/ws'')
         [(''a'', File ''x'' 420), (''d'', Dir 448 [(''l'', Link ''../a'')])] = (es', Ok ())
     \<and> (\<forall>p. entries_view es' p = entries_view [(''a'', File ''x'' 420), (''d'', Dir 448 [(''l'', Link ''../a'')])] p)"
  by (rule copy_in_out_roundtrip[OF demo_faultless _ demo_workspace_valid]) (simp add: entries_ok_def MAX_WORKSPACE_DEPTH_def)

text \<open>
  the depth bound. Whatever calls fail, a copy that succeeds came from a tree in which every directory lies at most
  256 names below the workspace: the recursion is bounded and a deeper tree is an error.
\<close>

theorem copied_tree_depth_bounded:
  assumes "copy_tree_contents io es es' = (es'', Ok ())" and "entries_view es p = Some (DirInfo m)"
  shows "length p \<le> MAX_WORKSPACE_DEPTH"
proof (cases p)
  case (Cons n q)
  from assms(1) have "copy_children io [] 0 es es' = (es'', Ok ())"
    by (auto simp: copy_tree_contents_def read_workspace_entries_def split: if_splits)
  from copied_depth(2)[OF this, of n _ q m] assms(2) Cons show ?thesis
    by (auto simp: entries_view_def split: option.splits dest: map_of_SomeD)
qed simp

theorem copied_tree_depth_bounded_witness: "length [''d''] \<le> MAX_WORKSPACE_DEPTH"
proof -
  have "copy_tree_contents demo_ws_io [(''d'', Dir 448 [])] [] = ([(''d'', Dir 448 [])], Ok ())"
    by (simp add: copy_tree_contents_def read_workspace_entries_def demo_ws_io_def call_def create_dir_all_def
        MAX_WORKSPACE_DEPTH_def put_entry_def on_ok_def)
  then show ?thesis by (rule copied_tree_depth_bounded[where m = 448]) (simp add: entries_view_def)
qed

text \<open>Special files are skipped on the way in.\<close>

lemma copy_children_other:
  "copy_children io p depth es es' = (es'', r) \<Longrightarrow> \<forall>(k, c) \<in> set es. k = n \<longrightarrow> c = Special \<Longrightarrow> map_of es'' n = map_of es' n"
proof (induction es arbitrary: es')
  case (Cons e es)
  obtain k c where e: "e = (k, c)" by (cases e)
  have here: "map_of (put_entry k d es') n = map_of es' n" if "copy_entry io (p @ [k]) (depth + 1) c (map_of es' k) = (d, r')" for d r'
    using that Cons.prems(2) e by (auto simp: map_of_put)
  obtain d r' where d: "copy_entry io (p @ [k]) (depth + 1) c (map_of es' k) = (d, r')" by fastforce
  show ?case
  proof (cases r')
    case (Inl x)
    with Cons.prems(1) e d have "es'' = put_entry k d es'" by simp
    with here[OF d] show ?thesis by simp
  next
    case (Inr u)
    with Cons.prems(1) e d have "copy_children io p depth es (put_entry k d es') = (es'', r)" by simp
    from Cons.IH[OF this] Cons.prems(2) here[OF d] show ?thesis by simp
  qed
qed simp

lemma remove_stale_absent:
  "remove_stale_loop io p depth src es es' = (es'', Ok u) \<Longrightarrow> map_of src n = None \<Longrightarrow> n \<in> fst ` set es \<or> map_of es' n = None \<Longrightarrow>
     map_of es'' n = None"
proof (induction es arbitrary: es')
  case (Cons e es)
  obtain k c where e: "e = (k, c)" by (cases e)
  have removed: "d = None" if "remove_existing_path io q x = (d, Inr v)" for q x d v
    using that by (auto simp: remove_existing_path_def on_ok_eq_Ok call_eq_Ok split: option.splits if_splits)
  from Cons.prems(1) e consider
      "remove_stale_loop io p depth src es (put_entry k None es') = (es'', Ok u)"
    | d where "k \<noteq> n" "remove_stale_loop io p depth src es (put_entry k d es') = (es'', Ok u)"
    | "k \<noteq> n" "remove_stale_loop io p depth src es es' = (es'', Ok u)"
    using Cons.prems(2) by (cases "k = n")
      (fastforce split: option.splits prod.splits sum.splits if_splits dest!: removed simp: stat_staged_def
        simp del: remove_stale_entries.simps)+
  then show ?case using Cons.IH Cons.prems(2,3) e by cases (auto simp: map_of_put)
qed simp

text \<open>
  a special file of the host (a socket, a FIFO, a device) does not survive the round trip. The way in skips it, so
  the stage has no such name, and the way back removes every name of the host that the stage has not.
\<close>

theorem special_files_removed:
  assumes "distinct (map fst es)" "map_of es n = Some Special"
    and "copy_workspace_in canonicalize is_dir io source es None = (stage, Ok ())"
    and "sync_workspace_out canonicalize is_dir io stage source es = (es', Ok ())"
  shows "map_of es' n = None"
proof -
  from assms(3) obtain m ss where ss: "copy_tree_contents io es [] = (ss, Ok ())" "stage = Some (Dir m ss)"
    by (auto simp: copy_workspace_in_def create_dir_all_def on_ok_eq_Ok call_eq_Ok split: sum.splits prod.splits)
  have "\<forall>(k, c) \<in> set es. k = n \<longrightarrow> c = Special" using assms(1,2) by (auto simp: map_of_eq_Some_iff eq_key_imp_eq_value)
  then have "map_of ss n = map_of [] n"
    using ss(1) by (intro copy_children_other[of io "[]" 0 es])
      (auto simp: copy_tree_contents_def read_workspace_entries_def split: if_splits)
  then have none: "map_of ss n = None" by simp
  from assms(4) ss(2) obtain e1 where e1: "remove_stale_loop io [] 0 ss es es = (e1, Ok ())" "copy_tree_contents io ss e1 = (es', Ok ())"
    by (auto simp: sync_workspace_out_def split: sum.splits prod.splits if_splits)
  have "n \<in> fst ` set es" using assms(2) by (force dest: map_of_SomeD)
  with remove_stale_absent[OF e1(1) none] have "map_of e1 n = None" by simp
  moreover have "map_of es' n = map_of e1 n"
    using e1(2) none by (intro copy_children_other[of io "[]" 0 ss])
      (auto simp: copy_tree_contents_def read_workspace_entries_def map_of_eq_None_iff image_iff split: if_splits)
  ultimately show ?thesis by simp
qed

theorem special_files_removed_witness:
  "map_of (fst (sync_workspace_out Some (\<lambda>p. True) demo_ws_io
     (fst (copy_workspace_in Some (\<lambda>p. True) demo_ws_io (path_new ''/srv/ws'') [(''s'', Special)] None))
     (path_new ''/srv/ws'') [(''s'', Special)])) ''s'' = None"
proof -
  have i: "copy_workspace_in Some (\<lambda>p. True) demo_ws_io (path_new ''/srv/ws'') [(''s'', Special)] None = (Some (Dir 493 []), Ok ())"
    by (simp add: copy_workspace_in_def demo_workspace_valid copy_tree_contents_def read_workspace_entries_def demo_ws_io_def call_def
        create_dir_all_def MAX_WORKSPACE_DEPTH_def put_entry_def)
  moreover have o: "sync_workspace_out Some (\<lambda>p. True) demo_ws_io (Some (Dir 493 [])) (path_new ''/srv/ws'') [(''s'', Special)] = ([], Ok ())"
    by (simp add: sync_workspace_out_def demo_workspace_valid copy_tree_contents_def read_workspace_entries_def demo_ws_io_def
        stat_staged_def remove_existing_path_def call_def MAX_WORKSPACE_DEPTH_def put_entry_def)
  moreover have "map_of ([] :: (string \<times> node) list) ''s'' = None"
    by (rule special_files_removed[OF _ _ i o]) simp_all
  ultimately show ?thesis by (simp only: fst_conv)
qed

end
