(* ===== verification/Context_Copy.thy ===== *)
theory Context_Copy
  imports Workspace_Copy Container_Config
begin

text \<open>
  The context directory of a container (\<^verbatim>\<open>src/src/filesystem/context.rs\<close>, \<^verbatim>\<open>lazy.rs\<close>, \<^verbatim>\<open>tmpfs.rs\<close>): which
  names are left out, the copy into a fresh destination, the check before a bind mount, and the mounts.

  The source is a file tree (a \<open>node\<close>), read through \<open>symlink_metadata\<close>. The destination lies on a tmpfs of the
  program, so it holds directories and regular files. Failures of calls are arguments: \<open>cx_fault\<close> says which call on
  which path fails, \<open>cx_partial\<close> what a failed copy leaves. Lower case is that of ASCII.
\<close>

section \<open>Names that are left out\<close>

definition excluded_exact :: "string list" where
  "excluded_exact = [''target'', ''node_modules'', ''.DS_Store'', ''__pycache__'', ''.svn'', ''.env'', ''.ssh'', ''.gnupg'',
     ''.aws'', ''.azure'', ''.gcloud'', ''.config/gcloud'', ''.docker'', ''.netrc'', ''.kube'', ''.helm'']"

definition excluded_suffixes :: "string list" where
  "excluded_suffixes = [''.swp'', ''.swo'', ''.pem'', ''.key'', ''.p12'', ''.crt'', ''.pfx'', ''.jks'']"

definition excluded_words :: "string list" where
  "excluded_words = [''credential'', ''secret'', ''private_key'', ''kubeconfig'']"

definition should_exclude_name :: "string \<Rightarrow> bool" where
  "should_exclude_name name =
     (let lower = to_lowercase name in
      if lower = ''.git'' then True
      else if name \<in> set excluded_exact then True
      else if prefix ''.env.'' name then True
      else if \<exists>s\<in>set excluded_suffixes. ends_with s name then True
      else if \<exists>w\<in>set excluded_words. contains w lower then True
      else False)"

section \<open>Copying\<close>

datatype staged = SFile string | SDir "(string \<times> staged) list"

datatype cx_op = CxExists | CxIsDir | CxCreateDest | CxRead | CxStat | CxCreateDir | CxCopy | CxBind | CxRemount

record cx_io =
  cx_fault :: "cx_op \<Rightarrow> string list \<Rightarrow> bool"
  cx_partial :: "string list \<Rightarrow> string option"

definition MAX_RECURSION_DEPTH :: nat where "MAX_RECURSION_DEPTH = 128"

definition filtered_entries :: "cx_io \<Rightarrow> string list \<Rightarrow> nat \<Rightarrow> (string \<times> node) list \<Rightarrow> (string \<times> node) list result" where
  "filtered_entries io p depth es =
     (if depth > MAX_RECURSION_DEPTH then Err (ContextError ''Maximum directory depth ({}) exceeded at {:?}'')
      else if cx_fault io CxRead p then Err (ContextError ''Failed to read directory {:?}: {}'')
      else if \<exists>(n, c)\<in>set es. \<not> should_exclude_name n \<and> cx_fault io CxStat (p @ [n])
      then Err (ContextError ''Failed to get metadata for {:?}: {}'')
      else Ok (filter (\<lambda>(n, c). \<not> should_exclude_name n) es))"

lemma filtered_entries_Ok: "filtered_entries io p depth es = Ok es' \<Longrightarrow> es' = filter (\<lambda>(n, c). \<not> should_exclude_name n) es"
  by (auto simp: filtered_entries_def split: if_splits)

lemma size_list_filter: "size_list f (filter P xs) \<le> size_list f xs"
  by (induction xs) auto

fun staged_entries :: "staged option \<Rightarrow> (string \<times> staged) list" where
  "staged_entries (Some (SDir ds)) = ds"
| "staged_entries _ = []"

text \<open>
  \<open>copy_recursive io p depth es ds\<close>: \<open>es\<close> are the entries of the source directory at \<open>p\<close>, \<open>ds\<close> those of the destination.
  A directory over a regular file, or the reverse, is an error of the call.
\<close>

function copy_recursive :: "cx_io \<Rightarrow> string list \<Rightarrow> nat \<Rightarrow> (string \<times> node) list \<Rightarrow> (string \<times> staged) list \<Rightarrow>
    (string \<times> staged) list \<times> unit result"
  and copy_context_loop :: "cx_io \<Rightarrow> string list \<Rightarrow> nat \<Rightarrow> (string \<times> node) list \<Rightarrow> (string \<times> staged) list \<Rightarrow>
    (string \<times> staged) list \<times> unit result"
where
  "copy_recursive io p depth es ds =
     (case filtered_entries io p depth es of
        Inl e \<Rightarrow> (ds, Err e)
      | Inr es' \<Rightarrow> copy_context_loop io p depth es' ds)"
| "copy_context_loop io p depth [] ds = (ds, Ok ())"
| "copy_context_loop io p depth ((n, Dir m sub) # es) ds =
     (if cx_fault io CxCreateDir (p @ [n]) \<or> (\<exists>c. map_of ds n = Some (SFile c))
      then (ds, Err (ContextError ''Failed to create directory {:?}: {}''))
      else
        (case copy_recursive io (p @ [n]) (depth + 1) sub (staged_entries (map_of ds n)) of
           (ds', Inl e) \<Rightarrow> (AList.update n (SDir ds') ds, Err e)
         | (ds', Inr _) \<Rightarrow> copy_context_loop io p depth es (AList.update n (SDir ds') ds)))"
| "copy_context_loop io p depth ((n, File content m) # es) ds =
     (if \<exists>s. map_of ds n = Some (SDir s) then (ds, Err (ContextError ''Failed to copy {:?} to {:?}: {}''))
      else if cx_fault io CxCopy (p @ [n])
      then (case cx_partial io (p @ [n]) of None \<Rightarrow> ds | Some c \<Rightarrow> AList.update n (SFile c) ds,
            Err (ContextError ''Failed to copy {:?} to {:?}: {}''))
      else copy_context_loop io p depth es (AList.update n (SFile content) ds))"
| "copy_context_loop io p depth ((n, Link target) # es) ds = copy_context_loop io p depth es ds"
| "copy_context_loop io p depth ((n, Special) # es) ds = copy_context_loop io p depth es ds"
  by pat_completeness auto
termination
proof (relation "measure (case_sum (\<lambda>(io, p, depth, es, ds). 2 * size_list (size_prod (\<lambda>_. 0) size) es + 1)
    (\<lambda>(io, p, depth, es, ds). 2 * size_list (size_prod (\<lambda>_. 0) size) es))", goal_cases)
  case (2 io p depth es ds es')
  then show ?case using size_list_filter[of "size_prod (\<lambda>_. 0) size"] by (auto dest!: filtered_entries_Ok simp: less_Suc_eq_le)
qed auto

text \<open>A source path: whether it exists, and the node there; the metadata calls may fail as if it did not exist.\<close>

definition validate_source :: "cx_io \<Rightarrow> node option \<Rightarrow> unit result" where
  "validate_source io source =
     (if source = None \<or> cx_fault io CxExists [] then Err (ContextError ''Source directory does not exist: {:?}'')
      else if \<not> is_dir_node source \<or> cx_fault io CxIsDir [] then Err (ContextError ''Source is not a directory: {:?}'')
      else Ok ())"

definition populate :: "cx_io \<Rightarrow> node option \<Rightarrow> (string \<times> staged) list option \<Rightarrow> (string \<times> staged) list option \<times> unit result" where
  "populate io source dest =
     (case validate_source io source of
        Inl e \<Rightarrow> (dest, Err e)
      | Inr _ \<Rightarrow>
          if dest = None \<and> cx_fault io CxCreateDest [] then (dest, Err (ContextError ''Failed to create destination {:?}: {}''))
          else
            (case copy_recursive io [] 0 (dir_entries source) (case dest of None \<Rightarrow> [] | Some ds \<Rightarrow> ds) of
               (ds', r) \<Rightarrow> (Some ds', r)))"

section \<open>The check before a bind mount\<close>

function validate_recursive :: "cx_io \<Rightarrow> string list \<Rightarrow> nat \<Rightarrow> (string \<times> node) list \<Rightarrow> unit result"
  and validate_context_loop :: "cx_io \<Rightarrow> string list \<Rightarrow> nat \<Rightarrow> (string \<times> node) list \<Rightarrow> unit result"
where
  "validate_recursive io p depth es =
     (case filtered_entries io p depth es of Inl e \<Rightarrow> Err e | Inr es' \<Rightarrow> validate_context_loop io p depth es')"
| "validate_context_loop io p depth [] = Ok ()"
| "validate_context_loop io p depth ((n, c) # es) =
     (case c of
        Link target \<Rightarrow> Err (ContextError ''Bind-mounted contexts may not contain symlinks: {:?}'')
      | Dir m sub \<Rightarrow>
          (case validate_recursive io (p @ [n]) (depth + 1) sub of
             Inl e \<Rightarrow> Err e | Inr _ \<Rightarrow> validate_context_loop io p depth es)
      | File content m \<Rightarrow> validate_context_loop io p depth es
      | Special \<Rightarrow> Err (ContextError ''Bind-mounted contexts may not contain special files: {:?}''))"
  by pat_completeness auto
termination
proof (relation "measure (case_sum (\<lambda>(io, p, depth, es). 2 * size_list (size_prod (\<lambda>_. 0) size) es + 1)
    (\<lambda>(io, p, depth, es). 2 * size_list (size_prod (\<lambda>_. 0) size) es))", goal_cases)
  case (2 io p depth es es')
  then show ?case using size_list_filter[of "size_prod (\<lambda>_. 0) size"] by (auto dest!: filtered_entries_Ok simp: less_Suc_eq_le)
qed auto

definition validate_source_tree :: "cx_io \<Rightarrow> node option \<Rightarrow> unit result" where
  "validate_source_tree io source =
     and_then (validate_source io source) (\<lambda>_. validate_recursive io [] 0 (dir_entries source))"

section \<open>What is kept\<close>

fun kept_info :: "info option \<Rightarrow> string option option" where
  "kept_info (Some (FileInfo content m)) = Some (Some content)"
| "kept_info (Some (DirInfo m)) = Some None"
| "kept_info _ = None"

text \<open>At a path with an excluded name there is nothing, elsewhere regular files and directories: \<open>Some None\<close> is a directory.\<close>

definition kept_node :: "node \<Rightarrow> string list \<Rightarrow> string option option" where
  "kept_node c q = (if \<exists>n\<in>set q. should_exclude_name n then None else kept_info (view c q))"

definition kept_view :: "(string \<times> node) list \<Rightarrow> string list \<Rightarrow> string option option" where
  "kept_view es q = (if \<exists>n\<in>set q. should_exclude_name n then None else kept_info (entries_view es q))"

fun staged_view :: "staged \<Rightarrow> string list \<Rightarrow> string option option" where
  "staged_view (SFile content) [] = Some (Some content)"
| "staged_view (SDir ds) [] = Some None"
| "staged_view (SDir ds) (n # q) = (case map_of ds n of None \<Rightarrow> None | Some c \<Rightarrow> staged_view c q)"
| "staged_view (SFile content) (n # q) = None"

definition staged_dir_view :: "(string \<times> staged) list \<Rightarrow> string list \<Rightarrow> string option option" where
  "staged_dir_view ds q = (case q of [] \<Rightarrow> None | n # r \<Rightarrow> (case map_of ds n of None \<Rightarrow> None | Some c \<Rightarrow> staged_view c r))"

lemma kept_view_Nil [simp]: "kept_view es [] = None"
  by (simp add: kept_view_def entries_view_def)

lemma kept_view_Cons:
  "kept_view es (n # q) = (if should_exclude_name n then None else case map_of es n of None \<Rightarrow> None | Some c \<Rightarrow> kept_node c q)"
  by (auto simp: kept_view_def kept_node_def entries_view_def split: option.splits)

lemma kept_node_Dir: "kept_node (Dir m es) q = (case q of [] \<Rightarrow> Some None | n # r \<Rightarrow> kept_view es q)"
  by (auto simp: kept_node_def kept_view_def entries_view_def split: list.splits option.splits)

lemma kept_node_File: "kept_node (File content m) q = (if q = [] then Some (Some content) else None)"
  by (cases q) (auto simp: kept_node_def)

lemma kept_node_other: "kept_node (Link target) q = None" "kept_node Special q = None"
  by (cases q; simp add: kept_node_def)+

lemmas kept_node_simps = kept_node_Dir kept_node_File kept_node_other

lemma staged_dir_view_Nil [simp]: "staged_dir_view ds [] = None" "staged_dir_view [] q = None"
  by (auto simp: staged_dir_view_def split: list.splits)

lemma staged_view_SDir: "staged_view (SDir ds) q = (case q of [] \<Rightarrow> Some None | n # r \<Rightarrow> staged_dir_view ds q)"
  by (cases q) (auto simp: staged_dir_view_def)

lemma staged_dir_view_update:
  "staged_dir_view (AList.update n c ds) q = (if q \<noteq> [] \<and> hd q = n then staged_view c (tl q) else staged_dir_view ds q)"
  by (cases q) (auto simp: staged_dir_view_def update_conv')

lemma staged_entries_view: "staged_dir_view (staged_entries (map_of ds n)) q \<noteq> None \<Longrightarrow> staged_dir_view ds (n # q) \<noteq> None"
  by (cases "map_of ds n" rule: staged_entries.cases) (auto simp: staged_dir_view_def[of ds] staged_view_SDir split: list.splits)

text \<open>Whatever fails, a path of the destination was there before or is kept from the source.\<close>

lemma copy_recursive_kept:
  "copy_recursive io p depth es ds = (ds', r) \<Longrightarrow> names_ok (Dir 0 es) \<Longrightarrow> staged_dir_view ds' q \<noteq> None \<Longrightarrow>
     staged_dir_view ds q \<noteq> None \<or> kept_view es q \<noteq> None"
  "copy_context_loop io p depth es ds = (ds', r) \<Longrightarrow> names_ok (Dir 0 es) \<Longrightarrow> staged_dir_view ds' q \<noteq> None \<Longrightarrow>
     staged_dir_view ds q \<noteq> None \<or> (\<exists>n c. (n, c) \<in> set es \<and> q \<noteq> [] \<and> hd q = n \<and> kept_node c (tl q) \<noteq> None)"
proof (induction io p depth es ds and io p depth es ds arbitrary: ds' r q and ds' r q rule: copy_recursive_copy_context_loop.induct)
  case (1 io p depth es ds)
  show ?case
  proof (cases "filtered_entries io p depth es")
    case (Inl e)
    with "1.prems" show ?thesis by auto
  next
    case (Inr es')
    note es' = filtered_entries_Ok[OF Inr]
    have "names_ok (Dir 0 es')" using "1.prems"(2) es' by (auto simp: distinct_map_filter)
    moreover have "copy_context_loop io p depth es' ds = (ds', r)" using "1.prems"(1) Inr by simp
    ultimately have "staged_dir_view ds q \<noteq> None \<or> (\<exists>n c. (n, c) \<in> set es' \<and> q \<noteq> [] \<and> hd q = n \<and> kept_node c (tl q) \<noteq> None)"
      by (intro "1.IH"[OF Inr _ _ "1.prems"(3)])
    then consider "staged_dir_view ds q \<noteq> None" | n c where "(n, c) \<in> set es'" "q \<noteq> []" "hd q = n" "kept_node c (tl q) \<noteq> None" by blast
    then show ?thesis
    proof cases
      case (2 n c)
      then have "map_of es n = Some c" "\<not> should_exclude_name n" using es' "1.prems"(2) by auto
      with 2 show ?thesis by (cases q) (auto simp: kept_view_Cons)
    qed simp
  qed
next
  case (3 io p depth n m sub es ds)
  show ?case
  proof (cases "cx_fault io CxCreateDir (p @ [n]) \<or> (\<exists>c. map_of ds n = Some (SFile c))")
    case True
    with "3.prems" show ?thesis by auto
  next
    case False
    obtain ds1 r1 where c: "copy_recursive io (p @ [n]) (depth + 1) sub (staged_entries (map_of ds n)) = (ds1, r1)" by fastforce
    have here: "staged_dir_view ds q \<noteq> None \<or> (hd q = n \<and> kept_node (Dir m sub) (tl q) \<noteq> None)"
      if "q \<noteq> []" "staged_dir_view (AList.update n (SDir ds1) ds) q \<noteq> None" for q
    proof (cases "hd q = n \<and> tl q \<noteq> []")
      case True
      then obtain k x where q: "q = n # k # x" by (cases q; cases "tl q") auto
      with that have "staged_dir_view ds1 (k # x) \<noteq> None" by (auto simp: staged_dir_view_update staged_view_SDir)
      with "3.IH"(1)[OF False c] "3.prems"(2) have "staged_dir_view (staged_entries (map_of ds n)) (k # x) \<noteq> None \<or> kept_view sub (k # x) \<noteq> None"
        by auto
      with q show ?thesis using staged_entries_view[of ds n "k # x"] by (auto simp: kept_node_Dir)
    next
      case False
      with that show ?thesis by (auto simp: staged_dir_view_update kept_node_Dir split: if_splits list.splits)
    qed
    have q: "q \<noteq> []" using "3.prems"(3) by auto
    show ?thesis
    proof (cases r1)
      case (Inl e)
      with False c "3.prems"(1) have "ds' = AList.update n (SDir ds1) ds" by simp
      with here[OF q] "3.prems"(3) q show ?thesis by auto
    next
      case (Inr u)
      with False c "3.prems"(1) have "copy_context_loop io p depth es (AList.update n (SDir ds1) ds) = (ds', r)" by simp
      with "3.IH"(2)[OF False c[symmetric] Inr] "3.prems"(2,3)
      have "staged_dir_view (AList.update n (SDir ds1) ds) q \<noteq> None \<or> (\<exists>k c. (k, c) \<in> set es \<and> q \<noteq> [] \<and> hd q = k \<and> kept_node c (tl q) \<noteq> None)"
        by auto
      with here[OF q] q show ?thesis by auto
    qed
  qed
next
  case (4 io p depth n content m es ds)
  have here: "staged_dir_view ds q \<noteq> None \<or> (q \<noteq> [] \<and> hd q = n \<and> kept_node (File content m) (tl q) \<noteq> None)"
    if "staged_dir_view (AList.update n (SFile c) ds) q \<noteq> None" for q c
    using that by (cases q; cases "tl q") (auto simp: staged_dir_view_update kept_node_File split: if_splits)
  from "4.prems"(1) consider "ds' = ds" | c where "ds' = AList.update n (SFile c) ds"
    | "copy_context_loop io p depth es (AList.update n (SFile content) ds) = (ds', r)"
       "\<not> (\<exists>s. map_of ds n = Some (SDir s))" "\<not> cx_fault io CxCopy (p @ [n])"
    by (auto split: if_splits option.splits)
  then show ?case
  proof cases
    case 1 with "4.prems"(3) show ?thesis by simp
  next
    case (2 c) with here[of c q] "4.prems"(3) show ?thesis by auto
  next
    case 3
    have "names_ok (Dir 0 es)" using "4.prems"(2) by simp
    from "4.IH"[OF 3(2,3,1) this "4.prems"(3)] here[of content q] show ?thesis by auto
  qed
next
  case (5 io p depth n target es ds)
  then have "copy_context_loop io p depth es ds = (ds', r)" "names_ok (Dir 0 es)" by auto
  from "5.IH"[OF this "5.prems"(3)] show ?case by auto
next
  case (6 io p depth n es ds)
  then have "copy_context_loop io p depth es ds = (ds', r)" "names_ok (Dir 0 es)" by auto
  from "6.IH"[OF this "6.prems"(3)] show ?case by auto
qed auto

text \<open>Without failures the copy succeeds exactly when the kept directories nest at most 128 deep.\<close>

definition cx_faultless :: "cx_io \<Rightarrow> bool" where
  "cx_faultless io \<longleftrightarrow> (\<forall>op p. \<not> cx_fault io op p)"

definition nests_at_most :: "nat \<Rightarrow> (string \<times> node) list \<Rightarrow> bool" where
  "nests_at_most k es \<longleftrightarrow> (\<forall>q. kept_view es q = Some None \<longrightarrow> length q \<le> k)"

lemma nests_sub:
  assumes "nests_at_most k es" "map_of es n = Some (Dir m sub)" "\<not> should_exclude_name n"
  shows "k > 0" "nests_at_most (k - 1) sub"
proof -
  from assms(2,3) have "kept_view es [n] = Some None" by (simp add: kept_view_Cons kept_node_Dir)
  with assms(1) have "length [n] \<le> k" unfolding nests_at_most_def by blast
  then show "k > 0" by simp
  have "Suc (length q) \<le> k" if "kept_view sub q = Some None" for q
  proof -
    have "kept_view es (n # q) = Some None" using that assms(2,3) by (cases q) (auto simp: kept_view_Cons kept_node_Dir)
    with assms(1) have "length (n # q) \<le> k" unfolding nests_at_most_def by blast
    then show ?thesis by simp
  qed
  with \<open>k > 0\<close> show "nests_at_most (k - 1) sub" unfolding nests_at_most_def by fastforce
qed

lemma kept_view_tl: "q = [] \<or> hd q \<noteq> n \<Longrightarrow> kept_view ((n, c) # es) q = kept_view es q"
  by (cases q) (auto simp: kept_view_Cons)

lemma kept_view_absent: "n \<notin> fst ` set es \<Longrightarrow> kept_view es (n # q) = None"
  by (simp add: kept_view_Cons map_of_eq_None_iff[THEN iffD2])

lemma nests_tl: "nests_at_most k ((n, c) # es) \<Longrightarrow> n \<notin> fst ` set es \<Longrightarrow> nests_at_most k es"
  unfolding nests_at_most_def using kept_view_tl kept_view_absent by (metis list.collapse option.distinct(1))

text \<open>One step of the loop: an entry is done and the loop is right for the rest.\<close>

lemma kept_loop_step:
  assumes "n \<notin> fst ` set es" "\<not> should_exclude_name n"
    and "\<And>q. staged_dir_view ds1 q = (if q \<noteq> [] \<and> hd q = n then kept_node c (tl q) else staged_dir_view ds q)"
    and "\<forall>q. staged_dir_view ds' q = (if q \<noteq> [] \<and> hd q \<in> fst ` set es then kept_view es q else staged_dir_view ds1 q)"
  shows "\<forall>q. staged_dir_view ds' q =
      (if q \<noteq> [] \<and> hd q \<in> fst ` set ((n, c) # es) then kept_view ((n, c) # es) q else staged_dir_view ds q)"
proof
  fix q
  have "kept_view ((n, c) # es) q = kept_node c (tl q)" if "q \<noteq> []" "hd q = n"
    using that assms(2) by (cases q) (auto simp: kept_view_Cons)
  with assms(1,3,4) kept_view_tl[of q n c es] show "staged_dir_view ds' q =
      (if q \<noteq> [] \<and> hd q \<in> fst ` set ((n, c) # es) then kept_view ((n, c) # es) q else staged_dir_view ds q)"
    by (cases "q \<noteq> [] \<and> hd q = n") auto
qed

lemma copy_recursive_exact:
  "cx_faultless io \<Longrightarrow> names_ok (Dir 0 es) \<Longrightarrow> nests_at_most k es \<Longrightarrow> depth + k \<le> MAX_RECURSION_DEPTH \<Longrightarrow> ds = [] \<Longrightarrow>
     \<exists>ds'. copy_recursive io p depth es ds = (ds', Ok ()) \<and> (\<forall>q. staged_dir_view ds' q = kept_view es q)"
  "cx_faultless io \<Longrightarrow> names_ok (Dir 0 es) \<Longrightarrow> (\<And>n c. (n, c) \<in> set es \<Longrightarrow> \<not> should_exclude_name n) \<Longrightarrow> nests_at_most k es \<Longrightarrow>
     depth + k \<le> MAX_RECURSION_DEPTH \<Longrightarrow> (\<And>n. n \<in> fst ` set es \<Longrightarrow> map_of ds n = None) \<Longrightarrow>
     \<exists>ds'. copy_context_loop io p depth es ds = (ds', Ok ())
       \<and> (\<forall>q. staged_dir_view ds' q = (if q \<noteq> [] \<and> hd q \<in> fst ` set es then kept_view es q else staged_dir_view ds q))"
proof (induction io p depth es ds and io p depth es ds arbitrary: k and k rule: copy_recursive_copy_context_loop.induct)
  case (1 io p depth es ds)
  define es' where "es' = filter (\<lambda>(n, c). \<not> should_exclude_name n) es"
  have f: "filtered_entries io p depth es = Ok es'"
    using "1.prems"(1,4) by (auto simp: filtered_entries_def cx_faultless_def es'_def)
  have get: "map_of es' n = (if should_exclude_name n then None else map_of es n)" for n
    unfolding es'_def by (induction es) (auto split: if_splits)
  then have kept: "kept_view es' q = kept_view es q" for q by (cases q) (auto simp: kept_view_Cons)
  have "names_ok (Dir 0 es')" using "1.prems"(2) by (auto simp: es'_def distinct_map_filter)
  moreover have "nests_at_most k es'" using "1.prems"(3) by (simp add: nests_at_most_def kept)
  ultimately have "\<exists>ds'. copy_context_loop io p depth es' ds = (ds', Ok ())
      \<and> (\<forall>q. staged_dir_view ds' q = (if q \<noteq> [] \<and> hd q \<in> fst ` set es' then kept_view es' q else staged_dir_view ds q))"
    using "1.prems"(1,4,5) by (intro "1.IH"[OF f, where k = k]) (auto simp: es'_def)
  then obtain ds' where ds': "copy_context_loop io p depth es' ds = (ds', Ok ())"
    "\<And>q. staged_dir_view ds' q = (if q \<noteq> [] \<and> hd q \<in> fst ` set es' then kept_view es' q else staged_dir_view ds q)" by blast
  have "staged_dir_view ds' q = kept_view es q" for q
  proof (cases "q \<noteq> [] \<and> hd q \<in> fst ` set es'")
    case False
    then have "q = [] \<or> map_of es' (hd q) = None" by (auto simp: map_of_eq_None_iff)
    then have "kept_view es' q = None" by (cases q) (auto simp: kept_view_Cons)
    with False ds'(2)[of q] "1.prems"(5) kept show ?thesis by simp
  qed (use ds'(2)[of q] kept in simp)
  with f ds'(1) show ?case by auto
next
  case (3 io p depth n m sub es ds)
  have n: "\<not> should_exclude_name n" "map_of ((n, Dir m sub) # es) n = Some (Dir m sub)" "map_of ds n = None"
    using "3.prems"(3)[of n "Dir m sub"] "3.prems"(6)[of n] by auto
  have go: "\<not> (cx_fault io CxCreateDir (p @ [n]) \<or> (\<exists>c. map_of ds n = Some (SFile c)))"
    using "3.prems"(1) n(3) by (simp add: cx_faultless_def)
  have new: "n \<notin> fst ` set es" using "3.prems"(2) by simp
  have "\<exists>ds1. copy_recursive io (p @ [n]) (depth + 1) sub (staged_entries (map_of ds n)) = (ds1, Ok ())
      \<and> (\<forall>q. staged_dir_view ds1 q = kept_view sub q)"
  proof (rule "3.IH"(1)[OF go "3.prems"(1)])
    show "nests_at_most (k - 1) sub" by (rule nests_sub(2)[OF "3.prems"(4) n(2,1)])
    show "depth + 1 + (k - 1) \<le> MAX_RECURSION_DEPTH" using nests_sub(1)[OF "3.prems"(4) n(2,1)] "3.prems"(5) by simp
  qed (use "3.prems"(2) n(3) in auto)
  then obtain ds1 where ds1: "copy_recursive io (p @ [n]) (depth + 1) sub (staged_entries (map_of ds n)) = (ds1, Ok ())"
    "\<And>q. staged_dir_view ds1 q = kept_view sub q" by blast
  have "staged_view (SDir ds1) q = kept_node (Dir m sub) q" for q
    by (auto simp: staged_view_SDir kept_node_Dir ds1(2) split: list.splits)
  then have view: "staged_dir_view (AList.update n (SDir ds1) ds) q =
      (if q \<noteq> [] \<and> hd q = n then kept_node (Dir m sub) (tl q) else staged_dir_view ds q)" for q
    by (simp add: staged_dir_view_update)
  have "copy_context_loop io p depth ((n, Dir m sub) # es) ds = copy_context_loop io p depth es (AList.update n (SDir ds1) ds)"
    using go ds1(1) by simp
  moreover have "\<exists>ds'. copy_context_loop io p depth es (AList.update n (SDir ds1) ds) = (ds', Ok ())
      \<and> (\<forall>q. staged_dir_view ds' q = (if q \<noteq> [] \<and> hd q \<in> fst ` set es then kept_view es q
            else staged_dir_view (AList.update n (SDir ds1) ds) q))"
    using "3.prems" new nests_tl[OF "3.prems"(4) new]
    by (intro "3.IH"(2)[OF go ds1(1)[symmetric] refl, where k = k]) (auto simp: update_conv')
  ultimately show ?case using kept_loop_step[OF new n(1) view] by metis
next
  case (4 io p depth n content m es ds)
  have new: "n \<notin> fst ` set es" "\<not> should_exclude_name n" using "4.prems"(2) "4.prems"(3)[of n "File content m"] by auto
  have go: "\<not> (\<exists>s. map_of ds n = Some (SDir s))" "\<not> cx_fault io CxCopy (p @ [n])"
    using "4.prems"(1) "4.prems"(6)[of n] by (simp_all add: cx_faultless_def)
  have view: "staged_dir_view (AList.update n (SFile content) ds) q =
      (if q \<noteq> [] \<and> hd q = n then kept_node (File content m) (tl q) else staged_dir_view ds q)" for q
    by (cases "tl q") (simp_all add: staged_dir_view_update kept_node_File)
  have "copy_context_loop io p depth ((n, File content m) # es) ds = copy_context_loop io p depth es (AList.update n (SFile content) ds)"
    using go by simp
  moreover have "\<exists>ds'. copy_context_loop io p depth es (AList.update n (SFile content) ds) = (ds', Ok ())
      \<and> (\<forall>q. staged_dir_view ds' q = (if q \<noteq> [] \<and> hd q \<in> fst ` set es then kept_view es q
            else staged_dir_view (AList.update n (SFile content) ds) q))"
    using "4.prems" new nests_tl[OF "4.prems"(4) new(1)] by (intro "4.IH"[OF go, where k = k]) (auto simp: update_conv')
  ultimately show ?case using kept_loop_step[OF new view] by metis
next
  case (5 io p depth n target es ds)
  have new: "n \<notin> fst ` set es" "\<not> should_exclude_name n" using "5.prems"(2) "5.prems"(3)[of n "Link target"] by auto
  have view: "staged_dir_view ds q = (if q \<noteq> [] \<and> hd q = n then kept_node (Link target) (tl q) else staged_dir_view ds q)" for q
    using "5.prems"(6)[of n] by (cases q) (auto simp: kept_node_other staged_dir_view_def)
  have "\<exists>ds'. copy_context_loop io p depth es ds = (ds', Ok ())
      \<and> (\<forall>q. staged_dir_view ds' q = (if q \<noteq> [] \<and> hd q \<in> fst ` set es then kept_view es q else staged_dir_view ds q))"
    using "5.prems" nests_tl[OF "5.prems"(4) new(1)] by (intro "5.IH"[where k = k]) auto
  then show ?case using kept_loop_step[OF new view] unfolding copy_context_loop.simps by metis
next
  case (6 io p depth n es ds)
  have new: "n \<notin> fst ` set es" "\<not> should_exclude_name n" using "6.prems"(2) "6.prems"(3)[of n Special] by auto
  have view: "staged_dir_view ds q = (if q \<noteq> [] \<and> hd q = n then kept_node Special (tl q) else staged_dir_view ds q)" for q
    using "6.prems"(6)[of n] by (cases q) (auto simp: kept_node_other staged_dir_view_def)
  have "\<exists>ds'. copy_context_loop io p depth es ds = (ds', Ok ())
      \<and> (\<forall>q. staged_dir_view ds' q = (if q \<noteq> [] \<and> hd q \<in> fst ` set es then kept_view es q else staged_dir_view ds q))"
    using "6.prems" nests_tl[OF "6.prems"(4) new(1)] by (intro "6.IH"[where k = k]) auto
  then show ?case using kept_loop_step[OF new view] unfolding copy_context_loop.simps by metis
qed simp

section \<open>Properties of a copied context\<close>

text \<open>
  C29: a copied context holds no secret of the host by name. Whatever call fails and however far the copy came, a path of a
  fresh destination has no excluded name in it (keys, credentials, environment files, version control) and is a
  directory or a regular file of the source: no link of the source is reproduced or followed.
\<close>

theorem context_copy_confined:
  assumes "names_ok (Dir 0 (dir_entries source))" "populate io source None = (Some ds, r)" "staged_dir_view ds p = Some x"
  shows "(\<forall>n\<in>set p. \<not> should_exclude_name n)
    \<and> ((\<exists>m. entries_view (dir_entries source) p = Some (DirInfo m)) \<or> (\<exists>content m. entries_view (dir_entries source) p = Some (FileInfo content m)))"
proof -
  from assms(2) obtain r' where "copy_recursive io [] 0 (dir_entries source) [] = (ds, r')"
    by (auto simp: populate_def split: sum.splits if_splits prod.splits)
  from copy_recursive_kept(1)[OF this assms(1), of p] assms(3) have "kept_view (dir_entries source) p \<noteq> None" by auto
  then show ?thesis
    by (auto simp: kept_view_def split: if_splits elim!: kept_info.elims)
qed

definition demo_cx_io :: cx_io where "demo_cx_io = \<lparr>cx_fault = (\<lambda>op p. False), cx_partial = (\<lambda>p. None)\<rparr>"

definition demo_context :: "(string \<times> node) list" where
  "demo_context = [(''.env'', File ''TOKEN'' 384), (''src'', Dir 493 [(''a'', File ''x'' 420), (''l'', Link ''/etc'')]),
     (''target'', Dir 493 [(''esc'', Link ''/''), (''pipe'', Special)])]"

lemma demo_excluded: "should_exclude_name ''.env''" "should_exclude_name ''target''" "\<not> should_exclude_name ''src''"
  "\<not> should_exclude_name ''a''" "\<not> should_exclude_name ''l''"
  by (simp_all add: should_exclude_name_def excluded_exact_def excluded_suffixes_def excluded_words_def to_lowercase_def
      char_lower_def ends_with_def contains_def suffix_def sublist_Cons_right char_of_def)

lemma demo_populated: "populate demo_cx_io (Some (Dir 493 demo_context)) None = (Some [(''src'', SDir [(''a'', SFile ''x'')])], Ok ())"
  by (simp add: populate_def validate_source_def demo_cx_io_def demo_context_def filtered_entries_def demo_excluded MAX_RECURSION_DEPTH_def)

theorem context_copy_confined_witness:
  "\<not> should_exclude_name ''src'' \<and> \<not> should_exclude_name ''a''
    \<and> ((\<exists>m. entries_view demo_context [''src'', ''a''] = Some (DirInfo m))
       \<or> (\<exists>content m. entries_view demo_context [''src'', ''a''] = Some (FileInfo content m)))"
  using context_copy_confined[OF _ demo_populated, of "[''src'', ''a'']" "Some ''x''"]
  by (simp add: demo_context_def staged_dir_view_def)

text \<open>
  when no call fails and the kept directories nest at most 128 deep, the copy succeeds and its destination is the
  source without the excluded names, the links and the special files: the same files with the same content.
\<close>

theorem context_copy_exact:
  assumes "cx_faultless io" "names_ok (Dir 0 es)" "nests_at_most MAX_RECURSION_DEPTH es"
  shows "\<exists>ds. populate io (Some (Dir m es)) None = (Some ds, Ok ()) \<and> (\<forall>p. staged_dir_view ds p = kept_view es p)"
proof -
  from copy_recursive_exact(1)[OF assms, of 0 "[]"] obtain ds where
    "copy_recursive io [] 0 es [] = (ds, Ok ())" "\<forall>p. staged_dir_view ds p = kept_view es p" by auto
  with assms(1) show ?thesis by (auto simp: populate_def validate_source_def cx_faultless_def)
qed

lemma nests_flat: "(\<And>n c. (n, c) \<in> set es \<Longrightarrow> \<not> is_dir_node (Some c)) \<Longrightarrow> nests_at_most k es"
  unfolding nests_at_most_def
proof (intro allI impI)
  fix q assume flat: "\<And>n c. (n, c) \<in> set es \<Longrightarrow> \<not> is_dir_node (Some c)" and q: "kept_view es q = Some None"
  then obtain n r c where "q = n # r" "map_of es n = Some c" "kept_node c r = Some None"
    by (cases q) (auto simp: kept_view_Cons split: if_splits option.splits)
  with flat[of n c] show "length q \<le> k" by (cases c) (auto simp: kept_node_simps dest: map_of_SomeD split: if_splits)
qed

theorem context_copy_exact_witness:
  "\<exists>ds. populate demo_cx_io (Some (Dir 493 [(''a'', File ''x'' 420), (''.env'', File ''TOKEN'' 384)])) None = (Some ds, Ok ())
     \<and> (\<forall>p. staged_dir_view ds p = kept_view [(''a'', File ''x'' 420), (''.env'', File ''TOKEN'' 384)] p)"
  by (rule context_copy_exact) (auto simp: cx_faultless_def demo_cx_io_def intro!: nests_flat)

section \<open>Bind mounts and tmpfs\<close>

datatype ms_flag = MS_BIND | MS_REC | MS_RDONLY | MS_NOSUID | MS_NODEV | MS_NOEXEC | MS_REMOUNT

text \<open>The mount calls that were made on the destination, each by its flags.\<close>

definition bind_mount_context :: "cx_io \<Rightarrow> node option \<Rightarrow> ms_flag list list \<times> unit result" where
  "bind_mount_context io source =
     (case validate_source_tree io source of
        Inl e \<Rightarrow> ([], Err e)
      | Inr _ \<Rightarrow>
          if cx_fault io CxCreateDest [] then ([], Err (ContextError ''Failed to create destination {:?}: {}''))
          else if cx_fault io CxBind [] then ([], Err (ContextError ''Failed to bind mount {:?} -> {:?}: {}''))
          else if cx_fault io CxRemount [] then ([[MS_BIND, MS_REC]], Err (ContextError ''Failed to remount {:?} read-only: {}''))
          else ([[MS_BIND, MS_REC], [MS_BIND, MS_REC, MS_RDONLY, MS_NOSUID, MS_NODEV, MS_NOEXEC, MS_REMOUNT]], Ok ()))"

text \<open>What the container sees at the destination: copied entries, or the source itself behind the mounts.\<close>

datatype context_dest = CopiedContext "(string \<times> staged) list option" | BoundContext "ms_flag list list" "node option"

definition lazy_populate :: "context_mode \<Rightarrow> cx_io \<Rightarrow> node option \<Rightarrow> (string \<times> staged) list option \<Rightarrow> context_dest \<times> unit result" where
  "lazy_populate mode io source dest =
     (case mode of
        ContextCopy \<Rightarrow> (case populate io source dest of (ds, r) \<Rightarrow> (CopiedContext ds, r))
      | ContextBindMount \<Rightarrow> (case bind_mount_context io source of (ms, r) \<Rightarrow> (BoundContext ms source, r)))"

lemma validate_recursive_Ok:
  "validate_recursive io p depth es = Ok u \<Longrightarrow> \<forall>n\<in>set q. \<not> should_exclude_name n \<Longrightarrow> entries_view es q = Some i \<Longrightarrow>
     kept_info (Some i) \<noteq> None"
  "validate_context_loop io p depth es = Ok u \<Longrightarrow> (n, c) \<in> set es \<Longrightarrow> \<forall>n\<in>set q. \<not> should_exclude_name n \<Longrightarrow> view c q = Some i \<Longrightarrow>
     kept_info (Some i) \<noteq> None"
proof (induction io p depth es and io p depth es arbitrary: u q and u q n c rule: validate_recursive_validate_context_loop.induct)
  case (1 io p depth es)
  then obtain es' where f: "filtered_entries io p depth es = Ok es'" "validate_context_loop io p depth es' = Ok u"
    by (auto split: sum.splits)
  from "1.prems"(3) obtain n r c where q: "q = n # r" "map_of es n = Some c" "view c r = Some i"
    by (auto simp: entries_view_def split: list.splits option.splits)
  with "1.prems"(2) have "(n, c) \<in> set es'" using filtered_entries_Ok[OF f(1)] by (auto dest: map_of_SomeD)
  from "1.IH"[OF f(1,2) this, of r] q "1.prems"(2) show ?case by auto
next
  case (3 io p depth n0 c0 es)
  show ?case
  proof (cases "(n, c) \<in> set es")
    case True
    with 3 show ?thesis by (auto split: node.splits sum.splits)
  next
    case False
    with "3.prems"(2) have e: "n0 = n" "c0 = c" by auto
    show ?thesis
    proof (cases c)
      case (Dir m sub)
      with "3.prems"(1) e obtain v where v: "validate_recursive io (p @ [n0]) (depth + 1) sub = Ok v" by (auto split: sum.splits)
      from Dir "3.IH"(2)[OF _ v, of m q] "3.prems"(3,4) e show ?thesis by (cases q) (auto simp: view_dir)
    next
      case (File content m)
      with "3.prems"(4) show ?thesis by (cases q) auto
    qed (use "3.prems"(1) e in auto)
  qed
qed simp

text \<open>
  before a bind mount the tree is checked: when the mount was made, every path of the source without an excluded name
  is a directory or a regular file, so the container reaches no link and no special file there, and the mount
  ends up read only, without set-user-id programs, devices and execution.
\<close>

theorem bound_context_checked:
  assumes "lazy_populate ContextBindMount io source dest = (BoundContext ms source, Ok ())"
    and "\<forall>n\<in>set p. \<not> should_exclude_name n" "entries_view (dir_entries source) p = Some i"
  shows "((\<exists>m. i = DirInfo m) \<or> (\<exists>content m. i = FileInfo content m))
    \<and> {MS_RDONLY, MS_NOSUID, MS_NODEV, MS_NOEXEC} \<subseteq> set (last ms)"
proof -
  from assms(1) have "validate_recursive io [] 0 (dir_entries source) = Ok ()"
    and "last ms = [MS_BIND, MS_REC, MS_RDONLY, MS_NOSUID, MS_NODEV, MS_NOEXEC, MS_REMOUNT]"
    by (auto simp: lazy_populate_def bind_mount_context_def validate_source_tree_def result_simps
        split: prod.splits sum.splits if_splits)
  with validate_recursive_Ok(1)[OF _ assms(2,3), of io "[]" 0 "()"] show ?thesis by (cases i) auto
qed

theorem bound_context_checked_witness:
  "((\<exists>m. FileInfo ''x'' 420 = DirInfo m) \<or> (\<exists>content m. FileInfo ''x'' 420 = FileInfo content m))
    \<and> {MS_RDONLY, MS_NOSUID, MS_NODEV, MS_NOEXEC} \<subseteq> set (last (fst (bind_mount_context demo_cx_io (Some (Dir 493 [(''a'', File ''x'' 420)])))))"
proof -
  have b: "bind_mount_context demo_cx_io (Some (Dir 493 [(''a'', File ''x'' 420)])) =
      ([[MS_BIND, MS_REC], [MS_BIND, MS_REC, MS_RDONLY, MS_NOSUID, MS_NODEV, MS_NOEXEC, MS_REMOUNT]], Ok ())"
    by (simp add: bind_mount_context_def validate_source_tree_def validate_source_def filtered_entries_def demo_cx_io_def demo_excluded
        MAX_RECURSION_DEPTH_def)
  show ?thesis unfolding b fst_conv
    by (rule bound_context_checked[where p = "[''a'']" and io = demo_cx_io and source = "Some (Dir 493 [(''a'', File ''x'' 420)])" and dest = None])
      (simp_all add: lazy_populate_def b demo_excluded entries_view_def)
qed

definition demo_bound_context :: "(string \<times> node) list" where
  "demo_bound_context = [(''.env'', File ''TOKEN'' 384), (''src'', Dir 493 [(''a'', File ''x'' 420)]),
     (''target'', Dir 493 [(''esc'', Link ''/''), (''pipe'', Special)])]"

text \<open>
  the check before a bind mount leaves out excluded names, and the mount does not. A source with an environment file
  and a build directory that holds a link to the root and a pipe passes and is mounted whole: the container sees
  the file that a copy would have left out, and the link and the pipe that the check is there to refuse.
\<close>

theorem bound_context_exposes_excluded:
  "\<exists>ms. lazy_populate ContextBindMount demo_cx_io (Some (Dir 493 demo_bound_context)) None
          = (BoundContext ms (Some (Dir 493 demo_bound_context)), Ok ())
      \<and> entries_view demo_bound_context [''.env''] = Some (FileInfo ''TOKEN'' 384)
      \<and> entries_view demo_bound_context [''target'', ''esc''] = Some (LinkInfo ''/'')
      \<and> entries_view demo_bound_context [''target'', ''pipe''] = Some SpecialInfo"
  by (simp add: demo_bound_context_def lazy_populate_def bind_mount_context_def validate_source_tree_def validate_source_def filtered_entries_def demo_cx_io_def
      demo_excluded MAX_RECURSION_DEPTH_def entries_view_def)

text \<open>A tmpfs mount and the mounts of the namespace, newest first; the answers of the kernel are arguments.\<close>

record tmpfs =
  tm_path :: path
  tm_size_bytes :: "u64 option"
  tm_mounted :: bool

type_synonym mounts = "(path \<times> string option) list"

definition tmpfs_new :: "path \<Rightarrow> u64 option \<Rightarrow> tmpfs" where
  "tmpfs_new path size_bytes = \<lparr>tm_path = path, tm_size_bytes = size_bytes, tm_mounted = False\<rparr>"

definition tmpfs_options :: "tmpfs \<Rightarrow> string option" where
  "tmpfs_options self = map_option (\<lambda>size. ''size='' @ show_word size) (tm_size_bytes self)"

definition tmpfs_do_mount :: "bool \<Rightarrow> bool \<Rightarrow> bool \<Rightarrow> tmpfs \<times> mounts \<Rightarrow> (tmpfs \<times> mounts) \<times> unit result" where
  "tmpfs_do_mount path_exists created mount_succeeds st =
     (case st of (self, ms) \<Rightarrow>
        if tm_mounted self then (st, Ok ())
        else if \<not> path_exists \<and> \<not> created then (st, Err (FilesystemError ''Failed to create mount point {:?}: {}''))
        else if \<not> mount_succeeds then (st, Err (FilesystemError ''Failed to mount tmpfs at {:?}: {}''))
        else ((self\<lparr>tm_mounted := True\<rparr>, (tm_path self, tmpfs_options self) # ms), Ok ()))"

definition tmpfs_unmount :: "bool \<Rightarrow> tmpfs \<times> mounts \<Rightarrow> (tmpfs \<times> mounts) \<times> unit result" where
  "tmpfs_unmount umount_succeeds st =
     (case st of (self, ms) \<Rightarrow>
        if \<not> tm_mounted self then (st, Ok ())
        else if \<not> umount_succeeds then (st, Err (FilesystemError ''Failed to unmount tmpfs at {:?}: {}''))
        else ((self\<lparr>tm_mounted := False\<rparr>, remove1 (tm_path self, tmpfs_options self) ms), Ok ()))"

definition tmpfs_drop :: "bool \<Rightarrow> tmpfs \<times> mounts \<Rightarrow> tmpfs \<times> mounts" where
  "tmpfs_drop umount_succeeds st = (if tm_mounted (fst st) then fst (tmpfs_unmount umount_succeeds st) else st)"

datatype tmpfs_call = TmMount bool bool bool | TmUnmount bool

fun tmpfs_step :: "tmpfs_call \<Rightarrow> tmpfs \<times> mounts \<Rightarrow> tmpfs \<times> mounts" where
  "tmpfs_step (TmMount path_exists created ok) st = fst (tmpfs_do_mount path_exists created ok st)"
| "tmpfs_step (TmUnmount ok) st = fst (tmpfs_unmount ok st)"

text \<open>
  a tmpfs is never mounted twice and never leaked: after any sequence of mounts and unmounts, failed ones included, and
  the drop of the object with a successful unmount, the namespace has the mounts it had before.
\<close>

theorem tmpfs_balanced:
  "snd (tmpfs_drop True (fold tmpfs_step calls (tmpfs_new path size_bytes, ms))) = ms"
proof -
  define opts where "opts = map_option (\<lambda>size. ''size='' @ show_word size) size_bytes"
  define inv where "inv = (\<lambda>(self :: tmpfs, ms'). ms' = (if tm_mounted self then (path, opts) # ms else ms)
      \<and> tm_path self = path \<and> tmpfs_options self = opts)"
  have upd: "tmpfs_options (self\<lparr>tm_mounted := b\<rparr>) = tmpfs_options self" for self :: tmpfs and b by (simp add: tmpfs_options_def)
  have step: "inv st \<Longrightarrow> inv (tmpfs_step c st)" for c st
    by (cases c; cases st) (auto simp: inv_def tmpfs_do_mount_def tmpfs_unmount_def upd)
  have "inv (fold tmpfs_step calls st)" if "inv st" for st
    using that by (induction calls arbitrary: st) (simp_all add: step)
  from this[of "(tmpfs_new path size_bytes, ms)"] have "inv (fold tmpfs_step calls (tmpfs_new path size_bytes, ms))"
    by (simp add: inv_def tmpfs_new_def tmpfs_options_def opts_def)
  then show ?thesis
    by (cases "fold tmpfs_step calls (tmpfs_new path size_bytes, ms)") (auto simp: inv_def tmpfs_drop_def tmpfs_unmount_def upd)
qed

end
