(* ===== verification/Attestation.thy ===== *)
theory Attestation
  imports Context_Copy BTree_Map
begin

text \<open>
  Attestation of a root file system and of a copied context (\<^verbatim>\<open>src/src/filesystem/attestation.rs\<close>).

  A file of a tree is named by the list of names that leads to it from the root of the scan. The record \<open>att_fs\<close> is what the
  calls answer: the names in a directory, the kind of a file without and with links followed, the canonical path and
  the content; \<open>af_sha256_hex\<close> is the package's SHA-256 in hexadecimal. A scan of a root file system follows links, so it
  need not end by the shape of the tree. It has fuel, the depth to which it may go, and \<open>None\<close> when that is used up;
  \<open>scan_returns\<close> shows that fuel beyond the longest path that the kernel opens is enough.
\<close>

section \<open>Names in the store\<close>

definition ROOTFS_ATTESTATION_FILE :: string where "ROOTFS_ATTESTATION_FILE = ''.nucleus-rootfs-sha256''"

definition NIX_STORE_HASH_LEN :: nat where "NIX_STORE_HASH_LEN = 32"

definition NIX_STORE_HASH_ALPHABET :: string where "NIX_STORE_HASH_ALPHABET = ''0123456789abcdfghijklmnpqrsvwxyz''"

fun nix_store_object_name :: "path \<Rightarrow> (string \<times> bool) option" where
  "nix_store_object_name (RootDir # Normal a # Normal b # Normal store_name # rest) =
     (if a = ''nix'' \<and> b = ''store'' then Some (store_name, rest \<noteq> []) else None)"
| "nix_store_object_name _ = None"

definition is_valid_nix_store_name_byte :: "char \<Rightarrow> bool" where
  "is_valid_nix_store_name_byte byte \<longleftrightarrow> is_ascii_alphanumeric byte \<or> byte \<in> set ''+-._?=''"

definition is_valid_nix_store_object_name :: "string \<Rightarrow> bool" where
  "is_valid_nix_store_object_name name =
     (case split_once CHR ''-'' name of
        None \<Rightarrow> False
      | Some (hash, package_name) \<Rightarrow>
          length hash = NIX_STORE_HASH_LEN \<and> package_name \<noteq> [] \<and> package_name \<noteq> ''.'' \<and> package_name \<noteq> ''..''
          \<and> (\<forall>byte\<in>set hash. byte \<in> set NIX_STORE_HASH_ALPHABET) \<and> (\<forall>byte\<in>set package_name. is_valid_nix_store_name_byte byte))"

definition immediate_nix_store_object_name :: "path \<Rightarrow> string option" where
  "immediate_nix_store_object_name p =
     (case nix_store_object_name p of
        None \<Rightarrow> None
      | Some (store_name, has_trailing_components) \<Rightarrow>
          if has_trailing_components \<or> \<not> is_valid_nix_store_object_name store_name then None else Some store_name)"

definition is_immediate_nix_store_object_path :: "path \<Rightarrow> bool" where
  "is_immediate_nix_store_object_path p \<longleftrightarrow> immediate_nix_store_object_name p \<noteq> None"

section \<open>Manifests\<close>

type_synonym directory_manifest = "(string, string) btree_map"

text \<open>The lines of a manifest, each a digest, a tab and a path; blank lines are skipped.\<close>

definition manifest_line :: "directory_manifest \<Rightarrow> string \<Rightarrow> directory_manifest result" where
  "manifest_line manifest line =
     (if trim line = [] then Ok manifest
      else case split_once CHR 0x09 line of
          None \<Rightarrow> Err (FilesystemError (''Invalid attestation line {} in {:?}: expected <sha256>'' @ CHR 0x5C # ''t<path>''))
        | Some (digest, rel_path) \<Rightarrow> Ok (bt_insert rel_path digest manifest))"

definition read_manifest_file :: "string option \<Rightarrow> directory_manifest result" where
  "read_manifest_file content =
     and_then (ok_or content (FilesystemError ''Failed to read manifest {:?}: {}'')) (\<lambda>content.
     try_fold manifest_line [] (lines content))"

definition summarize :: "string list \<Rightarrow> string" where
  "summarize items =
     (if length items \<le> 5 then join '', '' items
      else join '', '' (take 5 items) @ '', ... ('' @ show_nat (length items) @ '' total)'')"

definition manifest_missing :: "directory_manifest \<Rightarrow> directory_manifest \<Rightarrow> string list" where
  "manifest_missing expected actual = filter (\<lambda>path. bt_get actual path = None) (bt_keys expected)"

definition manifest_mismatched :: "directory_manifest \<Rightarrow> directory_manifest \<Rightarrow> string list" where
  "manifest_mismatched expected actual =
     map (\<lambda>(path, digest). path @ '' (expected '' @ digest @ '', got '' @ the (bt_get actual path) @ '')'')
       (filter (\<lambda>(path, digest). bt_get actual path \<noteq> None \<and> bt_get actual path \<noteq> Some digest) expected)"

definition manifest_extra :: "directory_manifest \<Rightarrow> directory_manifest \<Rightarrow> string list" where
  "manifest_extra expected actual = filter (\<lambda>path. \<not> bt_contains expected path) (bt_keys actual)"

definition manifest_details :: "directory_manifest \<Rightarrow> directory_manifest \<Rightarrow> string list" where
  "manifest_details expected actual =
     (let missing = manifest_missing expected actual;
          mismatched = manifest_mismatched expected actual;
          extra = manifest_extra expected actual
      in (if missing = [] then [] else [''missing: '' @ summarize missing])
         @ (if mismatched = [] then [] else [''mismatched: '' @ summarize mismatched])
         @ (if extra = [] then [] else [''extra: '' @ summarize extra]))"

definition compare_manifests :: "directory_manifest \<Rightarrow> directory_manifest \<Rightarrow> string \<Rightarrow> unit result" where
  "compare_manifests expected actual label =
     (if expected = actual then Ok ()
      else Err (FilesystemError (label @ '' integrity verification failed ('' @ join ''; '' (manifest_details expected actual) @ '')'')))"

section \<open>Scanning\<close>

datatype scan_mode = ContextScan | RootfsScan

record att_fs =
  af_read_dir :: "string list \<Rightarrow> string list option"
  af_lstat :: "string list \<Rightarrow> file_kind option"
  af_stat :: "string list \<Rightarrow> file_kind option"
  af_canonicalize :: "string list \<Rightarrow> path option"
  af_read :: "string list \<Rightarrow> string option"
  af_utf8 :: "string \<Rightarrow> bool"
  af_sha256_hex :: "string \<Rightarrow> string"

text \<open>The path of a scanned file relative to the root, as text.\<close>

definition relative_path :: "att_fs \<Rightarrow> string list \<Rightarrow> string result" where
  "relative_path fs p =
     (if \<forall>n\<in>set p. af_utf8 fs n then Ok (join ''/'' p) else Err (FilesystemError ''Non-UTF-8 path in attestation: {:?}''))"

definition hash_file :: "att_fs \<Rightarrow> string list \<Rightarrow> string result" where
  "hash_file fs p =
     and_then (ok_or (af_read fs p) (FilesystemError ''Failed to open {:?}: {}'')) (\<lambda>content. Ok (af_sha256_hex fs content))"

definition should_skip :: "att_fs \<Rightarrow> scan_mode \<Rightarrow> string \<Rightarrow> string list \<Rightarrow> bool result" where
  "should_skip fs mode name p =
     (case mode of
        ContextScan \<Rightarrow> Ok (should_exclude_name name)
      | RootfsScan \<Rightarrow> and_then (relative_path fs p) (\<lambda>rel. Ok (rel = ROOTFS_ATTESTATION_FILE)))"

definition validate_rootfs_symlink_target :: "att_fs \<Rightarrow> string list \<Rightarrow> unit result" where
  "validate_rootfs_symlink_target fs p =
     and_then (ok_or (af_canonicalize fs p) (FilesystemError ''Failed to resolve rootfs symlink target {:?}: {}'')) (\<lambda>resolved.
     and_then (ok_or (af_canonicalize fs []) (FilesystemError ''Failed to resolve rootfs {:?}: {}'')) (\<lambda>canonical_root.
     if starts_with resolved canonical_root then Ok ()
     else case nix_store_object_name resolved of
         Some (store_name, _) \<Rightarrow>
           if is_valid_nix_store_object_name store_name then Ok ()
           else Err (FilesystemError ''Rootfs symlink {:?} resolves to invalid /nix/store path: {:?}'')
       | None \<Rightarrow> Err (FilesystemError ''Rootfs symlink {:?} resolves outside allowed roots: {:?}'')))"

definition insert_hash :: "att_fs \<Rightarrow> string list \<Rightarrow> directory_manifest \<Rightarrow> directory_manifest result" where
  "insert_hash fs p manifest =
     and_then (relative_path fs p) (\<lambda>rel. and_then (hash_file fs p) (\<lambda>digest. Ok (bt_insert rel digest manifest)))"

function scan_dir :: "att_fs \<Rightarrow> nat \<Rightarrow> scan_mode \<Rightarrow> string list \<Rightarrow> directory_manifest \<Rightarrow> directory_manifest result option"
  and scan_entries :: "att_fs \<Rightarrow> nat \<Rightarrow> scan_mode \<Rightarrow> string list \<Rightarrow> string list \<Rightarrow> directory_manifest \<Rightarrow> directory_manifest result option"
  and scan_context_entry :: "att_fs \<Rightarrow> nat \<Rightarrow> string list \<Rightarrow> directory_manifest \<Rightarrow> directory_manifest result option"
  and scan_rootfs_entry :: "att_fs \<Rightarrow> nat \<Rightarrow> string list \<Rightarrow> directory_manifest \<Rightarrow> directory_manifest result option"
where
  "scan_dir fs 0 mode current manifest = None"
| "scan_dir fs (Suc fuel) mode current manifest =
     (case af_read_dir fs current of
        None \<Rightarrow> Some (Err (FilesystemError ''Failed to read directory {:?}: {}''))
      | Some names \<Rightarrow> scan_entries fs fuel mode current (sort names) manifest)"
| "scan_entries fs fuel mode current [] manifest = Some (Ok manifest)"
| "scan_entries fs fuel mode current (name # names) manifest =
     (case should_skip fs mode name (current @ [name]) of
        Inl e \<Rightarrow> Some (Err e)
      | Inr skip \<Rightarrow>
          if skip then scan_entries fs fuel mode current names manifest
          else
            (case (case mode of
                     ContextScan \<Rightarrow> scan_context_entry fs fuel (current @ [name]) manifest
                   | RootfsScan \<Rightarrow> scan_rootfs_entry fs fuel (current @ [name]) manifest) of
               None \<Rightarrow> None
             | Some (Inl e) \<Rightarrow> Some (Err e)
             | Some (Inr manifest) \<Rightarrow> scan_entries fs fuel mode current names manifest))"
| "scan_context_entry fs fuel p manifest =
     (case af_lstat fs p of
        None \<Rightarrow> Some (Err (FilesystemError ''Failed to stat {:?}: {}''))
      | Some KLink \<Rightarrow> Some (Ok manifest)
      | Some KDir \<Rightarrow> scan_dir fs fuel ContextScan p manifest
      | Some KFile \<Rightarrow> Some (insert_hash fs p manifest)
      | Some KOther \<Rightarrow> Some (Ok manifest))"
| "scan_rootfs_entry fs fuel p manifest =
     (case and_then (ok_or (af_lstat fs p) (FilesystemError ''Failed to stat {:?}: {}'')) (\<lambda>kind.
             if kind = KLink then validate_rootfs_symlink_target fs p else Ok ()) of
        Inl e \<Rightarrow> Some (Err e)
      | Inr _ \<Rightarrow>
          (case af_stat fs p of
             None \<Rightarrow> Some (Err (FilesystemError ''Failed to stat {:?}: {}''))
           | Some kind \<Rightarrow>
               if kind = KDir then scan_dir fs fuel RootfsScan p manifest
               else if kind = KFile then Some (insert_hash fs p manifest)
               else Some (Ok manifest)))"
  by pat_completeness auto
termination
  by (relation "measures
      [case_sum (case_sum (\<lambda>(fs, fuel, mode, current, manifest). fuel) (\<lambda>(fs, fuel, mode, current, names, manifest). fuel))
         (case_sum (\<lambda>(fs, fuel, p, manifest). fuel) (\<lambda>(fs, fuel, p, manifest). fuel)),
       case_sum (case_sum (\<lambda>_. 0) (\<lambda>(fs, fuel, mode, current, names, manifest). 2 + length names)) (case_sum (\<lambda>_. 1) (\<lambda>_. 1))]")
    simp_all

definition snapshot_context_dir :: "att_fs \<Rightarrow> nat \<Rightarrow> directory_manifest result option" where
  "snapshot_context_dir fs fuel = scan_dir fs fuel ContextScan [] []"

definition verify_context_manifest :: "directory_manifest \<Rightarrow> att_fs \<Rightarrow> nat \<Rightarrow> unit result option" where
  "verify_context_manifest expected dest fuel =
     map_option (\<lambda>r. and_then r (\<lambda>actual. compare_manifests expected actual ''context'')) (snapshot_context_dir dest fuel)"

definition verify_context_integrity :: "att_fs \<Rightarrow> att_fs \<Rightarrow> nat \<Rightarrow> unit result option" where
  "verify_context_integrity source dest fuel =
     (case snapshot_context_dir source fuel of
        None \<Rightarrow> None
      | Some (Inl e) \<Rightarrow> Some (Err e)
      | Some (Inr expected) \<Rightarrow> verify_context_manifest expected dest fuel)"

text \<open>The content of the manifest is read as text, so it must be UTF-8.\<close>

definition read_rootfs_attestation :: "att_fs \<Rightarrow> directory_manifest result" where
  "read_rootfs_attestation fs =
     read_manifest_file (case af_read fs [ROOTFS_ATTESTATION_FILE] of
        None \<Rightarrow> None | Some content \<Rightarrow> if af_utf8 fs content then Some content else None)"

definition verify_rootfs_attestation :: "att_fs \<Rightarrow> nat \<Rightarrow> unit result option" where
  "verify_rootfs_attestation fs fuel =
     (if af_stat fs [ROOTFS_ATTESTATION_FILE] = None
      then Some (Err (FilesystemError ''Rootfs attestation requested but manifest is missing: {:?}''))
      else case read_rootfs_attestation fs of
          Inl e \<Rightarrow> Some (Err e)
        | Inr expected \<Rightarrow>
            map_option (\<lambda>r. and_then r (\<lambda>actual. compare_manifests expected actual ''rootfs'')) (scan_dir fs fuel RootfsScan [] []))"

section \<open>What a scan sees\<close>

definition entry_kind :: "att_fs \<Rightarrow> scan_mode \<Rightarrow> string list \<Rightarrow> file_kind option" where
  "entry_kind fs mode p = (case mode of ContextScan \<Rightarrow> af_lstat fs p | RootfsScan \<Rightarrow> af_stat fs p)"

definition listed :: "att_fs \<Rightarrow> scan_mode \<Rightarrow> string list \<Rightarrow> string \<Rightarrow> bool" where
  "listed fs mode cur n \<longleftrightarrow>
     (case af_read_dir fs cur of None \<Rightarrow> False | Some names \<Rightarrow> n \<in> set names \<and> should_skip fs mode n (cur @ [n]) = Ok False)"

text \<open>\<open>visited fs mode cur p\<close>: the scan of the directory \<open>cur\<close> comes to \<open>p\<close>.\<close>

inductive visited :: "att_fs \<Rightarrow> scan_mode \<Rightarrow> string list \<Rightarrow> string list \<Rightarrow> bool" for fs mode where
  here: "listed fs mode cur n \<Longrightarrow> visited fs mode cur (cur @ [n])"
| deeper: "listed fs mode cur n \<Longrightarrow> entry_kind fs mode (cur @ [n]) = Some KDir \<Longrightarrow> visited fs mode (cur @ [n]) p \<Longrightarrow> visited fs mode cur p"

inductive_cases visitedE: "visited fs mode cur p"

lemma visited_iff:
  "visited fs mode cur p \<longleftrightarrow>
     (\<exists>n. listed fs mode cur n \<and> (p = cur @ [n] \<or> entry_kind fs mode (cur @ [n]) = Some KDir \<and> visited fs mode (cur @ [n]) p))"
  by (subst visited.simps) blast

definition has_digest :: "att_fs \<Rightarrow> string list \<Rightarrow> string \<Rightarrow> string \<Rightarrow> bool" where
  "has_digest fs p key digest \<longleftrightarrow> key = join ''/'' p \<and> (\<exists>content. af_read fs p = Some content \<and> digest = af_sha256_hex fs content)"

definition recorded :: "att_fs \<Rightarrow> scan_mode \<Rightarrow> string list \<Rightarrow> string \<Rightarrow> string \<Rightarrow> bool" where
  "recorded fs mode cur key digest \<longleftrightarrow>
     (\<exists>p. visited fs mode cur p \<and> entry_kind fs mode p = Some KFile \<and> has_digest fs p key digest)"

definition entry_recorded :: "att_fs \<Rightarrow> scan_mode \<Rightarrow> string list \<Rightarrow> string \<Rightarrow> string \<Rightarrow> bool" where
  "entry_recorded fs mode p key digest \<longleftrightarrow>
     entry_kind fs mode p = Some KFile \<and> has_digest fs p key digest \<or> entry_kind fs mode p = Some KDir \<and> recorded fs mode p key digest"

lemma recorded_iff: "recorded fs mode cur key digest \<longleftrightarrow> (\<exists>n. listed fs mode cur n \<and> entry_recorded fs mode (cur @ [n]) key digest)"
  unfolding recorded_def entry_recorded_def by (subst visited_iff) blast

text \<open>What a scan checks of every entry.\<close>

definition checked :: "att_fs \<Rightarrow> scan_mode \<Rightarrow> string list \<Rightarrow> bool" where
  "checked fs mode p \<longleftrightarrow>
     entry_kind fs mode p \<noteq> None \<and> (entry_kind fs mode p = Some KFile \<longrightarrow> af_read fs p \<noteq> None)
     \<and> (mode = RootfsScan \<and> af_lstat fs p = Some KLink \<longrightarrow> validate_rootfs_symlink_target fs p = Ok ())"

definition entry_checked :: "att_fs \<Rightarrow> scan_mode \<Rightarrow> string list \<Rightarrow> bool" where
  "entry_checked fs mode p \<longleftrightarrow> checked fs mode p \<and> (entry_kind fs mode p = Some KDir \<longrightarrow> (\<forall>q. visited fs mode p q \<longrightarrow> checked fs mode q))"

lemma all_checked_iff:
  "(\<forall>p. visited fs mode cur p \<longrightarrow> checked fs mode p) \<longleftrightarrow> (\<forall>n. listed fs mode cur n \<longrightarrow> entry_checked fs mode (cur @ [n]))"
  unfolding entry_checked_def by (subst visited_iff) blast

text \<open>Names in a directory have no slash, so the text of a path determines it.\<close>

definition names_wf :: "att_fs \<Rightarrow> bool" where
  "names_wf fs \<longleftrightarrow> (\<forall>cur names n. af_read_dir fs cur = Some names \<longrightarrow> n \<in> set names \<longrightarrow> CHR ''/'' \<notin> set n)"

definition no_slash :: "string list \<Rightarrow> bool" where
  "no_slash p \<longleftrightarrow> (\<forall>n\<in>set p. CHR ''/'' \<notin> set n)"

lemma join_inject: "no_slash p \<Longrightarrow> no_slash q \<Longrightarrow> p \<noteq> [] \<Longrightarrow> q \<noteq> [] \<Longrightarrow> join ''/'' p = join ''/'' q \<Longrightarrow> p = q"
  unfolding no_slash_def by (metis split_on_join)

lemma listed_no_slash: "names_wf fs \<Longrightarrow> listed fs mode cur n \<Longrightarrow> no_slash cur \<Longrightarrow> no_slash (cur @ [n])"
  by (auto simp: listed_def names_wf_def no_slash_def split: option.splits)

lemma visited_no_slash: "visited fs mode cur p \<Longrightarrow> names_wf fs \<Longrightarrow> no_slash cur \<Longrightarrow> no_slash p \<and> p \<noteq> []"
  by (induction rule: visited.induct) (auto dest: listed_no_slash)

lemma entry_recorded_path:
  assumes "entry_recorded fs mode p key digest" "names_wf fs" "no_slash p" "p \<noteq> []"
  obtains q where "no_slash q" "q \<noteq> []" "has_digest fs q key digest"
  using assms visited_no_slash[OF _ assms(2,3)] unfolding entry_recorded_def recorded_def by blast

lemma entry_recorded_unique:
  assumes "entry_recorded fs mode p key d" "entry_recorded fs mode p' key d'" "names_wf fs" "no_slash p" "no_slash p'" "p \<noteq> []" "p' \<noteq> []"
  shows "d = d'"
proof -
  obtain q where q: "no_slash q" "q \<noteq> []" "has_digest fs q key d" using assms by (elim entry_recorded_path) auto
  obtain q' where q': "no_slash q'" "q' \<noteq> []" "has_digest fs q' key d'" using assms by (elim entry_recorded_path) auto
  from q q' have "q = q'" by (intro join_inject) (auto simp: has_digest_def)
  with q(3) q'(3) show ?thesis by (auto simp: has_digest_def)
qed

text \<open>A manifest with some entries added.\<close>

definition adds :: "(string \<Rightarrow> string \<Rightarrow> bool) \<Rightarrow> directory_manifest \<Rightarrow> directory_manifest \<Rightarrow> bool" where
  "adds R m m' \<longleftrightarrow> bt_inv m' \<and> (\<forall>k h. bt_get m' k = Some h \<longleftrightarrow> R k h \<or> bt_get m k = Some h \<and> (\<forall>h'. \<not> R k h'))"

lemma adds_none: "bt_inv m \<Longrightarrow> adds (\<lambda>k h. False) m m"
  by (simp add: adds_def)

lemma adds_comp:
  "adds R m m' \<Longrightarrow> adds S m' m'' \<Longrightarrow> (\<And>k h h'. R k h \<Longrightarrow> S k h' \<Longrightarrow> h = h') \<Longrightarrow> adds (\<lambda>k h. R k h \<or> S k h) m m''"
proof -
  assume a: "adds R m m'" "adds S m' m''" and eq: "\<And>k h h'. R k h \<Longrightarrow> S k h' \<Longrightarrow> h = h'"
  have "bt_get m'' k = Some h \<longleftrightarrow> (R k h \<or> S k h) \<or> bt_get m k = Some h \<and> (\<forall>h'. \<not> (R k h' \<or> S k h'))" for k h
  proof -
    have "bt_get m'' k = Some h \<longleftrightarrow> S k h \<or> bt_get m' k = Some h \<and> (\<forall>h'. \<not> S k h')"
      "bt_get m' k = Some h \<longleftrightarrow> R k h \<or> bt_get m k = Some h \<and> (\<forall>h'. \<not> R k h')" using a by (simp_all add: adds_def)
    with eq[of k h] show ?thesis by blast
  qed
  with a(2) show ?thesis by (simp add: adds_def)
qed

lemma adds_insert: "bt_inv m \<Longrightarrow> adds (\<lambda>k h. k = a \<and> h = v) m (bt_insert a v m)"
  by (auto simp: adds_def bt_inv_insert bt_get_insert)

lemma insert_hash_adds:
  assumes "insert_hash fs p m = Ok m'" "bt_inv m"
  shows "adds (has_digest fs p) m m'" "af_read fs p \<noteq> None"
proof -
  from assms(1) obtain content where c: "af_read fs p = Some content" "m' = bt_insert (join ''/'' p) (af_sha256_hex fs content) m"
    by (auto simp: insert_hash_def hash_file_def relative_path_def result_simps split: if_splits)
  then have "has_digest fs p = (\<lambda>k h. k = join ''/'' p \<and> h = af_sha256_hex fs content)" by (auto simp: has_digest_def fun_eq_iff)
  with c adds_insert[OF assms(2)] show "adds (has_digest fs p) m m'" by simp
  from c show "af_read fs p \<noteq> None" by simp
qed

lemma adds_cong: "adds R m m' \<Longrightarrow> (\<And>k h. R k h = S k h) \<Longrightarrow> adds S m m'"
  by (simp add: adds_def)

text \<open>A scan that succeeds has recorded what it saw, no more and no less, and checked all of it.\<close>

lemma scan_records:
  "scan_dir fs fuel mode cur m = Some (Ok m') \<Longrightarrow> names_wf fs \<Longrightarrow> no_slash cur \<Longrightarrow> bt_inv m \<Longrightarrow>
     adds (recorded fs mode cur) m m' \<and> (\<forall>p. visited fs mode cur p \<longrightarrow> checked fs mode p)"
  "scan_entries fs fuel mode cur names m = Some (Ok m') \<Longrightarrow> names_wf fs \<Longrightarrow> no_slash cur \<Longrightarrow> bt_inv m \<Longrightarrow> no_slash names \<Longrightarrow>
     adds (\<lambda>k h. \<exists>n\<in>set names. should_skip fs mode n (cur @ [n]) = Ok False \<and> entry_recorded fs mode (cur @ [n]) k h) m m'
     \<and> (\<forall>n\<in>set names. should_skip fs mode n (cur @ [n]) = Ok False \<longrightarrow> entry_checked fs mode (cur @ [n]))"
  "scan_context_entry fs fuel p m = Some (Ok m') \<Longrightarrow> names_wf fs \<Longrightarrow> no_slash p \<Longrightarrow> bt_inv m \<Longrightarrow>
     adds (entry_recorded fs ContextScan p) m m' \<and> entry_checked fs ContextScan p"
  "scan_rootfs_entry fs fuel p m = Some (Ok m') \<Longrightarrow> names_wf fs \<Longrightarrow> no_slash p \<Longrightarrow> bt_inv m \<Longrightarrow>
     adds (entry_recorded fs RootfsScan p) m m' \<and> entry_checked fs RootfsScan p"
proof (induction fs fuel mode cur m and fs fuel mode cur names m and fs fuel p m and fs fuel p m
    arbitrary: m' and m' and m' and m' rule: scan_dir_scan_entries_scan_context_entry_scan_rootfs_entry.induct)
  case (2 fs fuel mode cur m)
  then obtain names where n: "af_read_dir fs cur = Some names" "scan_entries fs fuel mode cur (sort names) m = Some (Ok m')"
    by (auto split: option.splits)
  have "no_slash (sort names)" using "2.prems"(2) n(1) by (auto simp: names_wf_def no_slash_def)
  from "2.IH"[OF n "2.prems"(2-4) this] show ?case
    unfolding all_checked_iff by (elim conjE, intro conjI) (auto elim!: adds_cong simp: recorded_iff listed_def n(1))
next
  case (3 fs fuel mode cur m)
  then show ?case by (auto simp: adds_none)
next
  case (4 fs fuel mode cur name names m)
  have ns: "no_slash names" "no_slash (cur @ [name])" using "4.prems"(3,5) by (auto simp: no_slash_def)
  from "4.prems"(1) obtain skip where s: "should_skip fs mode name (cur @ [name]) = Ok skip" by (auto split: sum.splits)
  show ?case
  proof (cases skip)
    case True
    with s "4.prems"(1) have "scan_entries fs fuel mode cur names m = Some (Ok m')" by simp
    from "4.IH"(1)[OF s True this "4.prems"(2-4) ns(1)] s True show ?thesis by simp
  next
    case False
    then have s': "should_skip fs mode name (cur @ [name]) = Ok False" using s by simp
    obtain m1 where m1: "scan_entries fs fuel mode cur names m1 = Some (Ok m')"
      "adds (entry_recorded fs mode (cur @ [name])) m m1 \<and> entry_checked fs mode (cur @ [name])" and
      entry: "(case mode of ContextScan \<Rightarrow> scan_context_entry fs fuel (cur @ [name]) m
        | RootfsScan \<Rightarrow> scan_rootfs_entry fs fuel (cur @ [name]) m) = Some (Ok m1)"
    proof (cases mode)
      case ContextScan
      with s' "4.prems"(1) obtain m1 where "scan_context_entry fs fuel (cur @ [name]) m = Some (Ok m1)"
        "scan_entries fs fuel mode cur names m1 = Some (Ok m')" by (auto split: option.splits sum.splits simp del: scan_context_entry.simps)
      with "4.IH"(2)[OF s False ContextScan _ "4.prems"(2) ns(2) "4.prems"(4)] ContextScan that show ?thesis by simp
    next
      case RootfsScan
      with s' "4.prems"(1) obtain m1 where "scan_rootfs_entry fs fuel (cur @ [name]) m = Some (Ok m1)"
        "scan_entries fs fuel mode cur names m1 = Some (Ok m')" by (auto split: option.splits sum.splits simp del: scan_rootfs_entry.simps)
      with "4.IH"(3)[OF s False RootfsScan _ "4.prems"(2) ns(2) "4.prems"(4)] RootfsScan that show ?thesis by simp
    qed
    have "bt_inv m1" using m1(2) by (simp add: adds_def)
    from "4.IH"(4)[OF s False entry refl m1(1) "4.prems"(2,3) this ns(1)]
    have rest: "adds (\<lambda>k h. \<exists>n\<in>set names. should_skip fs mode n (cur @ [n]) = Ok False \<and> entry_recorded fs mode (cur @ [n]) k h) m1 m'"
      "\<forall>n\<in>set names. should_skip fs mode n (cur @ [n]) = Ok False \<longrightarrow> entry_checked fs mode (cur @ [n])" by auto
    have one: "h = h'" if "entry_recorded fs mode (cur @ [name]) k h"
      "\<exists>n\<in>set names. should_skip fs mode n (cur @ [n]) = Ok False \<and> entry_recorded fs mode (cur @ [n]) k h'" for k h h'
    proof -
      from that(2) obtain n where n: "n \<in> set names" "entry_recorded fs mode (cur @ [n]) k h'" by blast
      then have "no_slash (cur @ [n])" using "4.prems"(3,5) by (auto simp: no_slash_def)
      with that(1) n(2) "4.prems"(2) ns(2) show ?thesis by (intro entry_recorded_unique[of fs mode "cur @ [name]" k h "cur @ [n]" h']) auto
    qed
    show ?thesis using adds_comp[OF conjunct1[OF m1(2)] rest(1) one] rest(2) conjunct2[OF m1(2)] s'
      by (auto elim!: adds_cong)
  qed
next
  case (5 fs fuel p m)
  have k: "entry_kind fs ContextScan p = af_lstat fs p" by (simp add: entry_kind_def)
  show ?case
  proof (cases "af_lstat fs p")
    case (Some kind)
    show ?thesis
    proof (cases kind)
      case KDir
      with Some "5.prems"(1) have "scan_dir fs fuel ContextScan p m = Some (Ok m')" by simp
      from "5.IH"[OF Some KDir this "5.prems"(2-4)] show ?thesis
        by (auto simp: entry_recorded_def[abs_def] entry_checked_def checked_def k Some KDir)
    next
      case KFile
      with Some "5.prems"(1) have "insert_hash fs p m = Ok m'" by simp
      from insert_hash_adds[OF this "5.prems"(4)] show ?thesis
        by (auto simp: entry_recorded_def[abs_def] entry_checked_def checked_def k Some KFile)
    qed (use "5.prems"(1,4) Some k in \<open>auto simp: entry_recorded_def[abs_def] entry_checked_def checked_def intro: adds_none\<close>)
  qed (use "5.prems"(1) in simp)
next
  case (6 fs fuel p m)
  have k: "entry_kind fs RootfsScan p = af_stat fs p" by (simp add: entry_kind_def)
  from "6.prems"(1) obtain u where ok: "and_then (ok_or (af_lstat fs p) (FilesystemError ''Failed to stat {:?}: {}'')) (\<lambda>kind.
      if kind = KLink then validate_rootfs_symlink_target fs p else Ok ()) = Ok u" by (auto split: sum.splits)
  then have link: "af_lstat fs p = Some KLink \<longrightarrow> validate_rootfs_symlink_target fs p = Ok ()" by auto
  show ?case
  proof (cases "af_stat fs p")
    case (Some kind)
    show ?thesis
    proof (cases kind)
      case KDir
      with Some ok "6.prems"(1) have "scan_dir fs fuel RootfsScan p m = Some (Ok m')" by simp
      from "6.IH"[OF ok Some KDir this "6.prems"(2-4)] link show ?thesis
        by (auto simp: entry_recorded_def[abs_def] entry_checked_def checked_def k Some KDir)
    next
      case KFile
      with Some ok "6.prems"(1) have "insert_hash fs p m = Ok m'" by simp
      from insert_hash_adds[OF this "6.prems"(4)] link show ?thesis
        by (auto simp: entry_recorded_def[abs_def] entry_checked_def checked_def k Some KFile)
    qed (use "6.prems"(1,4) Some ok link k in \<open>auto simp: entry_recorded_def[abs_def] entry_checked_def checked_def intro: adds_none\<close>)
  qed (use "6.prems"(1) ok in simp)
qed simp_all

text \<open>Fuel beyond the depth of the directories that are visited is enough; without failures the scan succeeds.\<close>

definition scannable :: "att_fs \<Rightarrow> scan_mode \<Rightarrow> string list \<Rightarrow> bool" where
  "scannable fs mode cur \<longleftrightarrow>
     (\<exists>names. af_read_dir fs cur = Some names \<and> (\<forall>n\<in>set names. is_ok (should_skip fs mode n (cur @ [n]))))"

definition readable :: "att_fs \<Rightarrow> scan_mode \<Rightarrow> string list \<Rightarrow> bool" where
  "readable fs mode p \<longleftrightarrow> af_lstat fs p \<noteq> None \<and> checked fs mode p
     \<and> (entry_kind fs mode p = Some KFile \<longrightarrow> (\<forall>n\<in>set p. af_utf8 fs n))
     \<and> (entry_kind fs mode p = Some KDir \<longrightarrow> scannable fs mode p)"

lemma visited_below: "visited fs mode cur p \<Longrightarrow> length cur < length p"
  by (induction rule: visited.induct) auto

definition shallow :: "att_fs \<Rightarrow> scan_mode \<Rightarrow> string list \<Rightarrow> nat \<Rightarrow> bool" where
  "shallow fs mode cur k \<longleftrightarrow> (\<forall>p. visited fs mode cur p \<and> entry_kind fs mode p = Some KDir \<longrightarrow> length p \<le> k)"

lemma shallow_sub:
  "shallow fs mode cur k \<Longrightarrow> listed fs mode cur n \<Longrightarrow> entry_kind fs mode (cur @ [n]) = Some KDir \<Longrightarrow>
     shallow fs mode (cur @ [n]) k \<and> length (cur @ [n]) \<le> k"
  unfolding shallow_def by (metis here deeper)

lemma scan_returns:
  "length cur \<le> k \<Longrightarrow> k < length cur + fuel \<Longrightarrow> shallow fs mode cur k \<Longrightarrow> scan_dir fs fuel mode cur m \<noteq> None"
  "k < length cur + Suc fuel \<Longrightarrow> shallow fs mode cur k \<Longrightarrow> af_read_dir fs cur = Some names' \<Longrightarrow> set names \<subseteq> set names' \<Longrightarrow>
     scan_entries fs fuel mode cur names m \<noteq> None"
  "k < length p + fuel \<Longrightarrow> (entry_kind fs ContextScan p = Some KDir \<Longrightarrow> shallow fs ContextScan p k \<and> length p \<le> k) \<Longrightarrow>
     scan_context_entry fs fuel p m \<noteq> None"
  "k < length p + fuel \<Longrightarrow> (entry_kind fs RootfsScan p = Some KDir \<Longrightarrow> shallow fs RootfsScan p k \<and> length p \<le> k) \<Longrightarrow>
     scan_rootfs_entry fs fuel p m \<noteq> None"
proof (induction fs fuel mode cur m and fs fuel mode cur names m and fs fuel p m and fs fuel p m
    arbitrary: k and k names' and k and k rule: scan_dir_scan_entries_scan_context_entry_scan_rootfs_entry.induct)
  case (2 fs fuel mode cur m)
  then show ?case by (auto split: option.splits)
next
  case (4 fs fuel mode cur name names m)
  have sub: "set names \<subseteq> set names'" using "4.prems"(4) by simp
  show ?case
  proof (cases "should_skip fs mode name (cur @ [name])")
    case (Inr skip)
    show ?thesis
    proof (cases skip)
      case True
      from "4.IH"(1)[OF Inr True "4.prems"(1-3) sub] Inr True show ?thesis by simp
    next
      case False
      have "listed fs mode cur name" using Inr False "4.prems"(3,4) by (simp add: listed_def)
      note sh = shallow_sub[OF "4.prems"(2) this]
      have lt: "k < length (cur @ [name]) + fuel" using "4.prems"(1) by simp
      have "(case mode of ContextScan \<Rightarrow> scan_context_entry fs fuel (cur @ [name]) m
          | RootfsScan \<Rightarrow> scan_rootfs_entry fs fuel (cur @ [name]) m) \<noteq> None"
        using "4.IH"(2)[OF Inr False _ lt] "4.IH"(3)[OF Inr False _ lt] sh by (cases mode) auto
      then obtain r where r: "(case mode of ContextScan \<Rightarrow> scan_context_entry fs fuel (cur @ [name]) m
          | RootfsScan \<Rightarrow> scan_rootfs_entry fs fuel (cur @ [name]) m) = Some r" by blast
      with Inr False show ?thesis
        using "4.IH"(4)[OF Inr False r _ "4.prems"(1-3) sub] by (cases r) simp_all
    qed
  qed simp
next
  case (5 fs fuel p m)
  then show ?case by (auto simp: entry_kind_def split: option.splits file_kind.splits)
next
  case (6 fs fuel p m)
  then show ?case by (auto simp: entry_kind_def split: sum.splits option.splits)
qed auto

lemma scan_succeeds:
  "scan_dir fs fuel mode cur m = Some r \<Longrightarrow> scannable fs mode cur \<Longrightarrow> (\<forall>p. visited fs mode cur p \<longrightarrow> readable fs mode p) \<Longrightarrow> is_ok r"
  "scan_entries fs fuel mode cur names m = Some r \<Longrightarrow> (\<forall>n\<in>set names. is_ok (should_skip fs mode n (cur @ [n]))) \<Longrightarrow>
     (\<forall>n\<in>set names. listed fs mode cur n \<or> should_skip fs mode n (cur @ [n]) \<noteq> Ok False) \<Longrightarrow>
     (\<forall>p. visited fs mode cur p \<longrightarrow> readable fs mode p) \<Longrightarrow> is_ok r"
  "scan_context_entry fs fuel p m = Some r \<Longrightarrow> readable fs ContextScan p \<Longrightarrow>
     (entry_kind fs ContextScan p = Some KDir \<Longrightarrow> \<forall>q. visited fs ContextScan p q \<longrightarrow> readable fs ContextScan q) \<Longrightarrow> is_ok r"
  "scan_rootfs_entry fs fuel p m = Some r \<Longrightarrow> readable fs RootfsScan p \<Longrightarrow>
     (entry_kind fs RootfsScan p = Some KDir \<Longrightarrow> \<forall>q. visited fs RootfsScan p q \<longrightarrow> readable fs RootfsScan q) \<Longrightarrow> is_ok r"
proof (induction fs fuel mode cur m and fs fuel mode cur names m and fs fuel p m and fs fuel p m
    arbitrary: r and r and r and r rule: scan_dir_scan_entries_scan_context_entry_scan_rootfs_entry.induct)
  case (2 fs fuel mode cur m)
  from "2.prems"(2) obtain names where n: "af_read_dir fs cur = Some names" "\<forall>n\<in>set names. is_ok (should_skip fs mode n (cur @ [n]))"
    by (auto simp: scannable_def)
  from "2.IH"[OF n(1), of r] "2.prems"(1,3) n show ?case by (simp add: listed_def)
next
  case (4 fs fuel mode cur name names m)
  from "4.prems"(2) obtain skip where s: "should_skip fs mode name (cur @ [name]) = Ok skip" by (auto simp: is_ok_iff)
  show ?case
  proof (cases skip)
    case True
    with s "4.prems" show ?thesis using "4.IH"(1)[OF s True, of r] by simp
  next
    case False
    have l: "listed fs mode cur name" using "4.prems"(3) s False by auto
    have rd: "readable fs mode (cur @ [name])" "entry_kind fs mode (cur @ [name]) = Some KDir \<Longrightarrow>
        \<forall>q. visited fs mode (cur @ [name]) q \<longrightarrow> readable fs mode q"
      using "4.prems"(4) here[OF l] deeper[OF l] by blast+
    from "4.prems"(1) s False obtain r1 where r1: "(case mode of ContextScan \<Rightarrow> scan_context_entry fs fuel (cur @ [name]) m
        | RootfsScan \<Rightarrow> scan_rootfs_entry fs fuel (cur @ [name]) m) = Some r1" by (auto split: option.splits)
    then have "is_ok r1" using "4.IH"(2)[OF s False, of r1] "4.IH"(3)[OF s False, of r1] rd by (cases mode) auto
    then obtain m1 where m1: "r1 = Ok m1" by (auto simp: is_ok_iff)
    with r1 s False "4.prems"(1) have "scan_entries fs fuel mode cur names m1 = Some r" by simp
    from "4.IH"(4)[OF s False r1 m1 this] "4.prems"(2-4) show ?thesis by simp
  qed
next
  case (5 fs fuel p m)
  then show ?case
    by (auto simp: entry_kind_def readable_def checked_def insert_hash_def hash_file_def relative_path_def split: option.splits file_kind.splits)
next
  case (6 fs fuel p m)
  then show ?case
    by (auto simp: entry_kind_def readable_def checked_def insert_hash_def hash_file_def relative_path_def
        split: option.splits sum.splits if_splits)
qed auto

section \<open>Properties of attestation\<close>

lemma adds_empty: "adds R [] m \<Longrightarrow> bt_get m k = Some h \<longleftrightarrow> R k h"
  by (simp add: adds_def bt_get_def)

lemma bt_inv_Nil: "bt_inv []" by (rule bt.invar_empty)

lemma compare_manifests_Ok: "compare_manifests expected actual label = Ok u \<longleftrightarrow> expected = actual"
  by (simp add: compare_manifests_def)


text \<open>A root with one file, a link to it, and its manifest.\<close>

definition demo_att_fs :: att_fs where
  "demo_att_fs = \<lparr>
     af_read_dir = (\<lambda>p. if p = [] then Some [''tool'', ROOTFS_ATTESTATION_FILE, ''link''] else None),
     af_lstat = (\<lambda>p. if p = [''link''] then Some KLink else Some KFile),
     af_stat = (\<lambda>p. Some KFile),
     af_canonicalize = (\<lambda>p. Some (if p = [] then path_new ''/r'' else path_new ''/r/tool'')),
     af_read = (\<lambda>p. if p = [ROOTFS_ATTESTATION_FILE] then Some (''x'' @ CHR 0x09 # ''link'' @ CHR 0x0A # ''x'' @ CHR 0x09 # ''tool'' @ [CHR 0x0A]) else Some ''x''),
     af_utf8 = (\<lambda>s. True),
     af_sha256_hex = (\<lambda>c. c)\<rparr>"

lemma demo_names_wf: "names_wf demo_att_fs"
  by (auto simp: names_wf_def demo_att_fs_def ROOTFS_ATTESTATION_FILE_def split: if_splits)

lemma demo_att_verifies: "verify_rootfs_attestation demo_att_fs 2 = Some (Ok ())"
  by (simp add: verify_rootfs_attestation_def read_rootfs_attestation_def read_manifest_file_def manifest_line_def demo_att_fs_def
      ROOTFS_ATTESTATION_FILE_def numeral_2_eq_2 should_skip_def relative_path_def validate_rootfs_symlink_target_def starts_with_def
      path_new_def component_of_def insert_hash_def hash_file_def compare_manifests_def string_eval lines_def split_on_def strip_cr_def)

lemma demo_visited: "visited demo_att_fs RootfsScan [] [''tool'']" "visited demo_att_fs RootfsScan [] [''link'']"
proof -
  have "listed demo_att_fs RootfsScan [] n" if "n = ''tool'' \<or> n = ''link''" for n
    using that by (auto simp: listed_def demo_att_fs_def should_skip_def relative_path_def ROOTFS_ATTESTATION_FILE_def)
  from here[OF this[of "''tool''"]] here[OF this[of "''link''"]]
  show "visited demo_att_fs RootfsScan [] [''tool'']" "visited demo_att_fs RootfsScan [] [''link'']" by simp_all
qed


text \<open>
  C27: the scan of a root file system ends although it follows links. If the kernel refuses paths of more than \<open>k\<close> names
  (it refuses those of more than PATH\_MAX bytes), the recursion never goes deeper than \<open>k + 1\<close> and gives a verdict, also when
  links form a cycle.
\<close>

theorem rootfs_verification_returns:
  assumes "\<And>p. length p > k \<Longrightarrow> af_stat fs p = None"
  shows "\<exists>r. verify_rootfs_attestation fs (Suc k) = Some r"
proof -
  have "shallow fs RootfsScan [] k" using assms by (force simp: shallow_def entry_kind_def not_less[symmetric])
  from scan_returns(1)[OF _ _ this, of "Suc k" "[]"] obtain r where "scan_dir fs (Suc k) RootfsScan [] [] = Some r" by auto
  then show ?thesis by (auto simp: verify_rootfs_attestation_def split: sum.splits simp del: scan_dir.simps)
qed

text \<open>A link to its own directory; paths of more than three names are refused.\<close>

definition loop_att_fs :: att_fs where
  "loop_att_fs = demo_att_fs\<lparr>af_read_dir := (\<lambda>p. Some [''self'']), af_lstat := (\<lambda>p. Some KLink),
     af_stat := (\<lambda>p. if length p > 3 then None else Some KDir)\<rparr>"

theorem rootfs_verification_returns_witness: "\<exists>r. verify_rootfs_attestation loop_att_fs (Suc 3) = Some r"
  by (rule rootfs_verification_returns) (simp add: loop_att_fs_def)

text \<open>
  a context that passes verification has the files of its source: the same paths with the same digests, nothing missing and
  nothing added.
\<close>

theorem verified_context_same_files:
  assumes "verify_context_integrity source dest fuel = Some (Ok ())" "names_wf source" "names_wf dest"
  shows "recorded source ContextScan [] key digest \<longleftrightarrow> recorded dest ContextScan [] key digest"
proof -
  from assms(1) obtain m where m: "scan_dir source fuel ContextScan [] [] = Some (Ok m)" "scan_dir dest fuel ContextScan [] [] = Some (Ok m)"
    by (auto simp: verify_context_integrity_def verify_context_manifest_def snapshot_context_dir_def result_simps compare_manifests_Ok
        split: option.splits sum.splits)
  from scan_records(1)[OF m(1) assms(2) _ bt_inv_Nil] scan_records(1)[OF m(2) assms(3) _ bt_inv_Nil] show ?thesis
    by (auto simp: no_slash_def dest!: adds_empty)
qed

definition demo_att_copy :: att_fs where
  "demo_att_copy = demo_att_fs\<lparr>af_read_dir := (\<lambda>p. if p = [] then Some [ROOTFS_ATTESTATION_FILE, ''tool''] else None)\<rparr>"

lemma demo_copy_names_wf: "names_wf demo_att_copy"
  by (auto simp: names_wf_def demo_att_copy_def ROOTFS_ATTESTATION_FILE_def split: if_splits)

lemma demo_context_verifies: "verify_context_integrity demo_att_fs demo_att_copy 2 = Some (Ok ())"
  by (simp add: verify_context_integrity_def verify_context_manifest_def snapshot_context_dir_def demo_att_copy_def demo_att_fs_def
      ROOTFS_ATTESTATION_FILE_def numeral_2_eq_2 should_skip_def relative_path_def insert_hash_def hash_file_def compare_manifests_def string_eval
      should_exclude_name_def excluded_exact_def excluded_suffixes_def excluded_words_def to_lowercase_def
      char_lower_def ends_with_def contains_def suffix_def sublist_Cons_right char_of_def)

theorem verified_context_same_files_witness:
  "recorded demo_att_fs ContextScan [] ''tool'' ''x'' \<longleftrightarrow> recorded demo_att_copy ContextScan [] ''tool'' ''x''"
  by (rule verified_context_same_files[OF demo_context_verifies demo_names_wf demo_copy_names_wf])

section \<open>A copied context passes\<close>

text \<open>The file system that a tree is. A context scan does not follow links, so it asks for no other answer.\<close>

fun node_at :: "node \<Rightarrow> string list \<Rightarrow> node option" where
  "node_at c [] = Some c"
| "node_at (Dir m es) (n # p) = (case map_of es n of None \<Rightarrow> None | Some c \<Rightarrow> node_at c p)"
| "node_at _ (n # p) = None"

fun kind_of :: "node \<Rightarrow> file_kind" where
  "kind_of (File content m) = KFile"
| "kind_of (Dir m es) = KDir"
| "kind_of (Link target) = KLink"
| "kind_of Special = KOther"

definition tree_fs :: "(string \<Rightarrow> bool) \<Rightarrow> (string \<Rightarrow> string) \<Rightarrow> node \<Rightarrow> att_fs" where
  "tree_fs utf8 sha256_hex tree = \<lparr>
     af_read_dir = (\<lambda>p. case node_at tree p of Some (Dir m es) \<Rightarrow> Some (map fst es) | _ \<Rightarrow> None),
     af_lstat = (\<lambda>p. map_option kind_of (node_at tree p)),
     af_stat = (\<lambda>p. None), af_canonicalize = (\<lambda>p. None),
     af_read = (\<lambda>p. case node_at tree p of Some (File content m) \<Rightarrow> Some content | _ \<Rightarrow> None),
     af_utf8 = utf8, af_sha256_hex = sha256_hex\<rparr>"

fun as_node :: "staged \<Rightarrow> node" where
  "as_node (SFile content) = File content 420"
| "as_node (SDir ds) = Dir 493 (map (\<lambda>(n, c). (n, as_node c)) ds)"

lemma node_at_append: "node_at c (p @ q) = (case node_at c p of None \<Rightarrow> None | Some d \<Rightarrow> node_at d q)"
  by (induction c p rule: node_at.induct) (auto split: option.splits)

lemma view_node_at: "view c p = map_option (\<lambda>d. the (view d [])) (node_at c p)"
  by (induction c p rule: view.induct) (auto split: option.splits)

lemma view_None_iff: "view c p = None \<longleftrightarrow> node_at c p = None"
  by (subst view_node_at) simp

lemma kept_node_at:
  "(\<forall>n\<in>set p. \<not> should_exclude_name n) \<Longrightarrow> kept_node c p = Some (Some content) \<longleftrightarrow> (\<exists>m. node_at c p = Some (File content m))"
  "(\<forall>n\<in>set p. \<not> should_exclude_name n) \<Longrightarrow> kept_node c p = Some None \<longleftrightarrow> (\<exists>m es. node_at c p = Some (Dir m es))"
proof -
  have "kept_info (view d []) = Some (Some content) \<longleftrightarrow> (\<exists>m. d = File content m)"
    "kept_info (view d []) = Some None \<longleftrightarrow> (\<exists>m es. d = Dir m es)" "view d [] \<noteq> None" for d
    by (cases d; auto)+
  then show "(\<forall>n\<in>set p. \<not> should_exclude_name n) \<Longrightarrow> kept_node c p = Some (Some content) \<longleftrightarrow> (\<exists>m. node_at c p = Some (File content m))"
    "(\<forall>n\<in>set p. \<not> should_exclude_name n) \<Longrightarrow> kept_node c p = Some None \<longleftrightarrow> (\<exists>m es. node_at c p = Some (Dir m es))"
    by (cases "node_at c p"; simp add: kept_node_def view_node_at[of c p]; metis option.collapse)+
qed

lemma listed_tree:
  "listed (tree_fs utf8 sha tree) ContextScan cur n \<longleftrightarrow>
     (\<exists>m es. node_at tree cur = Some (Dir m es)) \<and> node_at tree (cur @ [n]) \<noteq> None \<and> \<not> should_exclude_name n"
proof -
  have "n \<in> fst ` set es \<longleftrightarrow> (\<exists>c. map_of es n = Some c)" for es :: "(string \<times> node) list"
    by (metis map_of_eq_None_iff not_None_eq)
  then show ?thesis
    by (auto simp: listed_def tree_fs_def should_skip_def node_at_append split: option.splits node.splits)
qed

lemma visited_tree:
  "visited (tree_fs utf8 sha tree) ContextScan cur p \<longleftrightarrow>
     (\<exists>q. p = cur @ q \<and> q \<noteq> [] \<and> node_at tree p \<noteq> None \<and> (\<forall>n\<in>set q. \<not> should_exclude_name n))"
proof
  show "visited (tree_fs utf8 sha tree) ContextScan cur p \<Longrightarrow>
     \<exists>q. p = cur @ q \<and> q \<noteq> [] \<and> node_at tree p \<noteq> None \<and> (\<forall>n\<in>set q. \<not> should_exclude_name n)"
    by (induction rule: visited.induct) (auto simp: listed_tree)
next
  have "visited (tree_fs utf8 sha tree) ContextScan cur (cur @ n # q)"
    if "node_at tree (cur @ n # q) \<noteq> None" "\<forall>k\<in>set (n # q). \<not> should_exclude_name k" for n q
    using that
  proof (induction q arbitrary: cur n)
    case Nil
    then have "listed (tree_fs utf8 sha tree) ContextScan cur n"
      by (auto simp: listed_tree node_at_append split: option.splits elim: node_at.elims)
    from here[OF this] show ?case by simp
  next
    case (Cons k q)
    then obtain c d where c: "node_at tree cur = Some c" "node_at c [n] = Some d" "node_at d (k # q) \<noteq> None"
      using node_at_append[of c "[n]" "k # q" for c] by (auto simp: node_at_append split: option.splits)
    then have l: "listed (tree_fs utf8 sha tree) ContextScan cur n"
      using Cons.prems(2) by (cases c) (auto simp: listed_tree node_at_append)
    have dir: "entry_kind (tree_fs utf8 sha tree) ContextScan (cur @ [n]) = Some KDir"
      using c by (cases d) (auto simp: entry_kind_def tree_fs_def node_at_append)
    from deeper[OF l dir] Cons.IH[of "cur @ [n]" k] Cons.prems show ?case by simp
  qed
  then show "\<exists>q. p = cur @ q \<and> q \<noteq> [] \<and> node_at tree p \<noteq> None \<and> (\<forall>n\<in>set q. \<not> should_exclude_name n) \<Longrightarrow>
     visited (tree_fs utf8 sha tree) ContextScan cur p"
    by (metis list.exhaust)
qed

lemma entry_kind_tree: "entry_kind (tree_fs utf8 sha tree) ContextScan p = map_option kind_of (node_at tree p)"
  by (simp add: entry_kind_def tree_fs_def)

lemma recorded_tree:
  "recorded (tree_fs utf8 sha (Dir m es)) ContextScan [] key digest \<longleftrightarrow>
     (\<exists>p content. kept_view es p = Some (Some content) \<and> key = join ''/'' p \<and> digest = sha content)"
proof -
  have is_file: "kind_of d = KFile \<longleftrightarrow> (\<exists>content k. d = File content k)" for d by (cases d) auto
  have kept: "kept_view es p = Some (Some content) \<longleftrightarrow>
      p \<noteq> [] \<and> (\<forall>n\<in>set p. \<not> should_exclude_name n) \<and> (\<exists>k. node_at (Dir m es) p = Some (File content k))" for p content
    using kept_node_at(1)[of p "Dir m es" content] by (cases p) (auto simp: kept_node_Dir kept_view_def entries_view_def)
  show ?thesis unfolding recorded_def visited_tree has_digest_def entry_kind_tree kept
    by (auto simp: tree_fs_def is_file) blast
qed

lemma tree_scan_succeeds:
  assumes "nests_at_most k es" "\<And>p n. kept_view es p \<noteq> None \<Longrightarrow> n \<in> set p \<Longrightarrow> utf8 n"
  shows "\<exists>manifest. scan_dir (tree_fs utf8 sha (Dir m es)) (Suc k) ContextScan [] [] = Some (Ok manifest)"
proof -
  let ?fs = "tree_fs utf8 sha (Dir m es)"
  have dir: "kept_view es p = Some None" if "visited ?fs ContextScan [] p" "entry_kind ?fs ContextScan p = Some KDir" for p
  proof -
    from that obtain d where "node_at (Dir m es) p = Some d" "kind_of d = KDir" "p \<noteq> []" "\<forall>n\<in>set p. \<not> should_exclude_name n"
      by (auto simp: visited_tree entry_kind_tree)
    with kept_node_at(2)[of p "Dir m es"] show ?thesis by (cases d; cases p) (auto simp: kept_node_Dir)
  qed
  have "shallow ?fs ContextScan [] k" using assms(1) dir by (auto simp: shallow_def nests_at_most_def)
  from scan_returns(1)[OF _ _ this, of "Suc k" "[]"] obtain r where r: "scan_dir ?fs (Suc k) ContextScan [] [] = Some r" by auto
  have scannable: "scannable ?fs ContextScan p" if "node_at (Dir m es) p = Some (Dir m' es')" for p m' es'
    using that by (simp add: scannable_def tree_fs_def should_skip_def)
  have "readable ?fs ContextScan p" if v: "visited ?fs ContextScan [] p" for p
  proof -
    from v obtain d where d: "node_at (Dir m es) p = Some d" "p \<noteq> []" "\<forall>n\<in>set p. \<not> should_exclude_name n" by (auto simp: visited_tree)
    have "kept_view es p \<noteq> None" if "d = File content k'" for content k'
      using kept_node_at(1)[of p "Dir m es" content] d that by (cases p) (auto simp: kept_node_Dir)
    with d assms(2)[of p] scannable[of p] show ?thesis
      by (cases d) (auto simp: readable_def checked_def entry_kind_tree, simp_all add: tree_fs_def)
  qed
  with scan_succeeds(1)[OF r] scannable[of "[]"] have "is_ok r" by auto
  with r show ?thesis by (auto simp: is_ok_iff)
qed

text \<open>The destination of a copy as a tree.\<close>

lemma as_node_view: "kept_info (view (as_node s) p) = staged_view s p"
proof (induction s p rule: staged_view.induct)
  case (3 ds n q)
  have "map_of (map (\<lambda>(n, c). (n, as_node c)) ds) n = map_option as_node (map_of ds n)" by (induction ds) auto
  with 3 show ?case by (auto split: option.splits)
qed auto

lemma as_node_kept: "kept_view (map (\<lambda>(n, c). (n, as_node c)) ds) p = (if \<exists>n\<in>set p. should_exclude_name n then None else staged_dir_view ds p)"
proof (cases p)
  case (Cons n q)
  from as_node_view[of "SDir ds" p] show ?thesis by (simp add: Cons kept_view_def entries_view_def staged_dir_view_def)
qed simp

lemma copied_kept:
  "(\<And>p. staged_dir_view ds p = kept_view es p) \<Longrightarrow> kept_view (map (\<lambda>(n, c). (n, as_node c)) ds) p = kept_view es p"
  by (simp add: as_node_kept) (simp add: kept_view_def)

text \<open>No name in a directory of the tree has a slash.\<close>

lemma tree_names_wf:
  "names_wf (tree_fs utf8 sha (Dir m es)) \<longleftrightarrow> (\<forall>p n. node_at (Dir m es) (p @ [n]) \<noteq> None \<longrightarrow> CHR ''/'' \<notin> set n)"
proof -
  have "(\<exists>names. af_read_dir (tree_fs utf8 sha (Dir m es)) p = Some names \<and> n \<in> set names) \<longleftrightarrow> node_at (Dir m es) (p @ [n]) \<noteq> None" for p n
  proof -
    have "n \<in> fst ` set sub \<longleftrightarrow> (\<exists>c. map_of sub n = Some c)" for sub :: "(string \<times> node) list"
      by (metis map_of_eq_None_iff not_None_eq)
    then show ?thesis by (auto simp: tree_fs_def node_at_append split: option.splits node.splits)
  qed
  then show ?thesis unfolding names_wf_def by blast
qed

lemma copied_names_wf:
  assumes "\<And>p. staged_dir_view ds p = kept_view es p" "names_wf (tree_fs utf8 sha (Dir m es))"
  shows "names_wf (tree_fs utf8 sha (as_node (SDir ds)))"
  unfolding as_node.simps tree_names_wf
proof (intro allI impI)
  fix p n assume "node_at (Dir 493 (map (\<lambda>(n, c). (n, as_node c)) ds)) (p @ [n]) \<noteq> None"
  then have "view (as_node (SDir ds)) (p @ [n]) \<noteq> None" by (simp only: as_node.simps view_None_iff not_False_eq_True)
  moreover have "kept_info (view (as_node s) q) \<noteq> None" if "view (as_node s) q \<noteq> None" for s q
    using that
  proof (induction s q rule: staged_view.induct)
    case (3 ds n q)
    have "map_of (map (\<lambda>(n, c). (n, as_node c)) ds) n = map_option as_node (map_of ds n)" by (induction ds) auto
    with 3 show ?case by (auto split: option.splits)
  qed auto
  ultimately have "staged_view (SDir ds) (p @ [n]) \<noteq> None" using as_node_view by metis
  then have "kept_view es (p @ [n]) \<noteq> None" using assms(1)[of "p @ [n]"] by (auto simp: staged_view_SDir split: list.splits)
  then have "entries_view es (p @ [n]) \<noteq> None" by (cases "entries_view es (p @ [n])") (auto simp: kept_view_def split: if_splits)
  then have "view (Dir m es) (p @ [n]) \<noteq> None" by (auto simp: view_dir split: list.splits)
  then have "node_at (Dir m es) (p @ [n]) \<noteq> None" by (simp only: view_None_iff not_False_eq_True)
  with assms(2) show "CHR ''/'' \<notin> set n" by (auto simp: tree_names_wf)
qed

text \<open>
  C21: a faithful copy passes verification. For a context whose kept directories nest at most 128 deep and whose names are UTF-8,
  when no call fails: the snapshot of the source, the copy, and the verification of the destination against the
  snapshot all succeed, at a scan depth of 129.
\<close>

theorem copied_context_verifies:
  assumes "cx_faultless io" "names_ok (Dir 0 es)" "nests_at_most MAX_RECURSION_DEPTH es"
    and "names_wf (tree_fs utf8 sha (Dir m es))" "\<And>p n. kept_view es p \<noteq> None \<Longrightarrow> n \<in> set p \<Longrightarrow> utf8 n"
  shows "\<exists>ds expected. populate io (Some (Dir m es)) None = (Some ds, Ok ())
    \<and> snapshot_context_dir (tree_fs utf8 sha (Dir m es)) (Suc MAX_RECURSION_DEPTH) = Some (Ok expected)
    \<and> verify_context_manifest expected (tree_fs utf8 sha (as_node (SDir ds))) (Suc MAX_RECURSION_DEPTH) = Some (Ok ())"
proof -
  from copy_recursive_exact(1)[OF assms(1-3), of 0 "[]"] obtain ds where
    ds: "copy_recursive io [] 0 es [] = (ds, Ok ())" "\<And>p. staged_dir_view ds p = kept_view es p" by auto
  let ?src = "tree_fs utf8 sha (Dir m es)" and ?es' = "map (\<lambda>(n, c). (n, as_node c)) ds"
  let ?dst = "tree_fs utf8 sha (Dir 493 ?es')"
  note same = copied_kept[OF ds(2)]
  obtain expected where e: "scan_dir ?src (Suc MAX_RECURSION_DEPTH) ContextScan [] [] = Some (Ok expected)"
    using tree_scan_succeeds[OF assms(3), of utf8 sha m] assms(5) by blast
  have "nests_at_most MAX_RECURSION_DEPTH ?es'" using assms(3) by (simp add: nests_at_most_def same)
  from tree_scan_succeeds[OF this, of utf8 sha 493] assms(5) obtain actual where
    a: "scan_dir ?dst (Suc MAX_RECURSION_DEPTH) ContextScan [] [] = Some (Ok actual)" by (auto simp: same)
  have wf: "names_wf ?dst" using copied_names_wf[OF ds(2) assms(4)] by simp
  have "adds (recorded ?src ContextScan []) [] expected" "adds (recorded ?dst ContextScan []) [] actual"
    using scan_records(1)[OF e assms(4) _ bt_inv_Nil] scan_records(1)[OF a wf _ bt_inv_Nil] by (simp_all add: no_slash_def)
  then have "bt_get expected k = Some h \<longleftrightarrow> bt_get actual k = Some h" "bt_inv expected" "bt_inv actual" for k h
    by (simp_all add: adds_empty recorded_tree same) (simp_all add: adds_def)
  then have "expected = actual" by (intro bt_ext ext) (auto intro: option.expand, metis not_None_eq)
  with ds(1) e a assms(1) show ?thesis
    by (auto simp: populate_def validate_source_def cx_faultless_def snapshot_context_dir_def verify_context_manifest_def compare_manifests_Ok)
qed

theorem copied_context_verifies_witness:
  "\<exists>ds expected. populate demo_cx_io (Some (Dir 493 [(''a'', File ''x'' 420), (''.env'', File ''TOKEN'' 384)])) None = (Some ds, Ok ())
    \<and> snapshot_context_dir (tree_fs (\<lambda>s. True) (\<lambda>c. c) (Dir 493 [(''a'', File ''x'' 420), (''.env'', File ''TOKEN'' 384)])) (Suc MAX_RECURSION_DEPTH)
        = Some (Ok expected)
    \<and> verify_context_manifest expected (tree_fs (\<lambda>s. True) (\<lambda>c. c) (as_node (SDir ds))) (Suc MAX_RECURSION_DEPTH) = Some (Ok ())"
proof (rule copied_context_verifies)
  show "names_wf (tree_fs (\<lambda>s. True) (\<lambda>c. c) (Dir 493 [(''a'', File ''x'' 420), (''.env'', File ''TOKEN'' 384)]))"
    unfolding names_wf_def
  proof (intro allI impI)
    fix cur names n
    assume "af_read_dir (tree_fs (\<lambda>s. True) (\<lambda>c. c) (Dir 493 [(''a'', File ''x'' 420), (''.env'', File ''TOKEN'' 384)])) cur = Some names"
      "n \<in> set names"
    then show "CHR ''/'' \<notin> set n"
      by (cases cur; cases "tl cur") (auto simp: tree_fs_def split: option.splits if_splits)
  qed
qed (auto simp: cx_faultless_def demo_cx_io_def intro!: nests_flat)

end
