(* ===== verification/Cgroup.thy ===== *)
theory Cgroup
  imports Lifecycle Resource_Limits Cgroup_Device Host_Actions Paths
begin

text \<open>
  The cgroup of a container (\<^verbatim>\<open>src/src/resources/cgroup.rs\<close>): validation of the root and of names, limits,
  attaching, freezing, draining and removal.

  Every effect on the cgroup is an event of a log, and the kernel is a record of functions of the log so far: whether
  a file exists, what it reads, whether a write or a kill succeeds. So a kernel may answer differently as the
  container's processes come and go, and nothing is assumed of it unless a lemma says so.
\<close>

section \<open>The kernel\<close>

datatype cg_event = MkDir path | Wrote path string | Signalled int | Slept | RmDir path

type_synonym cg_log = "cg_event list"

datatype kill_result = KillOk | KillEsrch | KillFailed

record cg_kernel =
  ck_exists :: "cg_log \<Rightarrow> path \<Rightarrow> bool"
  ck_lstat :: "cg_log \<Rightarrow> path \<Rightarrow> file_kind option"
  ck_canonicalize :: "cg_log \<Rightarrow> path \<Rightarrow> path option"
  ck_statfs :: "cg_log \<Rightarrow> path \<Rightarrow> int option"
  ck_mkdir :: "cg_log \<Rightarrow> path \<Rightarrow> bool"
  ck_open :: "cg_log \<Rightarrow> path \<Rightarrow> bool"
  ck_write :: "cg_log \<Rightarrow> path \<Rightarrow> string \<Rightarrow> bool"
  ck_read :: "cg_log \<Rightarrow> path \<Rightarrow> string option"
  ck_kill :: "cg_log \<Rightarrow> int \<Rightarrow> kill_result"
  ck_rmdir :: "cg_log \<Rightarrow> path \<Rightarrow> bool"

type_synonym 'a cg_action = "(cg_log, 'a) action"

definition ask :: "(cg_log \<Rightarrow> 'a result) \<Rightarrow> 'a cg_action" where
  "ask f l = (l, f l)"

definition note_event :: "cg_event \<Rightarrow> unit cg_action" where
  "note_event e = modify (\<lambda>l. l @ [e])"

section \<open>Names, roots and control files\<close>

definition CGROUP_V2_ROOT :: path where "CGROUP_V2_ROOT = path_new ''/sys/fs/cgroup''"

definition CGROUP2_SUPER_MAGIC :: int where "CGROUP2_SUPER_MAGIC = 0x63677270"

definition CGROUP_CLEANUP_RETRIES :: nat where "CGROUP_CLEANUP_RETRIES = 50"

definition CGROUP_FREEZE_RETRIES :: nat where "CGROUP_FREEZE_RETRIES = 100"

definition root_path_from_override :: "string option \<Rightarrow> path result" where
  "root_path_from_override raw =
     (case raw of
        None \<Rightarrow> Ok CGROUP_V2_ROOT
      | Some raw \<Rightarrow>
          if raw = [] then Ok CGROUP_V2_ROOT
          else if \<not> is_absolute (path_new raw) then Err (CgroupError ''{} must be an absolute path'')
          else Ok (path_new raw))"

definition validate_cgroup_name :: "string \<Rightarrow> unit result" where
  "validate_cgroup_name name =
     (if name = [] \<or> CHR 0x00 \<in> set name then Err (CgroupError ''cgroup name must be a non-empty path component'')
      else case path_new name of
          [Normal _] \<Rightarrow> Ok ()
        | _ \<Rightarrow> Err (CgroupError ''cgroup name must be a single relative path component''))"

definition validate_directory_not_symlink :: "cg_kernel \<Rightarrow> cg_log \<Rightarrow> path \<Rightarrow> unit result" where
  "validate_directory_not_symlink k l p =
     and_then (ok_or (ck_lstat k l p) (CgroupError ''Failed to inspect {} {:?}: {}'')) (\<lambda>kind.
     if kind = KLink then Err (CgroupError ''{} {:?} must not be a symlink'')
     else if kind \<noteq> KDir then Err (CgroupError ''{} {:?} must be a directory'')
     else Ok ())"

definition ensure_cgroup2_magic :: "int \<Rightarrow> unit result" where
  "ensure_cgroup2_magic fs_type = reject_if (fs_type \<noteq> CGROUP2_SUPER_MAGIC) (CgroupError ''{:?} is not on a cgroup v2 filesystem'')"

definition ensure_path_on_cgroup2_fs :: "cg_kernel \<Rightarrow> cg_log \<Rightarrow> path \<Rightarrow> unit result" where
  "ensure_path_on_cgroup2_fs k l p =
     and_then (ok_or (ck_statfs k l p) (CgroupError ''Failed to statfs cgroup path {:?}: {}'')) ensure_cgroup2_magic"

definition require_cgroup_control_file :: "cg_kernel \<Rightarrow> cg_log \<Rightarrow> path \<Rightarrow> unit result" where
  "require_cgroup_control_file k l p =
     and_then (ok_or (ck_lstat k l p) (CgroupError ''Required cgroup control file {:?} is missing or inaccessible: {}'')) (\<lambda>kind.
     if kind = KLink then Err (CgroupError ''cgroup control file {:?} must not be a symlink'')
     else if kind \<noteq> KFile then Err (CgroupError ''{:?} is not a cgroup control file'')
     else ensure_path_on_cgroup2_fs k l p)"

definition validate_root_path :: "cg_kernel \<Rightarrow> cg_log \<Rightarrow> path \<Rightarrow> unit result" where
  "validate_root_path k l p =
     and_then (reject_if (\<not> is_absolute p) (CgroupError ''{} must be an absolute path'')) (\<lambda>_.
     and_then (validate_directory_not_symlink k l p) (\<lambda>_.
     and_then (ok_or (ck_canonicalize k l p) (CgroupError ''Failed to canonicalize cgroup root {:?}: {}'')) (\<lambda>canonical.
     and_then (ok_or (ck_canonicalize k l CGROUP_V2_ROOT)
        (CgroupError ''Failed to canonicalize {} while validating cgroup root {:?}: {}'')) (\<lambda>canonical_cgroup_root.
     and_then (reject_if (\<not> starts_with canonical canonical_cgroup_root) (CgroupError ''cgroup root {:?} must be inside {}'')) (\<lambda>_.
     and_then (ensure_path_on_cgroup2_fs k l canonical) (\<lambda>_.
     and_then (require_cgroup_control_file k l (path_push canonical ''cgroup.controllers'')) (\<lambda>_.
     and_then (require_cgroup_control_file k l (path_push canonical ''cgroup.subtree_control'')) (\<lambda>_.
     require_cgroup_control_file k l (path_push canonical ''cgroup.procs'')))))))))"

definition root_path :: "cg_kernel \<Rightarrow> string option \<Rightarrow> path cg_action" where
  "root_path k env =
     seq (give (root_path_from_override env)) (\<lambda>p.
     seq (ask (\<lambda>l. validate_root_path k l p)) (\<lambda>_. give (Ok p)))"

definition validate_cgroup_directory :: "cg_kernel \<Rightarrow> cg_log \<Rightarrow> path \<Rightarrow> unit result" where
  "validate_cgroup_directory k l p =
     and_then (validate_directory_not_symlink k l p) (\<lambda>_.
     and_then (ensure_path_on_cgroup2_fs k l p) (\<lambda>_.
     require_cgroup_control_file k l (path_push p ''cgroup.procs'')))"

text \<open>
  A control file is opened without following a link, its file system is checked on the descriptor, then it is
  written.
\<close>

definition write_value_at :: "cg_kernel \<Rightarrow> path \<Rightarrow> string \<Rightarrow> string \<Rightarrow> unit cg_action" where
  "write_value_at k p file v =
     seq (give (validate_cgroup_name file)) (\<lambda>_.
     seq (ask (\<lambda>l. reject_if (\<not> ck_open k l (path_push p file)) (CgroupError ''Failed to open cgroup control file {:?}: {}''))) (\<lambda>_.
     seq (ask (\<lambda>l. ensure_path_on_cgroup2_fs k l (path_push p file))) (\<lambda>_.
     seq (ask (\<lambda>l. reject_if (\<not> ck_write k l (path_push p file) v) (CgroupError ''Failed to write {} to {:?}: {}''))) (\<lambda>_.
     note_event (Wrote (path_push p file) v)))))"

definition read_value_at :: "cg_kernel \<Rightarrow> path \<Rightarrow> string \<Rightarrow> string cg_action" where
  "read_value_at k p file =
     seq (give (validate_cgroup_name file)) (\<lambda>_.
     ask (\<lambda>l. ok_or (ck_read k l (path_push p file)) (CgroupError ''Failed to read {:?}: {}'')))"

section \<open>The manager\<close>

record cgroup =
  cg_path :: path
  cg_state :: cgroup_state

definition create_in_root :: "cg_kernel \<Rightarrow> string \<Rightarrow> path \<Rightarrow> cgroup cg_action" where
  "create_in_root k name base =
     seq (give (validate_cgroup_name name)) (\<lambda>_.
     seq (ask (\<lambda>l. validate_root_path k l base)) (\<lambda>_.
     seq (give (transition cgroup_can_transition_to cgroup_debug Nonexistent cgroup_state.Created)) (\<lambda>state.
     seq (ask (\<lambda>l. reject_if (\<not> ck_mkdir k l (path_push base name)) (CgroupError ''Failed to create cgroup directory: {}''))) (\<lambda>_.
     seq (note_event (MkDir (path_push base name))) (\<lambda>_.
     seq (ask (\<lambda>l. validate_cgroup_directory k l (path_push base name))) (\<lambda>_.
     give (Ok \<lparr>cg_path = path_push base name, cg_state = state\<rparr>)))))))"

definition create :: "cg_kernel \<Rightarrow> string option \<Rightarrow> string \<Rightarrow> cgroup cg_action" where
  "create k env name = seq (root_path k env) (create_in_root k name)"

text \<open>The writes of \<open>set_limits\<close>, in order.\<close>

definition opt_write :: "string \<Rightarrow> u64 option \<Rightarrow> (string \<times> string) list" where
  "opt_write file v = (case v of None \<Rightarrow> [] | Some n \<Rightarrow> [(file, show_word n)])"

definition limit_writes :: "resource_limits \<Rightarrow> (string \<times> string) list" where
  "limit_writes limits =
     opt_write ''memory.max'' (memory_bytes limits)
     @ opt_write ''memory.high'' (memory_high limits)
     @ opt_write ''memory.swap.max'' (memory_swap_max limits)
     @ (if memory_bytes limits \<noteq> None \<or> memory_high limits \<noteq> None \<or> memory_swap_max limits \<noteq> None
        then [(''memory.oom.group'', ''1'')] else [])
     @ (case cpu_quota_us limits of
          None \<Rightarrow> [] | Some quota \<Rightarrow> [(''cpu.max'', show_word quota @ '' '' @ show_word (cpu_period_us limits))])
     @ opt_write ''cpu.weight'' (cpu_weight limits)
     @ opt_write ''pids.max'' (pids_max limits)
     @ map (\<lambda>io. (''io.max'', to_io_max_line io)) (io_limits limits)"

text \<open>A method that changes the object gives it back, also when it fails.\<close>

definition set_limits :: "cg_kernel \<Rightarrow> resource_limits \<Rightarrow> cgroup \<Rightarrow> cg_log \<Rightarrow> cgroup \<times> cg_log \<times> unit result" where
  "set_limits k limits self l =
     (case transition cgroup_can_transition_to cgroup_debug (cg_state self) Configured of
        Inl e \<Rightarrow> (self, l, Err e)
      | Inr state \<Rightarrow>
          (self\<lparr>cg_state := state\<rparr>, each (\<lambda>(file, v). write_value_at k (cg_path self) file v) (limit_writes limits) l))"

definition attach_process :: "cg_kernel \<Rightarrow> u32 \<Rightarrow> cgroup \<Rightarrow> cg_log \<Rightarrow> cgroup \<times> cg_log \<times> unit result" where
  "attach_process k pid self l =
     (case transition cgroup_can_transition_to cgroup_debug (cg_state self) cgroup_state.Attached of
        Inl e \<Rightarrow> (self, l, Err e)
      | Inr state \<Rightarrow> (self\<lparr>cg_state := state\<rparr>, write_value_at k (cg_path self) ''cgroup.procs'' (show_word pid) l))"

definition set_frozen :: "cg_kernel \<Rightarrow> path \<Rightarrow> bool \<Rightarrow> bool cg_action" where
  "set_frozen k p frozen l =
     (if \<not> ck_exists k l (path_push p ''cgroup.freeze'') then (l, Ok False)
      else seq (write_value_at k p ''cgroup.freeze'' (if frozen then ''1'' else ''0'')) (\<lambda>_. give (Ok True)) l)"

fun events_bool :: "string \<Rightarrow> string list \<Rightarrow> bool result" where
  "events_bool key [] = Err (CgroupError ''Missing {} entry in cgroup.events'')"
| "events_bool key (line # ls) =
     (case strip_prefix (key @ '' '') line of
        None \<Rightarrow> events_bool key ls
      | Some v \<Rightarrow>
          if trim v = ''0'' then Ok False
          else if trim v = ''1'' then Ok True
          else Err (CgroupError ''Unexpected {} value in cgroup.events: {}''))"

definition parse_cgroup_events_bool :: "string \<Rightarrow> string \<Rightarrow> bool result" where
  "parse_cgroup_events_bool events key = events_bool key (lines events)"

definition read_cgroup_events_frozen :: "cg_kernel \<Rightarrow> path \<Rightarrow> bool cg_action" where
  "read_cgroup_events_frozen k p =
     seq (read_value_at k p ''cgroup.events'') (\<lambda>events. give (parse_cgroup_events_bool events ''frozen''))"

text \<open>The attempts that are left are counted down; there is no sleep after the last.\<close>

fun frozen_attempts :: "cg_kernel \<Rightarrow> path \<Rightarrow> bool \<Rightarrow> nat \<Rightarrow> unit cg_action" where
  "frozen_attempts k p frozen 0 = give (Err (CgroupError ''Timed out waiting for cgroup {:?} to become {}''))"
| "frozen_attempts k p frozen (Suc n) =
     seq (read_cgroup_events_frozen k p) (\<lambda>now.
     if now = frozen then give (Ok ())
     else seq (only_if (n > 0) (note_event Slept)) (\<lambda>_. frozen_attempts k p frozen n))"

definition wait_for_frozen_state :: "cg_kernel \<Rightarrow> path \<Rightarrow> bool \<Rightarrow> unit cg_action" where
  "wait_for_frozen_state k p frozen l =
     (if \<not> ck_exists k l (path_push p ''cgroup.events'') then (l, Ok ())
      else frozen_attempts k p frozen CGROUP_FREEZE_RETRIES l)"

record cgroup_freeze_guard =
  fg_path :: path
  fg_active :: bool

definition freeze_existing :: "cg_kernel \<Rightarrow> path \<Rightarrow> cgroup_freeze_guard cg_action" where
  "freeze_existing k p =
     seq (ask (\<lambda>l. validate_cgroup_directory k l p)) (\<lambda>_.
     seq (ask (\<lambda>l. reject_if (\<not> ck_exists k l (path_push p ''cgroup.freeze'')) (CgroupError ''Cgroup {:?} does not support cgroup.freeze''))) (\<lambda>_.
     seq (write_value_at k p ''cgroup.freeze'' ''1'') (\<lambda>_.
     seq (wait_for_frozen_state k p True) (\<lambda>_.
     give (Ok \<lparr>fg_path = p, fg_active = True\<rparr>)))))"

definition freeze_guard_drop :: "cg_kernel \<Rightarrow> cgroup_freeze_guard \<Rightarrow> cg_log \<Rightarrow> cg_log" where
  "freeze_guard_drop k g l =
     (if fg_active g \<and> ck_exists k l (fg_path g)
      then fst (seq (write_value_at k (fg_path g) ''cgroup.freeze'' ''0'') (\<lambda>_. wait_for_frozen_state k (fg_path g) False) l)
      else l)"

section \<open>Draining and removal\<close>

text \<open>\<^verbatim>\<open>i32::parse\<close> of a line of \<^verbatim>\<open>cgroup.procs\<close>.\<close>

definition parse_i32 :: "string \<Rightarrow> int option" where
  "parse_i32 s =
     (case strip_prefix ''-'' s of
        Some r \<Rightarrow> if r \<noteq> [] \<and> (\<forall>c\<in>set r. is_ascii_digit c) \<and> digits_val r \<le> 2 ^ 31 then Some (- int (digits_val r)) else None
      | None \<Rightarrow> map_option int (parse_uint 31 s))"

definition parse_pids :: "string \<Rightarrow> int list result" where
  "parse_pids content =
     try_map (\<lambda>line. ok_or (parse_i32 (trim line)) (CgroupError ''Failed to parse pid {} from {:?}: {}''))
       (filter (\<lambda>line. trim line \<noteq> []) (lines content))"

definition read_pids :: "cg_kernel \<Rightarrow> path \<Rightarrow> int list cg_action" where
  "read_pids k p l =
     (if \<not> ck_exists k l (path_push p ''cgroup.procs'') then (l, Ok [])
      else (l, and_then (ok_or (ck_read k l (path_push p ''cgroup.procs'')) (CgroupError ''Failed to read {:?}: {}'')) parse_pids))"

definition is_populated :: "cg_kernel \<Rightarrow> path \<Rightarrow> bool cg_action" where
  "is_populated k p l =
     (if ck_exists k l (path_push p ''cgroup.events'')
      then (l, and_then (ok_or (ck_read k l (path_push p ''cgroup.events'')) (CgroupError ''Failed to read {:?}: {}''))
             (\<lambda>events. parse_cgroup_events_bool events ''populated''))
      else seq (read_pids k p) (\<lambda>pids. give (Ok (pids \<noteq> []))) l)"

definition kill_cgroup_pid :: "cg_kernel \<Rightarrow> int \<Rightarrow> unit cg_action" where
  "kill_cgroup_pid k pid l =
     (case ck_kill k l pid of
        KillOk \<Rightarrow> (l @ [Signalled pid], Ok ())
      | KillEsrch \<Rightarrow> (l, Ok ())
      | KillFailed \<Rightarrow> (l, Err (CgroupError ''Failed to SIGKILL pid {} in {:?}: {}'')))"

definition kill_visible_processes :: "cg_kernel \<Rightarrow> path \<Rightarrow> unit cg_action" where
  "kill_visible_processes k p = seq (read_pids k p) (each (kill_cgroup_pid k))"

definition kill_all_processes :: "cg_kernel \<Rightarrow> path \<Rightarrow> unit cg_action" where
  "kill_all_processes k p =
     seq (\<lambda>l. if ck_exists k l (path_push p ''cgroup.kill'') then write_value_at k p ''cgroup.kill'' ''1'' l else (l, Ok ())) (\<lambda>_.
     kill_visible_processes k p)"

fun empty_attempts :: "cg_kernel \<Rightarrow> path \<Rightarrow> nat \<Rightarrow> unit cg_action" where
  "empty_attempts k p 0 = seq (read_pids k p) (\<lambda>_. give (Err (CgroupError ''Timed out waiting for cgroup {:?} to drain (remaining pids: {})'')))"
| "empty_attempts k p (Suc n) =
     seq (is_populated k p) (\<lambda>populated.
     if \<not> populated then give (Ok ())
     else seq (only_if (n > 0) (seq (kill_visible_processes k p) (\<lambda>_. note_event Slept))) (\<lambda>_. empty_attempts k p n))"

definition wait_until_empty :: "cg_kernel \<Rightarrow> path \<Rightarrow> unit cg_action" where
  "wait_until_empty k p = empty_attempts k p CGROUP_CLEANUP_RETRIES"

definition remove_cgroup_dir :: "cg_kernel \<Rightarrow> path \<Rightarrow> unit cg_action" where
  "remove_cgroup_dir k p =
     seq (ask (\<lambda>l. reject_if (\<not> ck_rmdir k l p) (CgroupError ''Failed to remove cgroup: {}''))) (\<lambda>_. note_event (RmDir p))"

definition drain_and_remove :: "cg_kernel \<Rightarrow> path \<Rightarrow> unit cg_action" where
  "drain_and_remove k p = seq (kill_all_processes k p) (\<lambda>_. seq (wait_until_empty k p) (\<lambda>_. remove_cgroup_dir k p))"

definition cleanup_existing :: "cg_kernel \<Rightarrow> path \<Rightarrow> unit cg_action" where
  "cleanup_existing k p =
     seq (set_frozen k p True) (\<lambda>froze l.
       case drain_and_remove k p l of
         (l', Inl e) \<Rightarrow> (if froze then fst (set_frozen k p False l') else l', Err e)
       | (l', Inr u) \<Rightarrow> (l', Ok ()))"

text \<open>\<open>cleanup\<close> takes the object; when it fails, the object is dropped, which tries again.\<close>

definition cgroup_cleanup :: "cg_kernel \<Rightarrow> cgroup \<Rightarrow> cg_log \<Rightarrow> cgroup \<times> cg_log \<times> unit result" where
  "cgroup_cleanup k self l =
     (case (if ck_exists k l (cg_path self) then cleanup_existing k (cg_path self) l else (l, Ok ())) of
        (l', Inl e) \<Rightarrow> (self, l', Err e)
      | (l', Inr _) \<Rightarrow> (self\<lparr>cg_state := Removed\<rparr>, l', Ok ()))"

definition cgroup_drop :: "cg_kernel \<Rightarrow> cgroup \<Rightarrow> cg_log \<Rightarrow> cg_log" where
  "cgroup_drop k self l =
     (if \<not> cgroup_is_terminal (cg_state self) \<and> ck_exists k l (cg_path self) then
        let p = cg_path self;
            (l1, froze) = set_frozen k p True l;
            l2 = fst (kill_all_processes k p l1);
            l3 = fst (wait_until_empty k p l2);
            l4 = fst (remove_cgroup_dir k p l3)
        in if ck_exists k l4 p \<and> froze = Ok True then fst (set_frozen k p False l4) else l4
      else l)"

definition memory_current :: "cg_kernel \<Rightarrow> cgroup \<Rightarrow> u64 cg_action" where
  "memory_current k self =
     seq (read_value_at k (cg_path self) ''memory.current'') (\<lambda>v.
     give (ok_or (parse_word (trim v)) (CgroupError ''Failed to parse memory.current: {}'')))"

definition gpu_device_allowlist :: "device_allow_spec list \<Rightarrow> bool \<Rightarrow> device_allow_spec list" where
  "gpu_device_allowlist gpu_specs include_tty = base_device_specs include_tty @ gpu_specs"

section \<open>Limits\<close>

lemmas cg_eval = seq_def give_def modify_def ask_def note_event_def only_if_def reject_if_def

lemma write_value_at_cases:
  "write_value_at k p file v l = (l', r) \<Longrightarrow> (\<exists>e. r = Err e \<and> l' = l) \<or> (r = Ok () \<and> l' = l @ [Wrote (path_push p file) v])"
  by (cases "validate_cgroup_name file"; cases "ensure_path_on_cgroup2_fs k l (path_push p file)")
    (auto simp: write_value_at_def cg_eval split: if_splits intro: sym)

definition limit_events :: "path \<Rightarrow> (string \<times> string) list \<Rightarrow> cg_log" where
  "limit_events p = map (\<lambda>(file, v). Wrote (path_push p file) v)"

lemma each_write:
  "each (\<lambda>(file, v). write_value_at k p file v) ws l = (l', r) \<Longrightarrow>
     (r = Ok () \<and> l' = l @ limit_events p ws) \<or> (\<exists>e before rest. r = Err e \<and> ws = before @ rest \<and> rest \<noteq> [] \<and> l' = l @ limit_events p before)"
proof (induction ws arbitrary: l)
  case Nil
  then show ?case by (simp add: give_def limit_events_def)
next
  case (Cons w ws)
  obtain f v where w: "w = (f, v)" by fastforce
  obtain l1 r1 where c: "write_value_at k p f v l = (l1, r1)" by fastforce
  from write_value_at_cases[OF c] show ?case
  proof
    assume "\<exists>e. r1 = Err e \<and> l1 = l"
    then obtain e where "r1 = Err e" "l1 = l" by blast
    with Cons.prems w c have "r = Err e" "l' = l" by (auto simp: seq_def)
    then show ?thesis by (intro disjI2 exI[of _ e] exI[of _ "[]"] exI[of _ "w # ws"]) (simp add: limit_events_def)
  next
    assume ok: "r1 = Ok () \<and> l1 = l @ [Wrote (path_push p f) v]"
    with Cons.prems w c have "each (\<lambda>(file, v). write_value_at k p file v) ws (l @ [Wrote (path_push p f) v]) = (l', r)"
      by (simp add: seq_def)
    from Cons.IH[OF this] show ?thesis
    proof
      assume "\<exists>e before rest. r = Err e \<and> ws = before @ rest \<and> rest \<noteq> [] \<and> l' = (l @ [Wrote (path_push p f) v]) @ limit_events p before"
      then obtain e before rest where "r = Err e" "ws = before @ rest" "rest \<noteq> []"
        "l' = (l @ [Wrote (path_push p f) v]) @ limit_events p before" by blast
      then show ?thesis by (intro disjI2 exI[of _ e] exI[of _ "w # before"] exI[of _ rest]) (simp add: limit_events_def w)
    qed (simp add: limit_events_def w)
  qed
qed

text \<open>
  the limits of a container reach its cgroup, all of them and nothing else. When \<open>set_limits\<close> succeeds, the files it wrote
  are exactly those of the configured limits, with their decimal values and in order; when it fails, it stopped at
  the first refused write, so the files written are a proper beginning of that list, and a cgroup past
  configuration is refused before any write.
\<close>

theorem limits_written_exactly:
  assumes "set_limits k limits self l = (self', l', r)"
  shows "(r = Ok () \<and> l' = l @ limit_events (cg_path self) (limit_writes limits) \<and> cg_state self' = Configured)
    \<or> (\<exists>e before rest. r = Err e \<and> limit_writes limits = before @ rest \<and> l' = l @ limit_events (cg_path self) before
         \<and> (rest \<noteq> [] \<or> cg_state self \<notin> {cgroup_state.Created, Configured}))"
proof (cases "cgroup_can_transition_to (cg_state self) Configured")
  case True
  with assms have "each (\<lambda>(file, v). write_value_at k (cg_path self) file v) (limit_writes limits) l = (l', r)"
    "cg_state self' = Configured" by (auto simp: set_limits_def transition_def)
  with each_write[OF this(1)] show ?thesis by blast
next
  case False
  then have "cg_state self \<notin> {cgroup_state.Created, Configured}" by (cases "cg_state self") auto
  moreover from False assms obtain e where "r = Err e" "l' = l" by (auto simp: set_limits_def transition_def)
  ultimately show ?thesis
    by (intro disjI2 exI[of _ e] exI[of _ "[]"] exI[of _ "limit_writes limits"]) (simp add: limit_events_def)
qed

text \<open>A kernel that accepts everything.\<close>

definition plain_kernel :: cg_kernel where
  "plain_kernel = \<lparr>ck_exists = (\<lambda>l p. True), ck_lstat = (\<lambda>l p. Some (if last p = Normal ''cgroup.procs'' \<or> last p = Normal ''cgroup.controllers''
       \<or> last p = Normal ''cgroup.subtree_control'' then KFile else KDir)),
     ck_canonicalize = (\<lambda>l p. Some p), ck_statfs = (\<lambda>l p. Some CGROUP2_SUPER_MAGIC), ck_mkdir = (\<lambda>l p. True), ck_open = (\<lambda>l p. True),
     ck_write = (\<lambda>l p v. True), ck_read = (\<lambda>l p. if last p = Normal ''cgroup.procs'' then Some [] else Some ''populated 0''),
     ck_kill = (\<lambda>l pid. KillOk), ck_rmdir = (\<lambda>l p. True)\<rparr>"

lemma control_file_names:
  "validate_cgroup_name ''memory.max'' = Ok ()" "validate_cgroup_name ''memory.high'' = Ok ()" "validate_cgroup_name ''memory.swap.max'' = Ok ()"
  "validate_cgroup_name ''memory.oom.group'' = Ok ()" "validate_cgroup_name ''cpu.max'' = Ok ()" "validate_cgroup_name ''cpu.weight'' = Ok ()"
  "validate_cgroup_name ''pids.max'' = Ok ()" "validate_cgroup_name ''io.max'' = Ok ()" "validate_cgroup_name ''cgroup.procs'' = Ok ()"
  "validate_cgroup_name ''cgroup.freeze'' = Ok ()" "validate_cgroup_name ''cgroup.kill'' = Ok ()" "validate_cgroup_name ''cgroup.events'' = Ok ()"
  "validate_cgroup_name ''memory.current'' = Ok ()"
  by (simp_all add: validate_cgroup_name_def path_new_def split_on_def component_of_def)

lemma plain_write: "validate_cgroup_name file = Ok () \<Longrightarrow> write_value_at plain_kernel p file v l = (l @ [Wrote (path_push p file) v], Ok ())"
  by (simp add: write_value_at_def cg_eval plain_kernel_def ensure_path_on_cgroup2_fs_def ensure_cgroup2_magic_def)

lemma limit_files: "\<forall>w\<in>set (limit_writes limits). validate_cgroup_name (fst w) = Ok ()"
  by (auto simp: limit_writes_def opt_write_def control_file_names split: option.splits if_splits)

lemma plain_each_write:
  "\<forall>w\<in>set ws. validate_cgroup_name (fst w) = Ok () \<Longrightarrow>
     each (\<lambda>(file, v). write_value_at plain_kernel p file v) ws l = (l @ limit_events p ws, Ok ())"
proof (induction ws arbitrary: l)
  case (Cons w ws)
  obtain f v where w: "w = (f, v)" by fastforce
  with Cons.prems have "validate_cgroup_name f = Ok ()" by simp
  with Cons w show ?case by (simp add: seq_def plain_write limit_events_def)
qed (simp add: give_def limit_events_def)

theorem limits_written_exactly_witness:
  "\<exists>self'. set_limits plain_kernel default_limits \<lparr>cg_path = [RootDir, Normal ''c''], cg_state = cgroup_state.Created\<rparr> []
      = (self', limit_events [RootDir, Normal ''c''] (limit_writes default_limits), Ok ()) \<and> cg_state self' = Configured"
proof -
  let ?self = "\<lparr>cg_path = [RootDir, Normal ''c''], cg_state = cgroup_state.Created\<rparr>"
  have e: "set_limits plain_kernel default_limits ?self [] =
      (?self\<lparr>cg_state := Configured\<rparr>, limit_events [RootDir, Normal ''c''] (limit_writes default_limits), Ok ())"
    by (simp add: set_limits_def transition_def plain_each_write limit_files)
  from limits_written_exactly[OF this] show ?thesis using e by auto
qed

section \<open>Confinement\<close>

text \<open>
  a cgroup is created only directly inside a directory that is no link, lies inside the cgroup v2 hierarchy and has the
  control files of a cgroup, and under a name that is one path component: neither the name nor the root from the
  environment leads elsewhere.
\<close>

theorem created_cgroup_confined:
  assumes "create k env name l = (l', Ok cg)"
  shows "\<exists>base canonical hierarchy w. cg_path cg = base @ [Normal name] \<and> path_new name = [Normal w] \<and> is_absolute base
     \<and> ck_lstat k l base = Some KDir \<and> ck_canonicalize k l base = Some canonical \<and> ck_canonicalize k l CGROUP_V2_ROOT = Some hierarchy
     \<and> prefix hierarchy canonical \<and> ck_statfs k l canonical = Some CGROUP2_SUPER_MAGIC
     \<and> ck_lstat k l' (cg_path cg) = Some KDir \<and> cg_state cg = cgroup_state.Created \<and> l' = l @ [MkDir (cg_path cg)]"
proof -
  from assms obtain base where b: "validate_root_path k l base = Ok ()" "create_in_root k name base l = (l', Ok cg)"
    by (auto simp: create_def root_path_def cg_eval split: sum.splits prod.splits)
  from b(2) have n: "validate_cgroup_name name = Ok ()" and cg: "cg_path cg = path_push base name" "cg_state cg = cgroup_state.Created"
    "l' = l @ [MkDir (path_push base name)]" "validate_cgroup_directory k l' (path_push base name) = Ok ()"
    by (auto simp: create_in_root_def seq_Ok_iff ask_def give_def note_event_def modify_def result_simps)
  from n obtain w where w: "path_new name = [Normal w]"
    by (auto simp: validate_cgroup_name_def split: if_splits list.splits path_component.splits)
  from b(1) obtain canonical hierarchy where "is_absolute base" "ck_lstat k l base = Some KDir" "ck_canonicalize k l base = Some canonical"
    "ck_canonicalize k l CGROUP_V2_ROOT = Some hierarchy" "prefix hierarchy canonical" "ck_statfs k l canonical = Some CGROUP2_SUPER_MAGIC"
    by (auto simp: validate_root_path_def validate_directory_not_symlink_def ensure_path_on_cgroup2_fs_def ensure_cgroup2_magic_def
        starts_with_def result_simps split: if_splits)
  moreover from cg(4) have "ck_lstat k l' (path_push base name) = Some KDir"
    by (auto simp: validate_cgroup_directory_def validate_directory_not_symlink_def result_simps split: if_splits)
  ultimately show ?thesis using w cg(1-3) by (auto simp: path_push_def)
qed

lemma plain_create: "create plain_kernel None ''c1'' [] =
    ([MkDir (path_push CGROUP_V2_ROOT ''c1'')], Ok \<lparr>cg_path = path_push CGROUP_V2_ROOT ''c1'', cg_state = cgroup_state.Created\<rparr>)"
proof -
  have "validate_cgroup_name ''c1'' = Ok ()" by (simp add: validate_cgroup_name_def path_new_def split_on_def component_of_def)
  moreover have r: "CGROUP_V2_ROOT = [RootDir, Normal ''sys'', Normal ''fs'', Normal ''cgroup'']"
    by (simp add: CGROUP_V2_ROOT_def path_new_def split_on_def component_of_def)
  ultimately show ?thesis
    by (simp add: r create_def root_path_def root_path_from_override_def create_in_root_def cg_eval transition_def validate_root_path_def
        validate_directory_not_symlink_def ensure_path_on_cgroup2_fs_def ensure_cgroup2_magic_def require_cgroup_control_file_def
        validate_cgroup_directory_def starts_with_def is_absolute_def path_push_def plain_kernel_def)
qed

theorem created_cgroup_confined_witness:
  "\<exists>base canonical hierarchy w. path_push CGROUP_V2_ROOT ''c1'' = base @ [Normal ''c1''] \<and> path_new ''c1'' = [Normal w] \<and> is_absolute base
     \<and> ck_lstat plain_kernel [] base = Some KDir \<and> ck_canonicalize plain_kernel [] base = Some canonical
     \<and> ck_canonicalize plain_kernel [] CGROUP_V2_ROOT = Some hierarchy \<and> prefix hierarchy canonical"
  using created_cgroup_confined[OF plain_create] by auto

section \<open>Waiting, draining and thawing\<close>

definition sleeps :: "cg_log \<Rightarrow> nat" where "sleeps l = length (filter (\<lambda>e. e = Slept) l)"

text \<open>An action that only adds to the log, with at most \<open>n\<close> sleeps.\<close>

definition extends :: "nat \<Rightarrow> 'a cg_action \<Rightarrow> bool" where
  "extends n m \<longleftrightarrow> (\<forall>l. \<exists>new. fst (m l) = l @ new \<and> sleeps new \<le> n)"

lemma extends_seq: "extends a m \<Longrightarrow> (\<And>x. extends b (f x)) \<Longrightarrow> extends (a + b) (seq m f)"
  unfolding extends_def
proof (intro allI)
  fix l
  assume m: "\<forall>l. \<exists>new. fst (m l) = l @ new \<and> sleeps new \<le> a" and f: "\<And>x. \<forall>l. \<exists>new. fst (f x l) = l @ new \<and> sleeps new \<le> b"
  obtain l1 r where c: "m l = (l1, r)" by fastforce
  with m obtain new where new: "l1 = l @ new" "sleeps new \<le> a" by (metis fst_conv)
  show "\<exists>new. fst (seq m f l) = l @ new \<and> sleeps new \<le> a + b"
  proof (cases r)
    case (Inl e)
    with c new show ?thesis by (auto simp: seq_def)
  next
    case (Inr x)
    from f[of x] obtain new' where "fst (f x l1) = l1 @ new'" "sleeps new' \<le> b" by blast
    with c new Inr show ?thesis by (intro exI[of _ "new @ new'"]) (auto simp: seq_def sleeps_def)
  qed
qed

lemma extends_mono: "extends a m \<Longrightarrow> a \<le> b \<Longrightarrow> extends b m"
  unfolding extends_def by (meson order_trans)

lemma extends_basic: "extends 0 (give r)" "extends 0 (ask f)" "e \<noteq> Slept \<Longrightarrow> extends 0 (note_event e)" "extends 1 (note_event Slept)"
  by (auto simp: extends_def give_def ask_def note_event_def modify_def sleeps_def)

lemma extends_same: "(\<And>l. fst (m l) = l) \<Longrightarrow> extends n m"
  by (auto simp: extends_def sleeps_def)

lemma extends_write: "extends 0 (write_value_at k p f v)"
  unfolding extends_def
proof
  fix l
  obtain l' r where c: "write_value_at k p f v l = (l', r)" by fastforce
  from write_value_at_cases[OF c] c show "\<exists>new. fst (write_value_at k p f v l) = l @ new \<and> sleeps new \<le> 0"
    by (auto simp: sleeps_def)
qed

lemma read_same: "fst (read_value_at k p f l) = l" "fst (read_pids k p l) = l"
  by (simp_all add: read_value_at_def read_pids_def seq_def give_def ask_def split: sum.splits)

lemma populated_same: "is_populated k p l = (l1, r1) \<Longrightarrow> l1 = l"
  by (auto simp: is_populated_def read_pids_def seq_def give_def split: if_splits prod.splits sum.splits)

lemma extends_read: "extends n (read_value_at k p f)" "extends n (read_pids k p)" "extends n (is_populated k p)"
  using populated_same[of k p] by (auto intro!: extends_same simp: read_same) (metis prod.collapse)

lemma extends_kill: "extends 0 (kill_visible_processes k p)"
proof -
  have one: "extends 0 (kill_cgroup_pid k pid)" for pid by (auto simp: extends_def kill_cgroup_pid_def sleeps_def split: kill_result.splits)
  have "extends 0 (each (kill_cgroup_pid k) pids)" for pids
  proof (induction pids)
    case (Cons pid pids)
    with extends_seq[OF one[of pid], of 0 "\<lambda>_. each (kill_cgroup_pid k) pids"] show ?case by simp
  qed (simp add: extends_basic)
  from extends_seq[OF extends_read(2)[of 0], of 0 "each (kill_cgroup_pid k)", OF this] show ?thesis by (simp add: kill_visible_processes_def)
qed

lemma drain_wait_bounded_lemma:
  assumes "wait_until_empty k p l = (l', r)"
  shows "\<exists>new. l' = l @ new \<and> length (filter (\<lambda>e. e = Slept) new) \<le> 49 \<and> (r = Ok () \<longrightarrow> is_populated k p l' = (l', Ok False))"
proof -
  have bound: "extends (n - 1) (empty_attempts k p n)" for n
  proof (induction n)
    case 0
    show ?case by (auto intro!: extends_same simp: seq_def give_def read_pids_def split: sum.splits)
  next
    case (Suc n)
    have inner: "extends n (seq (only_if (n > 0) (seq (kill_visible_processes k p) (\<lambda>_. note_event Slept))) (\<lambda>_. empty_attempts k p n))"
    proof (cases n)
      case 0
      with Suc extends_seq[OF extends_basic(1), of 0 "\<lambda>_. empty_attempts k p n"] show ?thesis by (simp add: only_if_def)
    next
      case (Suc m)
      have "extends (0 + 1) (seq (kill_visible_processes k p) (\<lambda>_. note_event Slept))" by (rule extends_seq[OF extends_kill extends_basic(4)])
      from extends_seq[OF this, of "n - 1" "\<lambda>_. empty_attempts k p n"] \<open>extends (n - 1) (empty_attempts k p n)\<close> Suc show ?thesis
        by (simp add: only_if_def)
    qed
    have "extends n (if \<not> b then give (Ok ()) else seq (only_if (n > 0) (seq (kill_visible_processes k p) (\<lambda>_. note_event Slept))) (\<lambda>_. empty_attempts k p n))" for b
      using inner extends_mono[OF extends_basic(1), of n] by auto
    from extends_seq[OF extends_read(3)[of 0], of n, OF this] show ?case by simp
  qed
  have seen: "empty_attempts k p n l = (l', Ok u) \<Longrightarrow> is_populated k p l' = (l', Ok False)" for n l l' u
  proof (induction n arbitrary: l)
    case (Suc n)
    from Suc.prems obtain l1 b where "is_populated k p l = (l1, Ok b)"
      "(if \<not> b then give (Ok ()) else seq (only_if (n > 0) (seq (kill_visible_processes k p) (\<lambda>_. note_event Slept))) (\<lambda>_. empty_attempts k p n)) l1 = (l', Ok u)"
      by (auto simp: seq_Ok_iff)
    with populated_same[of k p l l1 "Ok b"] Suc.IH show ?case by (cases b) (auto simp: give_def seq_Ok_iff)
  qed (auto simp: seq_Ok_iff give_def)
  from bound[of 50] assms seen[of 50 l l'] show ?thesis
    by (auto simp: wait_until_empty_def CGROUP_CLEANUP_RETRIES_def extends_def sleeps_def) (metis fst_conv)
qed

text \<open>
  waiting for a cgroup to drain is bounded: at most 49 sleeps of 20 milliseconds, whatever the kernel answers, and it
  succeeds only when the cgroup was seen empty at the end.
\<close>

theorem drain_wait_bounded:
  assumes "wait_until_empty k p l = (l', r)"
  shows "\<exists>new. l' = l @ new \<and> length (filter (\<lambda>e. e = Slept) new) \<le> 49 \<and> (r = Ok () \<longrightarrow> is_populated k p l' = (l', Ok False))"
  by (rule drain_wait_bounded_lemma[OF assms])

theorem drain_wait_bounded_witness:
  "\<exists>new. ([] :: cg_log) = [] @ new \<and> length (filter (\<lambda>e. e = Slept) new) \<le> 49 \<and> is_populated plain_kernel [RootDir] [] = ([], Ok False)"
proof -
  have p: "is_populated plain_kernel [RootDir] l = (l, Ok False)" for l
    by (simp add: is_populated_def plain_kernel_def path_push_def parse_cgroup_events_bool_def lines_def split_on_def trim_def is_whitespace_def strip_cr_def)
  then have "wait_until_empty plain_kernel [RootDir] [] = ([], Ok ())"
    by (simp add: wait_until_empty_def CGROUP_CLEANUP_RETRIES_def numeral_eq_Suc seq_def give_def)
  from drain_wait_bounded[OF this] p show ?thesis by simp
qed

text \<open>A cgroup that can be frozen and thawed at any time.\<close>

definition freezable :: "cg_kernel \<Rightarrow> path \<Rightarrow> bool" where
  "freezable k p \<longleftrightarrow> (\<forall>l. ck_exists k l (path_push p ''cgroup.freeze'') \<and> ck_open k l (path_push p ''cgroup.freeze'')
     \<and> ck_statfs k l (path_push p ''cgroup.freeze'') = Some CGROUP2_SUPER_MAGIC \<and> (\<forall>v. ck_write k l (path_push p ''cgroup.freeze'') v))"

lemma freezable_set: "freezable k p \<Longrightarrow> set_frozen k p b l = (l @ [Wrote (path_push p ''cgroup.freeze'') (if b then ''1'' else ''0'')], Ok True)"
  by (simp add: freezable_def set_frozen_def write_value_at_def cg_eval control_file_names ensure_path_on_cgroup2_fs_def ensure_cgroup2_magic_def)



text \<open>A cgroup whose processes do not freeze.\<close>

definition stuck_kernel :: cg_kernel where
  "stuck_kernel = plain_kernel\<lparr>ck_read := (\<lambda>l p. Some ''frozen 0'')\<rparr>"

text \<open>
  a cgroup whose processes do not freeze in time stays told to freeze. \<open>freeze_existing\<close> writes 1, times out after 100
  attempts and returns an error without a guard, so nothing writes 0 again.
\<close>

theorem freeze_timeout_leaves_frozen:
  "\<exists>l' e. freeze_existing stuck_kernel p [] = (l', Err e)
     \<and> Wrote (path_push p ''cgroup.freeze'') ''1'' \<in> set l' \<and> Wrote (path_push p ''cgroup.freeze'') ''0'' \<notin> set l'"
  if "last p \<noteq> Normal ''cgroup.procs''" "last p \<noteq> Normal ''cgroup.controllers''" "last p \<noteq> Normal ''cgroup.subtree_control''"
proof -
  have read: "read_cgroup_events_frozen stuck_kernel p l = (l, Ok False)" for l
    by (simp add: read_cgroup_events_frozen_def read_value_at_def cg_eval control_file_names stuck_kernel_def parse_cgroup_events_bool_def
        lines_def split_on_def trim_def is_whitespace_def strip_cr_def)
  have wait: "frozen_attempts stuck_kernel p True n l = (l @ replicate (n - 1) Slept, Err (CgroupError ''Timed out waiting for cgroup {:?} to become {}''))" for n l
  proof (induction n arbitrary: l)
    case (Suc n)
    then show ?case by (cases n) (simp_all add: seq_def read only_if_def give_def note_event_def modify_def)
  qed (simp add: give_def)
  have "write_value_at stuck_kernel p ''cgroup.freeze'' ''1'' [] = ([Wrote (path_push p ''cgroup.freeze'') ''1''], Ok ())"
    by (simp add: write_value_at_def cg_eval control_file_names stuck_kernel_def plain_kernel_def ensure_path_on_cgroup2_fs_def ensure_cgroup2_magic_def)
  moreover have "validate_cgroup_directory stuck_kernel [] p = Ok ()"
    using that by (simp add: validate_cgroup_directory_def validate_directory_not_symlink_def ensure_path_on_cgroup2_fs_def
        ensure_cgroup2_magic_def require_cgroup_control_file_def stuck_kernel_def plain_kernel_def path_push_def reject_if_def)
  moreover have "ck_exists stuck_kernel l q" for l q by (simp add: stuck_kernel_def plain_kernel_def)
  ultimately show ?thesis
    by (simp add: freeze_existing_def seq_def ask_def give_def reject_if_def wait_for_frozen_state_def wait)
qed

theorem freeze_timeout_leaves_frozen_witness:
  "\<exists>l' e. freeze_existing stuck_kernel [RootDir, Normal ''c''] [] = (l', Err e)
     \<and> Wrote [RootDir, Normal ''c'', Normal ''cgroup.freeze''] ''1'' \<in> set l' \<and> Wrote [RootDir, Normal ''c'', Normal ''cgroup.freeze''] ''0'' \<notin> set l'"
  using freeze_timeout_leaves_frozen[of "[RootDir, Normal ''c'']"] by (simp add: path_push_def)

end
