(* ===== verification/Checkpoint_Metadata.thy ===== *)
theory Checkpoint_Metadata
  imports Cgroup Container_State Workspace_Copy
begin

text \<open>
  What is read back from the files of a cgroup: usage statistics (\<^verbatim>\<open>src/src/resources/stats.rs\<close>) and the limits
  that a checkpoint keeps (\<^verbatim>\<open>src/src/checkpoint/metadata.rs\<close>), with the file that holds the metadata.

  A directory of control files is a function from names to what reading gives. JSON is an argument in both directions.
  The percentage of memory is the exact quotient followed by the rounding of the division and of the product.
\<close>

section \<open>Statistics\<close>

datatype file_read = Content string | NotFound | ReadFailed

type_synonym control_files = "string \<Rightarrow> file_read"

fun file_content :: "file_read \<Rightarrow> string option" where
  "file_content (Content c) = Some c"
| "file_content _ = None"

record resource_stats =
  rs_memory_usage :: u64
  rs_memory_limit :: u64
  rs_memory_swap_usage :: u64
  rs_cpu_usage_ns :: u64
  rs_pid_count :: u64
  rs_memory_percent :: rat

definition read_u64_file :: "control_files \<Rightarrow> string \<Rightarrow> u64 result" where
  "read_u64_file files name =
     and_then (ok_or (file_content (files name)) (ResourceError ''Failed to read {:?}: {}'')) (\<lambda>content.
     ok_or (parse_word (trim content)) (ResourceError ''Failed to parse {:?}: {}''))"

definition read_memory_max :: "control_files \<Rightarrow> u64 result" where
  "read_memory_max files =
     and_then (ok_or (file_content (files ''memory.max'')) (ResourceError ''Failed to read {:?}: {}'')) (\<lambda>content.
     if trim content = ''max'' then Ok 0
     else ok_or (parse_word (trim content)) (ResourceError ''Failed to parse memory.max: {}''))"

text \<open>Microseconds are multiplied by 1000 in 64 bits; an overflow wraps, as it does in a release build.\<close>

fun cpu_usage_lines :: "string list \<Rightarrow> u64 result" where
  "cpu_usage_lines [] = Err (ResourceError ''cpu.stat at {:?} does not contain usage_usec key'')"
| "cpu_usage_lines (line # ls) =
     (case strip_prefix ''usage_usec '' line of
        None \<Rightarrow> cpu_usage_lines ls
      | Some v \<Rightarrow> and_then (ok_or (parse_word v) (ResourceError ''Failed to parse CPU usage: {}'')) (\<lambda>usec. Ok (usec * 1000)))"

definition read_cpu_usage :: "control_files \<Rightarrow> u64 result" where
  "read_cpu_usage files =
     and_then (ok_or (file_content (files ''cpu.stat'')) (ResourceError ''Failed to read {:?}: {}'')) (\<lambda>content. cpu_usage_lines (lines content))"

definition stats_from_cgroup :: "(rat \<Rightarrow> rat) \<Rightarrow> control_files \<Rightarrow> resource_stats result" where
  "stats_from_cgroup rnd files =
     and_then (read_u64_file files ''memory.current'') (\<lambda>memory_usage.
     and_then (read_memory_max files) (\<lambda>memory_limit.
     let memory_percent = (if memory_limit > 0
           then rnd (rnd (rnd (of_nat (unat memory_usage)) / rnd (of_nat (unat memory_limit))) * 100) else 0);
         memory_swap_usage = (case read_u64_file files ''memory.swap.current'' of Inl _ \<Rightarrow> 0 | Inr v \<Rightarrow> v)
     in and_then (read_cpu_usage files) (\<lambda>cpu_usage_ns.
        and_then (read_u64_file files ''pids.current'') (\<lambda>pid_count.
        Ok \<lparr>rs_memory_usage = memory_usage, rs_memory_limit = memory_limit, rs_memory_swap_usage = memory_swap_usage,
            rs_cpu_usage_ns = cpu_usage_ns, rs_pid_count = pid_count, rs_memory_percent = memory_percent\<rparr>))))"

section \<open>Limits of a checkpoint\<close>

record checkpoint_resource_limits =
  cr_memory_bytes :: "u64 option"
  cr_memory_high :: "u64 option"
  cr_memory_swap_max :: "u64 option"
  cr_cpu_quota_us :: "u64 option"
  cr_cpu_period_us :: u64
  cr_cpu_weight :: "u64 option"
  cr_pids_max :: "u64 option"
  cr_io_limits :: "io_device_limit list"

definition read_optional_u64 :: "control_files \<Rightarrow> string \<Rightarrow> u64 option result" where
  "read_optional_u64 files name =
     and_then (ok_or (file_content (files name)) (CheckpointError ''Failed to read cgroup limit file {:?}: {}'')) (\<lambda>content.
     if trim content = ''max'' then Ok None
     else and_then (ok_or (parse_word (trim content)) (CheckpointError ''Failed to parse cgroup limit file {:?}: {}'')) (\<lambda>v. Ok (Some v)))"

definition read_cpu_quota :: "control_files \<Rightarrow> (u64 option \<times> u64) result" where
  "read_cpu_quota files =
     and_then (ok_or (file_content (files ''cpu.max'')) (CheckpointError ''Failed to read {:?}: {}'')) (\<lambda>content.
     case split_whitespace content of
       [] \<Rightarrow> Err (CheckpointError ''Invalid cpu.max format in {:?}'')
     | [_] \<Rightarrow> Err (CheckpointError ''Missing cpu.max period in {:?}'')
     | quota # period # rest \<Rightarrow>
         if rest \<noteq> [] then Err (CheckpointError ''Invalid cpu.max format in {:?}'')
         else
           and_then (if quota = ''max'' then Ok None
                     else and_then (ok_or (parse_word quota) (CheckpointError ''Failed to parse cpu.max quota: {}'')) (\<lambda>v. Ok (Some v))) (\<lambda>cpu_quota_us.
           and_then (ok_or (parse_word period) (CheckpointError ''Failed to parse cpu.max period: {}'')) (\<lambda>cpu_period_us.
           if cpu_period_us = 0 then Err (CheckpointError ''Invalid cpu.max period in {:?}: period must be greater than 0'')
           else Ok (cpu_quota_us, cpu_period_us))))"

definition read_io_limits :: "control_files \<Rightarrow> io_device_limit list result" where
  "read_io_limits files =
     (case files ''io.max'' of
        NotFound \<Rightarrow> Ok []
      | ReadFailed \<Rightarrow> Err (CheckpointError ''Failed to read {:?}: {}'')
      | Content content \<Rightarrow> try_map io_parse (filter (\<lambda>line. trim line \<noteq> []) (lines content)))"

definition from_cgroup_dir :: "control_files \<Rightarrow> checkpoint_resource_limits result" where
  "from_cgroup_dir files =
     and_then (read_cpu_quota files) (\<lambda>(cpu_quota_us, cpu_period_us).
     and_then (read_optional_u64 files ''memory.max'') (\<lambda>memory_bytes.
     and_then (read_optional_u64 files ''memory.high'') (\<lambda>memory_high.
     and_then (read_optional_u64 files ''memory.swap.max'') (\<lambda>memory_swap_max.
     and_then (read_optional_u64 files ''cpu.weight'') (\<lambda>cpu_weight.
     and_then (read_optional_u64 files ''pids.max'') (\<lambda>pids_max.
     and_then (read_io_limits files) (\<lambda>io_limits.
     Ok \<lparr>cr_memory_bytes = memory_bytes, cr_memory_high = memory_high, cr_memory_swap_max = memory_swap_max,
         cr_cpu_quota_us = cpu_quota_us, cr_cpu_period_us = cpu_period_us, cr_cpu_weight = cpu_weight, cr_pids_max = pids_max,
         cr_io_limits = io_limits\<rparr>)))))))"

definition to_resource_limits :: "checkpoint_resource_limits \<Rightarrow> resource_limits" where
  "to_resource_limits self =
     \<lparr>memory_bytes = cr_memory_bytes self, memory_high = cr_memory_high self, memory_swap_max = cr_memory_swap_max self,
      cpu_quota_us = cr_cpu_quota_us self, cpu_period_us = cr_cpu_period_us self, cpu_weight = cr_cpu_weight self,
      pids_max = cr_pids_max self, io_limits = cr_io_limits self, memlock_bytes = None\<rparr>"

definition checkpoint_limits_validate :: "checkpoint_resource_limits \<Rightarrow> unit result" where
  "checkpoint_limits_validate self =
     map_err (\<lambda>e. CheckpointError ''Invalid checkpoint resource limits: {}'') (validate_runtime_sanity (to_resource_limits self))"

definition cpu_limit_millicores :: "checkpoint_resource_limits \<Rightarrow> u64 option" where
  "cpu_limit_millicores self =
     (if cr_cpu_period_us self = 0 then None
      else map_option (\<lambda>quota. saturating_mul quota 1000 div cr_cpu_period_us self) (cr_cpu_quota_us self))"

section \<open>Metadata\<close>

record checkpoint_metadata =
  cm_container_id :: string
  cm_container_name :: string
  cm_original_pid :: u32
  cm_command :: "string list"
  cm_checkpoint_at :: u64
  cm_version :: string
  cm_using_gvisor :: bool
  cm_rootless :: bool
  cm_cgroup_path :: "string option"
  cm_resource_limits :: "checkpoint_resource_limits option"

definition metadata_from_state :: "u64 \<Rightarrow> string \<Rightarrow> (string \<Rightarrow> control_files) \<Rightarrow> container_state \<Rightarrow> checkpoint_metadata result" where
  "metadata_from_state now version cgroup_dir state =
     and_then (case cs_cgroup_path state of
         None \<Rightarrow> Ok None
       | Some p \<Rightarrow> and_then (from_cgroup_dir (cgroup_dir p)) (\<lambda>limits. Ok (Some limits))) (\<lambda>resource_limits.
     Ok \<lparr>cm_container_id = cs_id state, cm_container_name = cs_name state, cm_original_pid = cs_pid state,
         cm_command = cs_command state, cm_checkpoint_at = now, cm_version = version, cm_using_gvisor = cs_using_gvisor state,
         cm_rootless = cs_rootless state, cm_cgroup_path = cs_cgroup_path state, cm_resource_limits = resource_limits\<rparr>)"

text \<open>
  Saving, on the entries of the directory: a stale temporary file is removed unless it is a link (to a file that exists, as
  \<^verbatim>\<open>Path::exists\<close> follows links), the new one is created exclusively, written, synced and renamed. \<open>link_ok\<close> says of a link
  whether its target exists; the mode 0600 is 384.
\<close>

datatype md_step = MdInspect | MdRemoveTmp | MdOpen | MdWrite | MdSync | MdRename

definition metadata_save ::
  "(checkpoint_metadata \<Rightarrow> string option) \<Rightarrow> (string \<Rightarrow> bool) \<Rightarrow> (md_step \<Rightarrow> bool) \<Rightarrow> string \<Rightarrow> checkpoint_metadata \<Rightarrow>
   (string \<times> node) list \<Rightarrow> (string \<times> node) list \<times> unit result" where
  "metadata_save to_json link_ok fails partial self d =
     (case to_json self of
        None \<Rightarrow> (d, Err (CheckpointError ''Failed to serialize metadata: {}''))
      | Some json \<Rightarrow>
          (case (case map_of d ''metadata.json.tmp'' of
                   None \<Rightarrow> (d, Ok ())
                 | Some (Link t) \<Rightarrow>
                     if \<not> link_ok t then (d, Ok ())
                     else if fails MdInspect then (d, Err (CheckpointError ''Failed to inspect temp metadata file {:?}: {}''))
                     else (d, Err (CheckpointError ''Refusing symlink temp metadata file {:?}''))
                 | Some c \<Rightarrow>
                     if fails MdInspect then (d, Err (CheckpointError ''Failed to inspect temp metadata file {:?}: {}''))
                     else if fails MdRemoveTmp \<or> is_dir_node (Some c)
                     then (d, Err (CheckpointError ''Failed to remove stale temp metadata file {:?}: {}''))
                     else (AList.delete ''metadata.json.tmp'' d, Ok ())) of
             (d, Inl e) \<Rightarrow> (d, Err e)
           | (d, Inr _) \<Rightarrow>
               if fails MdOpen \<or> map_of d ''metadata.json.tmp'' \<noteq> None
               then (d, Err (CheckpointError ''Failed to open temp metadata file {:?}: {}''))
               else if fails MdWrite
               then (AList.update ''metadata.json.tmp'' (File partial 384) d, Err (CheckpointError ''Failed to write metadata file {:?}: {}''))
               else if fails MdSync
               then (AList.update ''metadata.json.tmp'' (File json 384) d, Err (CheckpointError ''Failed to sync metadata file {:?}: {}''))
               else if fails MdRename \<or> is_dir_node (map_of d ''metadata.json'')
               then (AList.update ''metadata.json.tmp'' (File json 384) d, Err (CheckpointError ''Failed to atomically replace metadata file {:?}: {}''))
               else (AList.update ''metadata.json'' (File json 384) d, Ok ())))"

text \<open>Reading without following a link.\<close>

definition read_nofollow :: "(string \<times> node) list \<Rightarrow> string \<Rightarrow> string option" where
  "read_nofollow d n = (case map_of d n of Some (File content m) \<Rightarrow> Some content | _ \<Rightarrow> None)"

definition metadata_load :: "(string \<Rightarrow> checkpoint_metadata option) \<Rightarrow> (string \<times> node) list \<Rightarrow> checkpoint_metadata result" where
  "metadata_load from_json d =
     and_then (ok_or (read_nofollow d ''metadata.json'') (CheckpointError ''Failed to read metadata {:?}: {}'')) (\<lambda>json.
     and_then (ok_or (from_json json) (CheckpointError ''Failed to parse metadata: {}'')) (\<lambda>metadata.
     and_then (case cm_resource_limits metadata of None \<Rightarrow> Ok () | Some limits \<Rightarrow> checkpoint_limits_validate limits) (\<lambda>_.
     Ok metadata)))"

section \<open>Limits survive a checkpoint\<close>

text \<open>
  What the kernel shows in the control files after \<open>limit_writes\<close> (its cgroup v2 documentation): a value on a line,
  \<^verbatim>\<open>max\<close> where there is no limit, 100 for a weight that was never set, and in \<^verbatim>\<open>io.max\<close> a line per device with all
  four keys. Memory sizes are those of whole pages.
\<close>

definition shown :: "u64 option \<Rightarrow> string" where
  "shown v = (case v of None \<Rightarrow> ''max'' | Some n \<Rightarrow> show_word n)"

definition kernel_io_line :: "io_device_limit \<Rightarrow> string" where
  "kernel_io_line l =
     join '' '' [device l, ''rbps='' @ shown (rbps l), ''wbps='' @ shown (wbps l), ''riops='' @ shown (riops l), ''wiops='' @ shown (wiops l)]"

definition weight_in_force :: "resource_limits \<Rightarrow> u64" where
  "weight_in_force limits = (case cpu_weight limits of None \<Rightarrow> 100 | Some w \<Rightarrow> w)"

definition kernel_shows :: "resource_limits \<Rightarrow> control_files \<Rightarrow> bool" where
  "kernel_shows limits files \<longleftrightarrow>
     files ''memory.max'' = Content (shown (memory_bytes limits) @ [CHR 0x0A])
     \<and> files ''memory.high'' = Content (shown (memory_high limits) @ [CHR 0x0A])
     \<and> files ''memory.swap.max'' = Content (shown (memory_swap_max limits) @ [CHR 0x0A])
     \<and> files ''cpu.max'' = Content (shown (cpu_quota_us limits) @ '' '' @ show_word (cpu_period_us limits) @ [CHR 0x0A])
     \<and> files ''cpu.weight'' = Content (show_word (weight_in_force limits) @ [CHR 0x0A])
     \<and> files ''pids.max'' = Content (shown (pids_max limits) @ [CHR 0x0A])
     \<and> files ''io.max'' = Content (concat (map (\<lambda>l. kernel_io_line l @ [CHR 0x0A]) (io_limits limits)))"

definition no_space :: "string \<Rightarrow> bool" where
  "no_space s \<longleftrightarrow> s \<noteq> [] \<and> (\<forall>c\<in>set s. \<not> is_whitespace c)"

lemma show_word_no_space: "no_space (show_word n)"
  using show_word_word by (auto simp: no_space_def)

lemma shown_no_space: "no_space (shown v)"
  by (cases v) (simp_all add: shown_def show_word_no_space, simp add: no_space_def is_whitespace_def)

lemma no_space_append: "no_space a \<Longrightarrow> no_space b \<Longrightarrow> no_space (a @ b)"
  by (auto simp: no_space_def)

lemma show_word_not_max: "show_word (n :: u64) \<noteq> ''max''"
proof
  assume "show_word n = ''max''"
  then have "is_ascii_digit CHR ''m''" using show_word_chars[of "CHR ''m''" n] by simp
  then show False by (simp add: is_ascii_digit_def)
qed

lemma trim_line: "no_space s \<Longrightarrow> trim (s @ [CHR 0x0A]) = s"
proof -
  assume s: "no_space s"
  then have "dropWhile is_whitespace (s @ [CHR 0x0A]) = s @ [CHR 0x0A]" by (cases s) (auto simp: no_space_def)
  moreover have "dropWhile is_whitespace (CHR 0x0A # rev s) = rev s"
    using s by (cases "rev s") (auto simp: no_space_def is_whitespace_def dest: arg_cong[of "rev s" _ set])
  ultimately show ?thesis by (simp add: trim_def)
qed

lemma read_shown: "files name = Content (shown v @ [CHR 0x0A]) \<Longrightarrow> read_optional_u64 files name = Ok v"
  by (cases v) (auto simp: read_optional_u64_def trim_line[OF shown_no_space] show_word_not_max, simp_all add: shown_def show_word_not_max)

lemma words_of_line: "\<forall>w\<in>set ws. no_space w \<Longrightarrow> split_whitespace (join '' '' ws) = ws"
  by (rule split_whitespace_join) (auto simp: no_space_def)

lemma words_before_newline: "\<forall>w\<in>set ws. no_space w \<Longrightarrow> split_whitespace (join '' '' ws @ [CHR 0x0A]) = ws"
proof (induction "'' '' :: string" ws rule: join.induct)
  case (3 w v ws)
  then show ?case by (simp add: split_whitespace_def split_by_append_sep no_space_def is_whitespace_def)
qed (simp_all add: split_whitespace_def split_by_append_sep no_space_def is_whitespace_def)

lemma read_shown_quota:
  assumes "files ''cpu.max'' = Content (shown q @ '' '' @ show_word p @ [CHR 0x0A])" "p \<noteq> 0"
  shows "read_cpu_quota files = Ok (q, p)"
proof -
  have "split_whitespace (shown q @ '' '' @ show_word p @ [CHR 0x0A]) = [shown q, show_word p]"
    using words_before_newline[of "[shown q, show_word p]"] by (simp add: shown_no_space show_word_no_space)
  then show ?thesis using assms by (cases q) (auto simp: read_cpu_quota_def show_word_not_max, simp_all add: shown_def show_word_not_max)
qed

definition io_specified :: "io_device_limit \<Rightarrow> bool" where
  "io_specified l \<longleftrightarrow> io_device_ok (device l) \<and> no_space (device l) \<and> rbps l \<noteq> None \<and> wbps l \<noteq> None \<and> riops l \<noteq> None \<and> wiops l \<noteq> None"

lemma key_no_space: "no_space (k @ shown v)" if "k \<in> {''rbps='', ''wbps='', ''riops='', ''wiops=''}"
proof -
  have "no_space k" using that by (auto simp: no_space_def is_whitespace_def)
  then show ?thesis using no_space_append shown_no_space by blast
qed

lemma kernel_io_words: "no_space (device l) \<Longrightarrow> split_whitespace (kernel_io_line l)
    = [device l, ''rbps='' @ shown (rbps l), ''wbps='' @ shown (wbps l), ''riops='' @ shown (riops l), ''wiops='' @ shown (wiops l)]"
  unfolding kernel_io_line_def by (rule words_of_line)
    (use key_no_space[of "''rbps=''" "rbps l"] key_no_space[of "''wbps=''" "wbps l"] key_no_space[of "''riops=''" "riops l"]
      key_no_space[of "''wiops=''" "wiops l"] in simp)

lemma kernel_io_parse: "io_specified l \<Longrightarrow> io_parse (kernel_io_line l) = Ok l"
  using kernel_io_words[of l] split_once_key[of "''rbps''"] split_once_key[of "''wbps''"] split_once_key[of "''riops''"] split_once_key[of "''wiops''"]
  by (cases l) (auto simp: io_specified_def io_parse_def io_set_param_def shown_def simp del: split_once.simps)

lemma kernel_io_line_chars:
  assumes "no_space (device l)"
  shows "CHR 0x0A \<notin> set (kernel_io_line l)" "CHR 0x0D \<notin> set (kernel_io_line l)"
proof -
  have "\<not> is_whitespace c" if "c \<in> set (shown v)" for c v using that shown_no_space by (auto simp: no_space_def)
  then have "c \<notin> set (shown v)" if "is_whitespace c" for c v using that by blast
  then have "CHR 0x0A \<notin> set (shown v)" "CHR 0x0D \<notin> set (shown v)" for v by (simp_all add: is_whitespace_def)
  moreover have "CHR 0x0A \<notin> set (device l)" "CHR 0x0D \<notin> set (device l)"
    using assms by (auto simp: no_space_def is_whitespace_def)
  ultimately show "CHR 0x0A \<notin> set (kernel_io_line l)" "CHR 0x0D \<notin> set (kernel_io_line l)"
    by (simp_all add: kernel_io_line_def)
qed

lemma trim_keeps_words: "split_whitespace s \<noteq> [] \<Longrightarrow> trim s \<noteq> []"
proof
  assume "split_whitespace s \<noteq> []" "trim s = []"
  then have "\<forall>c\<in>set (dropWhile is_whitespace s). is_whitespace c" by (simp add: trim_def)
  then have "\<forall>c\<in>set s. is_whitespace c" by (metis UnE set_append set_takeWhileD takeWhile_dropWhile_id)
  then have "split_whitespace s = []" by (induction s) (auto simp: split_whitespace_def)
  with \<open>split_whitespace s \<noteq> []\<close> show False by simp
qed

lemma kernel_io_lines:
  "\<forall>l\<in>set ls. no_space (device l) \<Longrightarrow>
   filter (\<lambda>line. trim line \<noteq> []) (lines (concat (map (\<lambda>l. kernel_io_line l @ [CHR 0x0A]) ls))) = map kernel_io_line ls"
proof (induction ls)
  case Nil
  then show ?case by (simp add: lines_def split_on_def)
next
  case (Cons l ls)
  have "trim (kernel_io_line l) \<noteq> []" using Cons.prems by (intro trim_keeps_words) (simp add: kernel_io_words)
  then show ?case using Cons by (simp add: lines_Cons[OF kernel_io_line_chars])
qed

lemma try_map_each: "\<forall>x\<in>set xs. f (g x) = Ok x \<Longrightarrow> try_map f (map g xs) = Ok xs"
  by (induction xs) auto


definition sample_limits :: resource_limits where
  "sample_limits = \<lparr>memory_bytes = Some 536870912, memory_high = Some 483183616, memory_swap_max = Some 0, cpu_quota_us = Some 50000,
     cpu_period_us = 100000, cpu_weight = None, pids_max = Some 512,
     io_limits = [\<lparr>device = ''8:0'', riops = Some 100, wiops = Some 200, rbps = Some 1000, wbps = Some 2000\<rparr>], memlock_bytes = Some 0\<rparr>"

definition sample_files :: "resource_limits \<Rightarrow> control_files" where
  "sample_files limits name =
     (case match_arm name
        [(''memory.max'', shown (memory_bytes limits)), (''memory.high'', shown (memory_high limits)),
         (''memory.swap.max'', shown (memory_swap_max limits)),
         (''cpu.max'', shown (cpu_quota_us limits) @ '' '' @ show_word (cpu_period_us limits)),
         (''cpu.weight'', show_word (weight_in_force limits)), (''pids.max'', shown (pids_max limits))] of
        Some text \<Rightarrow> Content (text @ [CHR 0x0A])
      | None \<Rightarrow> if name = ''io.max'' then Content (concat (map (\<lambda>l. kernel_io_line l @ [CHR 0x0A]) (io_limits limits))) else NotFound)"

lemma sample_files_show: "kernel_shows limits (sample_files limits)"
  by (simp add: kernel_shows_def sample_files_def)


lemma io_set_max: "k \<in> {''rbps'', ''wbps'', ''riops'', ''wiops''} \<Longrightarrow> \<exists>e. io_set_param l (k @ ''='' @ shown None) = Err e"
  using split_once_key[of "''rbps''"] split_once_key[of "''wbps''"] split_once_key[of "''riops''"] split_once_key[of "''wiops''"]
  by (auto simp: io_set_param_def shown_def string_eval simp del: split_once.simps)

lemma try_fold_stops: "x \<in> set xs \<Longrightarrow> (\<And>a. \<exists>e. f a x = Err e) \<Longrightarrow> \<exists>e. try_fold f a xs = Err e"
proof (induction xs arbitrary: a)
  case (Cons y xs)
  show ?case
  proof (cases "f a y")
    case (Inr b)
    moreover have "x \<noteq> y" using Cons.prems(2)[of a] Inr by auto
    ultimately show ?thesis using Cons by simp
  qed simp
qed simp

lemma try_map_stops: "x \<in> set xs \<Longrightarrow> f x = Err e \<Longrightarrow> \<exists>e. try_map f xs = Err e"
proof (induction xs)
  case (Cons y xs)
  then show ?case by (cases "f y"; cases "try_map f xs") auto
qed simp

lemma partial_io_parse:
  assumes "no_space (device l)" "\<not> io_specified l"
  shows "\<exists>e. io_parse (kernel_io_line l) = Err e"
proof (cases "io_device_ok (device l)")
  case True
  with assms consider "rbps l = None" | "wbps l = None" | "riops l = None" | "wiops l = None" by (auto simp: io_specified_def)
  then have "\<exists>k. k \<in> {''rbps'', ''wbps'', ''riops'', ''wiops''} \<and> k @ ''='' @ shown None \<in> set (tl (split_whitespace (kernel_io_line l)))"
    by cases (intro exI[of _ "''rbps''"] exI[of _ "''wbps''"] exI[of _ "''riops''"] exI[of _ "''wiops''"],
        simp add: kernel_io_words[OF assms(1)])+
  then obtain k where k: "k \<in> {''rbps'', ''wbps'', ''riops'', ''wiops''}" "k @ ''='' @ shown None \<in> set (tl (split_whitespace (kernel_io_line l)))"
    by blast
  from try_fold_stops[OF k(2), of io_set_param, OF io_set_max[OF k(1)]] True assms(1) show ?thesis
    by (simp add: io_parse_def kernel_io_words)
qed (use assms in \<open>simp add: io_parse_def kernel_io_words\<close>)

text \<open>
  a limit on some of the rates of a device cannot be checkpointed. The kernel shows \<^verbatim>\<open>max\<close> for the rates without a
  limit, and the parser of I/O limits takes only numbers: the whole read of the limits fails, hence the checkpoint.
\<close>

theorem partial_io_limit_breaks_checkpoint:
  assumes "kernel_shows limits (cgroup_dir p)" "cs_cgroup_path state = Some p"
    and "\<forall>l\<in>set (io_limits limits). no_space (device l)" "\<exists>l\<in>set (io_limits limits). \<not> io_specified l"
  shows "\<exists>e. metadata_from_state now version cgroup_dir state = Err e"
proof -
  from assms(4) obtain l where l: "l \<in> set (io_limits limits)" "\<not> io_specified l" by blast
  with assms(3) obtain e where "io_parse (kernel_io_line l) = Err e" using partial_io_parse by blast
  with l(1) have "\<exists>e. try_map io_parse (map kernel_io_line (io_limits limits)) = Err e"
    by (intro try_map_stops[of "kernel_io_line l"]) auto
  then obtain e' where "read_io_limits (cgroup_dir p) = Err e'"
    using assms(1,3) by (auto simp: read_io_limits_def kernel_shows_def kernel_io_lines)
  then have "\<exists>e. from_cgroup_dir (cgroup_dir p) = Err e"
    by (auto simp: from_cgroup_dir_def and_then_def split: sum.splits)
  then show ?thesis using assms(2) by (auto simp: metadata_from_state_def)
qed

theorem partial_io_limit_breaks_checkpoint_witness:
  "\<exists>e. metadata_from_state 0 ''0.3.0''
     (\<lambda>_. sample_files (sample_limits\<lparr>io_limits := [\<lparr>device = ''8:0'', riops = None, wiops = None, rbps = None, wbps = Some 1048576\<rparr>]\<rparr>))
     ((demo_state ''c1'')\<lparr>cs_cgroup_path := Some ''/sys/fs/cgroup/nucleus/c1''\<rparr>) = Err e"
  by (rule partial_io_limit_breaks_checkpoint[OF sample_files_show])
    (simp_all add: io_specified_def no_space_def is_whitespace_def)

section \<open>The metadata file\<close>

lemma metadata_save_outcome:
  assumes "metadata_save to_json link_ok fails partial m d = (d', r)"
  shows "(\<forall>n. n \<noteq> ''metadata.json'' \<and> n \<noteq> ''metadata.json.tmp'' \<longrightarrow> map_of d' n = map_of d n)
    \<and> (case r of Inl _ \<Rightarrow> map_of d' ''metadata.json'' = map_of d ''metadata.json''
       | Inr _ \<Rightarrow> (\<exists>json. to_json m = Some json \<and> map_of d' ''metadata.json'' = Some (File json 384))
           \<and> map_of d' ''metadata.json.tmp'' = None)"
  using assms
  by (auto simp: metadata_save_def AList.update_conv' AList.delete_conv' split: option.splits node.splits if_splits)

text \<open>
  saving metadata is all or nothing and does not write through links. Whatever step fails, the metadata file is the
  old one or the complete new one, no other file but the temporary one changes, and a link at the temporary name is
  refused without a change. After a success, loading gives the metadata back, provided its limits pass the validation.
\<close>

theorem metadata_save_atomic:
  assumes "metadata_save to_json link_ok fails partial m d = (d', r)"
    and "\<And>json. to_json m = Some json \<Longrightarrow> from_json json = Some m"
  shows "(\<forall>n. n \<noteq> ''metadata.json'' \<and> n \<noteq> ''metadata.json.tmp'' \<longrightarrow> map_of d' n = map_of d n)
    \<and> (\<forall>e. r = Err e \<longrightarrow> map_of d' ''metadata.json'' = map_of d ''metadata.json'')
    \<and> (\<forall>t. map_of d ''metadata.json.tmp'' = Some (Link t) \<longrightarrow> d' = d \<and> r \<noteq> Ok ())
    \<and> (r = Ok () \<and> (\<forall>l. cm_resource_limits m = Some l \<longrightarrow> checkpoint_limits_validate l = Ok ()) \<longrightarrow> metadata_load from_json d' = Ok m)"
proof (intro conjI allI impI)
  show "map_of d' n = map_of d n" if "n \<noteq> ''metadata.json'' \<and> n \<noteq> ''metadata.json.tmp''" for n
    using metadata_save_outcome[OF assms(1)] that by blast
  show "map_of d' ''metadata.json'' = map_of d ''metadata.json''" if "r = Err e" for e
    using metadata_save_outcome[OF assms(1)] that by simp
  show "d' = d" "r \<noteq> Ok ()" if "map_of d ''metadata.json.tmp'' = Some (Link t)" for t
    using assms(1) that by (auto simp: metadata_save_def split: option.splits if_splits)
  assume r: "r = Ok () \<and> (\<forall>l. cm_resource_limits m = Some l \<longrightarrow> checkpoint_limits_validate l = Ok ())"
  then obtain json where "to_json m = Some json" "map_of d' ''metadata.json'' = Some (File json 384)"
    using metadata_save_outcome[OF assms(1)] by auto
  with r show "metadata_load from_json d' = Ok m"
    using assms(2) by (auto simp: metadata_load_def read_nofollow_def split: option.splits)
qed

definition sample_metadata :: checkpoint_metadata where
  "sample_metadata = \<lparr>cm_container_id = ''c1'', cm_container_name = ''web'', cm_original_pid = 42, cm_command = [''sh''],
     cm_checkpoint_at = 0, cm_version = ''0.3.0'', cm_using_gvisor = False, cm_rootless = False, cm_cgroup_path = None,
     cm_resource_limits = None\<rparr>"

theorem metadata_save_atomic_witness:
  "metadata_load (\<lambda>s. if s = ''{}'' then Some sample_metadata else None)
     (fst (metadata_save (\<lambda>m. if m = sample_metadata then Some ''{}'' else None) (\<lambda>_. True) (\<lambda>_. False) [] sample_metadata
        [(''metadata.json.tmp'', File ''old'' 384)])) = Ok sample_metadata"
proof -
  have s: "metadata_save (\<lambda>m. if m = sample_metadata then Some ''{}'' else None) (\<lambda>_. True) (\<lambda>_. False) [] sample_metadata
        [(''metadata.json.tmp'', File ''old'' 384)] = ([(''metadata.json'', File ''{}'' 384)], Ok ())"
    by (simp add: metadata_save_def AList.delete_eq)
  have "cm_resource_limits sample_metadata = None" by (simp add: sample_metadata_def)
  then show ?thesis
    using metadata_save_atomic[OF s, of "\<lambda>s. if s = ''{}'' then Some sample_metadata else None"]
    by (simp add: s)
qed

end
