(* ===== verification/Checkpoint.thy ===== *)
theory Checkpoint
  imports Checkpoint_Metadata Workspace_Copy
begin

text \<open>
  Checkpoint and restore with criu (\<^verbatim>\<open>src/src/checkpoint/criu.rs\<close>): the search for the binary, the integrity tag of a
  checkpoint directory, the key it is made with, and the two operations with their state machine.

  A checkpoint directory is the list of its entries, each a file tree. SHA-256, its hexadecimal form and the effect of running
  criu are arguments, and so is which call fails. Bytes are characters.
\<close>

section \<open>The binary\<close>

record bin_meta =
  bm_mode :: nat
  bm_uid :: u32

definition validate_binary :: "(path \<Rightarrow> path option) \<Rightarrow> (path \<Rightarrow> bin_meta option) \<Rightarrow> u32 \<Rightarrow> path \<Rightarrow> path result" where
  "validate_binary canonicalize stat euid p =
     and_then (ok_or (canonicalize p) (CheckpointError ''Cannot canonicalize criu binary {:?}: {}'')) (\<lambda>resolved.
     and_then (ok_or (stat resolved) (CheckpointError ''Cannot stat criu binary {:?}: {}'')) (\<lambda>metadata.
     if and (bm_mode metadata) 18 \<noteq> 0
     then Err (CheckpointError ''criu binary {:?} is writable by group/others (mode {:o}), refusing to execute'')
     else if and (bm_mode metadata) 73 = 0 then Err (CheckpointError ''criu binary {:?} is not executable'')
     else if bm_uid metadata \<noteq> 0 \<and> bm_uid metadata \<noteq> euid
     then Err (CheckpointError ''criu binary {:?} is owned by UID {} (expected root or euid {}), refusing to execute'')
     else Ok resolved))"

definition criu_locations :: "path list" where
  "criu_locations = map path_new [''/usr/sbin/criu'', ''/usr/bin/criu'', ''/usr/local/sbin/criu'']"

text \<open>The first path that exists is the one that is validated; \<open>PATH\<close> is searched only without root.\<close>

definition find_binary ::
  "(path \<Rightarrow> path option) \<Rightarrow> (path \<Rightarrow> bin_meta option) \<Rightarrow> (path \<Rightarrow> bool) \<Rightarrow> u32 \<Rightarrow> path list option \<Rightarrow> path result" where
  "find_binary canonicalize stat exists euid path_var =
     (case List.find exists criu_locations of
        Some p \<Rightarrow> validate_binary canonicalize stat euid p
      | None \<Rightarrow>
          if euid = 0 then Err (CheckpointError ''CRIU binary not found in trusted system paths'')
          else
            (case List.find exists (map (\<lambda>dir. path_push dir ''criu'') (case path_var of None \<Rightarrow> [] | Some dirs \<Rightarrow> dirs)) of
               Some p \<Rightarrow> validate_binary canonicalize stat euid p
             | None \<Rightarrow> Err (CheckpointError ''CRIU binary not found. Install criu to use checkpoint/restore.'')))"

record criu_runtime =
  cr_binary_path :: path
  cr_state :: checkpoint_state

record criu_output =
  co_success :: bool
  co_stdout :: string
  co_stderr :: string

definition criu_new :: "path result \<Rightarrow> (path \<Rightarrow> criu_output option) \<Rightarrow> criu_runtime result" where
  "criu_new found run_version =
     and_then found (\<lambda>binary_path.
     and_then (ok_or (run_version binary_path) (CheckpointError ''Failed to execute criu: {}'')) (\<lambda>output.
     if \<not> co_success output then Err (CheckpointError ''criu --version failed'')
     else Ok \<lparr>cr_binary_path = binary_path, cr_state = CheckpointNone\<rparr>))"

section \<open>Process ids in output\<close>

definition parse_pid_text :: "string \<Rightarrow> u32 option" where
  "parse_pid_text text = first_some parse_word (filter (\<lambda>tok. tok \<noteq> []) (split_by (\<lambda>c. \<not> is_ascii_digit c) text))"

definition parse_pidfile :: "string \<Rightarrow> u32 option" where
  "parse_pidfile text =
     (let trimmed = trim text in
      if trimmed = [] \<or> \<not> (\<forall>c\<in>set trimmed. is_ascii_digit c) then None else parse_word trimmed)"

section \<open>The key\<close>

datatype ck_op =
  CkCreateDir | CkSetPermissions | CkStatKeyDir | CkCreateKeyDir | CkSecureKeyDir | CkStatKey | CkReadKey | CkOpenRandom | CkStatRandom |
  CkRandomKind | CkRandom | CkCreateKey |
  CkWriteKey | CkSyncKey | CkReadDir | CkStat | CkOpen | CkRead | CkReadTag | CkRemoveTag | CkOpenTag | CkWriteTag | CkSyncTag | CkRenameTag |
  CkPidfile

definition CHECKPOINT_HMAC_FILE :: string where "CHECKPOINT_HMAC_FILE = ''checkpoint.hmac''"

definition CHECKPOINT_HMAC_KEY_SIZE :: nat where "CHECKPOINT_HMAC_KEY_SIZE = 32"

definition checkpoint_hmac_key_path :: "string option \<Rightarrow> u32 \<Rightarrow> path option \<Rightarrow> path option \<Rightarrow> path" where
  "checkpoint_hmac_key_path env euid data_local_dir home_dir =
     (case env of
        Some (c # cs) \<Rightarrow> path_new (c # cs)
      | _ \<Rightarrow>
          if euid = 0 then path_new ''/var/lib/nucleus/checkpoint-hmac.key''
          else case data_local_dir of
              Some dir \<Rightarrow> path_join dir (path_new ''nucleus/checkpoint-hmac.key'')
            | None \<Rightarrow>
                (case home_dir of
                   Some dir \<Rightarrow> path_join dir (path_new ''.nucleus/checkpoint-hmac.key'')
                 | None \<Rightarrow> path_new ''/tmp/nucleus-checkpoint-hmac.key''))"

text \<open>What lies at the path of the key and at its parent directory: the kind without following links, mode and owner.\<close>

record key_meta =
  km_kind :: file_kind
  km_mode :: nat
  km_owner :: u32

record key_store =
  ks_dir :: "key_meta option"
  ks_key :: "(key_meta \<times> string) option"

record ck_io =
  ck_fault :: "ck_op \<Rightarrow> string list \<Rightarrow> bool"
  ck_utf8 :: "string \<Rightarrow> bool"
  ck_sha256 :: "string \<Rightarrow> string"
  ck_hex :: "string \<Rightarrow> string"
  ck_euid :: u32
  ck_random :: string

definition reject_symlink :: "file_kind option \<Rightarrow> unit result" where
  "reject_symlink kind = reject_if (kind = Some KLink) (CheckpointError ''Refusing symlink {} {:?}'')"

definition ensure_secure_key_parent_dir :: "ck_io \<Rightarrow> key_store \<Rightarrow> key_store \<times> unit result" where
  "ensure_secure_key_parent_dir io ks =
     (case reject_symlink (map_option km_kind (ks_dir ks)) of
        Inl e \<Rightarrow> (ks, Err e)
      | Inr _ \<Rightarrow>
          (case ks_dir ks of
             Some m \<Rightarrow>
               (ks,
                if ck_fault io CkStatKeyDir [] then Err (CheckpointError ''Failed to stat checkpoint HMAC key directory {:?}: {}'')
                else if km_kind m \<noteq> KDir then Err (CheckpointError ''Checkpoint HMAC key directory {:?} is not a directory'')
                else if km_owner m \<noteq> ck_euid io
                then Err (CheckpointError ''Checkpoint HMAC key directory {:?} is owned by uid {} (expected {})'')
                else if and (km_mode m) 63 \<noteq> 0
                then Err (CheckpointError ''Checkpoint HMAC key directory {:?} has insecure mode {:o}; expected owner-only access'')
                else Ok ())
           | None \<Rightarrow>
               if ck_fault io CkCreateKeyDir [] then (ks, Err (CheckpointError ''Failed to create checkpoint HMAC key directory {:?}: {}''))
               else if ck_fault io CkSecureKeyDir []
               then (ks\<lparr>ks_dir := Some \<lparr>km_kind = KDir, km_mode = 493, km_owner = ck_euid io\<rparr>\<rparr>,
                     Err (CheckpointError ''Failed to secure checkpoint HMAC key directory {:?}: {}''))
               else (ks\<lparr>ks_dir := Some \<lparr>km_kind = KDir, km_mode = 448, km_owner = ck_euid io\<rparr>\<rparr>, Ok ())))"

text \<open>\<open>CkRandomKind\<close>: the file is not a character device.\<close>

definition fill_secure_random :: "ck_io \<Rightarrow> string result" where
  "fill_secure_random io =
     (if ck_fault io CkOpenRandom [] then Err (CheckpointError ''Failed to open /dev/urandom for checkpoint HMAC key generation: {}'')
      else if ck_fault io CkStatRandom [] then Err (CheckpointError ''Failed to stat /dev/urandom: {}'')
      else if ck_fault io CkRandomKind [] then Err (CheckpointError ''/dev/urandom is not a character device'')
      else if ck_fault io CkRandom [] \<or> length (ck_random io) < CHECKPOINT_HMAC_KEY_SIZE
      then Err (CheckpointError ''Failed to read /dev/urandom for checkpoint HMAC key generation: {}'')
      else Ok (take CHECKPOINT_HMAC_KEY_SIZE (ck_random io)))"

definition load_key :: "ck_io \<Rightarrow> key_meta \<Rightarrow> string \<Rightarrow> string result" where
  "load_key io m content =
     (if ck_fault io CkStatKey [] then Err (CheckpointError ''Failed to stat checkpoint HMAC key {:?}: {}'')
      else if km_owner m \<noteq> ck_euid io then Err (CheckpointError ''Checkpoint HMAC key {:?} is owned by uid {} (expected {})'')
      else if and (km_mode m) 63 \<noteq> 0
      then Err (CheckpointError ''Checkpoint HMAC key {:?} has insecure mode {:o}; expected owner-only access'')
      else if ck_fault io CkReadKey [] then Err (CheckpointError ''Failed to read checkpoint HMAC key {:?}: {}'')
      else if length content < CHECKPOINT_HMAC_KEY_SIZE then Err (CheckpointError ''Checkpoint HMAC key {:?} is too short ({} bytes)'')
      else Ok content)"

definition create_key :: "ck_io \<Rightarrow> key_store \<Rightarrow> key_store \<times> string result" where
  "create_key io ks =
     (case fill_secure_random io of
        Inl e \<Rightarrow> (ks, Err e)
      | Inr key \<Rightarrow>
          let m = \<lparr>km_kind = KFile, km_mode = 384, km_owner = ck_euid io\<rparr> in
          if ck_fault io CkCreateKey [] then (ks, Err (CheckpointError ''Failed to create checkpoint HMAC key {:?}: {}''))
          else if ck_fault io CkWriteKey [] then (ks\<lparr>ks_key := Some (m, [])\<rparr>, Err (CheckpointError ''Failed to write checkpoint HMAC key {:?}: {}''))
          else if ck_fault io CkSyncKey [] then (ks\<lparr>ks_key := Some (m, key)\<rparr>, Err (CheckpointError ''Failed to sync checkpoint HMAC key {:?}: {}''))
          else (ks\<lparr>ks_key := Some (m, key)\<rparr>, Ok key))"

definition load_or_create_checkpoint_hmac_key :: "ck_io \<Rightarrow> key_store \<Rightarrow> key_store \<times> string result" where
  "load_or_create_checkpoint_hmac_key io ks =
     (case ensure_secure_key_parent_dir io ks of
        (ks, Inl e) \<Rightarrow> (ks, Err e)
      | (ks, Inr _) \<Rightarrow>
          (case reject_symlink (map_option (km_kind \<circ> fst) (ks_key ks)) of
             Inl e \<Rightarrow> (ks, Err e)
           | Inr _ \<Rightarrow>
               (case ks_key ks of
                  Some (m, content) \<Rightarrow> (ks, load_key io m content)
                | None \<Rightarrow> create_key io ks)))"

section \<open>The integrity tag\<close>

text \<open>Eight bytes of a length, least significant first.\<close>

definition to_le_bytes :: "u64 \<Rightarrow> string" where
  "to_le_bytes n = map (\<lambda>i. char_of (unat (and (drop_bit (8 * i) n) 255))) [0..<8]"

lemma size_list_sort_key [simp]: "size_list f (sort_key k xs) = size_list f xs"
proof -
  have "size_list f (insort_key k x xs) = f x + size_list f xs + 1" for x xs by (induction xs) auto
  then show ?thesis by (induction xs) auto
qed

text \<open>
  The bytes that the tag covers: for every directory and file, in the order of the names, a record with its path below
  the root, for a file with its length and content. The file of the tag at the root is left out.
\<close>

function hmac_node :: "ck_io \<Rightarrow> string list \<Rightarrow> node \<Rightarrow> string result"
  and hmac_entries :: "ck_io \<Rightarrow> string list \<Rightarrow> (string \<times> node) list \<Rightarrow> string result"
where
  "hmac_node io p c =
     (if ck_fault io CkStat p then Err (CheckpointError ''Failed to stat checkpoint path {:?}: {}'')
      else if (\<exists>t. c = Link t) then Err (CheckpointError ''Checkpoint integrity scan refuses symlink path {:?}'')
      else if \<not> (\<forall>n\<in>set p. ck_utf8 io n) then Err (CheckpointError ''Checkpoint path {:?} is not valid UTF-8'')
      else case c of
          Dir m es \<Rightarrow>
            if ck_fault io CkReadDir p then Err (CheckpointError ''Failed to read checkpoint directory {:?}: {}'')
            else and_then (hmac_entries io p (sort_key fst es)) (\<lambda>s.
              Ok (''D'' @ [CHR 0x00] @ join ''/'' p @ [CHR 0x00] @ s))
        | File content m \<Rightarrow>
            if ck_fault io CkOpen p then Err (CheckpointError ''Failed to open checkpoint file {:?}: {}'')
            else if ck_fault io CkRead p then Err (CheckpointError ''Failed to read checkpoint file {:?}: {}'')
            else Ok (''F'' @ [CHR 0x00] @ join ''/'' p @ [CHR 0x00] @ to_le_bytes (of_nat (length content)) @ content)
        | _ \<Rightarrow> Err (CheckpointError ''Checkpoint integrity scan rejects special file {:?}''))"
| "hmac_entries io p [] = Ok []"
| "hmac_entries io p ((n, c) # es) =
     (if p @ [n] = [CHECKPOINT_HMAC_FILE] then hmac_entries io p es
      else and_then (hmac_node io (p @ [n]) c) (\<lambda>s. and_then (hmac_entries io p es) (\<lambda>t. Ok (s @ t))))"
  by pat_completeness auto
termination
  by (relation "measure (case_sum (\<lambda>(io, p, c). 2 * size c) (\<lambda>(io, p, es). 2 * size_list (size_prod (\<lambda>_. 0) size) es + 1))") auto

definition update_checkpoint_hmac_inner :: "ck_io \<Rightarrow> (string \<times> node) list \<Rightarrow> string result" where
  "update_checkpoint_hmac_inner io es =
     (if ck_fault io CkReadDir [] then Err (CheckpointError ''Failed to read checkpoint directory {:?}: {}'')
      else hmac_entries io [] (sort_key fst es))"

definition key_block :: "ck_io \<Rightarrow> string \<Rightarrow> string" where
  "key_block io key =
     (let k = (if length key > 64 then ck_sha256 io key else key) in k @ replicate (64 - length k) (CHR 0x00))"

definition xor_byte :: "nat \<Rightarrow> char \<Rightarrow> char" where
  "xor_byte b c = char_of (xor b (of_char c))"

definition hmac_tag :: "ck_io \<Rightarrow> string \<Rightarrow> string \<Rightarrow> string" where
  "hmac_tag io key message =
     (let ipad = map (xor_byte 0x36) (key_block io key);
          opad = map (xor_byte 0x5c) (key_block io key)
      in ck_hex io (ck_sha256 io (opad @ ck_sha256 io (ipad @ message))))"

definition compute_checkpoint_hmac :: "ck_io \<Rightarrow> (string \<times> node) list \<Rightarrow> string \<Rightarrow> string result" where
  "compute_checkpoint_hmac io es key = and_then (update_checkpoint_hmac_inner io es) (\<lambda>message. Ok (hmac_tag io key message))"

definition HMAC_TMP :: string where "HMAC_TMP = CHECKPOINT_HMAC_FILE @ ''.tmp''"

definition write_checkpoint_hmac ::
  "ck_io \<Rightarrow> string \<Rightarrow> key_store \<Rightarrow> (string \<times> node) list \<Rightarrow> key_store \<times> (string \<times> node) list \<times> unit result" where
  "write_checkpoint_hmac io partial ks d =
     (case load_or_create_checkpoint_hmac_key io ks of
        (ks, Inl e) \<Rightarrow> (ks, d, Err e)
      | (ks, Inr key) \<Rightarrow>
          (case (case map_of d HMAC_TMP of
                   None \<Rightarrow> (d, Ok ())
                 | Some (Link t) \<Rightarrow> (d, Err (CheckpointError ''Refusing symlink checkpoint HMAC temp file {:?}''))
                 | Some c \<Rightarrow>
                     if ck_fault io CkRemoveTag [] \<or> is_dir_node (Some c)
                     then (d, Err (CheckpointError ''Failed to remove stale checkpoint HMAC temp file {:?}: {}''))
                     else (AList.delete HMAC_TMP d, Ok ())) of
             (d, Inl e) \<Rightarrow> (ks, d, Err e)
           | (d, Inr _) \<Rightarrow>
               (case compute_checkpoint_hmac io d key of
                  Inl e \<Rightarrow> (ks, d, Err e)
                | Inr digest \<Rightarrow>
                    if ck_fault io CkOpenTag [] then (ks, d, Err (CheckpointError ''Failed to open checkpoint HMAC temp file {:?}: {}''))
                    else if ck_fault io CkWriteTag []
                    then (ks, AList.update HMAC_TMP (File partial 384) d, Err (CheckpointError ''Failed to write checkpoint HMAC {:?}: {}''))
                    else if ck_fault io CkSyncTag []
                    then (ks, AList.update HMAC_TMP (File digest 384) d, Err (CheckpointError ''Failed to sync checkpoint HMAC {:?}: {}''))
                    else if ck_fault io CkRenameTag [] \<or> is_dir_node (map_of d CHECKPOINT_HMAC_FILE)
                    then (ks, AList.update HMAC_TMP (File digest 384) d, Err (CheckpointError ''Failed to atomically replace checkpoint HMAC {:?}: {}''))
                    else (ks, AList.update CHECKPOINT_HMAC_FILE (File digest 384) d, Ok ()))))"

definition verify_checkpoint_hmac :: "ck_io \<Rightarrow> key_store \<Rightarrow> (string \<times> node) list \<Rightarrow> key_store \<times> unit result" where
  "verify_checkpoint_hmac io ks d =
     (case (if ck_fault io CkReadTag [] then None else read_nofollow d CHECKPOINT_HMAC_FILE) of
        None \<Rightarrow> (ks, Err (CheckpointError ''Failed to read checkpoint HMAC {:?}: {}''))
      | Some content \<Rightarrow>
          if \<not> ck_utf8 io content then (ks, Err (CheckpointError ''Checkpoint HMAC {:?} is not valid UTF-8: {}''))
          else if trim content = [] then (ks, Err (CheckpointError ''Checkpoint HMAC {:?} is empty''))
          else
            (case load_or_create_checkpoint_hmac_key io ks of
               (ks, Inl e) \<Rightarrow> (ks, Err e)
             | (ks, Inr key) \<Rightarrow>
                 (ks, and_then (compute_checkpoint_hmac io d key) (\<lambda>actual.
                    reject_if (actual \<noteq> trim content)
                      (CheckpointError ''Checkpoint integrity verification failed: HMAC mismatch (expected {}, got {})'')))))"

section \<open>Checkpoint and restore\<close>

text \<open>
  The world of the two operations: the checkpoint directory (\<open>None\<close> when there is none), the key, and the command lines
  of criu that were run. \<open>cx_run\<close> is what running criu does to the directory, and its output unless it cannot be run.
\<close>

record ck_world =
  cw_dir :: "node option"
  cw_keys :: key_store
  cw_runs :: "string list list"

record criu_env =
  ce_io :: ck_io
  ce_dir :: path
  ce_run :: "string list \<Rightarrow> node option \<Rightarrow> node option \<times> criu_output option"
  ce_proc_stat :: "u32 \<Rightarrow> string option"
  ce_to_json :: "checkpoint_metadata \<Rightarrow> string option"
  ce_from_json :: "string \<Rightarrow> checkpoint_metadata option"
  ce_cgroup_dir :: "string \<Rightarrow> control_files"
  ce_now :: u64
  ce_version :: string
  ce_link_ok :: "string \<Rightarrow> bool"
  ce_metadata_fails :: "md_step \<Rightarrow> bool"
  ce_partial :: string
  ce_pidfile :: string
  ce_pid_text :: "string option"

definition node_kind :: "node \<Rightarrow> file_kind" where
  "node_kind c = (case c of File _ _ \<Rightarrow> KFile | Dir _ _ \<Rightarrow> KDir | Link _ \<Rightarrow> KLink | Special \<Rightarrow> KOther)"

text \<open>A directory that is there or is made, with mode 0700.\<close>

definition ensure_secure_dir :: "ck_io \<Rightarrow> string list \<Rightarrow> node option \<Rightarrow> node option \<times> unit result" where
  "ensure_secure_dir io p d =
     (case reject_symlink (map_option node_kind d) of
        Inl e \<Rightarrow> (d, Err e)
      | Inr _ \<Rightarrow>
          (case d of
             Some c \<Rightarrow>
               if \<not> is_dir_node (Some c) then (d, Err (CheckpointError ''{} {:?} is not a directory''))
               else if ck_fault io CkSetPermissions p then (d, Err (CheckpointError ''Failed to set {} permissions {:?}: {}''))
               else (Some (Dir 448 (dir_entries d)), Ok ())
           | None \<Rightarrow>
               if ck_fault io CkCreateDir p then (None, Err (CheckpointError ''Failed to create {} {:?}: {}''))
               else if ck_fault io CkSetPermissions p then (Some (Dir 493 []), Err (CheckpointError ''Failed to set {} permissions {:?}: {}''))
               else (Some (Dir 448 []), Ok ())))"

definition prepare_checkpoint_dir :: "ck_io \<Rightarrow> node option \<Rightarrow> node option \<times> unit result" where
  "prepare_checkpoint_dir io d =
     (case ensure_secure_dir io [] d of
        (d, Inl e) \<Rightarrow> (d, Err e)
      | (d, Inr _) \<Rightarrow>
          (case ensure_secure_dir io [''images''] (map_of (dir_entries d) ''images'') of
             (c, r) \<Rightarrow> (Some (Dir 448 (put_entry ''images'' c (dir_entries d))), r)))"

text \<open>
  The directory with other entries, and the state after an aborted operation, which goes back to \<open>CheckpointNone\<close>
  where the state machine allows it.
\<close>

definition with_entries :: "node option \<Rightarrow> (string \<times> node) list \<Rightarrow> node option" where
  "with_entries d es = (case d of Some (Dir m _) \<Rightarrow> Some (Dir m es) | _ \<Rightarrow> d)"

definition abort_state :: "checkpoint_state \<Rightarrow> checkpoint_state" where
  "abort_state s = (case transition checkpoint_can_transition_to checkpoint_debug s CheckpointNone of Inl _ \<Rightarrow> s | Inr t \<Rightarrow> t)"

definition dump_args :: "criu_env \<Rightarrow> container_state \<Rightarrow> bool \<Rightarrow> string list" where
  "dump_args env state leave_running =
     [''dump'', ''--tree'', show_word (cs_pid state), ''--images-dir'', path_text (path_push (ce_dir env) ''images''), ''--shell-job'']
     @ (if leave_running then [''--leave-running''] else [])"

definition finish_dump ::
  "criu_env \<Rightarrow> container_state \<Rightarrow> criu_runtime \<Rightarrow> ck_world \<Rightarrow> criu_runtime \<times> ck_world \<times> unit result" where
  "finish_dump env state self w =
     (case metadata_from_state (ce_now env) (ce_version env) (ce_cgroup_dir env) state of
        Inl e \<Rightarrow> (self, w, Err e)
      | Inr metadata \<Rightarrow>
          (case metadata_save (ce_to_json env) (ce_link_ok env) (ce_metadata_fails env) (ce_partial env) metadata (dir_entries (cw_dir w)) of
             (es, Inl e) \<Rightarrow> (self, w\<lparr>cw_dir := with_entries (cw_dir w) es\<rparr>, Err e)
           | (es, Inr _) \<Rightarrow>
               (case write_checkpoint_hmac (ce_io env) (ce_partial env) (cw_keys w) es of
                  (ks, es, r) \<Rightarrow>
                    let w = w\<lparr>cw_dir := with_entries (cw_dir w) es, cw_keys := ks\<rparr> in
                    (case and_then r (\<lambda>_. transition checkpoint_can_transition_to checkpoint_debug (cr_state self) Dumped) of
                       Inl e \<Rightarrow> (self, w, Err e)
                     | Inr st \<Rightarrow> (self\<lparr>cr_state := st\<rparr>, w, Ok ())))))"

definition checkpoint ::
  "criu_env \<Rightarrow> container_state \<Rightarrow> bool \<Rightarrow> criu_runtime \<Rightarrow> ck_world \<Rightarrow> criu_runtime \<times> ck_world \<times> unit result" where
  "checkpoint env state leave_running self w =
     (if ck_euid (ce_io env) \<noteq> 0 then (self, w, Err (CheckpointError ''Checkpoint requires root (CRIU needs CAP_SYS_PTRACE)''))
      else if \<not> is_running (ce_proc_stat env) state then (self, w, Err (CheckpointError ''Container {} is not running''))
      else case transition checkpoint_can_transition_to checkpoint_debug (cr_state self) Dumping of
          Inl e \<Rightarrow> (self, w, Err e)
        | Inr st \<Rightarrow>
            let self = self\<lparr>cr_state := st\<rparr> in
            (case prepare_checkpoint_dir (ce_io env) (cw_dir w) of
               (d, Inl e) \<Rightarrow> (self, w\<lparr>cw_dir := d\<rparr>, Err e)
             | (d, Inr _) \<Rightarrow>
                 let args = dump_args env state leave_running;
                     (d, output) = ce_run env args d;
                     w = w\<lparr>cw_dir := d, cw_runs := cw_runs w @ [args]\<rparr>;
                     aborted = self\<lparr>cr_state := abort_state (cr_state self)\<rparr>
                 in case output of
                      None \<Rightarrow> (aborted, w, Err (CheckpointError ''Failed to run criu dump: {}''))
                    | Some out \<Rightarrow>
                        if \<not> co_success out then (aborted, w, Err (CheckpointError ''criu dump failed: {}''))
                        else finish_dump env state self w))"

definition restore_args :: "criu_env \<Rightarrow> string list" where
  "restore_args env =
     [''restore'', ''--images-dir'', path_text (path_push (ce_dir env) ''images''), ''--shell-job'', ''--pidfile'', ce_pidfile env]"

text \<open>The pid of the restored process: the pid file, else a number in the output.\<close>

definition restored_pid :: "criu_env \<Rightarrow> criu_output \<Rightarrow> u32 result" where
  "restored_pid env out =
     (case parse_pidfile (case ce_pid_text env of None \<Rightarrow> [] | Some text \<Rightarrow> text) of
        Some pid \<Rightarrow> Ok pid
      | None \<Rightarrow>
          (case parse_pid_text (co_stdout out) of
             Some pid \<Rightarrow> Ok pid
           | None \<Rightarrow>
               ok_or (parse_pid_text (co_stderr out))
                 (CheckpointError ''Failed to parse restored PID from CRIU output (pidfile='{}', stdout='{}', stderr='{}')'')))"

definition run_restore :: "criu_env \<Rightarrow> criu_runtime \<Rightarrow> ck_world \<Rightarrow> criu_runtime \<times> ck_world \<times> u32 result" where
  "run_restore env self w =
     (if ck_fault (ce_io env) CkPidfile [] then (self, w, Err (CheckpointError ''Failed to create CRIU pidfile: {}''))
      else
        let (d, output) = ce_run env (restore_args env) (cw_dir w);
            w = w\<lparr>cw_dir := d, cw_runs := cw_runs w @ [restore_args env]\<rparr>;
            aborted = self\<lparr>cr_state := abort_state (cr_state self)\<rparr>
        in case output of
             None \<Rightarrow> (aborted, w, Err (CheckpointError ''Failed to run criu restore: {}''))
           | Some out \<Rightarrow>
               if \<not> co_success out then (aborted, w, Err (CheckpointError ''criu restore failed: {}''))
               else case transition checkpoint_can_transition_to checkpoint_debug (cr_state self) Restored of
                   Inl e \<Rightarrow> (self, w, Err e)
                 | Inr st \<Rightarrow> (self\<lparr>cr_state := st\<rparr>, w, restored_pid env out))"

text \<open>\<^verbatim>\<open>Path::exists\<close> follows a link, to a target that \<open>ce_link_ok\<close> says is there.\<close>

definition images_exist :: "criu_env \<Rightarrow> (string \<times> node) list \<Rightarrow> bool" where
  "images_exist env es = (case map_of es ''images'' of None \<Rightarrow> False | Some (Link t) \<Rightarrow> ce_link_ok env t | Some _ \<Rightarrow> True)"

definition restore :: "criu_env \<Rightarrow> criu_runtime \<Rightarrow> ck_world \<Rightarrow> criu_runtime \<times> ck_world \<times> u32 result" where
  "restore env self w =
     (if ck_euid (ce_io env) \<noteq> 0 then (self, w, Err (CheckpointError ''Restore requires root (CRIU needs CAP_SYS_PTRACE)''))
      else case metadata_load (ce_from_json env) (dir_entries (cw_dir w)) of
          Inl e \<Rightarrow> (self, w, Err e)
        | Inr metadata \<Rightarrow>
            if \<not> images_exist env (dir_entries (cw_dir w)) then (self, w, Err (CheckpointError ''Images directory not found: {:?}''))
            else
              (case verify_checkpoint_hmac (ce_io env) (cw_keys w) (dir_entries (cw_dir w)) of
                 (ks, Inl e) \<Rightarrow> (self, w\<lparr>cw_keys := ks\<rparr>, Err e)
               | (ks, Inr _) \<Rightarrow>
                   let w = w\<lparr>cw_keys := ks\<rparr> in
                   (case transition checkpoint_can_transition_to checkpoint_debug (cr_state self) Restoring of
                      Inl e \<Rightarrow> (self, w, Err e)
                    | Inr st \<Rightarrow> run_restore env (self\<lparr>cr_state := st\<rparr>) w)))"

section \<open>The tag determines the files\<close>

text \<open>What the kernel guarantees of a tree: proper names, no name twice in a directory, lengths in 64 bits.\<close>

definition file_name_ok :: "string \<Rightarrow> bool" where
  "file_name_ok n \<longleftrightarrow> n \<noteq> [] \<and> CHR ''/'' \<notin> set n \<and> CHR 0x00 \<notin> set n"

function on_disk :: "node \<Rightarrow> bool" where
  "on_disk (Dir m es) \<longleftrightarrow> distinct (map fst es) \<and> (\<forall>(n, c) \<in> set es. file_name_ok n \<and> on_disk c)"
| "on_disk (File content m) \<longleftrightarrow> length content < 2 ^ 64"
| "on_disk (Link target) = True"
| "on_disk Special = True"
  by pat_completeness auto
termination by (relation "measure size") (auto dest: size_list_estimation'[of _ _ "size _" "size_prod (\<lambda>_. 0) size"] elim!: in_set_conv_decomp[THEN iffD1, elim_format])

text \<open>One record of the bytes under the tag: a path with the content of the file there, or a directory.\<close>

type_synonym item = "string list \<times> string option"

definition item_bytes :: "item \<Rightarrow> string" where
  "item_bytes i = (case i of
      (p, None) \<Rightarrow> ''D'' @ [CHR 0x00] @ join ''/'' p @ [CHR 0x00]
    | (p, Some content) \<Rightarrow> ''F'' @ [CHR 0x00] @ join ''/'' p @ [CHR 0x00] @ to_le_bytes (of_nat (length content)) @ content)"

definition item_ok :: "item \<Rightarrow> bool" where
  "item_ok i \<longleftrightarrow> fst i \<noteq> [] \<and> (\<forall>n\<in>set (fst i). file_name_ok n) \<and> (\<forall>content. snd i = Some content \<longrightarrow> length content < 2 ^ 64)"

lemma to_le_bytes_length [simp]: "length (to_le_bytes n) = 8"
  by (simp add: to_le_bytes_def)

lemma to_le_bytes_inject: "to_le_bytes a = to_le_bytes b \<Longrightarrow> a = b"
proof (rule bit_word_eqI)
  fix k assume eq: "to_le_bytes a = to_le_bytes b" and k: "k < LENGTH(64)"
  let ?byte = "\<lambda>n :: u64. and (drop_bit (8 * (k div 8)) n) 255"
  have small: "unat (?byte n) < 256" for n using word_and_le1[of "drop_bit (8 * (k div 8)) n" 255]
    by (simp add: word_le_nat_alt)
  have "k div 8 < 8" using k by simp
  then have "char_of (unat (?byte a)) = (char_of (unat (?byte b)) :: char)"
    using arg_cong[OF eq, of "\<lambda>s. s ! (k div 8)"] by (simp add: to_le_bytes_def)
  then have "of_char (char_of (unat (?byte a)) :: char) = (of_char (char_of (unat (?byte b)) :: char) :: nat)" by simp
  then have "unat (?byte a) = unat (?byte b)" using small[of a] small[of b] by simp
  then have "?byte a = ?byte b" by (rule word_unat_eq_iff[THEN iffD2])
  then have "bit (?byte a) (k mod 8) = bit (?byte b) (k mod 8)" by simp
  moreover have "k mod 8 < 64" by (rule less_trans[of _ 8]) simp_all
  moreover have "(255 :: u64) = mask 8" by (simp add: mask_eq_exp_minus_1)
  ultimately show "bit a k = bit b k" using k by (simp add: bit_simps)
qed

lemma until_nul: "CHR 0x00 \<notin> set a \<Longrightarrow> CHR 0x00 \<notin> set b \<Longrightarrow> a @ CHR 0x00 # r = b @ CHR 0x00 # s \<Longrightarrow> a = b \<and> r = s"
proof (induction a arbitrary: b)
  case Nil
  then show ?case by (cases b) auto
next
  case (Cons c a)
  then show ?case by (cases b) auto
qed

lemma join_no_nul: "\<forall>n\<in>set p. file_name_ok n \<Longrightarrow> CHR 0x00 \<notin> set (join ''/'' p)"
  by (induction "''/'' :: string" p rule: join.induct) (auto simp: file_name_ok_def)

lemma join_names_inject:
  "p \<noteq> [] \<Longrightarrow> q \<noteq> [] \<Longrightarrow> \<forall>n\<in>set p. file_name_ok n \<Longrightarrow> \<forall>n\<in>set q. file_name_ok n \<Longrightarrow> join ''/'' p = join ''/'' q \<Longrightarrow> p = q"
  by (metis file_name_ok_def split_on_join)

lemma item_bytes_inject:
  assumes "item_ok i" "item_ok j" "item_bytes i @ r = item_bytes j @ s"
  shows "i = j \<and> r = s"
proof -
  obtain p v where i: "i = (p, v)" by (cases i)
  obtain q w where j: "j = (q, w)" by (cases j)
  have nul: "CHR 0x00 \<notin> set (join ''/'' p)" "CHR 0x00 \<notin> set (join ''/'' q)"
    using assms(1,2) i j join_no_nul by (auto simp: item_ok_def)
  have path: "p = q" if "join ''/'' p = join ''/'' q"
    using that assms(1,2) i j join_names_inject by (auto simp: item_ok_def)
  consider "v = None" "w = None" | c d where "v = Some c" "w = Some d"
    using assms(3) i j by (cases v; cases w) (auto simp: item_bytes_def)
  then show ?thesis
  proof cases
    case 1
    then show ?thesis using assms(3) i j until_nul[OF nul, of r s] path by (auto simp: item_bytes_def)
  next
    case 2
    have len: "length c < 2 ^ 64" "length d < 2 ^ 64" using assms(1,2) i j 2 by (auto simp: item_ok_def)
    let ?c = "to_le_bytes (of_nat (length c))" and ?d = "to_le_bytes (of_nat (length d))"
    have b: "join ''/'' p = join ''/'' q" "?c @ c @ r = ?d @ d @ s"
      using assms(3) i j 2 until_nul[OF nul, of "?c @ c @ r" "?d @ d @ s"] by (auto simp: item_bytes_def)
    then have "?c = ?d" "c @ r = d @ s" by (simp_all add: append_eq_append_conv)
    then have "(of_nat (length c) :: u64) = of_nat (length d)" by (intro to_le_bytes_inject)
    then have "unat (of_nat (length c) :: u64) = unat (of_nat (length d) :: u64)" by simp
    then have "length c = length d" using len by (simp add: unat_of_nat)
    with \<open>c @ r = d @ s\<close> path[OF b(1)] i j 2 show ?thesis by simp
  qed
qed

lemma items_inject:
  "\<forall>i\<in>set is. item_ok i \<Longrightarrow> \<forall>j\<in>set js. item_ok j \<Longrightarrow> concat (map item_bytes is) = concat (map item_bytes js) \<Longrightarrow> is = js"
proof (induction "is" arbitrary: js)
  case Nil
  then show ?case by (cases js) (auto simp: item_bytes_def split: prod.splits option.splits)
next
  case (Cons i "is")
  show ?case
  proof (cases js)
    case Nil
    then show ?thesis using Cons.prems by (auto simp: item_bytes_def split: prod.splits option.splits)
  next
    case (Cons j js')
    from item_bytes_inject[of i j "concat (map item_bytes is)" "concat (map item_bytes js')"] Cons Cons.prems
    have "i = j" "concat (map item_bytes is) = concat (map item_bytes js')" by simp_all
    with Cons.IH[of js'] Cons.prems Cons show ?thesis by simp
  qed
qed

text \<open>What the tag says of a path: nothing, a directory, or a file with its content.\<close>

definition shape :: "info option \<Rightarrow> string option option" where
  "shape i = (case i of Some (FileInfo content m) \<Rightarrow> Some (Some content) | Some (DirInfo m) \<Rightarrow> Some None | _ \<Rightarrow> None)"

definition covered :: "string list \<Rightarrow> (string \<times> node) list \<Rightarrow> string list \<Rightarrow> string option option" where
  "covered p es q = (if q = [] \<or> p @ [hd q] = [CHECKPOINT_HMAC_FILE] then None else shape (entries_view es q))"

definition lists_items :: "string list \<Rightarrow> string \<Rightarrow> (string list \<Rightarrow> string option option) \<Rightarrow> item list \<Rightarrow> bool" where
  "lists_items p s v is \<longleftrightarrow> s = concat (map item_bytes is) \<and> (\<forall>i\<in>set is. item_ok i \<and> prefix p (fst i)) \<and> (\<forall>q. map_of is (p @ q) = v q)"

lemma map_of_outside: "\<forall>i\<in>set is. prefix p (fst i) \<Longrightarrow> \<not> prefix p q \<Longrightarrow> map_of is q = None"
  by (auto simp: map_of_eq_None_iff)

lemma map_of_sort_fst: "distinct (map fst es) \<Longrightarrow> map_of (sort_key fst es) = map_of es"
proof
  fix n assume d: "distinct (map fst es)"
  then have "distinct (map fst (sort_key fst es))" by (simp add: distinct_map distinct_sort)
  with d have "map_of (sort_key fst es) n = Some c \<longleftrightarrow> map_of es n = Some c" for c by simp
  then show "map_of (sort_key fst es) n = map_of es n" by (metis not_Some_eq)
qed

lemma hmac_lists_items:
  "hmac_node io p c = Ok s \<Longrightarrow> on_disk c \<Longrightarrow> p \<noteq> [] \<Longrightarrow> \<forall>n\<in>set p. file_name_ok n \<Longrightarrow>
     \<exists>is. lists_items p s (\<lambda>q. shape (view c q)) is"
  "hmac_entries io p es = Ok s \<Longrightarrow> on_disk (Dir 0 es) \<Longrightarrow> \<forall>n\<in>set p. file_name_ok n \<Longrightarrow>
     \<exists>is. lists_items p s (covered p es) is"
proof (induction io p c and io p es arbitrary: s and s rule: hmac_node_hmac_entries.induct)
  case (1 io p c)
  show ?case
  proof (cases c)
    case (File content m)
    then have "lists_items p s (\<lambda>q. shape (view c q)) [(p, Some content)]"
      using 1 by (auto simp: lists_items_def item_bytes_def item_ok_def shape_def neq_Nil_conv split: if_splits)
    then show ?thesis by blast
  next
    case (Dir m es)
    then obtain t where t: "hmac_entries io p (sort_key fst es) = Ok t" "s = ''D'' @ [CHR 0x00] @ join ''/'' p @ [CHR 0x00] @ t"
      using "1.prems"(1) by (auto simp: and_then_Inr_iff split: if_splits)
    have disk: "on_disk (Dir 0 (sort_key fst es))" using "1.prems"(2) Dir by (simp add: distinct_map distinct_sort)
    obtain "is" where i: "lists_items p t (covered p (sort_key fst es)) is"
      using "1.IH"[OF _ _ _ Dir _ t(1) disk] "1.prems" Dir by (auto split: if_splits)
    have "p @ [n] \<noteq> [CHECKPOINT_HMAC_FILE]" for n using "1.prems"(3) by simp
    then have "lists_items p s (\<lambda>q. shape (view c q)) ((p, None) # is)"
      using i t(2) "1.prems" Dir
      by (auto simp: lists_items_def item_bytes_def item_ok_def covered_def shape_def view_dir entries_view_def map_of_sort_fst split: list.splits)
    then show ?thesis by blast
  qed (use "1.prems" in \<open>auto split: if_splits\<close>)
next
  case (2 io p)
  then have "lists_items p s (covered p []) []" by (auto simp: lists_items_def covered_def entries_view_def shape_def split: list.splits)
  then show ?case by blast
next
  case (3 io p n c es)
  have d: "on_disk (Dir 0 es)" "on_disk c" "file_name_ok n" "n \<notin> fst ` set es" using "3.prems"(2) by auto
  show ?case
  proof (cases "p @ [n] = [CHECKPOINT_HMAC_FILE]")
    case True
    obtain "is" where "lists_items p s (covered p es) is" using "3.IH"(1)[OF True _ d(1)] "3.prems" True by auto
    moreover have "covered p es q = covered p ((n, c) # es) q" for q
      using True by (cases q) (auto simp: covered_def entries_view_def)
    ultimately show ?thesis by (auto simp: lists_items_def)
  next
    case False
    with "3.prems"(1) obtain a b where ab: "hmac_node io (p @ [n]) c = Ok a" "hmac_entries io p es = Ok b" "s = a @ b" by (auto simp: and_then_Inr_iff)
    obtain xs where xs: "lists_items (p @ [n]) a (\<lambda>q. shape (view c q)) xs"
      using "3.IH"(2)[OF False ab(1) d(2)] d(3) "3.prems"(3) by auto
    obtain ys where ys: "lists_items p b (covered p es) ys" using "3.IH"(3)[OF False ab(2) d(1)] "3.prems"(3) by auto
    have "map_of (xs @ ys) (p @ q) = covered p ((n, c) # es) q" for q
    proof (cases "\<exists>r. q = n # r")
      case True
      then obtain r where r: "q = n # r" by blast
      have "map_of es n = None" using d(4) by (simp add: map_of_eq_None_iff)
      then have "map_of ys (p @ q) = None" using ys r by (simp add: lists_items_def covered_def entries_view_def shape_def)
      moreover have "map_of xs (p @ q) = shape (view c r)" using xs r by (simp add: lists_items_def)
      ultimately show ?thesis using r False by (auto simp: covered_def entries_view_def map_add_def split: option.splits)
    next
      case no: False
      then have "map_of xs (p @ q) = None"
        using xs by (intro map_of_outside[of _ "p @ [n]"]) (auto simp: lists_items_def prefix_def)
      moreover have "covered p ((n, c) # es) q = covered p es q" using no by (cases q) (auto simp: covered_def entries_view_def)
      ultimately show ?thesis using ys by (simp add: lists_items_def map_add_def split: option.splits)
    qed
    then have "lists_items p s (covered p ((n, c) # es)) (xs @ ys)"
      using xs ys ab(3) by (auto simp: lists_items_def dest: append_prefixD)
    then show ?thesis by blast
  qed
qed

lemma covered_cong: "map_of a = map_of b \<Longrightarrow> covered p a = covered p b"
proof
  fix q assume "map_of a = map_of b"
  then show "covered p a q = covered p b q" by (cases q) (simp_all add: covered_def entries_view_def)
qed

lemma equal_streams_equal_files:
  assumes "on_disk (Dir 0 a)" "on_disk (Dir 0 b)" "update_checkpoint_hmac_inner io a = Ok s" "update_checkpoint_hmac_inner io b = Ok s"
  shows "covered [] a q = covered [] b q"
proof -
  have sorted: "\<exists>is. lists_items [] s (covered [] es) is" if "on_disk (Dir 0 es)" "update_checkpoint_hmac_inner io es = Ok s" for es
  proof -
    have "map_of (sort_key fst es) = map_of es" using that(1) by (intro map_of_sort_fst) simp
    then have "covered [] (sort_key fst es) = covered [] es" by (rule covered_cong)
    moreover have "on_disk (Dir 0 (sort_key fst es))" using that(1) by (simp add: distinct_map distinct_sort)
    ultimately show ?thesis using hmac_lists_items(2)[of io "[]" "sort_key fst es" s] that(2)
      by (auto simp: update_checkpoint_hmac_inner_def split: if_splits)
  qed
  from sorted[OF assms(1,3)] obtain xs where x: "lists_items [] s (covered [] a) xs" by blast
  from sorted[OF assms(2,4)] obtain ys where y: "lists_items [] s (covered [] b) ys" by blast
  from x y have "xs = ys" by (intro items_inject) (auto simp: lists_items_def)
  with x y show ?thesis by (simp add: lists_items_def)
qed

section \<open>The key persists\<close>

text \<open>A key that is used: a file of the user's own, closed to others, in a directory closed to others.\<close>

definition private_meta :: "ck_io \<Rightarrow> key_meta \<Rightarrow> bool" where
  "private_meta io m \<longleftrightarrow> km_kind m \<noteq> KLink \<and> km_owner m = ck_euid io \<and> and (km_mode m) 63 = 0"

lemma load_or_create_Ok:
  assumes "load_or_create_checkpoint_hmac_key io ks = (ks', Ok key)"
  shows "\<exists>dm m. ks_dir ks' = Some dm \<and> km_kind dm = KDir \<and> private_meta io dm \<and> ks_key ks' = Some (m, key) \<and> private_meta io m
    \<and> CHECKPOINT_HMAC_KEY_SIZE \<le> length key \<and> (ks_key ks \<noteq> None \<longrightarrow> ks_key ks' = ks_key ks)"
  using assms
  by (auto simp: load_or_create_checkpoint_hmac_key_def ensure_secure_key_parent_dir_def reject_symlink_def reject_if_def
      load_key_def create_key_def fill_secure_random_def private_meta_def Let_def split: option.splits sum.splits if_splits prod.splits)

lemma load_twice:
  assumes "load_or_create_checkpoint_hmac_key io ks = (ks', Ok key)" "load_or_create_checkpoint_hmac_key io ks' = (ks'', Ok key')"
  shows "key' = key"
  using load_or_create_Ok[OF assms(1)] load_or_create_Ok[OF assms(2)] by auto

text \<open>
  the key of the integrity tag is private and stays. A key that is used has at least 32 bytes and lies, not behind a
  link, in a file and a directory of the user with no access for others; a key that is already there is never
  replaced, and the next use finds the same key.
\<close>

theorem hmac_key_private:
  assumes "load_or_create_checkpoint_hmac_key io ks = (ks', Ok key)"
  shows "(\<exists>dm m. ks_dir ks' = Some dm \<and> km_kind dm = KDir \<and> private_meta io dm \<and> ks_key ks' = Some (m, key) \<and> private_meta io m)
    \<and> CHECKPOINT_HMAC_KEY_SIZE \<le> length key
    \<and> (ks_key ks \<noteq> None \<longrightarrow> ks_key ks' = ks_key ks)
    \<and> (\<forall>ks'' key'. load_or_create_checkpoint_hmac_key io ks' = (ks'', Ok key') \<longrightarrow> key' = key)"
  using load_or_create_Ok[OF assms] load_twice[OF assms] by blast

section \<open>Restoring what was checkpointed\<close>

lemma write_hmac_Ok:
  assumes "write_checkpoint_hmac io partial ks es = (ks', es', Ok ())"
  shows "\<exists>key tag d. load_or_create_checkpoint_hmac_key io ks = (ks', Ok key) \<and> compute_checkpoint_hmac io d key = Ok tag
    \<and> es' = AList.update CHECKPOINT_HMAC_FILE (File tag 384) d \<and> (d = es \<or> d = AList.delete HMAC_TMP es)"
  using assms by (auto simp: write_checkpoint_hmac_def split: prod.splits sum.splits option.splits node.splits if_splits)

lemma covered_tag: "covered [] (AList.update CHECKPOINT_HMAC_FILE c d) = covered [] d"
  by (auto simp: covered_def entries_view_def fun_eq_iff AList.update_conv' split: list.splits)

lemma hmac_entries_skip: "hmac_entries io [] es = hmac_entries io [] (filter (\<lambda>e. fst e \<noteq> CHECKPOINT_HMAC_FILE) es)"
  by (induction es) (auto simp del: hmac_node.simps)

lemma filter_update_same: "filter (\<lambda>e. fst e \<noteq> k) (AList.update k c d) = filter (\<lambda>e. fst e \<noteq> k) d"
  by (induction d) auto

lemma tag_not_covered: "update_checkpoint_hmac_inner io (AList.update CHECKPOINT_HMAC_FILE c d) = update_checkpoint_hmac_inner io d"
  unfolding update_checkpoint_hmac_inner_def
  using hmac_entries_skip[of io "sort_key fst d"] hmac_entries_skip[of io "sort_key fst (AList.update CHECKPOINT_HMAC_FILE c d)"]
  by (simp add: filter_sort filter_update_same)

lemma verify_hmac_Ok:
  assumes "verify_checkpoint_hmac io ks es = (ks', Ok ())"
  shows "\<exists>key content. load_or_create_checkpoint_hmac_key io ks = (ks', Ok key) \<and> read_nofollow es CHECKPOINT_HMAC_FILE = Some content
    \<and> compute_checkpoint_hmac io es key = Ok (trim content)"
  using assms
  by (auto simp: verify_checkpoint_hmac_def and_then_Inr_iff reject_if_def split: prod.splits sum.splits option.splits if_splits)

lemma restore_runs:
  assumes "restore env self w = (self', w', r)" "cw_runs w' \<noteq> cw_runs w"
  shows "\<exists>metadata ks. metadata_load (ce_from_json env) (dir_entries (cw_dir w)) = Ok metadata
    \<and> verify_checkpoint_hmac (ce_io env) (cw_keys w) (dir_entries (cw_dir w)) = (ks, Ok ()) \<and> cw_runs w' = cw_runs w @ [restore_args env]"
  using assms by (auto simp: restore_def run_restore_def Let_def split: if_splits sum.splits prod.splits option.splits)

text \<open>
  C24: criu restores only what was checkpointed. When a restore comes to run criu on a directory that still holds the
  tag written at the checkpoint, every directory and every file below it, its content included, is as it was when the
  tag was written, unless the two trees collide under the tag; and the metadata was read and its limits validated.
\<close>

theorem restore_only_what_was_checkpointed:
  assumes "write_checkpoint_hmac (ce_io env) partial ks es = (ks', es', Ok ())"
    and "restore env self w = (self', w', r)" "cw_runs w' \<noteq> cw_runs w" "cw_keys w = ks'"
    and "map_of (dir_entries (cw_dir w)) CHECKPOINT_HMAC_FILE = map_of es' CHECKPOINT_HMAC_FILE"
    and "on_disk (Dir 0 es')" "on_disk (Dir 0 (dir_entries (cw_dir w)))"
    and "\<And>bytes. trim (ck_hex (ce_io env) bytes) = ck_hex (ce_io env) bytes"
    and "\<And>key a b. update_checkpoint_hmac_inner (ce_io env) es' = Ok a
      \<Longrightarrow> update_checkpoint_hmac_inner (ce_io env) (dir_entries (cw_dir w)) = Ok b
      \<Longrightarrow> hmac_tag (ce_io env) key a = hmac_tag (ce_io env) key b \<Longrightarrow> a = b"
  shows "(\<forall>q. covered [] (dir_entries (cw_dir w)) q = covered [] es' q)
    \<and> (\<exists>metadata. metadata_load (ce_from_json env) (dir_entries (cw_dir w)) = Ok metadata)
    \<and> cw_runs w' = cw_runs w @ [restore_args env]"
proof -
  let ?io = "ce_io env" and ?new = "dir_entries (cw_dir w)"
  obtain metadata ks2 where v: "verify_checkpoint_hmac ?io ks' ?new = (ks2, Ok ())" "metadata_load (ce_from_json env) ?new = Ok metadata"
    "cw_runs w' = cw_runs w @ [restore_args env]" using restore_runs[OF assms(2,3)] assms(4) by auto
  obtain key tag d where wr: "load_or_create_checkpoint_hmac_key ?io ks = (ks', Ok key)" "compute_checkpoint_hmac ?io d key = Ok tag"
    "es' = AList.update CHECKPOINT_HMAC_FILE (File tag 384) d" using write_hmac_Ok[OF assms(1)] by blast
  obtain key2 content where ve: "load_or_create_checkpoint_hmac_key ?io ks' = (ks2, Ok key2)"
    "read_nofollow ?new CHECKPOINT_HMAC_FILE = Some content" "compute_checkpoint_hmac ?io ?new key2 = Ok (trim content)"
    using verify_hmac_Ok[OF v(1)] by blast
  have k: "key2 = key" using load_twice[OF wr(1) ve(1)] .
  have "content = tag" using ve(2) assms(5) wr(3) by (simp add: read_nofollow_def AList.update_conv')
  obtain a where a: "update_checkpoint_hmac_inner ?io es' = Ok a" "tag = hmac_tag ?io key a"
    using wr(2,3) tag_not_covered by (auto simp: compute_checkpoint_hmac_def and_then_Inr_iff)
  obtain b where b: "update_checkpoint_hmac_inner ?io ?new = Ok b" "trim content = hmac_tag ?io key b"
    using ve(3) k by (auto simp: compute_checkpoint_hmac_def and_then_Inr_iff)
  have "trim tag = tag" using a(2) assms(8) by (simp add: hmac_tag_def Let_def)
  then have "a = b" using assms(9)[OF a(1) b(1)] a(2) b(2) \<open>content = tag\<close> by metis
  with equal_streams_equal_files[OF assms(7,6) b(1)] a(1) v(2,3) show ?thesis by blast
qed

definition demo_io :: ck_io where
  "demo_io = \<lparr>ck_fault = (\<lambda>op p. False), ck_utf8 = (\<lambda>_. True), ck_sha256 = (\<lambda>s. s), ck_hex = (\<lambda>_. ''tag''), ck_euid = 0,
     ck_random = replicate 32 CHR ''k''\<rparr>"

definition demo_images :: "(string \<times> node) list" where
  "demo_images = [(''images'', Dir 448 [(''core-1.img'', File ''core'' 384)]), (''metadata.json'', File ''{}'' 384)]"

definition demo_env :: criu_env where
  "demo_env = \<lparr>ce_io = demo_io, ce_dir = [RootDir, Normal ''ckpt''],
     ce_run = (\<lambda>args d. (d, Some \<lparr>co_success = True, co_stdout = [], co_stderr = []\<rparr>)), ce_proc_stat = (\<lambda>_. None),
     ce_to_json = (\<lambda>m. Some ''{}''), ce_from_json = (\<lambda>s. Some sample_metadata), ce_cgroup_dir = (\<lambda>_ _. NotFound), ce_now = 0,
     ce_version = ''0.3.0'', ce_link_ok = (\<lambda>_. True), ce_metadata_fails = (\<lambda>_. False), ce_partial = [],
     ce_pidfile = ''/tmp/pid'', ce_pid_text = Some ''77''\<rparr>"

definition demo_keys :: key_store where
  "demo_keys = \<lparr>ks_dir = Some \<lparr>km_kind = KDir, km_mode = 448, km_owner = 0\<rparr>,
     ks_key = Some (\<lparr>km_kind = KFile, km_mode = 384, km_owner = 0\<rparr>, replicate 32 CHR ''k'')\<rparr>"

definition demo_world :: ck_world where
  "demo_world = \<lparr>cw_dir = Some (Dir 448 (demo_images @ [(CHECKPOINT_HMAC_FILE, File ''tag'' 384)])), cw_keys = demo_keys, cw_runs = []\<rparr>"

lemma demo_io_sel: "\<not> ck_fault demo_io op p" "ck_utf8 demo_io n" "ck_hex demo_io b = ''tag''" "ck_euid demo_io = 0"
  "ck_random demo_io = replicate 32 CHR ''k''"
  by (simp_all add: demo_io_def)

lemma demo_stream: "\<exists>s. update_checkpoint_hmac_inner demo_io demo_images = Ok s"
  by (simp add: update_checkpoint_hmac_inner_def demo_images_def demo_io_sel CHECKPOINT_HMAC_FILE_def)

lemma demo_key: "load_or_create_checkpoint_hmac_key demo_io \<lparr>ks_dir = None, ks_key = None\<rparr> = (demo_keys, Ok (replicate 32 CHR ''k''))"
  "load_or_create_checkpoint_hmac_key demo_io demo_keys = (demo_keys, Ok (replicate 32 CHR ''k''))"
  by (simp_all add: load_or_create_checkpoint_hmac_key_def ensure_secure_key_parent_dir_def reject_symlink_def reject_if_def load_key_def
      create_key_def fill_secure_random_def CHECKPOINT_HMAC_KEY_SIZE_def demo_io_sel demo_keys_def Let_def)

lemma demo_write: "write_checkpoint_hmac demo_io [] \<lparr>ks_dir = None, ks_key = None\<rparr> demo_images
    = (demo_keys, demo_images @ [(CHECKPOINT_HMAC_FILE, File ''tag'' 384)], Ok ())"
proof -
  obtain s where s: "update_checkpoint_hmac_inner demo_io demo_images = Ok s" using demo_stream by blast
  have "map_of demo_images HMAC_TMP = None" "is_dir_node (map_of demo_images CHECKPOINT_HMAC_FILE) = False"
    "AList.update CHECKPOINT_HMAC_FILE (File ''tag'' 384) demo_images = demo_images @ [(CHECKPOINT_HMAC_FILE, File ''tag'' 384)]"
    by (simp_all add: demo_images_def HMAC_TMP_def CHECKPOINT_HMAC_FILE_def)
  then show ?thesis by (simp add: write_checkpoint_hmac_def demo_key compute_checkpoint_hmac_def s hmac_tag_def demo_io_sel)
qed

theorem hmac_key_private_witness:
  "(\<exists>dm m. ks_dir demo_keys = Some dm \<and> km_kind dm = KDir \<and> private_meta demo_io dm
      \<and> ks_key demo_keys = Some (m, replicate 32 CHR ''k'') \<and> private_meta demo_io m)
    \<and> CHECKPOINT_HMAC_KEY_SIZE \<le> length (replicate 32 CHR ''k'')"
  using hmac_key_private[OF demo_key(1)] by blast

lemma demo_restore: "\<exists>self' w'. restore demo_env \<lparr>cr_binary_path = [], cr_state = CheckpointNone\<rparr> demo_world = (self', w', Ok 77)
    \<and> cr_state self' = Restored \<and> cw_runs w' = [restore_args demo_env]"
proof -
  obtain s where s: "update_checkpoint_hmac_inner demo_io (demo_images @ [(CHECKPOINT_HMAC_FILE, File ''tag'' 384)]) = Ok s"
    using demo_stream tag_not_covered[of demo_io "File ''tag'' 384" demo_images] by (auto simp: demo_images_def CHECKPOINT_HMAC_FILE_def)
  have io: "ce_io demo_env = demo_io" by (simp add: demo_env_def)
  have "read_nofollow (demo_images @ [(CHECKPOINT_HMAC_FILE, File ''tag'' 384)]) CHECKPOINT_HMAC_FILE = Some ''tag''"
    by (simp add: read_nofollow_def demo_images_def CHECKPOINT_HMAC_FILE_def)
  then have "verify_checkpoint_hmac demo_io demo_keys (demo_images @ [(CHECKPOINT_HMAC_FILE, File ''tag'' 384)]) = (demo_keys, Ok ())"
    by (simp add: verify_checkpoint_hmac_def demo_io_sel demo_key compute_checkpoint_hmac_def s hmac_tag_def trim_def is_whitespace_def
        reject_if_def)
  moreover have "metadata_load (ce_from_json demo_env) (demo_images @ [(CHECKPOINT_HMAC_FILE, File ''tag'' 384)]) = Ok sample_metadata"
    by (simp add: metadata_load_def read_nofollow_def demo_images_def demo_env_def sample_metadata_def CHECKPOINT_HMAC_FILE_def)
  moreover have "images_exist demo_env (demo_images @ [(CHECKPOINT_HMAC_FILE, File ''tag'' 384)])"
    by (simp add: images_exist_def demo_images_def)
  moreover have "restored_pid demo_env out = Ok 77" for out
    by (simp add: restored_pid_def demo_env_def parse_pidfile_def string_eval)
  moreover have "ce_run demo_env = (\<lambda>args d. (d, Some \<lparr>co_success = True, co_stdout = [], co_stderr = []\<rparr>))"
    by (simp add: demo_env_def)
  ultimately show ?thesis
    by (simp add: restore_def run_restore_def demo_world_def io demo_io_sel transition_def Let_def)
qed

theorem restore_only_what_was_checkpointed_witness:
  "\<exists>self' w'. restore demo_env \<lparr>cr_binary_path = [], cr_state = CheckpointNone\<rparr> demo_world = (self', w', Ok 77)
    \<and> cw_runs w' = [restore_args demo_env]
    \<and> covered [] (dir_entries (cw_dir demo_world)) [''images'', ''core-1.img''] = Some (Some ''core'')"
proof -
  let ?es = "demo_images @ [(CHECKPOINT_HMAC_FILE, File ''tag'' 384)]"
  obtain self' w' where r: "restore demo_env \<lparr>cr_binary_path = [], cr_state = CheckpointNone\<rparr> demo_world = (self', w', Ok 77)"
    "cw_runs w' = [restore_args demo_env]" using demo_restore by blast
  have dir: "dir_entries (cw_dir demo_world) = ?es" by (simp add: demo_world_def)
  have disk: "on_disk (Dir 0 ?es)"
    by (simp add: demo_images_def CHECKPOINT_HMAC_FILE_def file_name_ok_def)
  have w: "write_checkpoint_hmac (ce_io demo_env) [] \<lparr>ks_dir = None, ks_key = None\<rparr> demo_images = (demo_keys, ?es, Ok ())"
    using demo_write by (simp add: demo_env_def)
  have "\<forall>q. covered [] (dir_entries (cw_dir demo_world)) q = covered [] ?es q"
    using restore_only_what_was_checkpointed[OF w r(1)] disk dir r(2)
    by (simp add: demo_world_def demo_env_def demo_io_sel trim_def is_whitespace_def)
  moreover have "covered [] ?es [''images'', ''core-1.img''] = Some (Some ''core'')"
    by (simp add: covered_def entries_view_def demo_images_def CHECKPOINT_HMAC_FILE_def shape_def)
  ultimately show ?thesis using r by auto
qed

text \<open>
  a checkpoint verifies. When no call fails, the tag that a checkpoint wrote is accepted for the directory it left, with
  the key that was used.
\<close>

theorem written_tag_verifies:
  assumes "write_checkpoint_hmac io partial ks es = (ks', es', Ok ())" "\<And>op p. \<not> ck_fault io op p"
    and "\<And>bytes. ck_hex io bytes \<noteq> [] \<and> trim (ck_hex io bytes) = ck_hex io bytes \<and> ck_utf8 io (ck_hex io bytes)"
  shows "verify_checkpoint_hmac io ks' es' = (ks', Ok ())"
proof -
  obtain key tag d where wr: "load_or_create_checkpoint_hmac_key io ks = (ks', Ok key)" "compute_checkpoint_hmac io d key = Ok tag"
    "es' = AList.update CHECKPOINT_HMAC_FILE (File tag 384) d" using write_hmac_Ok[OF assms(1)] by blast
  have l: "load_or_create_checkpoint_hmac_key io ks' = (ks', Ok key)"
    using load_or_create_Ok[OF wr(1)] assms(2)
    by (auto simp: load_or_create_checkpoint_hmac_key_def ensure_secure_key_parent_dir_def reject_symlink_def reject_if_def load_key_def
        private_meta_def)
  have c: "compute_checkpoint_hmac io es' key = Ok tag" using wr(2,3) by (simp add: compute_checkpoint_hmac_def tag_not_covered)
  obtain a where "tag = hmac_tag io key a" using wr(2) by (auto simp: compute_checkpoint_hmac_def and_then_Inr_iff)
  then have "tag \<noteq> []" "trim tag = tag" "ck_utf8 io tag" using assms(3) by (simp_all add: hmac_tag_def Let_def)
  moreover have "read_nofollow es' CHECKPOINT_HMAC_FILE = Some tag" using wr(3) by (simp add: read_nofollow_def AList.update_conv')
  ultimately show ?thesis using assms(2) by (simp add: verify_checkpoint_hmac_def l c reject_if_def)
qed

theorem written_tag_verifies_witness:
  "verify_checkpoint_hmac demo_io demo_keys (demo_images @ [(CHECKPOINT_HMAC_FILE, File ''tag'' 384)]) = (demo_keys, Ok ())"
  using written_tag_verifies[OF demo_write] by (simp add: demo_io_sel trim_def is_whitespace_def)



end
