(* ===== verification/Attach.thy ===== *)
theory Attach
  imports Capabilities Seccomp_Manager Landlock Container_Config
begin

text \<open>
  Entering the namespaces of a running container (\<^verbatim>\<open>src/src/isolation/attach.rs\<close>) to run a command or a probe there, and
  the switch of identity (\<^verbatim>\<open>src/src/container/exec.rs\<close>).

  What happens in the forked child is an action on the record \<open>attached\<close>, the state of that process: the namespaces it
  joined in order, its capabilities, filters and identity, and the program it became. The kernel answers as \<open>attach_kernel\<close>
  says. The parent sees a sequence of answers of \<^verbatim>\<open>waitpid\<close>.
\<close>

section \<open>The process\<close>

record attached =
  at_joined :: "(string \<times> u32) list"
  at_forked :: bool
  at_cwd_root :: bool
  at_no_new_privs :: bool
  at_caps :: caps
  at_filters :: "sock_filter list list"
  at_domains :: "(ruleset \<times> ruleset_status) list"
  at_identity :: "process_identity option"
  at_program :: "(string list \<times> string list) option"

definition attached_new :: "caps \<Rightarrow> attached" where
  "attached_new cs = \<lparr>at_joined = [], at_forked = False, at_cwd_root = False, at_no_new_privs = False, at_caps = cs,
     at_filters = [], at_domains = [], at_identity = None, at_program = None\<rparr>"

record ('c, 'r) attach_kernel =
  ak_opens :: "string \<Rightarrow> bool"
  ak_setns :: "string \<Rightarrow> bool"
  ak_fork :: bool
  ak_second_fork :: bool
  ak_chdir :: bool
  ak_prctl :: bool
  ak_caps :: caps_api
  ak_backend :: "('c, 'r) seccomp_backend"
  ak_arch :: "target_arch option"
  ak_install :: install_answer
  ak_landlock :: landlock_api
  ak_setgroups :: "caps \<Rightarrow> u32 list \<Rightarrow> bool"
  ak_setgid :: "caps \<Rightarrow> u32 \<Rightarrow> bool"
  ak_setuid :: "caps \<Rightarrow> u32 \<Rightarrow> bool"
  ak_execve :: "string list \<Rightarrow> bool"
  ak_connects :: "u16 \<Rightarrow> bool"

type_synonym 'a attach_action = "(attached, 'a) action"

definition try_call :: "bool \<Rightarrow> nucleus_error \<Rightarrow> (attached \<Rightarrow> attached) \<Rightarrow> unit attach_action" where
  "try_call ok e f s = (if ok then (f s, Ok ()) else (s, Err e))"

section \<open>Namespaces\<close>

definition ns_name_to_clone_flag :: "string \<Rightarrow> u32" where
  "ns_name_to_clone_flag name =
     (case match_arm name
        [(''user'', 0x10000000), (''pid'', 0x20000000), (''mnt'', 0x00020000), (''net'', 0x40000000), (''uts'', 0x04000000),
         (''ipc'', 0x08000000), (''cgroup'', 0x02000000)] of
        Some flag \<Rightarrow> flag
      | None \<Rightarrow> 0)"

definition ns_types :: "bool \<Rightarrow> string list" where
  "ns_types is_rootless =
     (if is_rootless then [''user'', ''pid'', ''mnt'', ''net'', ''uts'', ''ipc'', ''cgroup'']
      else [''pid'', ''mnt'', ''net'', ''uts'', ''ipc'', ''cgroup''])"

text \<open>The namespaces that can be opened; the others are skipped.\<close>

definition open_namespace_fds :: "(string \<Rightarrow> bool) \<Rightarrow> bool \<Rightarrow> string list result" where
  "open_namespace_fds opens is_rootless =
     (let ns_fds = filter opens (ns_types is_rootless) in
      if ns_fds = [] then Err (AttachError ''Could not open any namespace FDs'') else Ok ns_fds)"

definition setns :: "('c, 'r) attach_kernel \<Rightarrow> string \<Rightarrow> u32 \<Rightarrow> unit attach_action" where
  "setns k ns flag = try_call (ak_setns k ns) (AttachError ''setns({}) failed: {}'') (\<lambda>s. s\<lparr>at_joined := at_joined s @ [(ns, flag)]\<rparr>)"

definition enter_namespaces :: "('c, 'r) attach_kernel \<Rightarrow> string list \<Rightarrow> unit attach_action" where
  "enter_namespaces k ns_fds =
     seq (each (\<lambda>ns. only_if (ns = ''user'') (setns k ns 0x10000000)) ns_fds) (\<lambda>_.
     seq (each (\<lambda>ns. only_if (ns \<noteq> ''pid'' \<and> ns \<noteq> ''user'') (setns k ns (ns_name_to_clone_flag ns))) ns_fds) (\<lambda>_.
     seq (only_if (''pid'' \<in> set ns_fds)
            (seq (setns k ''pid'' 0x20000000) (\<lambda>_.
             try_call (ak_second_fork k) (AttachError ''Fork failed after setns(pid): {}'') (\<lambda>s. s\<lparr>at_forked := True\<rparr>)))) (\<lambda>_.
     try_call (ak_chdir k) (AttachError ''chdir() failed: {}'') (\<lambda>s. s\<lparr>at_cwd_root := True\<rparr>))))"

section \<open>Hardening\<close>

definition drop_capabilities :: "('c, 'r) attach_kernel \<Rightarrow> unit attach_action" where
  "drop_capabilities k s =
     (case drop_all (ak_caps k) (capability_manager_new (at_caps s)) of
        (m, r) \<Rightarrow> (s\<lparr>at_caps := cm_caps m\<rparr>, map_err (\<lambda>_. AttachError ''Failed to drop capabilities: {}'') r))"

text \<open>A filter or a landlock policy that cannot be applied is only logged.\<close>

definition apply_seccomp :: "('c, 'r) attach_kernel \<Rightarrow> unit attach_action" where
  "apply_seccomp k s =
     (case apply_minimal_filter (ak_backend k) (ak_arch k) (ak_install k) seccomp_manager_new of
        (m, _) \<Rightarrow> (s\<lparr>at_filters := at_filters s @ sm_installed m\<rparr>, Ok ()))"

definition apply_landlock :: "('c, 'r) attach_kernel \<Rightarrow> unit attach_action" where
  "apply_landlock k s =
     (case apply_container_policy_with_mode (ak_landlock k) True landlock_manager_new of
        (m, _) \<Rightarrow> (s\<lparr>at_domains := at_domains s @ lm_domains m\<rparr>, Ok ()))"

definition apply_exec_hardening :: "('c, 'r) attach_kernel \<Rightarrow> unit attach_action" where
  "apply_exec_hardening k =
     seq (try_call (ak_prctl k) (AttachError ''Failed to set PR_SET_NO_NEW_PRIVS: {}'') (\<lambda>s. s\<lparr>at_no_new_privs := True\<rparr>)) (\<lambda>_.
     seq (drop_capabilities k) (\<lambda>_.
     seq (apply_seccomp k) (\<lambda>_. apply_landlock k)))"

section \<open>Running a program\<close>

definition default_exec_env :: "string list" where
  "default_exec_env = [''PATH=/usr/local/sbin:/usr/local/bin:/usr/sbin:/usr/bin:/sbin:/bin'', ''TERM=xterm'', ''HOME=/home/agent'']"

text \<open>A C string has no NUL in it.\<close>

definition cstring_ok :: "string \<Rightarrow> bool" where
  "cstring_ok s \<longleftrightarrow> CHR 0x00 \<notin> set s"

definition exec_with_env :: "('c, 'r) attach_kernel \<Rightarrow> string list \<Rightarrow> string list \<Rightarrow> unit attach_action" where
  "exec_with_env k command env =
     (if \<not> cstring_ok (hd command) then give (Err (AttachError ''Invalid program name: {}''))
      else if \<not> (\<forall>arg\<in>set command. cstring_ok arg) then give (Err (AttachError ''Invalid argument: {}''))
      else try_call (ak_execve k command) (AttachError ''execve failed: {}'') (\<lambda>s. s\<lparr>at_program := Some (command, env)\<rparr>))"

definition enter_and_exec :: "('c, 'r) attach_kernel \<Rightarrow> string list \<Rightarrow> string list \<Rightarrow> unit attach_action" where
  "enter_and_exec k ns_fds command =
     (if command = [] then give (Err (AttachError ''No command specified for attach''))
      else
        seq (enter_namespaces k ns_fds) (\<lambda>_.
        seq (apply_exec_hardening k) (\<lambda>_.
        exec_with_env k command default_exec_env)))"

text \<open>
  The answers of \<^verbatim>\<open>waitpid\<close>. \<open>None\<close> is waiting without end: the answers ran out. An exit code is an \<^verbatim>\<open>i32\<close>.
\<close>

datatype wait_answer = Exited int | Signaled nat | StillAlive | Eintr | WaitFailed | OtherStatus

fun wait_for_child :: "wait_answer list \<Rightarrow> int result option" where
  "wait_for_child [] = None"
| "wait_for_child (Exited code # ws) = Some (Ok code)"
| "wait_for_child (Signaled signal # ws) = Some (Ok (128 + int signal))"
| "wait_for_child (WaitFailed # ws) = Some (Err (AttachError ''waitpid failed: {}''))"
| "wait_for_child (_ # ws) = wait_for_child ws"

text \<open>
  \<open>attach\<close> gives the state in which the child ends its part, as the program or with exit code 1, and what the parent
  returns for the answers it sees.
\<close>

definition attach ::
  "('c, 'r) attach_kernel \<Rightarrow> (u32 \<Rightarrow> string option) \<Rightarrow> u32 \<Rightarrow> container_state \<Rightarrow> string list \<Rightarrow> wait_answer list \<Rightarrow> attached \<Rightarrow>
   attached \<times> int result option" where
  "attach k proc_stat current_uid state command waits s =
     (if \<not> is_running proc_stat state then (s, Some (Err (AttachError ''Container {} is not running'')))
      else if current_uid \<noteq> 0 \<and> current_uid \<noteq> cs_creator_uid state
      then (s, Some (Err (AttachError ''Permission denied: container {} owned by UID {}, caller is UID {}'')))
      else if cs_using_gvisor state then (s, Some (Err (AttachError ''Container {} uses gVisor runtime; attach is not supported'')))
      else case open_namespace_fds (ak_opens k) (cs_rootless state) of
          Inl e \<Rightarrow> (s, Some (Err e))
        | Inr ns_fds \<Rightarrow>
            if \<not> ak_fork k then (s, Some (Err (AttachError ''Fork failed: {}'')))
            else (fst (enter_and_exec k ns_fds command s), wait_for_child waits))"

section \<open>Probes\<close>

datatype namespace_probe = ProbeRun "string list" | ProbeConnect u16

text \<open>\<^verbatim>\<open>Container::apply_process_identity_to_current_process\<close>.\<close>

definition apply_process_identity :: "('c, 'r) attach_kernel \<Rightarrow> process_identity \<Rightarrow> bool \<Rightarrow> unit attach_action" where
  "apply_process_identity k identity inside_user_namespace s =
     seq (only_if (\<not> inside_user_namespace)
            (try_call (ak_setgroups k (at_caps s) (pi_additional_gids identity)) (ExecError ''Failed to set supplementary groups to {:?}: {}'') id)) (\<lambda>_.
     seq (try_call (ak_setgid k (at_caps s) (pi_gid identity)) (ExecError ''Failed to switch to gid {}: {}'') id) (\<lambda>_.
     try_call (ak_setuid k (at_caps s) (pi_uid identity)) (ExecError ''Failed to switch to uid {}: {}'')
       (\<lambda>s. s\<lparr>at_identity := Some identity\<rparr>))) s"

text \<open>An empty command makes the index of its first word panic; the child then dies without running a program.\<close>

definition enter_and_run ::
  "('c, 'r) attach_kernel \<Rightarrow> string list \<Rightarrow> namespace_probe \<Rightarrow> process_identity option \<Rightarrow> bool \<Rightarrow> bool option attach_action" where
  "enter_and_run k ns_fds probe identity is_rootless =
     seq (enter_namespaces k ns_fds) (\<lambda>_.
     seq (apply_exec_hardening k) (\<lambda>_.
     case probe of
       ProbeRun command \<Rightarrow>
         seq (case identity of None \<Rightarrow> give (Ok ()) | Some i \<Rightarrow> apply_process_identity k i is_rootless) (\<lambda>_.
         if command = [] then give (Ok None) else seq (exec_with_env k command default_exec_env) (\<lambda>_. give (Ok None)))
     | ProbeConnect port \<Rightarrow> give (Ok (Some (ak_connects k port)))))"

text \<open>The exit code of the child of a probe, unless it becomes a program or panics (\<open>None\<close>).\<close>

definition probe_exit_code :: "bool option result \<Rightarrow> int option" where
  "probe_exit_code r = (case r of Inl _ \<Rightarrow> Some 125 | Inr None \<Rightarrow> None | Inr (Some ok) \<Rightarrow> Some (if ok then 0 else 1))"

text \<open>
  Waiting for a probe: every poll sees an answer and the time since the start; a child still alive at the limit is
  killed. The second value says whether the child was killed.
\<close>

fun wait_for_probe :: "nat option \<Rightarrow> (wait_answer \<times> nat) list \<Rightarrow> (bool result \<times> bool) option" where
  "wait_for_probe timeout [] = None"
| "wait_for_probe timeout ((StillAlive, elapsed) # ws) =
     (case timeout of
        Some limit \<Rightarrow> if elapsed \<ge> limit then Some (Ok False, True) else wait_for_probe timeout ws
      | None \<Rightarrow> wait_for_probe timeout ws)"
| "wait_for_probe timeout ((Exited code, _) # ws) = Some (Ok (code = 0), False)"
| "wait_for_probe timeout ((Signaled _, _) # ws) = Some (Ok False, False)"
| "wait_for_probe timeout ((WaitFailed, _) # ws) = Some (Err (ExecError ''Failed waiting for namespace helper: {}''), False)"
| "wait_for_probe timeout (_ # ws) = wait_for_probe timeout ws"

definition namespace_run ::
  "('c, 'r) attach_kernel \<Rightarrow> bool \<Rightarrow> bool \<Rightarrow> namespace_probe \<Rightarrow> process_identity option \<Rightarrow> nat option \<Rightarrow> (wait_answer \<times> nat) list \<Rightarrow>
   attached \<Rightarrow> attached \<times> (bool result \<times> bool) option" where
  "namespace_run k is_rootless using_gvisor probe identity timeout waits s =
     (if using_gvisor then (s, Some (Err (ExecError ''Namespace-local exec probes are unsupported for gVisor containers''), False))
      else case open_namespace_fds (ak_opens k) is_rootless of
          Inl e \<Rightarrow> (s, Some (Err e, False))
        | Inr ns_fds \<Rightarrow>
            if \<not> ak_fork k then (s, Some (Err (ExecError ''Failed to fork namespace helper: {}''), False))
            else (fst (enter_and_run k ns_fds probe identity is_rootless s), wait_for_probe timeout waits))"

section \<open>What holds when the program runs\<close>

text \<open>The order in which namespaces are joined: the user namespace first, the pid namespace last.\<close>

definition join_order :: "string list \<Rightarrow> (string \<times> u32) list" where
  "join_order ns_fds =
     map (\<lambda>ns. (ns, 0x10000000)) (filter (\<lambda>ns. ns = ''user'') ns_fds)
     @ map (\<lambda>ns. (ns, ns_name_to_clone_flag ns)) (filter (\<lambda>ns. ns \<noteq> ''pid'' \<and> ns \<noteq> ''user'') ns_fds)
     @ (if ''pid'' \<in> set ns_fds then [(''pid'', 0x20000000)] else [])"

lemma try_call_Ok: "try_call ok e f s = (s', Ok u) \<longleftrightarrow> ok \<and> s' = f s"
  by (auto simp: try_call_def)

lemma each_setns_Ok:
  "each (\<lambda>ns. only_if (P ns) (setns k ns (f ns))) xs s = (s', Ok ()) \<Longrightarrow>
     s' = s\<lparr>at_joined := at_joined s @ map (\<lambda>ns. (ns, f ns)) (filter P xs)\<rparr>"
proof (induction xs arbitrary: s)
  case (Cons x xs)
  let ?s = "if P x then s\<lparr>at_joined := at_joined s @ [(x, f x)]\<rparr> else s"
  have "each (\<lambda>ns. only_if (P ns) (setns k ns (f ns))) xs ?s = (s', Ok ())"
    using Cons.prems by (auto simp: seq_Ok_iff only_if_def setns_def try_call_Ok give_Ok split: if_splits)
  from Cons.IH[OF this] show ?case by auto
qed (simp add: give_Ok)

lemma enter_namespaces_Ok:
  assumes "enter_namespaces k ns_fds s = (s', Ok ())"
  shows "s' = s\<lparr>at_joined := at_joined s @ join_order ns_fds, at_forked := at_forked s \<or> ''pid'' \<in> set ns_fds, at_cwd_root := True\<rparr>"
proof -
  from assms obtain s1 s2 where
    u: "each (\<lambda>ns. only_if (ns = ''user'') (setns k ns 0x10000000)) ns_fds s = (s1, Ok ())" and
    o: "each (\<lambda>ns. only_if (ns \<noteq> ''pid'' \<and> ns \<noteq> ''user'') (setns k ns (ns_name_to_clone_flag ns))) ns_fds s1 = (s2, Ok ())" and
    p: "s' = (if ''pid'' \<in> set ns_fds then s2\<lparr>at_joined := at_joined s2 @ [(''pid'', 0x20000000)], at_forked := True, at_cwd_root := True\<rparr>
      else s2\<lparr>at_cwd_root := True\<rparr>)"
    unfolding enter_namespaces_def by (auto simp: seq_Ok_iff only_if_def setns_def try_call_Ok give_Ok split: if_splits)
  show ?thesis unfolding p each_setns_Ok[OF u] each_setns_Ok[OF o] by (simp add: join_order_def)
qed

lemma drop_all_Ok:
  assumes "caps_sound api" "drop_all api (capability_manager_new cs) = (m, Ok ())"
  shows "cm_caps m c = {}"
proof -
  from assms(2) obtain m1 where d: "drop_bounding_set api (capability_manager_new cs) = (m1, Ok ())" "finalize_drop api m1 = (m, Ok ())"
    by (auto simp: drop_all_def seq_Ok_iff)
  have "cm_phase (capability_manager_new cs) = CapInitial" by (simp add: capability_manager_new_def)
  note b = drop_bounding_set_Ok[OF assms(1) this d(1)]
  note f = finalize_drop_Ok[OF assms(1) b(1) d(2)]
  from b(3-5) f(2-4) show ?thesis by (cases c) (auto dest: shrinks_empty)
qed

lemma hardening_Ok:
  assumes "caps_sound (ak_caps k)" "apply_exec_hardening k s = (s', Ok ())"
  shows "at_no_new_privs s' \<and> (\<forall>c. at_caps s' c = {}) \<and> at_joined s' = at_joined s \<and> at_cwd_root s' = at_cwd_root s
    \<and> at_forked s' = at_forked s \<and> at_program s' = at_program s"
proof -
  from assms(2) obtain s1 s2 where s: "drop_capabilities k (s\<lparr>at_no_new_privs := True\<rparr>) = (s1, Ok ())"
    "apply_seccomp k s1 = (s2, Ok ())" "apply_landlock k s2 = (s', Ok ())"
    by (auto simp: apply_exec_hardening_def seq_Ok_iff try_call_Ok)
  from s(1) obtain m where m: "drop_all (ak_caps k) (capability_manager_new (at_caps s)) = (m, Ok ())"
    "s1 = s\<lparr>at_no_new_privs := True, at_caps := cm_caps m\<rparr>"
    by (auto simp: drop_capabilities_def map_err_def split: prod.splits sum.splits)
  with s(2,3) drop_all_Ok[OF assms(1) m(1)] show ?thesis
    by (auto simp: apply_seccomp_def apply_landlock_def split: prod.splits)
qed

text \<open>Without a program before, a program runs only when every step before succeeded.\<close>

definition keeps_program :: "'a attach_action \<Rightarrow> bool" where
  "keeps_program m \<longleftrightarrow> (\<forall>s. at_program (fst (m s)) = at_program s)"

lemma keeps_seq: "keeps_program m \<Longrightarrow> (\<And>x. keeps_program (f x)) \<Longrightarrow> keeps_program (seq m f)"
  unfolding keeps_program_def seq_def by (auto split: prod.splits sum.splits) (metis fst_conv)+

lemma keeps_call: "(\<And>s. at_program (f s) = at_program s) \<Longrightarrow> keeps_program (try_call ok e f)"
  by (simp add: keeps_program_def try_call_def)

lemma keeps_only_if: "keeps_program m \<Longrightarrow> keeps_program (only_if b m)"
  by (simp add: keeps_program_def only_if_def give_def)

lemma keeps_each: "(\<And>x. keeps_program (f x)) \<Longrightarrow> keeps_program (each f xs)"
proof (induction xs)
  case (Cons x xs)
  then show ?case by (simp add: keeps_seq)
qed (simp add: keeps_program_def give_def)

lemma keeps_steps: "keeps_program (drop_capabilities k)" "keeps_program (apply_seccomp k)" "keeps_program (apply_landlock k)"
  "keeps_program (setns k ns flag)"
  by (auto simp: keeps_program_def drop_capabilities_def apply_seccomp_def apply_landlock_def setns_def try_call_def split: prod.splits)

lemma keeps_phases: "keeps_program (enter_namespaces k ns_fds)" "keeps_program (apply_exec_hardening k)"
  unfolding enter_namespaces_def apply_exec_hardening_def
  by (auto intro!: keeps_seq keeps_each keeps_only_if keeps_steps keeps_call)

lemma keeps_identity: "keeps_program (apply_process_identity k i b)"
  by (auto simp: keeps_program_def apply_process_identity_def seq_def try_call_def only_if_def give_def split: sum.splits prod.splits if_splits)

lemma keepsD: "keeps_program m \<Longrightarrow> m s = (s', r) \<Longrightarrow> at_program s' = at_program s"
  unfolding keeps_program_def by (metis fst_conv)

lemma enter_and_exec_program:
  assumes "enter_and_exec k ns_fds command s = (s', r)" "at_program s = None" "at_program s' \<noteq> None"
  shows "\<exists>s1 s2. enter_namespaces k ns_fds s = (s1, Ok ()) \<and> apply_exec_hardening k s1 = (s2, Ok ())
    \<and> s' = s2\<lparr>at_program := Some (command, default_exec_env)\<rparr> \<and> command \<noteq> []"
proof -
  obtain s1 r1 where e: "enter_namespaces k ns_fds s = (s1, r1)" by fastforce
  obtain s2 r2 where h: "apply_exec_hardening k s1 = (s2, r2)" by fastforce
  have "at_program s2 = None" "at_program s1 = None" using keepsD[OF keeps_phases(1) e] keepsD[OF keeps_phases(2) h] assms(2) by simp_all
  with assms e h show ?thesis
    by (auto simp: enter_and_exec_def seq_def give_def exec_with_env_def try_call_def split: sum.splits if_splits)
qed

text \<open>
  C30: a command attached to a container runs confined. It runs only for root or the creator of a running container
  without gVisor, after the user namespace was joined first and the pid namespace last, each with its flag, from the root
  directory, with no new privileges and with every capability set empty.
\<close>

theorem attached_program_confined:
  assumes "attach k proc_stat uid state command waits (attached_new cs) = (s', r)" "caps_sound (ak_caps k)" "at_program s' \<noteq> None"
  shows "is_running proc_stat state \<and> (uid = 0 \<or> uid = cs_creator_uid state) \<and> \<not> cs_using_gvisor state
    \<and> at_program s' = Some (command, default_exec_env)
    \<and> at_joined s' = join_order (filter (ak_opens k) (ns_types (cs_rootless state)))
    \<and> at_cwd_root s' \<and> at_no_new_privs s' \<and> (\<forall>c. at_caps s' c = {})"
proof -
  have none: "at_program (attached_new cs) = None" "at_joined (attached_new cs) = []" by (simp_all add: attached_new_def)
  from assms(1,3) none obtain ns_fds where ns: "open_namespace_fds (ak_opens k) (cs_rootless state) = Ok ns_fds"
    and s': "s' = fst (enter_and_exec k ns_fds command (attached_new cs))"
    and guards: "is_running proc_stat state" "uid = 0 \<or> uid = cs_creator_uid state" "\<not> cs_using_gvisor state"
    by (auto simp: attach_def split: if_splits sum.splits)
  then obtain r' where "enter_and_exec k ns_fds command (attached_new cs) = (s', r')" by (metis prod.collapse)
  from enter_and_exec_program[OF this none(1) assms(3)] obtain s1 s2 where
    run: "enter_namespaces k ns_fds (attached_new cs) = (s1, Ok ())" "apply_exec_hardening k s1 = (s2, Ok ())"
      "s' = s2\<lparr>at_program := Some (command, default_exec_env)\<rparr>" by blast
  have "ns_fds = filter (ak_opens k) (ns_types (cs_rootless state))"
    using ns by (auto simp: open_namespace_fds_def Let_def split: if_splits)
  with run hardening_Ok[OF assms(2) run(2)] guards enter_namespaces_Ok[OF run(1)] none(2) show ?thesis by simp
qed

section \<open>A kernel\<close>

definition demo_kernel :: "(string \<Rightarrow> bool) \<Rightarrow> (condition, condition list) attach_kernel" where
  "demo_kernel opens = \<lparr>ak_opens = opens, ak_setns = (\<lambda>_. True), ak_fork = True, ak_second_fork = True, ak_chdir = True, ak_prctl = True,
     ak_caps = plain_caps, ak_backend = plain_backend (\<lambda>_. None), ak_arch = Some X86_64, ak_install = (\<lambda>_ _. Ok ()),
     ak_landlock = full_landlock, ak_setgroups = (\<lambda>cs _. CAP_SETGID \<in> cs Effective), ak_setgid = (\<lambda>cs _. CAP_SETGID \<in> cs Effective),
     ak_setuid = (\<lambda>cs _. CAP_SETUID \<in> cs Effective), ak_execve = (\<lambda>_. True), ak_connects = (\<lambda>_. True)\<rparr>"

text \<open>A kernel that grants every call but may not open every namespace.\<close>

definition grants :: "('c, 'r) attach_kernel \<Rightarrow> bool" where
  "grants k \<longleftrightarrow> (\<forall>ns. ak_setns k ns) \<and> ak_fork k \<and> ak_second_fork k \<and> ak_chdir k \<and> ak_prctl k \<and> (\<forall>command. ak_execve k command)"

lemma each_setns_grants: "grants k \<Longrightarrow> each (\<lambda>ns. only_if (P ns) (setns k ns (f ns))) xs s
    = (s\<lparr>at_joined := at_joined s @ map (\<lambda>ns. (ns, f ns)) (filter P xs)\<rparr>, Ok ())"
  by (induction xs arbitrary: s) (simp_all add: give_def seq_def only_if_def setns_def try_call_def grants_def)

lemma enter_namespaces_grants: "grants k \<Longrightarrow> \<exists>s'. enter_namespaces k ns_fds s = (s', Ok ())"
  unfolding enter_namespaces_def
  by (simp add: seq_Ok[OF each_setns_grants], simp add: only_if_def seq_def setns_def try_call_def give_def grants_def)

lemma hardening_grants:
  assumes "grants k" "drop_all (ak_caps k) (capability_manager_new (at_caps s)) = (m, Ok ())"
  shows "\<exists>s'. apply_exec_hardening k s = (s', Ok ())"
  using assms by (simp add: apply_exec_hardening_def seq_def try_call_def drop_capabilities_def grants_def map_err_def apply_seccomp_def
      apply_landlock_def split: prod.splits)

lemma enter_and_exec_grants:
  assumes "grants k" "drop_all (ak_caps k) (capability_manager_new (at_caps s)) = (m, Ok ())"
    and "command \<noteq> []" "\<forall>arg\<in>set command. cstring_ok arg"
  shows "at_program (fst (enter_and_exec k ns_fds command s)) = Some (command, default_exec_env)"
proof -
  obtain s1 where s1: "enter_namespaces k ns_fds s = (s1, Ok ())" using enter_namespaces_grants[OF assms(1)] by blast
  have "at_caps s1 = at_caps s" using enter_namespaces_Ok[OF s1] by simp
  with hardening_grants[OF assms(1)] assms(2) obtain s2 where "apply_exec_hardening k s1 = (s2, Ok ())" by metis
  with s1 assms show ?thesis by (simp add: enter_and_exec_def seq_def exec_with_env_def try_call_def grants_def)
qed

lemma demo_kernel_sel: "grants (demo_kernel opens)" "ak_caps (demo_kernel opens) = plain_caps" "ak_opens (demo_kernel opens) = opens"
  by (simp_all add: grants_def demo_kernel_def)

lemma demo_drop_all: "drop_all plain_caps (capability_manager_new (\<lambda>_. {CAP_SETUID})) = (\<lparr>cm_phase = CapDropped, cm_caps = (\<lambda>_. {})\<rparr>, Ok ())"
proof -
  have "ca_clear plain_caps s cs = (cs(s := {}), True)" for s cs by (simp add: plain_caps_def)
  then show ?thesis
    by (simp add: drop_all_def plain_drop_bounding seq_def finalize_drop_def give_def caps_call_def set_phase_def modify_def fun_eq_iff)
qed

definition demo_stat :: "u32 \<Rightarrow> string option" where
  "demo_stat pid = Some ''1 (sh) S 1 1 1 0 -1 0 0 0 0 0 0 0 0 0 20 0 1 0 7 0''"

definition demo_running :: container_state where
  "demo_running = (demo_state ''c1'')\<lparr>cs_start_ticks := 7, cs_rootless := True, cs_using_gvisor := False\<rparr>"

lemma demo_is_running: "is_running demo_stat demo_running"
  by (simp add: is_running_def demo_stat_def demo_running_def demo_state_def state_new_def parse_start_ticks_def string_eval)

theorem attached_program_confined_witness:
  "\<exists>s' r. attach (demo_kernel (\<lambda>_. True)) demo_stat 0 demo_running [''ls''] [Exited 0] (attached_new (\<lambda>_. {CAP_SETUID})) = (s', r)
    \<and> at_joined s' = [(''user'', 0x10000000), (''mnt'', 0x00020000), (''net'', 0x40000000), (''uts'', 0x04000000), (''ipc'', 0x08000000),
        (''cgroup'', 0x02000000), (''pid'', 0x20000000)]
    \<and> at_caps s' Effective = {}"
proof -
  let ?k = "demo_kernel (\<lambda>_. True)" and ?s = "attached_new (\<lambda>_. {CAP_SETUID})"
  obtain s' r where a: "attach ?k demo_stat 0 demo_running [''ls''] [Exited 0] ?s = (s', r)" by fastforce
  have "at_program (fst (enter_and_exec ?k (ns_types True) [''ls''] ?s)) = Some ([''ls''], default_exec_env)"
    by (rule enter_and_exec_grants) (simp_all add: demo_kernel_sel attached_new_def demo_drop_all cstring_ok_def)
  then have "at_program s' \<noteq> None"
    using a demo_is_running by (auto simp: attach_def open_namespace_fds_def Let_def demo_kernel_def demo_running_def ns_types_def)
  from attached_program_confined[OF a _ this] have
    "at_joined s' = join_order (filter (ak_opens ?k) (ns_types (cs_rootless demo_running)))" "at_caps s' Effective = {}"
    by (simp_all add: demo_kernel_sel plain_caps_sound)
  moreover have "join_order (filter (ak_opens ?k) (ns_types (cs_rootless demo_running)))
    = [(''user'', 0x10000000), (''mnt'', 0x00020000), (''net'', 0x40000000), (''uts'', 0x04000000), (''ipc'', 0x08000000),
        (''cgroup'', 0x02000000), (''pid'', 0x20000000)]"
    by (simp add: join_order_def ns_types_def demo_running_def demo_kernel_sel ns_name_to_clone_flag_def)
  ultimately show ?thesis using a by simp
qed

section \<open>Namespaces that cannot be opened\<close>

text \<open>
  attaching fails open. A namespace of the container that cannot be opened is left out without an error: when every other
  call succeeds, the command runs in the caller's own network namespace.
\<close>

theorem attach_skips_unopened_namespace:
  assumes "grants k" "drop_all (ak_caps k) (capability_manager_new cs) = (m, Ok ())" "caps_sound (ak_caps k)"
    and "is_running proc_stat state" "\<not> cs_using_gvisor state" "\<not> ak_opens k ''net''" "ak_opens k ''mnt''"
    and "command \<noteq> []" "\<forall>arg\<in>set command. cstring_ok arg"
  shows "\<exists>s'. attach k proc_stat 0 state command waits (attached_new cs) = (s', wait_for_child waits)
    \<and> at_program s' = Some (command, default_exec_env) \<and> ''net'' \<notin> fst ` set (at_joined s')"
proof -
  let ?ns = "filter (ak_opens k) (ns_types (cs_rootless state))"
  have ns: "open_namespace_fds (ak_opens k) (cs_rootless state) = Ok ?ns"
    using assms(7) by (auto simp: open_namespace_fds_def ns_types_def Let_def)
  have p: "at_program (fst (enter_and_exec k ?ns command (attached_new cs))) = Some (command, default_exec_env)"
    using assms(2) by (intro enter_and_exec_grants assms(1,8,9)) (simp add: attached_new_def)
  let ?s' = "fst (enter_and_exec k ?ns command (attached_new cs))"
  have a: "attach k proc_stat 0 state command waits (attached_new cs) = (?s', wait_for_child waits)"
    using assms(1,4,5) ns by (simp add: attach_def grants_def)
  obtain s1 s2 where run: "enter_namespaces k ?ns (attached_new cs) = (s1, Ok ())" "apply_exec_hardening k s1 = (s2, Ok ())"
      "?s' = s2\<lparr>at_program := Some (command, default_exec_env)\<rparr>"
    using enter_and_exec_program[of k ?ns command "attached_new cs"] p by (metis attached.select_convs(9) attached_new_def option.distinct(1) prod.collapse)
  have "at_joined ?s' = join_order ?ns"
    using run(3) hardening_Ok[OF assms(3) run(2)] enter_namespaces_Ok[OF run(1)] by (simp add: attached_new_def)
  moreover have "''net'' \<notin> fst ` set (join_order ?ns)" using assms(6) by (auto simp: join_order_def split: if_splits)
  ultimately show ?thesis using a p by auto
qed

theorem attach_skips_unopened_namespace_witness:
  "\<exists>s'. attach (demo_kernel (\<lambda>ns. ns \<noteq> ''net'')) demo_stat 0 demo_running [''ls''] [Exited 0] (attached_new (\<lambda>_. {CAP_SETUID}))
      = (s', Some (Ok 0))
    \<and> at_program s' = Some ([''ls''], default_exec_env) \<and> ''net'' \<notin> fst ` set (at_joined s')"
  using attach_skips_unopened_namespace[of "demo_kernel (\<lambda>ns. ns \<noteq> ''net'')" "\<lambda>_. {CAP_SETUID}" _ demo_stat demo_running "[''ls'']" "[Exited 0]"]
    demo_is_running
  by (simp add: demo_kernel_sel demo_drop_all plain_caps_sound cstring_ok_def demo_running_def)

section \<open>Probes of a native container\<close>

text \<open>The kernel lets a process set its supplementary groups only with \<^verbatim>\<open>CAP_SETGID\<close>.\<close>

definition setgroups_privileged :: "('c, 'r) attach_kernel \<Rightarrow> bool" where
  "setgroups_privileged k \<longleftrightarrow> (\<forall>cs gids. ak_setgroups k cs gids \<longrightarrow> CAP_SETGID \<in> cs Effective)"

lemma demo_privileged: "setgroups_privileged (demo_kernel opens)"
  by (simp add: setgroups_privileged_def demo_kernel_def)

lemma helper_exits_125:
  assumes "caps_sound (ak_caps k)" "setgroups_privileged k"
    and "enter_and_run k ns_fds (ProbeRun command) (Some identity) False s = (s', r)" "at_program s = None"
  shows "at_program s' = None \<and> probe_exit_code r = Some 125"
proof -
  obtain s1 r1 where e: "enter_namespaces k ns_fds s = (s1, r1)" by fastforce
  obtain s2 r2 where h: "apply_exec_hardening k s1 = (s2, r2)" by fastforce
  have none: "at_program s1 = None" "at_program s2 = None"
    using keepsD[OF keeps_phases(1) e] keepsD[OF keeps_phases(2) h] assms(4) by simp_all
  have refused: "\<not> ak_setgroups k (at_caps s2) gids" if "r2 = Ok ()" for gids
    using hardening_Ok[OF assms(1)] h that assms(2) by (auto simp: setgroups_privileged_def)
  show ?thesis using assms(3) e h none refused
    by (cases r1; cases r2)
      (auto simp: enter_and_run_def seq_def apply_process_identity_def only_if_def try_call_def probe_exit_code_def)
qed

text \<open>
  a command probe never runs in a container without a user namespace. The helper drops every capability and only
  then switches to the identity of the workload; setting the supplementary groups needs \<^verbatim>\<open>CAP_SETGID\<close>, so it fails,
  the helper exits with 125 and the probe counts as failed, whatever the command is.
\<close>

theorem exec_probe_never_runs:
  assumes "caps_sound (ak_caps k)" "setgroups_privileged k"
    and "enter_and_run k ns_fds (ProbeRun command) (Some identity) False s = (s', r)" "at_program s = None"
  shows "at_program s' = None \<and> probe_exit_code r = Some 125 \<and> wait_for_probe timeout ((Exited 125, t) # ws) = Some (Ok False, False)"
  using helper_exits_125[OF assms] by simp

theorem exec_probe_never_runs_witness:
  "\<exists>s' r. enter_and_run (demo_kernel (\<lambda>_. True)) (ns_types False) (ProbeRun [''true'']) (Some root_identity) False (attached_new (\<lambda>_. UNIV)) = (s', r)
    \<and> at_program s' = None \<and> probe_exit_code r = Some 125"
proof -
  obtain s' r where e: "enter_and_run (demo_kernel (\<lambda>_. True)) (ns_types False) (ProbeRun [''true'']) (Some root_identity) False
      (attached_new (\<lambda>_. UNIV)) = (s', r)" by fastforce
  have "caps_sound (ak_caps (demo_kernel (\<lambda>_. True)))" by (simp add: demo_kernel_sel plain_caps_sound)
  from exec_probe_never_runs[OF this demo_privileged e] e show ?thesis by (simp add: attached_new_def)
qed

section \<open>The wait for a probe\<close>

lemma wait_for_probe_outcome:
  "wait_for_probe timeout polls = Some (r, killed) \<Longrightarrow>
     (r = Ok True \<longrightarrow> (\<exists>t. (Exited 0, t) \<in> set polls))
     \<and> (killed \<longrightarrow> r = Ok False \<and> (\<exists>limit t. timeout = Some limit \<and> limit \<le> t \<and> (StillAlive, t) \<in> set polls))"
  by (induction timeout polls rule: wait_for_probe.induct) (auto split: option.splits if_splits)

lemma wait_for_probe_returns:
  "(a, t) \<in> set polls \<Longrightarrow> a \<noteq> Eintr \<Longrightarrow> a \<noteq> OtherStatus \<Longrightarrow> (a = StillAlive \<Longrightarrow> limit \<le> t) \<Longrightarrow> \<exists>out. wait_for_probe (Some limit) polls = Some out"
proof (induction polls)
  case (Cons p polls)
  obtain b u where p: "p = (b, u)" by fastforce
  then show ?case using Cons by (cases b) auto
qed simp

text \<open>
  a probe with a limit ends. When the polls are at least the interval of 50 milliseconds apart and each sees the child
  alive or ended, the wait is over after as many polls as the limit has intervals, and one more; a probe counts as passed
  only when the child exited with 0, and the child is killed only when it is still alive at the limit.
\<close>

theorem probe_wait_bounded:
  assumes "\<And>i. i < length polls \<Longrightarrow> 50 * i \<le> snd (polls ! i) \<and> fst (polls ! i) \<noteq> Eintr \<and> fst (polls ! i) \<noteq> OtherStatus"
    and "limit + 50 \<le> 50 * length polls"
  shows "\<exists>r killed. wait_for_probe (Some limit) polls = Some (r, killed)
    \<and> (r = Ok True \<longrightarrow> (\<exists>t. (Exited 0, t) \<in> set polls))
    \<and> (killed \<longrightarrow> r = Ok False \<and> (\<exists>t \<ge> limit. (StillAlive, t) \<in> set polls))"
proof -
  let ?n = "length polls - 1"
  have n: "?n < length polls" "limit \<le> 50 * ?n" using assms(2) by auto
  obtain a t where at: "polls ! ?n = (a, t)" by fastforce
  then have "(a, t) \<in> set polls" using n(1) nth_mem by metis
  moreover have "a \<noteq> Eintr" "a \<noteq> OtherStatus" "limit \<le> t" using assms(1)[OF n(1)] n(2) at by auto
  ultimately obtain r killed where w: "wait_for_probe (Some limit) polls = Some (r, killed)" using wait_for_probe_returns by (metis surj_pair)
  with wait_for_probe_outcome[OF w] show ?thesis by auto
qed

theorem probe_wait_bounded_witness:
  "\<exists>r killed. wait_for_probe (Some 100) [(StillAlive, 0), (StillAlive, 60), (StillAlive, 115)] = Some (r, killed)"
proof -
  let ?polls = "[(StillAlive, 0), (StillAlive, 60), (StillAlive, 115)] :: (wait_answer \<times> nat) list"
  have "50 * i \<le> snd (?polls ! i) \<and> fst (?polls ! i) \<noteq> Eintr \<and> fst (?polls ! i) \<noteq> OtherStatus" if "i < length ?polls" for i
    using that by (auto simp: less_Suc_eq)
  from probe_wait_bounded[of ?polls 100, OF this] show ?thesis by auto
qed

end
