(* ===== verification/Workload.thy ===== *)
theory Workload
  imports Attach
begin

text \<open>
  The start of the workload (\<^verbatim>\<open>src/src/container/exec.rs\<close>): the environment and arguments it is given, the init process
  that waits for it, and the guards before a launch (\<^verbatim>\<open>src/src/container/guards.rs\<close>).

  \<open>exec_command\<close> gives the arguments and the environment with which the process is replaced. What it asks of the host is
  the record \<open>exec_host\<close>.
\<close>

section \<open>Guards\<close>

definition apply_trust_level_guards :: "bool \<Rightarrow> container_config \<Rightarrow> container_config result" where
  "apply_trust_level_guards gvisor_available config =
     (case cc_trust_level config of
        Trusted \<Rightarrow> Ok config
      | Untrusted \<Rightarrow>
          if cc_network config = Host then Err (ConfigError ''Untrusted workloads cannot use native host network mode.'')
          else if cc_network config = GVisorHost \<and> \<not> (cc_use_gvisor config \<and> cc_allow_host_network config)
          then Err (ConfigError ''Untrusted workloads require --runtime gvisor and --allow-host-network for --network gvisor-host.'')
          else if \<not> cc_use_gvisor config then
            if gvisor_available then Ok (config\<lparr>cc_use_gvisor := True\<rparr>)
            else if cc_allow_degraded_security config then Ok config
            else Err (ConfigError ''Untrusted workloads require gVisor (runsc).'')
          else Ok config)"

definition apply_network_mode_guards :: "container_config \<Rightarrow> container_config result" where
  "apply_network_mode_guards config =
     (case cc_network config of
        Host \<Rightarrow>
          if cc_use_gvisor config
          then Err (NetworkError ''gVisor host networking requires --network gvisor-host; --network host is native host networking'')
          else if \<not> cc_allow_host_network config
          then Err (NetworkError ''Host network mode requires explicit opt-in: pass --allow-host-network'')
          else Ok (config\<lparr>cc_namespaces := (cc_namespaces config)\<lparr>ns_net := False\<rparr>\<rparr>)
      | GVisorHost \<Rightarrow>
          if \<not> cc_use_gvisor config then Err (NetworkError ''gVisor host network mode requires --runtime gvisor'')
          else if \<not> cc_allow_host_network config
          then Err (NetworkError ''gVisor host network mode requires explicit opt-in: pass --allow-host-network'')
          else Ok config
      | _ \<Rightarrow> Ok config)"

definition parse_active_lockdown_mode :: "string \<Rightarrow> kernel_lockdown_mode option" where
  "parse_active_lockdown_mode content =
     (case split_once CHR ''['' content of
        None \<Rightarrow> None
      | Some (_, after) \<Rightarrow>
          (case split_once CHR '']'' after of
             None \<Rightarrow> None
           | Some (mode, _) \<Rightarrow>
               if mode = ''integrity'' then Some Integrity
               else if mode = ''confidentiality'' then Some Confidentiality
               else None))"

definition assert_kernel_lockdown :: "string option \<Rightarrow> container_config \<Rightarrow> unit result" where
  "assert_kernel_lockdown lockdown_file config =
     (case cc_required_kernel_lockdown config of
        None \<Rightarrow> Ok ()
      | Some required \<Rightarrow>
          and_then (ok_or lockdown_file (ConfigError ''Kernel lockdown assertion requested, but {} could not be read: {}'')) (\<lambda>content.
          and_then (ok_or (parse_active_lockdown_mode content)
            (ConfigError ''Kernel lockdown assertion requested, but active mode could not be parsed from {}'')) (\<lambda>active.
          if lockdown_accepts required active then Ok ()
          else Err (ConfigError ''Kernel lockdown mode {} does not satisfy required mode {}''))))"

section \<open>The environment of the workload\<close>

definition BLOCKED_ENV_VARS :: "string list" where
  "BLOCKED_ENV_VARS = [''LD_PRELOAD'', ''LD_LIBRARY_PATH'', ''LD_AUDIT'', ''LD_DEBUG'', ''LD_PROFILE'', ''LD_DYNAMIC_WEAK'', ''LD_SHOW_AUXV'']"

record exec_host =
  eh_chdir :: "path \<Rightarrow> bool"
  eh_notify_socket :: "string option"
  eh_canonicalize :: "string \<Rightarrow> string option"
  eh_execve :: "string list \<Rightarrow> string list \<Rightarrow> bool"

definition has_traversal :: "string \<Rightarrow> bool" where
  "has_traversal socket \<longleftrightarrow> contains ''/../'' socket \<or> ends_with ''/..'' socket \<or> CHR 0x00 \<in> set socket"

definition under_run :: "string \<Rightarrow> bool" where
  "under_run p \<longleftrightarrow> prefix ''/run/'' p \<or> prefix ''/var/run/'' p"

text \<open>A path that does not exist yet is checked as it is written.\<close>

definition notify_socket_allowed :: "exec_host \<Rightarrow> string \<Rightarrow> bool" where
  "notify_socket_allowed h socket =
     (let is_abstract = prefix ''@'' socket;
          is_safe_path = (if \<not> is_abstract \<and> \<not> has_traversal socket
            then (case eh_canonicalize h socket of Some canonical \<Rightarrow> under_run canonical | None \<Rightarrow> under_run socket) else False)
      in (is_abstract \<or> is_safe_path) \<and> \<not> has_traversal socket)"

definition env_entry :: "string \<Rightarrow> string \<times> string \<Rightarrow> string result" where
  "env_entry msg kv = (let e = fst kv @ ''='' @ snd kv in if cstring_ok e then Ok e else Err (ExecError msg))"

definition user_env :: "container_config \<Rightarrow> (string \<times> string) list" where
  "user_env config = filter (\<lambda>(key, _). key \<notin> set BLOCKED_ENV_VARS \<and> \<not> credential_broker_owns_env config key) (cc_environment config)"

definition derived_env :: "container_config \<Rightarrow> (string \<times> string) list" where
  "derived_env config =
     filter (\<lambda>(key, _). key \<notin> set BLOCKED_ENV_VARS
       \<and> \<not> (\<not> credential_broker_owns_env config key \<and> (\<exists>(existing_key, _) \<in> set (cc_environment config). existing_key = key)))
       (cc_derived_environment config)"

definition gpu_env :: "container_config \<Rightarrow> (string \<times> string) list" where
  "gpu_env config =
     (case cc_gpu config of None \<Rightarrow> [] | Some gpu \<Rightarrow> filter (\<lambda>(key, _). key \<notin> set BLOCKED_ENV_VARS) (gpu_environment gpu))"

definition home_env :: "container_config \<Rightarrow> (string \<times> string) list" where
  "home_env config =
     (if \<exists>(key, _) \<in> set (cc_environment config). key = ''HOME'' then [] else [(''HOME'', path_text (cc_home config))])"

definition notify_env :: "exec_host \<Rightarrow> container_config \<Rightarrow> (string \<times> string) list" where
  "notify_env h config =
     (if cc_sd_notify config then
        (case eh_notify_socket h of
           None \<Rightarrow> []
         | Some socket \<Rightarrow> if notify_socket_allowed h socket then [(''NOTIFY_SOCKET'', socket)] else [])
      else [])"

definition workload_env :: "exec_host \<Rightarrow> container_config \<Rightarrow> string list result" where
  "workload_env h config =
     and_then (try_map (env_entry ''Invalid environment HOME: {}'') (home_env config)) (\<lambda>home.
     and_then (try_map (env_entry ''Invalid NOTIFY_SOCKET: {}'') (notify_env h config)) (\<lambda>notify.
     and_then (try_map (env_entry ''Invalid environment variable value for {}: {}'') (user_env config)) (\<lambda>user.
     and_then (try_map (env_entry ''Invalid derived environment variable value for {}: {}'') (derived_env config)) (\<lambda>derived.
     and_then (try_map (env_entry ''Invalid GPU env {}: {}'') (gpu_env config)) (\<lambda>gpu.
     Ok ([''PATH=/usr/local/sbin:/usr/local/bin:/usr/sbin:/usr/bin:/sbin:/bin'', ''TERM=xterm''] @ home @ notify @ user @ derived @ gpu))))))"

definition exec_command :: "exec_host \<Rightarrow> container_config \<Rightarrow> (string list \<times> string list) result" where
  "exec_command h config =
     (if cc_command config = [] then Err (ExecError ''No command specified'')
      else if \<not> eh_chdir h (cc_workdir config) then Err (ExecError ''Failed to set working directory to {}: {}'')
      else if \<not> cstring_ok (hd (cc_command config)) then Err (ExecError ''Invalid program name: {}'')
      else if \<not> (\<forall>arg\<in>set (cc_command config). cstring_ok arg) then Err (ExecError ''Invalid argument: {}'')
      else
        and_then (workload_env h config) (\<lambda>env.
        if eh_execve h (cc_command config) env then Ok (cc_command config, env) else Err (SyscallError ''{}'')))"

section \<open>The init process\<close>

text \<open>What \<^verbatim>\<open>waitpid(-1)\<close> answers to the init process.\<close>

datatype reap_answer = ReapExited u32 int | ReapSignaled u32 nat | ReapEchild | ReapEintr | ReapFailed | ReapOther

fun init_loop :: "u32 \<Rightarrow> reap_answer list \<Rightarrow> (int \<times> u32 list) option" where
  "init_loop child [] = None"
| "init_loop child (ReapExited pid code # ws) =
     (if pid = child then Some (code, [pid]) else map_option (\<lambda>(c, reaped). (c, pid # reaped)) (init_loop child ws))"
| "init_loop child (ReapSignaled pid signal # ws) =
     (if pid = child then Some (128 + int signal, [pid]) else map_option (\<lambda>(c, reaped). (c, pid # reaped)) (init_loop child ws))"
| "init_loop child (ReapEchild # ws) = Some (1, [])"
| "init_loop child (ReapFailed # ws) = Some (1, [])"
| "init_loop child (_ # ws) = init_loop child ws"

section \<open>Guards hold\<close>

text \<open>
  an untrusted workload gets gVisor. When both guards pass, it never has the native host network and keeps its network
  namespace, its runtime is gVisor unless degraded security was asked for, and nothing else of the configuration changes.
\<close>

theorem untrusted_workload_guarded:
  assumes "apply_trust_level_guards gvisor_available config = Ok config1" "apply_network_mode_guards config1 = Ok config2"
    and "cc_trust_level config = Untrusted"
  shows "cc_network config2 \<noteq> Host \<and> (cc_use_gvisor config2 \<or> cc_allow_degraded_security config)
    \<and> (cc_network config2 = GVisorHost \<longrightarrow> cc_use_gvisor config2 \<and> cc_allow_host_network config)
    \<and> (\<exists>b. config2 = config\<lparr>cc_use_gvisor := b\<rparr>)"
proof -
  have "config = config\<lparr>cc_use_gvisor := cc_use_gvisor config\<rparr>" by simp
  then have "\<exists>b. config = config\<lparr>cc_use_gvisor := b\<rparr>" by blast
  moreover have "config2 = config1" if "cc_network config1 \<noteq> Host"
    using assms(2) that by (auto simp: apply_network_mode_guards_def split: network_mode.splits if_splits)
  ultimately show ?thesis using assms(1,3) by (auto simp: apply_trust_level_guards_def split: if_splits)
qed

theorem untrusted_workload_guarded_witness:
  "\<exists>config2. apply_network_mode_guards ((default_config ''c1'' ''t'' ''web'' [''sh''])\<lparr>cc_use_gvisor := True\<rparr>) = Ok config2
     \<and> cc_use_gvisor config2"
proof -
  let ?c = "(default_config ''c1'' ''t'' ''web'' [''sh''])\<lparr>cc_use_gvisor := False\<rparr>"
  have t: "apply_trust_level_guards True ?c = Ok (?c\<lparr>cc_use_gvisor := True\<rparr>)"
    by (simp add: apply_trust_level_guards_def default_config_def)
  have n: "apply_network_mode_guards (?c\<lparr>cc_use_gvisor := True\<rparr>) = Ok (?c\<lparr>cc_use_gvisor := True\<rparr>)"
    by (simp add: apply_network_mode_guards_def default_config_def)
  have "cc_trust_level ?c = Untrusted" "\<not> cc_allow_degraded_security ?c" by (simp_all add: default_config_def)
  with untrusted_workload_guarded[OF t n] n show ?thesis by simp
qed

section \<open>What the workload sees\<close>

lemma env_entries: "try_map (env_entry msg) kvs = Ok es \<longleftrightarrow> es = map (\<lambda>kv. fst kv @ ''='' @ snd kv) kvs \<and> (\<forall>kv\<in>set kvs. cstring_ok (fst kv @ ''='' @ snd kv))"
  by (induction kvs arbitrary: es) (auto simp: env_entry_def Let_def and_then_Inr_iff)

definition all_pairs :: "exec_host \<Rightarrow> container_config \<Rightarrow> (string \<times> string) list" where
  "all_pairs h config = [(''PATH'', ''/usr/local/sbin:/usr/local/bin:/usr/sbin:/usr/bin:/sbin:/bin''), (''TERM'', ''xterm'')]
     @ home_env config @ notify_env h config @ user_env config @ derived_env config @ gpu_env config"

lemma exec_env_pairs:
  assumes "exec_command h config = Ok (args, env)"
  shows "args = cc_command config" "env = map (\<lambda>kv. fst kv @ ''='' @ snd kv) (all_pairs h config)"
  using assms by (auto simp: exec_command_def workload_env_def and_then_Inr_iff env_entries all_pairs_def split: if_splits)

lemma pair_inject:
  assumes "CHR ''='' \<notin> set k" "CHR ''='' \<notin> set k'" "k @ CHR ''='' # v = k' @ CHR ''='' # v'"
  shows "k = k' \<and> v = v'"
proof -
  have "split_once CHR ''='' (k' @ CHR ''='' # v') = Some (k, v)" by (subst assms(3)[symmetric]) (rule split_once_key[OF assms(1)])
  then show ?thesis unfolding split_once_key[OF assms(2)] by blast
qed

text \<open>The keys that the program sets itself.\<close>

definition own_keys :: "string list" where
  "own_keys = [''PATH'', ''TERM'', ''HOME'', ''NOTIFY_SOCKET'', ''NVIDIA_VISIBLE_DEVICES'', ''NVIDIA_DRIVER_CAPABILITIES'',
     ''__EGL_VENDOR_LIBRARY_FILENAMES'']"

lemma own_keys_proper: "\<forall>k\<in>set own_keys. CHR ''='' \<notin> set k \<and> k \<notin> set BLOCKED_ENV_VARS \<and> \<not> is_credential_broker_identity_env k"
  by (simp add: own_keys_def BLOCKED_ENV_VARS_def is_credential_broker_identity_env_def)

lemma pairs_source:
  assumes "(k, v) \<in> set (all_pairs h config)"
  shows "k \<in> set own_keys \<or> (k, v) \<in> set (user_env config) \<or> (k, v) \<in> set (derived_env config)"
proof -
  have "k \<in> set own_keys" if "(k, v) \<in> set (home_env config)" using that by (simp add: home_env_def own_keys_def split: if_splits)
  moreover have "notify_env h config = [] \<or> (\<exists>socket. notify_env h config = [(''NOTIFY_SOCKET'', socket)])"
    unfolding notify_env_def by (cases "eh_notify_socket h") auto
  then have "k \<in> set own_keys" if "(k, v) \<in> set (notify_env h config)" using that unfolding own_keys_def by auto
  moreover have "fst ` set (gpu_environment gpu) \<subseteq> set own_keys" for gpu
    by (cases "includes_nvidia (gpu_vendor_of gpu)") (simp_all add: gpu_environment_def own_keys_def)
  then have "k \<in> set own_keys" if "(k, v) \<in> set (gpu_env config)"
    using that by (cases "cc_gpu config") (simp_all add: gpu_env_def, force)
  moreover have "''PATH'' \<in> set own_keys" "''TERM'' \<in> set own_keys" by (simp_all add: own_keys_def)
  ultimately show ?thesis using assms unfolding all_pairs_def by auto
qed

definition proper_keys :: "container_config \<Rightarrow> bool" where
  "proper_keys config \<longleftrightarrow> (\<forall>(k, v) \<in> set (cc_environment config) \<union> set (cc_derived_environment config). CHR ''='' \<notin> set k)"

lemma pairs_proper: "proper_keys config \<Longrightarrow> (k, v) \<in> set (all_pairs h config) \<Longrightarrow> CHR ''='' \<notin> set k"
  using pairs_source[of k v h config] own_keys_proper by (auto simp: proper_keys_def user_env_def derived_env_def)

lemma env_pair_in:
  assumes "exec_command h config = Ok (args, env)" "proper_keys config" "CHR ''='' \<notin> set key" "key @ ''='' @ v \<in> set env"
  shows "(key, v) \<in> set (all_pairs h config)"
proof -
  obtain k w where kw: "(k, w) \<in> set (all_pairs h config)" "key @ ''='' @ v = k @ ''='' @ w"
    using exec_env_pairs(2)[OF assms(1)] assms(4) by auto
  with pair_inject[of key k v w] pairs_proper[OF assms(2) kw(1)] assms(3) show ?thesis by simp
qed


definition demo_host :: exec_host where
  "demo_host = \<lparr>eh_chdir = (\<lambda>_. True), eh_notify_socket = Some ''/run/systemd/notify'', eh_canonicalize = (\<lambda>p. Some p),
     eh_execve = (\<lambda>_ _. True)\<rparr>"

definition demo_workload :: container_config where
  "demo_workload = (default_config ''c1'' ''t'' ''web'' [''sh''])\<lparr>cc_sd_notify := True, cc_home := path_new ''/home/agent'',
     cc_environment := [(''LD_PRELOAD'', ''/tmp/x.so''), (''PATH'', ''/opt/bin'')], cc_derived_environment := [(''HTTPS_PROXY'', ''http://10.0.42.1:8080'')]\<rparr>"

lemma demo_exec: "exec_command demo_host demo_workload = Ok ([''sh''],
    [''PATH=/usr/local/sbin:/usr/local/bin:/usr/sbin:/usr/bin:/sbin:/bin'', ''TERM=xterm'', ''HOME=/home/agent'',
     ''NOTIFY_SOCKET=/run/systemd/notify'', ''PATH=/opt/bin'', ''HTTPS_PROXY=http://10.0.42.1:8080''])"
proof -
  have home: "home_env demo_workload = [(''HOME'', ''/home/agent'')]"
    by (simp add: home_env_def demo_workload_def path_new_def path_text_def component_of_def string_eval)
  have notify: "notify_env demo_host demo_workload = [(''NOTIFY_SOCKET'', ''/run/systemd/notify'')]"
    unfolding notify_env_def
    by (simp add: demo_host_def demo_workload_def notify_socket_allowed_def has_traversal_def contains_def ends_with_def under_run_def
        suffix_to_prefix sublist_Cons_right)
  have user: "user_env demo_workload = [(''PATH'', ''/opt/bin'')]" "derived_env demo_workload = [(''HTTPS_PROXY'', ''http://10.0.42.1:8080'')]"
    "gpu_env demo_workload = []"
    by (simp_all add: user_env_def derived_env_def gpu_env_def demo_workload_def default_config_def BLOCKED_ENV_VARS_def
        credential_broker_owns_env_def)
  have "cc_command demo_workload = [''sh'']" "eh_chdir demo_host p" "eh_execve demo_host a e" for p a e
    by (simp_all add: demo_workload_def default_config_def demo_host_def)
  then show ?thesis
    by (simp add: exec_command_def workload_env_def home notify user env_entry_def cstring_ok_def)
qed


text \<open>The value of a variable as the C library finds it: the first entry with that name.\<close>

definition getenv :: "string list \<Rightarrow> string \<Rightarrow> string option" where
  "getenv env key = first_some (strip_prefix (key @ ''='')) env"

text \<open>
  the search path cannot be configured. Whatever the environment of the configuration says of \<^verbatim>\<open>PATH\<close> or \<^verbatim>\<open>TERM\<close>,
  the first entry, which the C library uses, is the built-in one; only \<^verbatim>\<open>HOME\<close> gives way to the value of the user.
\<close>

theorem configured_path_ignored:
  assumes "exec_command h config = Ok (args, env)"
  shows "getenv env ''PATH'' = Some ''/usr/local/sbin:/usr/local/bin:/usr/sbin:/usr/bin:/sbin:/bin'' \<and> getenv env ''TERM'' = Some ''xterm''"
  unfolding exec_env_pairs(2)[OF assms] by (simp add: all_pairs_def getenv_def)

theorem configured_path_ignored_witness:
  "\<exists>args env. exec_command demo_host demo_workload = Ok (args, env) \<and> ''PATH=/opt/bin'' \<in> set env
    \<and> getenv env ''PATH'' = Some ''/usr/local/sbin:/usr/local/bin:/usr/sbin:/usr/bin:/sbin:/bin''"
  using configured_path_ignored[OF demo_exec] demo_exec by simp

section \<open>The init process\<close>

fun reaped_pid :: "reap_answer \<Rightarrow> u32 option" where
  "reaped_pid (ReapExited pid code) = Some pid"
| "reaped_pid (ReapSignaled pid signal) = Some pid"
| "reaped_pid _ = None"

text \<open>
  the init process ends with the workload. Whatever orphans end before it, and however often the wait is interrupted,
  each is reaped, and the init process exits with the code of the workload, or 128 and the signal that killed it.
\<close>

theorem init_exit_code:
  assumes "\<forall>a\<in>set before. reaped_pid a \<noteq> Some child \<and> a \<noteq> ReapEchild \<and> a \<noteq> ReapFailed"
  shows "init_loop child (before @ ReapExited child code # rest) = Some (code, List.map_filter reaped_pid before @ [child])
    \<and> init_loop child (before @ ReapSignaled child signal # rest) = Some (128 + int signal, List.map_filter reaped_pid before @ [child])"
  using assms
proof (induction before)
  case (Cons a before)
  then show ?case by (cases a) (simp_all add: map_filter_simps)
qed (simp add: map_filter_simps)

theorem init_exit_code_witness:
  "init_loop 7 [ReapExited 9 0, ReapEintr, ReapExited 7 3] = Some (3, [9, 7])"
  using init_exit_code[of "[ReapExited 9 0, ReapEintr]" 7 3 "[]"] by (simp add: map_filter_simps)

end
