(* ===== verification/Health.thy ===== *)
theory Health
  imports Attach
begin

text \<open>
  Readiness and health of a container (\<^verbatim>\<open>src/src/container/health.rs\<close>).

  Time is in milliseconds. The record \<open>health_env\<close> is what the thread sees at a time: the \<^verbatim>\<open>stat\<close> file of the process, whether
  a signal 0 reaches it, the flag that cancels it, the answer of a probe with the time it takes, and how much longer than
  asked for a sleep lasts. The loop of health checks may run as long as the container does; it has fuel for its rounds, and
  \<open>None\<close> says that it still runs. A thread that panics ends.
\<close>

section \<open>Notification\<close>

datatype notify_destination = NotifyPath path | NotifyAbstract string

record notify_host =
  nh_exists :: "path \<Rightarrow> bool"
  nh_canonicalize :: "path \<Rightarrow> path option"
  nh_abstract_ok :: "string \<Rightarrow> bool"
  nh_unbound_ok :: bool
  nh_send_ok :: "notify_destination \<Rightarrow> string \<Rightarrow> bool"

definition resolve_notify_path :: "notify_host \<Rightarrow> path \<Rightarrow> path result" where
  "resolve_notify_path h socket =
     (if nh_exists h socket then ok_or (nh_canonicalize h socket) (ExecError ''Failed to resolve notify socket path {}: {}'')
      else
        and_then (ok_or (path_parent socket) (ExecError ''Notify socket path has no parent directory: {}'')) (\<lambda>parent.
        and_then (ok_or (nh_canonicalize h parent) (ExecError ''Failed to resolve notify socket parent {}: {}'')) (\<lambda>canonical_parent.
        case last socket of
          Normal name \<Rightarrow> Ok (path_push canonical_parent name)
        | _ \<Rightarrow> Err (ExecError ''Notify socket path has no file name: {}''))))"

definition resolve_notify_destination :: "notify_host \<Rightarrow> string \<Rightarrow> notify_destination result" where
  "resolve_notify_destination h socket_path =
     (if contains ''/../'' socket_path \<or> ends_with ''/..'' socket_path \<or> CHR 0x00 \<in> set socket_path
      then Err (ExecError ''Refusing sd_notify to untrusted socket path: {}'')
      else case strip_prefix ''@'' socket_path of
          Some name \<Rightarrow>
            if nh_abstract_ok h name then Ok (NotifyAbstract name)
            else Err (ExecError ''Failed to build abstract notify socket address {}: {}'')
        | None \<Rightarrow>
            let socket = path_new socket_path in
            if \<not> is_absolute socket then Err (ExecError ''Refusing sd_notify to non-absolute socket path: {}'')
            else
              and_then (resolve_notify_path h socket) (\<lambda>resolved.
              if starts_with resolved (path_new ''/run/'') \<or> starts_with resolved (path_new ''/var/run/'') then Ok (NotifyPath resolved)
              else Err (ExecError ''Refusing sd_notify to untrusted socket path: {}'')))"

text \<open>The destination to which the message was sent, if it was.\<close>

definition send_sd_notify :: "notify_host \<Rightarrow> string \<Rightarrow> string \<Rightarrow> (notify_destination \<times> string) list \<times> unit result" where
  "send_sd_notify h socket_path message =
     (case resolve_notify_destination h socket_path of
        Inl e \<Rightarrow> ([], Err e)
      | Inr destination \<Rightarrow>
          if \<not> nh_unbound_ok h then ([], Err (ExecError ''Failed to create notify socket: {}''))
          else if \<not> nh_send_ok h destination message then ([], Err (ExecError ''Failed to send to notify socket {}: {}''))
          else ([(destination, message)], Ok ()))"

section \<open>Readiness\<close>

record health_env =
  he_stat :: "nat \<Rightarrow> string option"
  he_alive :: "nat \<Rightarrow> bool"
  he_cancel :: "nat \<Rightarrow> bool"
  he_probe :: "nat \<Rightarrow> namespace_probe \<Rightarrow> process_identity option \<Rightarrow> nat \<Rightarrow> bool result \<times> nat"
  he_late :: "nat \<Rightarrow> nat"
  he_pidfd :: bool
  he_notify :: notify_host

text \<open>A pid above the signed range makes the conversion panic.\<close>

definition pid_fits :: "u32 \<Rightarrow> bool" where
  "pid_fits pid \<longleftrightarrow> unat pid < 2 ^ 31"

datatype 'a outcome = Returned 'a | Panicked

text \<open>
  Attempt after attempt, \<open>n\<close> of them left, with the time: the messages sent, the number of sleeps and the result.
\<close>

fun readiness_attempts ::
  "health_env \<Rightarrow> readiness_probe \<Rightarrow> process_identity \<Rightarrow> string option \<Rightarrow> nat \<Rightarrow> nat \<Rightarrow> (notify_destination \<times> string) list \<times> nat \<times> unit result" where
  "readiness_attempts env probe identity notify_socket now 0 =
     ([], 0, Err (ExecError ''Readiness probe timed out after {} attempts for {}''))"
| "readiness_attempts env probe identity notify_socket now (Suc n) =
     (if \<not> he_alive env now then ([], 0, Err (ExecError ''Container process {} exited before becoming ready''))
      else if probe = ProbeSdNotify then ([], 0, Ok ())
      else
        let (ready, took) =
              (case probe of
                 ProbeExec command \<Rightarrow> he_probe env now (ProbeRun command) (Some identity) 5000
               | ProbeTcpPort port \<Rightarrow> he_probe env now (ProbeConnect port) None 3000
               | ProbeSdNotify \<Rightarrow> (Ok True, 0))
        in case ready of
             Inl e \<Rightarrow> ([], 0, Err e)
           | Inr True \<Rightarrow>
               (case notify_socket of
                  None \<Rightarrow> ([], 0, Ok ())
                | Some socket_path \<Rightarrow> (case send_sd_notify (he_notify env) socket_path ''READY=1'' of (sent, r) \<Rightarrow> (sent, 0, r)))
           | Inr False \<Rightarrow>
               (case readiness_attempts env probe identity notify_socket (now + took + 1000 + he_late env (now + took)) n of
                  (sent, sleeps, r) \<Rightarrow> (sent, Suc sleeps, r)))"

definition run_readiness_probe ::
  "health_env \<Rightarrow> u32 \<Rightarrow> readiness_probe \<Rightarrow> process_identity \<Rightarrow> string option \<Rightarrow> nat \<Rightarrow>
   ((notify_destination \<times> string) list \<times> nat \<times> unit result) outcome" where
  "run_readiness_probe env pid probe identity notify_socket now =
     (if pid_fits pid then Returned (readiness_attempts env probe identity notify_socket now 60) else Panicked)"

section \<open>Health checks\<close>

text \<open>The start time in the \<^verbatim>\<open>stat\<close> file, 0 when there is none; the outer \<open>None\<close> is a panic of the slice.\<close>

definition start_ticks_at :: "health_env \<Rightarrow> nat \<Rightarrow> u64 option" where
  "start_ticks_at env now =
     (case he_stat env now of
        None \<Rightarrow> Some 0
      | Some content \<Rightarrow> map_option (\<lambda>ticks. case ticks of None \<Rightarrow> 0 | Some n \<Rightarrow> n) (parse_start_ticks content))"

text \<open>\<open>cancellable_sleep\<close> from \<open>start\<close> to \<open>start + dur\<close>: the time it ends and whether it was cancelled.\<close>

function cancellable_sleep :: "health_env \<Rightarrow> nat \<Rightarrow> nat \<Rightarrow> nat \<Rightarrow> nat \<times> bool" where
  "cancellable_sleep env start dur now =
     (if now < start + dur then
        if he_cancel env now then (now, True)
        else cancellable_sleep env start dur (now + min 100 (start + dur - now) + he_late env now)
      else (now, he_cancel env now))"
  by pat_completeness auto
termination by (relation "measure (\<lambda>(env, start, dur, now). start + dur - now)") auto

declare cancellable_sleep.simps [simp del]

datatype health_event = ProbeAnswer nat "bool result" | SentByPidfd nat | SentByKill nat

datatype health_end = Cancelled | NoIdentity | Recycled | Gone | Unhealthy | ProbeError | HealthPanic

definition pidfd_send_signal_or_kill :: "health_env \<Rightarrow> u64 \<Rightarrow> nat \<Rightarrow> health_event list option" where
  "pidfd_send_signal_or_kill env expected_ticks now =
     (if he_pidfd env then Some [SentByPidfd now]
      else map_option (\<lambda>ticks. if ticks = expected_ticks then [SentByKill now] else []) (start_ticks_at env now))"

definition ending :: "health_event list option \<Rightarrow> health_end \<Rightarrow> health_event list \<times> health_end" where
  "ending evs e = (case evs of None \<Rightarrow> ([], HealthPanic) | Some evs \<Rightarrow> (evs, e))"

text \<open>One round: the events with the end of the loop, or with the time and the failures with which it goes on.\<close>

definition health_round ::
  "health_env \<Rightarrow> u32 \<Rightarrow> health_check \<Rightarrow> process_identity \<Rightarrow> u64 \<Rightarrow> nat \<Rightarrow> u32 \<Rightarrow> health_event list \<times> (health_end + nat \<times> u32)" where
  "health_round env pid hc identity expected_ticks now consecutive_failures =
     (if he_cancel env now then ([], Inl Cancelled)
      else case start_ticks_at env now of
          None \<Rightarrow> ([], Inl HealthPanic)
        | Some current_ticks \<Rightarrow>
            if current_ticks \<noteq> expected_ticks then ([], Inl Recycled)
            else if \<not> pid_fits pid then ([], Inl HealthPanic)
            else if \<not> he_alive env now then ([], Inl Gone)
            else
              let (answer, took) = he_probe env now (ProbeRun (hc_command hc)) (Some identity) (1000 * hc_timeout hc);
                  later = now + took;
                  go_on = (\<lambda>failures. case cancellable_sleep env later (1000 * hc_interval hc) later of
                     (wake, cancelled) \<Rightarrow> ([ProbeAnswer now answer], if cancelled then Inl Cancelled else Inr (wake, failures)));
                  stop = (\<lambda>e. case ending (pidfd_send_signal_or_kill env expected_ticks later) e of
                     (evs, e) \<Rightarrow> (ProbeAnswer now answer # evs, Inl e))
              in case answer of
                   Inr True \<Rightarrow> go_on 0
                 | Inr False \<Rightarrow> if consecutive_failures + 1 \<ge> hc_retries hc then stop Unhealthy else go_on (consecutive_failures + 1)
                 | Inl e \<Rightarrow> stop ProbeError)"

fun health_rounds ::
  "health_env \<Rightarrow> u32 \<Rightarrow> health_check \<Rightarrow> process_identity \<Rightarrow> u64 \<Rightarrow> nat \<Rightarrow> nat \<Rightarrow> u32 \<Rightarrow> (health_event list \<times> health_end) option" where
  "health_rounds env pid hc identity expected_ticks 0 now failures = None"
| "health_rounds env pid hc identity expected_ticks (Suc fuel) now failures =
     (case health_round env pid hc identity expected_ticks now failures of
        (evs, Inl e) \<Rightarrow> Some (evs, e)
      | (evs, Inr (now, failures)) \<Rightarrow>
          map_option (\<lambda>(more, e). (evs @ more, e)) (health_rounds env pid hc identity expected_ticks fuel now failures))"

definition health_check_loop ::
  "health_env \<Rightarrow> u32 \<Rightarrow> health_check \<Rightarrow> process_identity \<Rightarrow> nat \<Rightarrow> nat \<Rightarrow> (health_event list \<times> health_end) option" where
  "health_check_loop env pid hc identity fuel now =
     (case start_ticks_at env now of
        None \<Rightarrow> Some ([], HealthPanic)
      | Some expected_ticks \<Rightarrow>
          if expected_ticks = 0 \<and> \<not> he_pidfd env then Some ([], NoIdentity)
          else
            (case cancellable_sleep env now (1000 * hc_start_period hc) now of
               (wake, True) \<Rightarrow> Some ([], Cancelled)
             | (wake, False) \<Rightarrow> health_rounds env pid hc identity expected_ticks fuel wake 0))"

section \<open>When a container is signalled\<close>

definition answers :: "health_event list \<Rightarrow> bool result list" where
  "answers evs = List.map_filter (\<lambda>e. case e of ProbeAnswer t a \<Rightarrow> Some a | _ \<Rightarrow> None) evs"

text \<open>How many failures the answers end with, and how many it takes to give up.\<close>

definition failed_run :: "bool result list \<Rightarrow> nat" where
  "failed_run as = length (takeWhile (\<lambda>a. a = Ok False) (rev as))"

definition needed_failures :: "health_check \<Rightarrow> nat" where
  "needed_failures hc = max 1 (unat (hc_retries hc))"

lemma answers_simps [simp]: "answers [] = []" "answers (ProbeAnswer t a # evs) = a # answers evs" "answers (SentByPidfd t # evs) = answers evs"
  "answers (SentByKill t # evs) = answers evs" "answers (evs @ evs') = answers evs @ answers evs'"
  by (simp_all add: answers_def map_filter_def)

lemma failed_run_simps [simp]: "failed_run [] = 0" "failed_run (as @ [Ok False]) = Suc (failed_run as)" "failed_run (as @ [Ok True]) = 0"
  by (simp_all add: failed_run_def)

definition signals :: "health_event list \<Rightarrow> health_event list" where
  "signals evs = filter (\<lambda>e. case e of ProbeAnswer t a \<Rightarrow> False | _ \<Rightarrow> True) evs"

lemma signals_simps [simp]: "signals [] = []" "signals (ProbeAnswer t a # evs) = signals evs" "signals (evs @ evs') = signals evs @ signals evs'"
  "signals (SentByPidfd t # evs) = SentByPidfd t # signals evs" "signals (SentByKill t # evs) = SentByKill t # signals evs"
  by (simp_all add: signals_def)

text \<open>The failures counted so far stay below the limit, so counting one more does not wrap around.\<close>

lemma count_no_wrap: "unat failures < needed_failures hc \<Longrightarrow>
    (failures + 1 \<ge> hc_retries hc \<longleftrightarrow> needed_failures hc \<le> Suc (unat failures))
    \<and> (\<not> failures + 1 \<ge> hc_retries hc \<longrightarrow> unat (failures + 1) = Suc (unat failures))"
proof -
  assume f: "unat failures < needed_failures hc"
  have r: "unat (hc_retries hc) < 2 ^ 32" using unat_bound_word[of "hc_retries hc"] by simp
  have "needed_failures hc < 2 ^ 32" using r by (simp add: needed_failures_def)
  show ?thesis
  proof (cases "Suc (unat failures) < 2 ^ 32")
    case True
    then have "unat (failures + 1) = Suc (unat failures)" by (simp add: unat_word_ariths(1))
    then show ?thesis using f by (auto simp: word_le_nat_alt needed_failures_def)
  next
    case False
    with f \<open>needed_failures hc < 2 ^ 32\<close> show ?thesis by simp
  qed
qed

definition sent_ok :: "health_env \<Rightarrow> u64 \<Rightarrow> health_event list \<Rightarrow> bool" where
  "sent_ok env expected_ticks evs \<longleftrightarrow>
     length (signals evs) \<le> 1 \<and> (\<forall>t. SentByKill t \<in> set evs \<longrightarrow> start_ticks_at env t = Some expected_ticks)"

lemma stop_sent_ok:
  "ending (pidfd_send_signal_or_kill env ticks now) e = (evs, e') \<Longrightarrow>
     sent_ok env ticks (ProbeAnswer t a # evs) \<and> answers evs = [] \<and> (e' = e \<or> e' = HealthPanic \<and> evs = [])"
  by (auto simp: ending_def pidfd_send_signal_or_kill_def sent_ok_def split: option.splits if_splits)

lemma health_round_step:
  assumes "health_round env pid hc identity ticks now failures = (evs, r)" "unat failures < needed_failures hc" "failed_run as = unat failures"
  shows "sent_ok env ticks evs
    \<and> (case r of
         Inl e \<Rightarrow> (e = Unhealthy \<longrightarrow> needed_failures hc \<le> failed_run (as @ answers evs)) \<and> (signals evs \<noteq> [] \<longrightarrow> e = Unhealthy \<or> e = ProbeError)
           \<and> (e = ProbeError \<longrightarrow> (\<exists>err. Err err \<in> set (answers evs)))
       | Inr (now', failures') \<Rightarrow> signals evs = [] \<and> unat failures' < needed_failures hc \<and> failed_run (as @ answers evs) = unat failures')"
proof -
  note c = count_no_wrap[OF assms(2)]
  have one: "0 < needed_failures hc" by (simp add: needed_failures_def)
  obtain answer took where p: "he_probe env now (ProbeRun (hc_command hc)) (Some identity) (1000 * hc_timeout hc) = (answer, took)" by fastforce
  obtain wake cancelled where w: "cancellable_sleep env (now + took) (1000 * hc_interval hc) (now + took) = (wake, cancelled)" by fastforce
  have quiet: "sent_ok env ticks []" "sent_ok env ticks [ProbeAnswer now answer]" by (simp_all add: sent_ok_def)
  show ?thesis
  proof (cases "he_cancel env now \<or> start_ticks_at env now \<noteq> Some ticks \<or> \<not> pid_fits pid \<or> \<not> he_alive env now")
    case True
    then show ?thesis using assms(1) quiet by (auto simp: health_round_def split: option.splits if_splits)
  next
    case False
    obtain evs' e where stop: "ending (pidfd_send_signal_or_kill env ticks (now + took)) (if answer = Ok False then Unhealthy else ProbeError) = (evs', e)"
      by fastforce
    note s = stop_sent_ok[OF stop, of now answer]
    consider "answer = Ok True \<or> answer = Ok False \<and> \<not> hc_retries hc \<le> failures + 1"
      | "answer = Ok False" "hc_retries hc \<le> failures + 1" | err where "answer = Err err"
      by (cases answer) auto
    then show ?thesis
    proof cases
      case 1
      then have "evs = [ProbeAnswer now answer]" "r = (if cancelled then Inl Cancelled else Inr (wake, if answer = Ok True then 0 else failures + 1))"
        using assms(1) False p w by (auto simp: health_round_def Let_def)
      then show ?thesis using 1 c one assms(2,3) quiet by auto
    next
      case 2
      then have "evs = ProbeAnswer now answer # evs'" "r = Inl e" using assms(1) False p stop by (auto simp: health_round_def Let_def)
      then show ?thesis using 2 c s assms(2,3) by auto
    next
      case 3
      then have "evs = ProbeAnswer now answer # evs'" "r = Inl e" using assms(1) False p stop by (auto simp: health_round_def Let_def)
      then show ?thesis using 3 s by auto
    qed
  qed
qed

lemma no_kill_with_pidfd:
  "he_pidfd env \<Longrightarrow> health_rounds env pid hc identity ticks fuel now failures = Some (evs, e) \<Longrightarrow> SentByKill t \<notin> set evs"
proof (induction env pid hc identity ticks fuel now failures arbitrary: evs rule: health_rounds.induct)
  case (2 env pid hc identity ticks fuel now failures)
  obtain evs1 r where round: "health_round env pid hc identity ticks now failures = (evs1, r)" by fastforce
  have "SentByKill t \<notin> set evs1" using round "2.prems"(1)
    by (auto simp: health_round_def Let_def ending_def pidfd_send_signal_or_kill_def split: if_splits option.splits prod.splits sum.splits bool.splits)
  then show ?case using "2.prems" "2.IH" round by (cases r) fastforce+
qed simp

lemma never_cancelled: "(\<And>t. \<not> he_cancel env t) \<Longrightarrow> \<exists>wake. cancellable_sleep env start dur now = (wake, False)"
proof (induction env start dur now rule: cancellable_sleep.induct)
  case (1 env start dur now)
  show ?case by (subst cancellable_sleep.simps) (use 1 in auto)
qed

lemma failing_rounds:
  assumes calm: "\<And>t. \<not> he_cancel env t \<and> start_ticks_at env t = Some ticks \<and> he_alive env t" and "pid_fits pid"
    and fails: "\<And>t. fst (he_probe env t (ProbeRun (hc_command hc)) (Some identity) (1000 * hc_timeout hc)) = Ok False"
  shows "unat failures < needed_failures hc \<Longrightarrow> needed_failures hc - unat failures \<le> fuel \<Longrightarrow>
    \<exists>evs. health_rounds env pid hc identity ticks fuel now failures = Some (evs, Unhealthy) \<and> signals evs \<noteq> []
      \<and> answers evs = replicate (needed_failures hc - unat failures) (Ok False)"
proof (induction fuel arbitrary: now failures)
  case (Suc fuel)
  obtain took where p: "he_probe env now (ProbeRun (hc_command hc)) (Some identity) (1000 * hc_timeout hc) = (Ok False, took)"
    using fails[of now] by (metis prod.collapse)
  obtain wake where w: "cancellable_sleep env (now + took) (1000 * hc_interval hc) (now + took) = (wake, False)"
    using never_cancelled calm by blast
  note c = count_no_wrap[OF Suc.prems(1)]
  have sent: "\<exists>evs. ending (pidfd_send_signal_or_kill env ticks t) Unhealthy = (evs, Unhealthy) \<and> signals evs \<noteq> [] \<and> answers evs = []" for t
    using calm by (auto simp: ending_def pidfd_send_signal_or_kill_def)
  show ?case
  proof (cases "hc_retries hc \<le> failures + 1")
    case True
    then have "needed_failures hc - unat failures = 1" using c Suc.prems(1) by linarith
    then show ?thesis using True calm[of now] assms(2) p sent[of "now + took"] by (auto simp: health_round_def)
  next
    case False
    then have f: "unat (failures + 1) = Suc (unat failures)" "unat (failures + 1) < needed_failures hc" using c by auto
    have "needed_failures hc - unat (failures + 1) \<le> fuel" using f Suc.prems(2) by linarith
    from Suc.IH[OF f(2) this, of wake] f(1) obtain evs where evs: "health_rounds env pid hc identity ticks fuel wake (failures + 1) = Some (evs, Unhealthy)"
      "signals evs \<noteq> []" "answers evs = replicate (needed_failures hc - Suc (unat failures)) (Ok False)" by auto
    have "health_round env pid hc identity ticks now failures = ([ProbeAnswer now (Ok False)], Inr (wake, failures + 1))"
      using False calm[of now] assms(2) p w by (simp add: health_round_def)
    moreover have "Ok False # replicate (needed_failures hc - Suc (unat failures)) (Ok False) = replicate (needed_failures hc - unat failures) (Ok False)"
      using Suc.prems(1) by (metis Suc_diff_Suc replicate_Suc)
    ultimately show ?thesis using evs by simp
  qed
qed simp

lemma health_rounds_spec:
  "health_rounds env pid hc identity ticks fuel now failures = Some (evs, e) \<Longrightarrow> unat failures < needed_failures hc \<Longrightarrow>
     failed_run as = unat failures \<Longrightarrow>
     sent_ok env ticks evs \<and> (signals evs \<noteq> [] \<longrightarrow> e = Unhealthy \<or> e = ProbeError)
     \<and> (e = Unhealthy \<longrightarrow> needed_failures hc \<le> failed_run (as @ answers evs))
     \<and> (e = ProbeError \<longrightarrow> (\<exists>err. Err err \<in> set (answers evs)))"
proof (induction env pid hc identity ticks fuel now failures arbitrary: evs as rule: health_rounds.induct)
  case (2 env pid hc identity ticks fuel now failures)
  obtain evs1 r where round: "health_round env pid hc identity ticks now failures = (evs1, r)" by fastforce
  note step = health_round_step[OF round "2.prems"(2,3)]
  show ?case
  proof (cases r)
    case (Inl e')
    then show ?thesis using "2.prems"(1) round step by simp
  next
    case (Inr nf)
    obtain now' failures' where nf: "nf = (now', failures')" by fastforce
    from "2.prems"(1) round Inr nf obtain more where more: "health_rounds env pid hc identity ticks fuel now' failures' = Some (more, e)"
      "evs = evs1 @ more" by auto
    have s: "signals evs1 = []" "unat failures' < needed_failures hc" "failed_run (as @ answers evs1) = unat failures'" "sent_ok env ticks evs1"
      using step Inr nf by auto
    have IH: "sent_ok env ticks more \<and> (signals more \<noteq> [] \<longrightarrow> e = Unhealthy \<or> e = ProbeError)
     \<and> (e = Unhealthy \<longrightarrow> needed_failures hc \<le> failed_run ((as @ answers evs1) @ answers more))
     \<and> (e = ProbeError \<longrightarrow> (\<exists>err. Err err \<in> set (answers more)))"
      by (rule "2.IH"[OF round[symmetric] Inr nf[symmetric] more(1) s(2,3)])
    with s more(2) show ?thesis by (auto simp: sent_ok_def)
  qed
qed simp

definition failing_env :: health_env where
  "failing_env = \<lparr>he_stat = (\<lambda>t. demo_stat 42), he_alive = (\<lambda>_. True), he_cancel = (\<lambda>_. False), he_probe = (\<lambda>t p i limit. (Ok False, 10)),
     he_late = (\<lambda>_. 0), he_pidfd = False,
     he_notify = \<lparr>nh_exists = (\<lambda>_. True), nh_canonicalize = (\<lambda>p. Some p), nh_abstract_ok = (\<lambda>_. True), nh_unbound_ok = True,
       nh_send_ok = (\<lambda>_ _. True)\<rparr>\<rparr>"

lemma failing_ticks: "start_ticks_at failing_env t = Some 7"
  by (simp add: start_ticks_at_def failing_env_def demo_stat_def parse_start_ticks_def string_eval)

text \<open>
  C37: a container is signalled only for a reason, and only the container. A health check sends at most one signal, and only when
  the last answers, at least as many as its retries, all were failures, or a probe could not be run; a signal by pid is
  sent only when the process has the start time that the container had when the checks began.
\<close>

theorem health_signal_justified:
  assumes "health_check_loop env pid hc identity fuel now = Some (evs, e)"
  shows "length (signals evs) \<le> 1
    \<and> (signals evs \<noteq> [] \<longrightarrow> needed_failures hc \<le> failed_run (answers evs) \<or> (\<exists>err. Err err \<in> set (answers evs)))
    \<and> (\<forall>t. SentByKill t \<in> set evs \<longrightarrow> start_ticks_at env t = start_ticks_at env now \<and> start_ticks_at env t \<noteq> Some 0)"
proof -
  have "\<exists>ticks. start_ticks_at env now = Some ticks \<and> (ticks = 0 \<longrightarrow> he_pidfd env) \<and>
      (\<exists>wake. health_rounds env pid hc identity ticks fuel wake 0 = Some (evs, e)) \<or> evs = []"
    using assms by (auto simp: health_check_loop_def split: option.splits if_splits prod.splits bool.splits)
  then consider "evs = []" | ticks wake where "start_ticks_at env now = Some ticks" "ticks = 0 \<longrightarrow> he_pidfd env"
      "health_rounds env pid hc identity ticks fuel wake 0 = Some (evs, e)" by blast
  then show ?thesis
  proof cases
    case 2
    have "unat (0 :: u32) < needed_failures hc" "failed_run [] = unat (0 :: u32)" by (simp_all add: needed_failures_def)
    note s = health_rounds_spec[OF 2(3) this]
    have "SentByKill t \<notin> set evs" if "he_pidfd env" for t
      using no_kill_with_pidfd[OF that 2(3)] .
    with s 2 show ?thesis by (auto simp: sent_ok_def)
  qed simp
qed

text \<open>
  C33: a container that stays unhealthy is signalled. When it is alive and the same process, nobody cancels the check and every
  probe fails, the loop ends after exactly the retries with a signal to the process.
\<close>

theorem unhealthy_container_signalled:
  assumes "\<And>t. \<not> he_cancel env t \<and> start_ticks_at env t = Some ticks \<and> he_alive env t" "ticks \<noteq> 0" "pid_fits pid"
    and "\<And>t. fst (he_probe env t (ProbeRun (hc_command hc)) (Some identity) (1000 * hc_timeout hc)) = Ok False"
    and "needed_failures hc \<le> fuel"
  shows "\<exists>evs. health_check_loop env pid hc identity fuel now = Some (evs, Unhealthy) \<and> signals evs \<noteq> []
    \<and> answers evs = replicate (needed_failures hc) (Ok False)"
proof -
  obtain wake where w: "cancellable_sleep env now (1000 * hc_start_period hc) now = (wake, False)"
    using never_cancelled[of env now "1000 * hc_start_period hc" now] assms(1) by blast
  have "unat (0 :: u32) < needed_failures hc" by (simp add: needed_failures_def)
  from failing_rounds[OF assms(1,3,4) this, of fuel wake] assms(2,5) w show ?thesis
    using assms(1) by (simp add: health_check_loop_def)
qed

theorem unhealthy_container_signalled_witness:
  "\<exists>evs. health_check_loop failing_env 42 default_health_check root_identity 3 0 = Some (evs, Unhealthy) \<and> signals evs \<noteq> []"
  using unhealthy_container_signalled[of failing_env 7 42 default_health_check root_identity 3 0] failing_ticks
  by (simp add: failing_env_def default_health_check_def needed_failures_def pid_fits_def) blast

theorem health_signal_justified_witness:
  "\<exists>evs e. health_check_loop failing_env 42 default_health_check root_identity 3 0 = Some (evs, e) \<and> length (signals evs) \<le> 1"
proof -
  have "unat (0 :: u32) < needed_failures default_health_check" by (simp add: needed_failures_def)
  obtain wake where w: "cancellable_sleep failing_env 0 5000 0 = (wake, False)"
    using never_cancelled[of failing_env 0 5000 0] by (auto simp: failing_env_def)
  have calm: "\<not> he_cancel failing_env t \<and> start_ticks_at failing_env t = Some 7 \<and> he_alive failing_env t" for t
    using failing_ticks by (simp add: failing_env_def)
  obtain evs where "health_rounds failing_env 42 default_health_check root_identity 7 3 wake 0 = Some (evs, Unhealthy)"
    using failing_rounds[OF calm, of 42 default_health_check root_identity 0 3 wake]
    by (auto simp: pid_fits_def failing_env_def default_health_check_def needed_failures_def)
  then have l: "health_check_loop failing_env 42 default_health_check root_identity 3 0 = Some (evs, Unhealthy)"
    using w failing_ticks by (simp add: health_check_loop_def default_health_check_def)
  from health_signal_justified[OF l] l show ?thesis by blast
qed

section \<open>Health checks of a native container\<close>

text \<open>
  The answer of a command probe in a container without a user namespace, where the wait sees the exit code of the helper: polls
  while it is alive, then its exit code.
\<close>

definition native_answer :: "('c, 'r) attach_kernel \<Rightarrow> attached \<Rightarrow> string list \<Rightarrow> process_identity \<Rightarrow> nat \<Rightarrow> bool result \<Rightarrow> bool" where
  "native_answer k s command identity limit answer \<longleftrightarrow>
     (\<exists>s' r code ts t killed. enter_and_run k (ns_types False) (ProbeRun command) (Some identity) False s = (s', r)
        \<and> probe_exit_code r = Some code
        \<and> wait_for_probe (Some limit) (map (\<lambda>t. (StillAlive, t)) ts @ [(Exited code, t)]) = Some (answer, killed))"

lemma wait_failed_helper: "wait_for_probe (Some limit) (map (\<lambda>t. (StillAlive, t)) ts @ [(Exited 125, t)]) = Some (answer, killed) \<Longrightarrow> answer = Ok False"
  by (induction ts) (auto split: if_splits)

lemma native_answer_fails:
  assumes "caps_sound (ak_caps k)" "setgroups_privileged k" "at_program s = None"
    and "native_answer k s command identity limit answer"
  shows "answer = Ok False"
proof -
  from assms(4) obtain s' r code ts t killed where
    run: "enter_and_run k (ns_types False) (ProbeRun command) (Some identity) False s = (s', r)" "probe_exit_code r = Some code"
      "wait_for_probe (Some limit) (map (\<lambda>t. (StillAlive, t)) ts @ [(Exited code, t)]) = Some (answer, killed)"
    unfolding native_answer_def by blast
  have "probe_exit_code r = Some 125" using helper_exits_125[OF assms(1,2) run(1) assms(3)] by blast
  with run(2,3) wait_failed_helper show ?thesis by auto
qed



section \<open>Readiness\<close>

text \<open>
  a notification stays on the host's runtime directories. Whatever the socket path is, a message is sent only to an
  abstract socket or to a path that, with links resolved, lies under \<^verbatim>\<open>/run\<close> or \<^verbatim>\<open>/var/run\<close>.
\<close>

theorem notification_confined:
  assumes "send_sd_notify h socket_path message = (sent, r)" "(destination, m) \<in> set sent"
  shows "m = message \<and> r = Ok ()
    \<and> ((\<exists>name. destination = NotifyAbstract name \<and> socket_path = CHR ''@'' # name)
       \<or> (\<exists>p. destination = NotifyPath p \<and> (prefix [RootDir, Normal ''run''] p \<or> prefix [RootDir, Normal ''var'', Normal ''run''] p)))"
proof -
  have run: "path_new ''/run/'' = [RootDir, Normal ''run'']" "path_new ''/var/run/'' = [RootDir, Normal ''var'', Normal ''run'']"
    by (simp_all add: path_new_def component_of_def string_eval)
  from assms show ?thesis
    by (auto simp: send_sd_notify_def resolve_notify_destination_def run starts_with_def strip_prefix_Some_iff Let_def and_then_Inr_iff
        split: sum.splits if_splits option.splits)
qed

theorem notification_confined_witness:
  "\<exists>sent r. send_sd_notify (he_notify failing_env) ''/run/systemd/notify'' ''READY=1'' = (sent, r) \<and> r = Ok ()"
proof -
  have "send_sd_notify (he_notify failing_env) ''/run/systemd/notify'' ''READY=1''
      = ([(NotifyPath [RootDir, Normal ''run'', Normal ''systemd'', Normal ''notify''], ''READY=1'')], Ok ())"
    by (simp add: send_sd_notify_def resolve_notify_destination_def failing_env_def contains_def ends_with_def suffix_to_prefix sublist_Cons_right
        path_new_def component_of_def is_absolute_def resolve_notify_path_def starts_with_def string_eval)
  with notification_confined[OF this] show ?thesis by simp
qed

definition probe_passes :: "health_env \<Rightarrow> readiness_probe \<Rightarrow> process_identity \<Rightarrow> nat \<Rightarrow> bool" where
  "probe_passes env probe identity t \<longleftrightarrow>
     (case probe of
        ProbeExec command \<Rightarrow> fst (he_probe env t (ProbeRun command) (Some identity) 5000) = Ok True
      | ProbeTcpPort port \<Rightarrow> fst (he_probe env t (ProbeConnect port) None 3000) = Ok True
      | ProbeSdNotify \<Rightarrow> False)"

lemma sent_at_most_once: "send_sd_notify h socket message = (sent, r) \<Longrightarrow> (r = Ok () \<longrightarrow> sent \<noteq> []) \<and> (sent \<noteq> [] \<longrightarrow> r = Ok ()) \<and> length sent \<le> 1"
  by (auto simp: send_sd_notify_def split: sum.splits if_splits)

lemma readiness_attempts_spec:
  "readiness_attempts env probe identity notify_socket now n = (sent, sleeps, r) \<Longrightarrow> probe \<noteq> ProbeSdNotify \<Longrightarrow>
     sleeps \<le> n \<and> length sent \<le> 1 \<and> (sent \<noteq> [] \<longrightarrow> r = Ok ())
     \<and> (r = Ok () \<longrightarrow> (\<exists>t \<ge> now + 1000 * sleeps. he_alive env t \<and> probe_passes env probe identity t) \<and> (notify_socket \<noteq> None \<longleftrightarrow> sent \<noteq> []))"
proof (induction env probe identity notify_socket now n arbitrary: sent sleeps r rule: readiness_attempts.induct)
  case (2 env probe identity notify_socket now n)
  define pr where "pr = (case probe of ProbeExec command \<Rightarrow> he_probe env now (ProbeRun command) (Some identity) 5000
       | ProbeTcpPort port \<Rightarrow> he_probe env now (ProbeConnect port) None 3000 | ProbeSdNotify \<Rightarrow> (Ok True, 0))"
  obtain ready took where p: "pr = (ready, took)" by fastforce
  have passes: "probe_passes env probe identity now" if "ready = Ok True"
    using p that "2.prems"(2) by (auto simp: pr_def probe_passes_def split: readiness_probe.splits)
  show ?case
  proof (cases "he_alive env now \<and> ready = Ok False")
    case True
    obtain sent' sleeps' r' where rest: "readiness_attempts env probe identity notify_socket (now + took + 1000 + he_late env (now + took)) n = (sent', sleeps', r')"
      by (metis prod_cases3)
    have eq: "sent = sent'" "sleeps = Suc sleeps'" "r = r'"
      using "2.prems" True p rest by (auto simp: pr_def[symmetric])
    have ih: "sleeps' \<le> n \<and> length sent' \<le> 1 \<and> (sent' \<noteq> [] \<longrightarrow> r' = Ok ())
     \<and> (r' = Ok () \<longrightarrow> (\<exists>t \<ge> now + took + 1000 + he_late env (now + took) + 1000 * sleeps'. he_alive env t \<and> probe_passes env probe identity t)
        \<and> (notify_socket \<noteq> None \<longleftrightarrow> sent' \<noteq> []))"
      using "2.IH"[OF _ "2.prems"(2), of "(ready, took)" ready took False, OF _ _ refl _ _ rest] True p "2.prems"(2)
      by (simp add: pr_def)
    have "\<exists>t \<ge> now + 1000 * Suc sleeps'. he_alive env t \<and> probe_passes env probe identity t" if "r' = Ok ()"
    proof -
      from ih that obtain t where "now + took + 1000 + he_late env (now + took) + 1000 * sleeps' \<le> t" "he_alive env t"
        "probe_passes env probe identity t" by blast
      then show ?thesis by (intro exI[of _ t]) simp
    qed
    with ih show ?thesis unfolding eq by simp
  next
    case False
    then consider "\<not> he_alive env now" | e where "he_alive env now" "ready = Err e" | "he_alive env now" "ready = Ok True"
      by (cases ready) auto
    then show ?thesis
    proof cases
      case 3
      show ?thesis
      proof (cases notify_socket)
        case None
        then show ?thesis using "2.prems" p 3 passes by (auto simp: pr_def[symmetric])
      next
        case (Some socket)
        obtain sent' r' where n: "send_sd_notify (he_notify env) socket ''READY=1'' = (sent', r')" by fastforce
        then have "sent = sent'" "sleeps = 0" "r = r'" using "2.prems" p 3 Some by (auto simp: pr_def[symmetric])
        then show ?thesis using sent_at_most_once[OF n] passes 3 Some by auto
      qed
    qed (use "2.prems" p in \<open>auto simp: pr_def[symmetric]\<close>)
  qed
qed simp

text \<open>
  readiness is reported only for a ready container. A probe waits at most 60 times; it succeeds only when the probe passed
  at a time at which the process was alive, and the notification is sent exactly then, once, when a socket is given.
\<close>

theorem readiness_reported_when_ready:
  assumes "run_readiness_probe env pid probe identity notify_socket now = Returned (sent, sleeps, r)" "probe \<noteq> ProbeSdNotify"
  shows "sleeps \<le> 60 \<and> length sent \<le> 1 \<and> (sent \<noteq> [] \<longrightarrow> r = Ok ())
    \<and> (r = Ok () \<longrightarrow> (\<exists>t \<ge> now + 1000 * sleeps. he_alive env t \<and> probe_passes env probe identity t) \<and> (notify_socket \<noteq> None \<longleftrightarrow> sent \<noteq> []))"
  using assms readiness_attempts_spec[of env probe identity notify_socket now 60 sent sleeps r]
  by (auto simp: run_readiness_probe_def split: if_splits)

definition late_env :: health_env where
  "late_env = failing_env\<lparr>he_probe := (\<lambda>t p i limit. (Ok (1500 \<le> t), 0))\<rparr>"

theorem readiness_reported_when_ready_witness:
  "\<exists>sent r. run_readiness_probe late_env 42 (ProbeTcpPort 80) root_identity None 0 = Returned (sent, 2, r) \<and> r = Ok ()"
proof -
  have "readiness_attempts late_env (ProbeTcpPort 80) root_identity None 0 (Suc (Suc (Suc n))) = ([], 2, Ok ())" for n
    by (simp add: late_env_def failing_env_def)
  from this[of 57] have sixty: "readiness_attempts late_env (ProbeTcpPort 80) root_identity None 0 60 = ([], 2, Ok ())" by simp
  have "run_readiness_probe late_env 42 (ProbeTcpPort 80) root_identity None 0 = Returned ([], 2, Ok ())"
    by (simp add: run_readiness_probe_def sixty pid_fits_def)
  with readiness_reported_when_ready[OF this] show ?thesis by simp
qed

end
