(* ===== verification/Topology_Dns.thy ===== *)
theory Topology_Dns
  imports BTree_Map
begin

text \<open>
  Name resolution inside a topology (\<^verbatim>\<open>src/src/topology/dns.rs\<close>): the entries for a hosts file and their injection. The
  specification is \<open>hosts_lookup\<close>, how a resolver reads a hosts file: the first line that names the host, without comments.
\<close>

section \<open>Model\<close>

definition hosts_entry :: "string \<Rightarrow> string \<times> string \<Rightarrow> string" where
  "hosts_entry topology_name e =
     (case e of (service_name, ip) \<Rightarrow>
        ip @ [CHR 0x09] @ service_name @ [CHR 0x09] @ topology_name @ ''-'' @ service_name @ [CHR 0x0A])"

definition generate_hosts_entries :: "string \<Rightarrow> (string, string) btree_map \<Rightarrow> string" where
  "generate_hosts_entries topology_name service_ips =
     ''# Nucleus topology DNS entries'' @ [CHR 0x0A] @ concat (map (hosts_entry topology_name) service_ips)"

text \<open>The new content of the hosts file, or the error of writing it; \<open>existing\<close> is the old content if it can be read.\<close>

definition inject_hosts :: "bool \<Rightarrow> string option \<Rightarrow> string \<Rightarrow> (string, string) btree_map \<Rightarrow> string result" where
  "inject_hosts write_ok existing topology_name service_ips =
     (let entries = generate_hosts_entries topology_name service_ips;
          existing = (case existing of None \<Rightarrow> [] | Some text \<Rightarrow> text);
          new_content = trim existing @ [CHR 0x0A] @ ''127.0.0.1'' @ [CHR 0x09] @ ''localhost'' @ [CHR 0x0A]
            @ ''::1'' @ [CHR 0x09] @ ''localhost'' @ [CHR 0x0A] @ entries @ [CHR 0x0A]
      in if write_ok then Ok new_content else Err (NetworkError ''Failed to write topology DNS entries to {:?}: {}''))"

section \<open>Reading a hosts file\<close>

definition line_lookup :: "string \<Rightarrow> string \<Rightarrow> string option" where
  "line_lookup name line =
     (case split_whitespace (takeWhile (\<lambda>c. c \<noteq> CHR ''#'') line) of
        [] \<Rightarrow> None
      | ip # names \<Rightarrow> if name \<in> set names then Some ip else None)"

definition hosts_lookup :: "string \<Rightarrow> string \<Rightarrow> string option" where
  "hosts_lookup text name = first_some (line_lookup name) (lines text)"

text \<open>A word of a hosts file.\<close>

definition plain_word :: "string \<Rightarrow> bool" where
  "plain_word w \<longleftrightarrow> w \<noteq> [] \<and> (\<forall>c\<in>set w. \<not> is_whitespace c \<and> c \<noteq> CHR ''#'')"

lemma split_whitespace_sep: "plain_word w \<Longrightarrow> is_whitespace c \<Longrightarrow> split_whitespace (w @ c # s) = w # split_whitespace s"
  by (simp add: plain_word_def split_whitespace_def split_by_append_sep)

lemma split_whitespace_word: "plain_word w \<Longrightarrow> split_whitespace w = [w]"
  by (simp add: plain_word_def split_whitespace_def split_by_no_sep)

lemma tab_space: "is_whitespace CHR 0x09" by (simp add: is_whitespace_def)

lemma entry_lookup:
  assumes "plain_word ip" "plain_word service" "plain_word q"
  shows "line_lookup name (ip @ [CHR 0x09] @ service @ [CHR 0x09] @ q) = (if name = service \<or> name = q then Some ip else None)"
proof -
  let ?line = "ip @ [CHR 0x09] @ service @ [CHR 0x09] @ q"
  have "\<forall>c\<in>set ?line. c \<noteq> CHR ''#''" using assms by (auto simp: plain_word_def)
  then have tw: "takeWhile (\<lambda>c. c \<noteq> CHR ''#'') ?line = ?line" by (simp only: takeWhile_eq_all_conv)
  have sp: "split_whitespace ?line = [ip, service, q]"
    using assms by (simp add: split_whitespace_sep[OF _ tab_space] split_whitespace_word)
  show ?thesis unfolding line_lookup_def tw sp by simp
qed

lemma plain_word_append: "plain_word a \<Longrightarrow> plain_word b \<Longrightarrow> plain_word (a @ ''-'' @ b)"
  by (auto simp: plain_word_def is_whitespace_def)

lemma plain_no_newline: "plain_word w \<Longrightarrow> CHR 0x0A \<notin> set w \<and> CHR 0x0D \<notin> set w"
proof -
  have "is_whitespace CHR 0x0A" "is_whitespace CHR 0x0D" by (simp_all add: is_whitespace_def)
  then show "plain_word w \<Longrightarrow> CHR 0x0A \<notin> set w \<and> CHR 0x0D \<notin> set w" unfolding plain_word_def by blast
qed

text \<open>What resolves a name among the entries: the first service with this name or this qualified name.\<close>

definition names_service :: "string \<Rightarrow> string \<Rightarrow> string \<Rightarrow> bool" where
  "names_service topology_name name service \<longleftrightarrow> name = service \<or> name = topology_name @ ''-'' @ service"

lemma entries_lookup:
  assumes "plain_word topology_name" "\<forall>(service, ip) \<in> set ips. plain_word service \<and> plain_word ip"
  shows "hosts_lookup (concat (map (hosts_entry topology_name) ips) @ [CHR 0x0A]) name
    = first_some (\<lambda>(service, ip). if names_service topology_name name service then Some ip else None) ips"
  using assms(2)
proof (induction ips)
  case Nil
  then show ?case by (simp add: hosts_lookup_def lines_def split_on_def strip_cr_def line_lookup_def split_whitespace_def)
next
  case (Cons e ips)
  obtain service ip where e: "e = (service, ip)" by fastforce
  let ?q = "topology_name @ ''-'' @ service" and ?rest = "concat (map (hosts_entry topology_name) ips) @ [CHR 0x0A]"
  let ?line = "ip @ [CHR 0x09] @ service @ [CHR 0x09] @ ?q"
  have w: "plain_word ip" "plain_word service" "plain_word ?q" using Cons.prems e plain_word_append[OF assms(1)] by auto
  then have "CHR 0x0A \<notin> set ?line" "CHR 0x0D \<notin> set ?line" using plain_no_newline[OF w(1)] plain_no_newline[OF w(2)] plain_no_newline[OF assms(1)] by auto
  from lines_Cons[OF this, of ?rest]
  have "lines (concat (map (hosts_entry topology_name) (e # ips)) @ [CHR 0x0A]) = ?line # lines ?rest"
    by (simp add: e hosts_entry_def)
  then show ?case using Cons entry_lookup[OF w, of name] by (simp add: hosts_lookup_def e names_service_def)
qed

section \<open>Services resolve\<close>

lemma split_by_at_sep: "p c \<Longrightarrow> split_by p (a @ c # b) = split_by p a @ split_by p b"
proof (induction a)
  case (Cons x a)
  then show ?case by (cases "split_by p a") (auto split: list.splits)
qed simp

lemma lines_append: "lines (a @ CHR 0x0A # b) = lines (a @ [CHR 0x0A]) @ lines b"
proof -
  let ?s = "split_on CHR 0x0A"
  have "?s (a @ CHR 0x0A # b) = ?s a @ ?s b" "?s (a @ [CHR 0x0A]) = ?s a @ [[]]"
    using split_by_at_sep[of "\<lambda>c. c = CHR 0x0A" "CHR 0x0A" a] by (simp_all add: split_on_def)
  moreover have "?s b \<noteq> []" by (simp add: split_on_def)
  ultimately show ?thesis by (simp add: lines_def Let_def butlast_append last_append)
qed

lemma first_some_append: "first_some f (xs @ ys) = (case first_some f xs of None \<Rightarrow> first_some f ys | Some y \<Rightarrow> Some y)"
  by (induction xs) (auto split: option.splits)

lemma lookup_append:
  "hosts_lookup (a @ CHR 0x0A # b) name = (case hosts_lookup (a @ [CHR 0x0A]) name of None \<Rightarrow> hosts_lookup b name | Some ip \<Rightarrow> Some ip)"
  unfolding hosts_lookup_def lines_append[of a b] first_some_append by (rule refl)

lemma lookup_line:
  assumes "CHR 0x0A \<notin> set l" "CHR 0x0D \<notin> set l"
  shows "hosts_lookup (l @ [CHR 0x0A]) name = line_lookup name l"
proof -
  have "lines [] = []" by (simp add: lines_def split_on_def)
  then have "lines (l @ [CHR 0x0A]) = [l]" using lines_Cons[OF assms, of "[]"] by (simp only:)
  then show ?thesis unfolding hosts_lookup_def by (cases "line_lookup name l") simp_all
qed

lemma lookup_after: "hosts_lookup (a @ [CHR 0x0A]) name = None \<Longrightarrow> hosts_lookup (a @ CHR 0x0A # b) name = hosts_lookup b name"
  by (subst lookup_append) simp

lemma address_line_lookup: "plain_word ip \<Longrightarrow> plain_word n \<Longrightarrow> name \<noteq> n \<Longrightarrow> line_lookup name (ip @ [CHR 0x09] @ n) = None"
proof -
  assume w: "plain_word ip" "plain_word n" and n: "name \<noteq> n"
  have "\<forall>c\<in>set (ip @ [CHR 0x09] @ n). c \<noteq> CHR ''#''" using w by (auto simp: plain_word_def)
  then have tw: "takeWhile (\<lambda>c. c \<noteq> CHR ''#'') (ip @ [CHR 0x09] @ n) = ip @ [CHR 0x09] @ n" by (simp only: takeWhile_eq_all_conv)
  show ?thesis unfolding line_lookup_def tw using w n by (simp add: split_whitespace_sep[OF _ tab_space] split_whitespace_word)
qed

lemma injected_lookup:
  assumes "inject_hosts True existing topology_name ips = Ok content" "plain_word topology_name"
    and "\<forall>(service, ip) \<in> set ips. plain_word service \<and> plain_word ip" "name \<noteq> ''localhost''"
  shows "hosts_lookup content name =
    (case hosts_lookup (trim (case existing of None \<Rightarrow> [] | Some text \<Rightarrow> text) @ [CHR 0x0A]) name of
       Some ip \<Rightarrow> Some ip
     | None \<Rightarrow> first_some (\<lambda>(service, ip). if names_service topology_name name service then Some ip else None) ips)"
proof -
  let ?old = "trim (case existing of None \<Rightarrow> [] | Some text \<Rightarrow> text)"
  let ?v4 = "''127.0.0.1'' @ [CHR 0x09] @ ''localhost''" and ?v6 = "''::1'' @ [CHR 0x09] @ ''localhost''" and ?c = "''# Nucleus topology DNS entries''"
  let ?entries = "concat (map (hosts_entry topology_name) ips) @ [CHR 0x0A]"
  have content: "content = ?old @ CHR 0x0A # ?v4 @ CHR 0x0A # ?v6 @ CHR 0x0A # ?c @ CHR 0x0A # ?entries"
    using assms(1) by (simp add: inject_hosts_def generate_hosts_entries_def)
  have words: "plain_word ''127.0.0.1''" "plain_word ''::1''" "plain_word ''localhost''" by (simp_all add: plain_word_def is_whitespace_def)
  have v4: "hosts_lookup (?v4 @ [CHR 0x0A]) name = None"
    using lookup_line[of ?v4 name] address_line_lookup[OF words(1,3) assms(4)] by simp
  have v6: "hosts_lookup (?v6 @ [CHR 0x0A]) name = None"
    using lookup_line[of ?v6 name] address_line_lookup[OF words(2,3) assms(4)] by simp
  have "line_lookup name ?c = None" by (simp add: line_lookup_def split_whitespace_def)
  then have c: "hosts_lookup (?c @ [CHR 0x0A]) name = None" using lookup_line[of ?c name] by simp
  have "hosts_lookup (?v4 @ CHR 0x0A # ?v6 @ CHR 0x0A # ?c @ CHR 0x0A # ?entries) name = hosts_lookup ?entries name"
    by (rule trans[OF lookup_after[OF v4] trans[OF lookup_after[OF v6] lookup_after[OF c]]])
  from trans[OF this entries_lookup[OF assms(2,3)]]
  show ?thesis unfolding content by (subst lookup_append) (simp only:)
qed

lemma plain_word_examples:
  "plain_word ''shop''" "plain_word ''api''" "plain_word ''db''" "plain_word ''10.0.0.2''" "plain_word ''10.0.0.3''" "plain_word ''10.0.0.9''"
  by (simp_all add: plain_word_def is_whitespace_def)

lemma shop_services_plain: "\<forall>(service, ip) \<in> set [(''api'', ''10.0.0.2''), (''db'', ''10.0.0.3'')]. plain_word service \<and> plain_word ip"
  by (simp add: plain_word_examples)

lemma empty_hosts_lookup: "hosts_lookup (trim [] @ [CHR 0x0A]) name = None"
  using lookup_line[of "[]" name] by (simp add: trim_def line_lookup_def split_whitespace_def)

text \<open>
  the services of a topology resolve. After an injection into a hosts file that does not know the name, every service resolves to
  its address, by its short name when this is no other service's qualified name, and by its qualified name when this
  is no service's short name.
\<close>

theorem services_resolve:
  assumes "inject_hosts True existing topology_name ips = Ok content" "plain_word topology_name" "bt_inv ips"
    and "\<forall>(service, ip) \<in> set ips. plain_word service \<and> plain_word ip" "(service, ip) \<in> set ips"
    and "name = service \<or> name = topology_name @ ''-'' @ service" "name \<noteq> ''localhost''"
    and "hosts_lookup (trim (case existing of None \<Rightarrow> [] | Some text \<Rightarrow> text) @ [CHR 0x0A]) name = None"
    and "\<forall>other \<in> fst ` set ips. other \<noteq> service \<longrightarrow> \<not> names_service topology_name name other"
  shows "hosts_lookup content name = Some ip"
proof -
  have d: "distinct (map fst ips)" using assms(3) by (simp add: bt_inv_def strict_sorted_iff)
  have "first_some (\<lambda>(service, ip). if names_service topology_name name service then Some ip else None) ips = Some ip"
    using assms(5,9) d
  proof (induction ips)
    case (Cons e ips)
    then show ?case using assms(6) by (cases e) (auto simp: names_service_def rev_image_eqI)
  qed simp
  then show ?thesis using injected_lookup[OF assms(1,2,4,7)] assms(8) by simp
qed

theorem services_resolve_witness:
  "\<exists>content. inject_hosts True None ''shop'' [(''api'', ''10.0.0.2''), (''db'', ''10.0.0.3'')] = Ok content
     \<and> hosts_lookup content ''db'' = Some ''10.0.0.3'' \<and> hosts_lookup content ''shop-api'' = Some ''10.0.0.2''"
proof -
  let ?ips = "[(''api'', ''10.0.0.2''), (''db'', ''10.0.0.3'')]"
  obtain content where ok: "inject_hosts True None ''shop'' ?ips = Ok content" by (simp add: inject_hosts_def Let_def)
  have inv: "bt_inv ?ips" by (simp add: bt_inv_def)
  have "hosts_lookup content ''db'' = Some ''10.0.0.3''"
    using empty_hosts_lookup
    by (intro services_resolve[OF ok plain_word_examples(1) inv shop_services_plain, of "''db''"]) (simp_all add: names_service_def)
  moreover have "hosts_lookup content ''shop-api'' = Some ''10.0.0.2''"
    using empty_hosts_lookup
    by (intro services_resolve[OF ok plain_word_examples(1) inv shop_services_plain, of "''api''"]) (simp_all add: names_service_def)
  ultimately show ?thesis using ok by blast
qed

text \<open>
  a second injection does not move a service. The entries are appended, and a resolver takes the first one, so a name that the
  file already has keeps its old address whatever the topology says now.
\<close>

theorem reinjection_keeps_old_address:
  assumes "inject_hosts True (Some existing) topology_name ips = Ok content" "plain_word topology_name"
    and "\<forall>(service, ip) \<in> set ips. plain_word service \<and> plain_word ip" "name \<noteq> ''localhost''"
    and "hosts_lookup (trim existing @ [CHR 0x0A]) name = Some old_ip"
  shows "hosts_lookup content name = Some old_ip"
  using injected_lookup[OF assms(1-4)] assms(5) by simp

theorem reinjection_keeps_old_address_witness:
  "\<exists>content. inject_hosts True (Some (''10.0.0.9'' @ [CHR 0x09] @ ''api'' @ [CHR 0x09] @ ''shop-api'')) ''shop'' [(''api'', ''10.0.0.2''), (''db'', ''10.0.0.3'')] = Ok content
     \<and> hosts_lookup content ''api'' = Some ''10.0.0.9''"
proof -
  let ?ips = "[(''api'', ''10.0.0.2''), (''db'', ''10.0.0.3'')]" and ?old = "''10.0.0.9'' @ [CHR 0x09] @ ''api'' @ [CHR 0x09] @ ''shop-api''"
  obtain content where ok: "inject_hosts True (Some ?old) ''shop'' ?ips = Ok content" by (simp add: inject_hosts_def Let_def)
  have t: "trim ?old = ?old" by (simp add: trim_def is_whitespace_def)
  have q: "plain_word ''shop-api''" by (simp add: plain_word_def is_whitespace_def)
  have "hosts_lookup (trim ?old @ [CHR 0x0A]) ''api'' = Some ''10.0.0.9''"
    unfolding t using lookup_line[of ?old "''api''"] entry_lookup[OF plain_word_examples(6,2) q, of "''api''"] by simp
  from reinjection_keeps_old_address[OF ok plain_word_examples(1) shop_services_plain _ this] ok show ?thesis by auto
qed

end
