(* ===== verification/Spec2Isabelle.thy ===== *)
theory Spec2Isabelle
  imports Lifecycle Resource_Limits Egress Reconcile Container_Lifecycle Cgroup_Device Seccomp_Manager Bridge_Network
    Config_Validation Capabilities Landlock Attestation Checkpoint Workload Health Topology_Dns
begin

text \<open>
  Nucleus is a container runtime in Rust. It isolates a process with namespaces, cgroups, a pivoted
  root, seccomp, landlock and capabilities, and it runs declared groups of services (topologies).
  This library models the parts of it that decide something: which configuration is accepted, which
  programs and commands are generated for the kernel, in which order services start and stop, what is
  kept on disk. Paths below are relative to the repository; the code is under \<^verbatim>\<open>src/src\<close>.

  \<^bold>\<open>Layout.\<close>

  \<^item> \<^verbatim>\<open>Nucleus_Prelude\<close>: the error type (\<^verbatim>\<open>error.rs\<close>), results as sums with \<open>and_then\<close>
    for the question mark operator, the functions of Rust's strings and integers that the code calls
    (splitting, trimming, decimal text, checked and saturating arithmetic) with their round trips.
  \<^item> \<^verbatim>\<open>BTree_Map\<close>: the ordered map of the standard library as a sorted association list, with the
    locale \<open>ordered_map\<close> for its laws and the interpretation on it.
  \<^item> \<^verbatim>\<open>Paths\<close>: paths as lists of components, as \<^verbatim>\<open>std::path\<close> has them.
  \<^item> \<^verbatim>\<open>Lifecycle\<close>: the trait \<^verbatim>\<open>StateTransition\<close> and the six state machines (\<^verbatim>\<open>security/state.rs\<close>,
    \<^verbatim>\<open>filesystem/state.rs\<close>, \<^verbatim>\<open>resources/state.rs\<close>, \<^verbatim>\<open>isolation/state.rs\<close>,
    \<^verbatim>\<open>network/state.rs\<close>, \<^verbatim>\<open>checkpoint/state.rs\<close>). The locales \<open>lifecycle\<close>, \<open>staged_lifecycle\<close> and
    \<open>forward_lifecycle\<close> carry the arguments on sequences of transitions; every machine interprets one.
    Shown: every security stage is passed and lockdown is final, the root is pivoted only after
    population, no lifecycle returns to a state it left.
  \<^item> \<^verbatim>\<open>Resource_Limits\<close>: \<^verbatim>\<open>resources/limits.rs\<close>, every builder on 64 bit words. Shown: memory
    sizes parse exactly or fail, the soft limit lies between ninety per cent of the hard limit and it,
    whatever the builders make passes the runtime check, I/O limits round trip.
  \<^item> \<^verbatim>\<open>Net_Config\<close>: \<^verbatim>\<open>network/config.rs\<close>, addresses, CIDR blocks, bridge validation, egress
    policies, the credential broker and port forwards. Shown: the mask arithmetic is prefix equality,
    the gateway lies in its subnet, validated names and addresses are well formed, port forwards round
    trip.
  \<^item> \<^verbatim>\<open>Egress\<close>: \<^verbatim>\<open>network/egress.rs\<close>, the iptables commands for a policy. The specification is a
    model of the OUTPUT chain and \<open>egress_allows\<close>, what a policy permits. Shown: the chain left by a
    successful run accepts exactly what the policy allows, a run that fails leaves at most that open,
    and a broker-only policy opens one way out.
  \<^item> \<^verbatim>\<open>Topology_Types\<close>, \<^verbatim>\<open>Topology_Config\<close>: \<^verbatim>\<open>topology/config.rs\<close>, the configuration and its
    validation. Shown: a validated topology has no undefined dependency, network or volume, and a
    broker lies in the network of its service.
  \<^item> \<^verbatim>\<open>Dependency_Graph\<close>: \<^verbatim>\<open>topology/dag.rs\<close>. Shown: resolution ends, never subtracts below zero
    and succeeds exactly when the dependencies are defined and acyclic; the order is topological; the
    maps are the declared edges and their inverse.
  \<^item> \<^verbatim>\<open>Mount_Policy\<close>: the decisions of \<^verbatim>\<open>filesystem/mount.rs\<close>: destinations, sources, deny lists,
    provider configuration, the mount audit.
  \<^item> \<^verbatim>\<open>Container_State\<close>: \<^verbatim>\<open>container/state.rs\<close>, the state record, liveness and the state directory.
    Shown: a save is atomic, liveness survives reuse of process ids and any command name, references
    resolve without ambiguity, cleaning up removes exactly the dead containers.
  \<^item> \<^verbatim>\<open>Container_Lifecycle\<close>: \<^verbatim>\<open>container/lifecycle.rs\<close>, stop, kill and remove with the signals they
    send and the clock they read. Shown: only the container's own process is signalled, SIGKILL comes
    only after the whole timeout, removal is guarded.
  \<^item> \<^verbatim>\<open>Service_Command\<close>, \<^verbatim>\<open>Service_Wait\<close>, \<^verbatim>\<open>Reconcile\<close>: \<^verbatim>\<open>topology/reconcile.rs\<close>, the preparation of
    volumes, the command line of a service, the waits, the plan and its execution as a sequence of
    events. Shown: stops come first and starts in dependency order, every wait ends, a volume is created
    only where the policy allows and without following a link.
  \<^item> \<^verbatim>\<open>Host_Actions\<close>: actions on the state of the host that may fail, with the rules of a small Hoare
    logic; used by the components below.
  \<^item> \<^verbatim>\<open>Ip_Forward\<close>, \<^verbatim>\<open>Ip_Alloc\<close>, \<^verbatim>\<open>Bridge_Network\<close>: \<^verbatim>\<open>network/bridge.rs\<close>, the reference count of ip
    forwarding, address allocation, set-up with its roll back, and clean-up. The specification reads the
    log of netlink and iptables requests as an effect on links and rules. Shown: a failed set-up leaves
    the host as it was (one half of a port forward apart), clean-up undoes a set-up, addresses are unique,
    the last release restores forwarding.
  \<^item> \<^verbatim>\<open>User_Map\<close>, \<^verbatim>\<open>Namespaces\<close>: \<^verbatim>\<open>isolation/usermap.rs\<close> and \<^verbatim>\<open>isolation/namespaces.rs\<close>. Shown: accepted
    mappings never give host root to an unprivileged user, they read back, they are written in the order
    the kernel needs, the clone flags are those of the configuration.
  \<^item> \<^verbatim>\<open>Bpf\<close>, \<^verbatim>\<open>Cgroup_Device\<close>, \<^verbatim>\<open>Seccomp_Bpf\<close>: classic BPF as the interpreter \<^verbatim>\<open>bpf_eval\<close> of
    \<^verbatim>\<open>security/seccomp_bpf.rs\<close> runs it, and the two generators of programs (\<^verbatim>\<open>resources/cgroup_device.rs\<close>,
    \<^verbatim>\<open>security/seccomp_bpf.rs\<close>). Shown: what a generated program returns is what the allowlist or the
    policy says.
  \<^item> \<^verbatim>\<open>Syscall_Table\<close>, \<^verbatim>\<open>Seccomp_Profile\<close>, \<^verbatim>\<open>Seccomp_Manager\<close>: \<^verbatim>\<open>security/seccomp.rs\<close> and
    \<^verbatim>\<open>security/seccomp_generate.rs\<close> with the numbers of x86-64: the tables, the default filter, custom
    profiles, profiles from a trace. The specification is \<open>filter_verdict\<close> and \<open>profile_verdict\<close>. Shown:
    the installed program gives every call the verdict of the policy; no option allows the dangerous calls.
  \<^item> \<^verbatim>\<open>Workspace_Policy\<close>, \<^verbatim>\<open>Container_Config\<close>, \<^verbatim>\<open>Config_Validation\<close>: \<^verbatim>\<open>container/config.rs\<close> and the policy
    part of \<^verbatim>\<open>filesystem/workspace.rs\<close>: the configuration, its builders and its checks. Shown: what
    production guarantees, that a broker is the only way out, that volumes are confined, that the process
    is never root on the host, that the environment cannot forge a broker identity.
  \<^item> \<^verbatim>\<open>Capabilities\<close>, \<^verbatim>\<open>Landlock\<close>: \<^verbatim>\<open>security/capabilities.rs\<close>, \<^verbatim>\<open>security/caps_policy.rs\<close>, \<^verbatim>\<open>security/policy.rs\<close>,
    \<^verbatim>\<open>security/landlock.rs\<close> and \<^verbatim>\<open>security/landlock_policy.rs\<close>. The packages \<^verbatim>\<open>caps\<close> and \<^verbatim>\<open>landlock\<close> are records of
    answers. Shown: the two phases of the drop leave every set empty, a production policy drops the dangerous
    capabilities, in strict mode writes stay below the writable roots.
  \<^item> \<^verbatim>\<open>Workspace_Copy\<close>, \<^verbatim>\<open>Context_Copy\<close>, \<^verbatim>\<open>Attestation\<close>: \<^verbatim>\<open>filesystem/workspace.rs\<close>, \<^verbatim>\<open>filesystem/context.rs\<close>,
    \<^verbatim>\<open>filesystem/lazy.rs\<close>, \<^verbatim>\<open>filesystem/tmpfs.rs\<close> and \<^verbatim>\<open>filesystem/attestation.rs\<close> on file trees. Shown: mirroring a
    stage leaves exactly its tree, a copied context holds nothing excluded and passes verification, an attested
    root file system has exactly the files of its manifest, and its scan ends.
  \<^item> \<^verbatim>\<open>Cgroup\<close>, \<^verbatim>\<open>Checkpoint_Metadata\<close>, \<^verbatim>\<open>Checkpoint\<close>: \<^verbatim>\<open>resources/cgroup.rs\<close>, \<^verbatim>\<open>resources/stats.rs\<close>,
    \<^verbatim>\<open>checkpoint/metadata.rs\<close> and \<^verbatim>\<open>checkpoint/criu.rs\<close>. Shown: limits are written exactly and survive a
    checkpoint, clean-up removes a cgroup or thaws it, a restore runs only on the files of the checkpoint, and which
    failures leave the state machine stuck.
  \<^item> \<^verbatim>\<open>Attach\<close>, \<^verbatim>\<open>Workload\<close>, \<^verbatim>\<open>Health\<close>: \<^verbatim>\<open>isolation/attach.rs\<close>, \<^verbatim>\<open>container/exec.rs\<close>, \<^verbatim>\<open>container/guards.rs\<close>
    and \<^verbatim>\<open>container/health.rs\<close>, what runs in a container. A forked process is an action on its own state, its
    parent reads a list of answers of \<^verbatim>\<open>waitpid\<close>. Shown: an attached program is confined, the environment of the
    workload is filtered, a signal of a health check is justified and comes when it should; and that a health check
    kills a healthy container without a user namespace.
  \<^item> \<^verbatim>\<open>Topology_Dns\<close>: \<^verbatim>\<open>topology/dns.rs\<close>, the hosts file of a topology, read back by the resolver \<open>hosts_lookup\<close>.
    Shown: services resolve to their addresses, and a second injection does not change them.

  \<^bold>\<open>Conventions.\<close> A struct is a record, an enum a datatype, \<^verbatim>\<open>Result\<close> is a sum with the error on
  the left, integers keep their width as words. An error carries the format string of the source;
  the values formatted into it are left out where no property depends on them. What the program asks
  of the outside (files, the clock, name resolution, a spawned process, the packages \<^verbatim>\<open>seccompiler\<close>
  and \<^verbatim>\<open>serde\<close>) is an argument of the definition that asks. A panic is the value \<open>None\<close>.

  \<^bold>\<open>Loops.\<close> The loops over collections are structural. The work list of the topological sort ends
  by the sum of the in-degrees and the length of the queue. The interpreter of BPF has the limit of
  10000 steps of the source; an accepted seccomp program has fewer than 4096 instructions and jumps
  only forward, so the limit is never met. The polling loops read a clock that an argument gives; they
  are total functions, since every pass waits at least its interval and the timeout is finite.
  Where the kernel alone decides when a wait ends, its answers are a list, and \<open>None\<close> is a wait that
  is not over. The scan of a root file system follows links; its fuel exceeds the longest path that the
  kernel accepts, and it is proved never to run out. The loop of health checks runs as long as its
  container; it has fuel for its rounds, and as many as its retries are proved enough for a container that
  stays unhealthy.

  \<^bold>\<open>Not modelled.\<close> The command line (\<^verbatim>\<open>main.rs\<close>) and its parser, which is a package. The runtime
  (\<^verbatim>\<open>container/runtime.rs\<close>), whose lines are system calls, pipes, threads and calls of the parts above. The
  OCI bundle of gVisor and images (\<^verbatim>\<open>security/gvisor.rs\<close>, \<^verbatim>\<open>oci\<close>, \<^verbatim>\<open>image\<close>), which are serialisation and
  archives. The encoding of netlink requests and \<^verbatim>\<open>slirp4netns\<close>, the mount system calls, the discovery of GPU
  devices, the reader of the seccomp log, the relay of the console and the masks of signals, which are I/O on
  descriptors; the audit log and telemetry, which are output.
\<close>

end
